(* ===== verification/Harness_Prelude.thy ===== *)
theory Harness_Prelude
  imports Complex_Main "HOL-Library.List_Lexorder" "HOL-Library.Char_ord"
    "HOL-Library.Product_Lexorder"
begin

text \<open>
  Shared ground of the development: the fact collections, JavaScript strings and JSON values, the
  SQL table operations the repositories use, the state-and-exception monad in which every
  repository operation is written, and the two generic interfaces (step machines with an
  invariant, rank-based merge operators) that several components instantiate.

  Strings are byte strings ordered lexicographically. This is SQLite's BINARY collation and, on
  the ASCII text the harness compares with \<open><\<close> and \<open>>\<close> (ISO timestamps, ids), JavaScript's order.
\<close>

section \<open>Fact collections\<close>

named_theorems act_simps \<open>unfolding rules of the state-and-exception monad\<close>
named_theorems act_inv_rules \<open>composition rules for invariants of monadic operations\<close>
named_theorems act_clean_rules \<open>composition rules for operations that leave no trace when they fail\<close>
named_theorems fail_closed \<open>facts that say a gate does not open on missing input\<close>

section \<open>Strings\<close>

type_synonym timestamp = string

definition is_ws :: "char \<Rightarrow> bool" where
  "is_ws c \<longleftrightarrow> c \<in> {CHR '' '', CHR 0x09, CHR 0x0A, CHR 0x0B, CHR 0x0C, CHR 0x0D}"

definition trim_end :: "string \<Rightarrow> string" where
  "trim_end s = rev (dropWhile is_ws (rev s))"

definition js_trim :: "string \<Rightarrow> string" where
  "js_trim s = dropWhile is_ws (rev (dropWhile is_ws (rev s)))"

fun digits_acc :: "nat \<Rightarrow> string \<Rightarrow> string" where
  "digits_acc n acc =
     (let c = char_of (48 + n mod 10) in
      if n < 10 then c # acc else digits_acc (n div 10) (c # acc))"

declare digits_acc.simps [simp del]

definition js_nat :: "nat \<Rightarrow> string" where
  "js_nat n = digits_acc n []"

definition js_int :: "int \<Rightarrow> string" where
  "js_int i = (if i < 0 then ''-'' @ js_nat (nat (- i)) else js_nat (nat i))"

fun js_join :: "string \<Rightarrow> string list \<Rightarrow> string" where
  "js_join sep [] = []"
| "js_join sep [x] = x"
| "js_join sep (x # y # ys) = x @ sep @ js_join sep (y # ys)"

definition js_starts_with :: "string \<Rightarrow> string \<Rightarrow> bool" where
  "js_starts_with s p \<longleftrightarrow> take (length p) s = p"

lemma js_starts_with_append [simp]: "js_starts_with (p @ s) p"
  by (simp add: js_starts_with_def)

text \<open>JavaScript's \<open>a ?? b\<close> on a nullable value.\<close>

definition or_else :: "'a option \<Rightarrow> 'a \<Rightarrow> 'a" where
  "or_else x d = (case x of None \<Rightarrow> d | Some v \<Rightarrow> v)"

lemma or_else_simps [simp]: "or_else None d = d" "or_else (Some v) d = v"
  by (simp_all add: or_else_def)

text \<open>SQL's \<open>COALESCE(a, b)\<close> and JavaScript's \<open>a ?? b\<close> with a nullable second argument.\<close>

definition coalesce :: "'a option \<Rightarrow> 'a option \<Rightarrow> 'a option" where
  "coalesce x y = (case x of None \<Rightarrow> y | Some v \<Rightarrow> Some v)"

lemma coalesce_simps [simp]: "coalesce None y = y" "coalesce (Some v) y = Some v"
  by (simp_all add: coalesce_def)

section \<open>JSON values\<close>

text \<open>
  A parsed JSON value. Numbers are rationals (every finite double is one); an object is the list
  of its own properties in insertion order, with distinct keys.
\<close>

datatype json = JNull | JBool bool | JNum rat | JStr string | JArr "json list"
  | JObj "(string \<times> json) list"

type_synonym json_object = "(string \<times> json) list"

section \<open>Tables\<close>

text \<open>
  A table is the list of its rows in rowid order. \<open>tbl_get\<close> is a SELECT by primary key,
  \<open>tbl_update\<close> an UPDATE by primary key, \<open>tbl_has\<close> says that the key is present.
\<close>

definition tbl_get :: "('r \<Rightarrow> string) \<Rightarrow> string \<Rightarrow> 'r list \<Rightarrow> 'r option" where
  "tbl_get key k rows = find (\<lambda>r. key r = k) rows"

definition tbl_has :: "('r \<Rightarrow> string) \<Rightarrow> string \<Rightarrow> 'r list \<Rightarrow> bool" where
  "tbl_has key k rows \<longleftrightarrow> k \<in> set (map key rows)"

definition tbl_update :: "('r \<Rightarrow> string) \<Rightarrow> string \<Rightarrow> ('r \<Rightarrow> 'r) \<Rightarrow> 'r list \<Rightarrow> 'r list" where
  "tbl_update key k f rows = map (\<lambda>r. if key r = k then f r else r) rows"

lemma find_SomeD: "find P xs = Some x \<Longrightarrow> x \<in> set xs \<and> P x"
  by (induction xs) (auto split: if_splits)

lemma set_map_filter: "set (List.map_filter f xs) = {y. \<exists>x \<in> set xs. f x = Some y}"
  by (induction xs) (auto simp: List.map_filter_simps split: option.splits)

lemma tbl_get_Nil [simp]: "tbl_get key k [] = None"
  by (simp add: tbl_get_def)

lemma tbl_get_Cons [simp]:
  "tbl_get key k (r # rs) = (if key r = k then Some r else tbl_get key k rs)"
  by (simp add: tbl_get_def)

lemma tbl_get_append:
  "tbl_get key k (xs @ ys) = (case tbl_get key k xs of None \<Rightarrow> tbl_get key k ys | Some r \<Rightarrow> Some r)"
  by (induction xs) auto

lemma tbl_get_SomeD: "tbl_get key k rows = Some r \<Longrightarrow> r \<in> set rows \<and> key r = k"
  by (induction rows) (auto split: if_splits)

lemma tbl_get_None_iff: "tbl_get key k rows = None \<longleftrightarrow> \<not> tbl_has key k rows"
  by (induction rows) (auto simp: tbl_has_def)

lemma tbl_has_get: "tbl_has key k rows \<longleftrightarrow> (\<exists>r. tbl_get key k rows = Some r)"
  using tbl_get_None_iff [of key k rows] by (cases "tbl_get key k rows") auto

lemma tbl_get_insert_new:
  "\<not> tbl_has key (key r) rows \<Longrightarrow>
   tbl_get key k (rows @ [r]) = (if k = key r then Some r else tbl_get key k rows)"
  by (auto simp: tbl_get_append tbl_get_None_iff [symmetric] split: option.splits)

lemma tbl_get_in_distinct:
  "distinct (map key rows) \<Longrightarrow> r \<in> set rows \<Longrightarrow> tbl_get key (key r) rows = Some r"
  by (induction rows) (auto simp: image_iff)

lemma length_tbl_update [simp]: "length (tbl_update key k f rows) = length rows"
  by (simp add: tbl_update_def)

lemma tbl_update_Nil [simp]: "tbl_update key k f [] = []"
  by (simp add: tbl_update_def)

lemma tbl_update_Cons [simp]:
  "tbl_update key k f (r # rs) = (if key r = k then f r else r) # tbl_update key k f rs"
  by (simp add: tbl_update_def)

lemma tbl_update_absent: "\<not> tbl_has key k rows \<Longrightarrow> tbl_update key k f rows = rows"
  by (induction rows) (auto simp: tbl_has_def)

lemma map_tbl_update_same:
  "(\<And>r. g (f r) = g r) \<Longrightarrow> map g (tbl_update key k f rows) = map g rows"
  by (induction rows) auto

lemma tbl_get_update:
  "(\<And>r. key (f r) = key r) \<Longrightarrow>
   tbl_get key j (tbl_update key k f rows) =
     (if j = k then map_option f (tbl_get key k rows) else tbl_get key j rows)"
  by (induction rows) auto

lemma tbl_has_update [simp]:
  "(\<And>r. key (f r) = key r) \<Longrightarrow> tbl_has key j (tbl_update key k f rows) = tbl_has key j rows"
  by (simp add: tbl_has_def map_tbl_update_same flip: set_map)

lemma tbl_has_append [simp]: "tbl_has key k (rows @ [r]) = (tbl_has key k rows \<or> key r = k)"
  by (auto simp: tbl_has_def)

lemma set_tbl_update_subset:
  "r \<in> set (tbl_update key k f rows) \<Longrightarrow> r \<in> set rows \<or> (\<exists>r0 \<in> set rows. key r0 = k \<and> r = f r0)"
  by (induction rows) (auto split: if_splits)

text \<open>\<open>COALESCE(MAX(x), 0)\<close> over a column.\<close>

definition max0 :: "int list \<Rightarrow> int" where
  "max0 xs = (if xs = [] then 0 else Max (set xs))"

lemma max0_ge: "x \<in> set xs \<Longrightarrow> x \<le> max0 xs"
  by (auto simp: max0_def)

lemma max0_in: "xs \<noteq> [] \<Longrightarrow> max0 xs \<in> set xs"
  by (simp add: max0_def)

text \<open>\<open>MAX(ts)\<close> over a nullable text column.\<close>

definition max_opt :: "timestamp list \<Rightarrow> timestamp option" where
  "max_opt xs = (if xs = [] then None else Some (Max (set xs)))"

section \<open>The state-and-exception monad\<close>

text \<open>
  An operation takes the state and returns an error or a value together with the state it leaves
  behind, also when it fails. A transaction restores the state it started from on an error.
\<close>

type_synonym ('s, 'e, 'a) act = "'s \<Rightarrow> ('e + 'a) \<times> 's"

definition act_return :: "'a \<Rightarrow> ('s, 'e, 'a) act" where
  "act_return x s = (Inr x, s)"

definition act_throw :: "'e \<Rightarrow> ('s, 'e, 'a) act" where
  "act_throw e s = (Inl e, s)"

definition act_bind :: "('s, 'e, 'a) act \<Rightarrow> ('a \<Rightarrow> ('s, 'e, 'b) act) \<Rightarrow> ('s, 'e, 'b) act" where
  "act_bind m f s = (case m s of (Inl e, s') \<Rightarrow> (Inl e, s') | (Inr x, s') \<Rightarrow> f x s')"

definition act_get :: "('s \<Rightarrow> 'a) \<Rightarrow> ('s, 'e, 'a) act" where
  "act_get f s = (Inr (f s), s)"

definition act_modify :: "('s \<Rightarrow> 's) \<Rightarrow> ('s, 'e, unit) act" where
  "act_modify f s = (Inr (), f s)"

definition act_guard :: "('s \<Rightarrow> bool) \<Rightarrow> 'e \<Rightarrow> ('s, 'e, unit) act" where
  "act_guard P e s = (if P s then (Inr (), s) else (Inl e, s))"

definition act_require :: "('s \<Rightarrow> 'a option) \<Rightarrow> 'e \<Rightarrow> ('s, 'e, 'a) act" where
  "act_require f e s = (case f s of None \<Rightarrow> (Inl e, s) | Some x \<Rightarrow> (Inr x, s))"

definition act_atomically :: "('s, 'e, 'a) act \<Rightarrow> ('s, 'e, 'a) act" where
  "act_atomically m s = (case m s of (Inl e, _) \<Rightarrow> (Inl e, s) | (Inr x, s') \<Rightarrow> (Inr x, s'))"

fun act_map :: "('x \<Rightarrow> ('s, 'e, 'a) act) \<Rightarrow> 'x list \<Rightarrow> ('s, 'e, 'a list) act" where
  "act_map f [] = act_return []"
| "act_map f (x # xs) = act_bind (f x) (\<lambda>y. act_bind (act_map f xs) (\<lambda>ys. act_return (y # ys)))"

lemma act_unfold [act_simps]:
  "act_return x s = (Inr x, s)"
  "act_throw e s = (Inl e, s)"
  "act_get f s = (Inr (f s), s)"
  "act_modify g s = (Inr (), g s)"
  by (simp_all add: act_return_def act_throw_def act_get_def act_modify_def)

lemma act_bind_simps [act_simps]:
  "act_bind (act_return x) f = f x"
  "act_bind (act_throw e) f = act_throw e"
  "act_bind (act_get g) h s = h (g s) s"
  "act_bind (act_modify u) k s = k () (u s)"
  by (simp_all add: act_bind_def act_return_def act_throw_def act_get_def act_modify_def fun_eq_iff)

lemma act_bind_assoc [act_simps]: "act_bind (act_bind m f) g = act_bind m (\<lambda>x. act_bind (f x) g)"
  by (auto simp: act_bind_def fun_eq_iff split: prod.splits sum.splits)

lemma act_bind_if [act_simps]:
  "act_bind (if b then m else n) f = (if b then act_bind m f else act_bind n f)"
  by simp

lemma act_bind_guard [act_simps]:
  "act_bind (act_guard P e) f s = (if P s then f () s else (Inl e, s))"
  by (simp add: act_bind_def act_guard_def)

lemma act_bind_require [act_simps]:
  "act_bind (act_require g e) f s = (case g s of None \<Rightarrow> (Inl e, s) | Some x \<Rightarrow> f x s)"
  by (simp add: act_bind_def act_require_def split: option.splits)

lemma act_bind_Pair [act_simps]:
  "act_bind (Pair (Inr x)) f = f x"
  "act_bind (Pair (Inl e)) f = Pair (Inl e)"
  by (simp_all add: act_bind_def fun_eq_iff)

lemma act_last [act_simps]:
  "act_require g e s = (case g s of None \<Rightarrow> (Inl e, s) | Some x \<Rightarrow> (Inr x, s))"
  "act_guard P e s = (if P s then (Inr (), s) else (Inl e, s))"
  "act_atomically m s = (case m s of (Inl e, _) \<Rightarrow> (Inl e, s) | (Inr x, s') \<Rightarrow> (Inr x, s'))"
  by (simp_all add: act_require_def act_guard_def act_atomically_def)

lemma act_bind_Inr:
  "act_bind m f s = (Inr y, s') \<longleftrightarrow> (\<exists>x s1. m s = (Inr x, s1) \<and> f x s1 = (Inr y, s'))"
  by (auto simp: act_bind_def split: prod.splits sum.splits)

text \<open>A transaction that fails leaves the state as it was.\<close>

lemma act_atomically_fails: "act_atomically m s = (Inl e, s') \<Longrightarrow> s' = s"
  by (auto simp: act_atomically_def split: prod.splits sum.splits)

lemma act_atomically_ok: "act_atomically m s = (Inr x, s') \<longleftrightarrow> m s = (Inr x, s')"
  by (auto simp: act_atomically_def split: prod.splits sum.splits)

definition act_keeps :: "('s \<Rightarrow> bool) \<Rightarrow> ('s, 'e, 'a) act \<Rightarrow> bool" where
  "act_keeps I m \<longleftrightarrow> (\<forall>s. I s \<longrightarrow> I (snd (m s)))"

lemma act_keeps_snd: "act_keeps I m \<Longrightarrow> I s \<Longrightarrow> I (snd (m s))"
  by (cases "m s") (auto simp: act_keeps_def)

lemma act_keepsD: "act_keeps I m \<Longrightarrow> I s \<Longrightarrow> m s = (r, s') \<Longrightarrow> I s'"
  by (metis act_keeps_def snd_conv)

lemma act_keeps_atoms [act_inv_rules]:
  "act_keeps I (act_return x)" "act_keeps I (act_throw e)" "act_keeps I (act_get f)"
  "act_keeps I (act_guard P e)" "act_keeps I (act_require g e)"
  by (auto simp: act_keeps_def act_return_def act_throw_def act_get_def act_guard_def
      act_require_def split: option.splits)

lemma act_keeps_modify [act_inv_rules]: "(\<And>s. I s \<Longrightarrow> I (u s)) \<Longrightarrow> act_keeps I (act_modify u)"
  by (simp add: act_keeps_def act_modify_def)

lemma act_keeps_bind [act_inv_rules]:
  "act_keeps I m \<Longrightarrow> (\<And>x. act_keeps I (f x)) \<Longrightarrow> act_keeps I (act_bind m f)"
  by (auto simp: act_keeps_def act_bind_def split: prod.splits sum.splits)

lemma act_keeps_atomically [act_inv_rules]: "act_keeps I m \<Longrightarrow> act_keeps I (act_atomically m)"
  by (auto simp: act_keeps_def act_atomically_def split: prod.splits sum.splits)

lemma act_keeps_if [act_inv_rules]:
  "act_keeps I m \<Longrightarrow> act_keeps I n \<Longrightarrow> act_keeps I (if b then m else n)"
  by simp

lemma act_keeps_option [act_inv_rules]:
  "act_keeps I m \<Longrightarrow> (\<And>x. act_keeps I (f x)) \<Longrightarrow> act_keeps I (case opt of None \<Rightarrow> m | Some x \<Rightarrow> f x)"
  by (cases opt) auto

lemma act_keeps_sum [act_inv_rules]:
  "(\<And>e. act_keeps I (f e)) \<Longrightarrow> (\<And>x. act_keeps I (g x)) \<Longrightarrow>
   act_keeps I (case r of Inl e \<Rightarrow> f e | Inr x \<Rightarrow> g x)"
  by (cases r) auto

lemma act_keeps_prod [act_inv_rules]:
  "(\<And>x y. act_keeps I (f x y)) \<Longrightarrow> act_keeps I (case p of (x, y) \<Rightarrow> f x y)"
  by (cases p) auto

lemma act_keeps_let [act_inv_rules]: "(\<And>x. act_keeps I (f x)) \<Longrightarrow> act_keeps I (Let t f)"
  by (simp add: Let_def)

lemma act_keeps_conj: "act_keeps I m \<Longrightarrow> act_keeps J m \<Longrightarrow> act_keeps (\<lambda>s. I s \<and> J s) m"
  by (simp add: act_keeps_def)

lemma act_keeps_guarded:
  "(\<And>s. I s \<Longrightarrow> P s \<Longrightarrow> I (u s)) \<Longrightarrow> act_keeps I (act_bind (act_guard P e) (\<lambda>_. act_modify u))"
  by (simp add: act_keeps_def act_simps)

lemma act_keeps_guarded2:
  "(\<And>s. I s \<Longrightarrow> P s \<Longrightarrow> Q s \<Longrightarrow> I (u s)) \<Longrightarrow>
   act_keeps I (act_bind (act_guard P e) (\<lambda>_. act_bind (act_guard Q d) (\<lambda>_. act_modify u)))"
  by (simp add: act_keeps_def act_simps)

lemma act_keeps_map [act_inv_rules]: "(\<And>x. act_keeps I (f x)) \<Longrightarrow> act_keeps I (act_map f xs)"
  by (induction xs) (auto intro!: act_inv_rules)

text \<open>Operations that never change the state, and operations that leave no trace when they fail.\<close>

definition act_readonly :: "('s, 'e, 'a) act \<Rightarrow> bool" where
  "act_readonly m \<longleftrightarrow> (\<forall>s. snd (m s) = s)"

definition act_clean :: "('s, 'e, 'a) act \<Rightarrow> bool" where
  "act_clean m \<longleftrightarrow> (\<forall>s e s'. m s = (Inl e, s') \<longrightarrow> s' = s)"

lemma act_cleanD: "act_clean m \<Longrightarrow> m s = (Inl e, s') \<Longrightarrow> s' = s"
  by (simp add: act_clean_def)

lemma act_readonly_atoms [act_clean_rules]:
  "act_readonly (act_return x)" "act_readonly (act_throw e)" "act_readonly (act_get f)"
  "act_readonly (act_guard P e)" "act_readonly (act_require g e)"
  by (auto simp: act_readonly_def act_return_def act_throw_def act_get_def act_guard_def
      act_require_def split: option.splits)

lemma act_readonly_bind [act_clean_rules]:
  "act_readonly m \<Longrightarrow> (\<And>x. act_readonly (f x)) \<Longrightarrow> act_readonly (act_bind m f)"
  by (auto simp: act_readonly_def act_bind_def split: prod.splits sum.splits) (metis snd_conv)+

lemma act_readonly_cases [act_clean_rules]:
  "act_readonly m \<Longrightarrow> act_readonly n \<Longrightarrow> act_readonly (if b then m else n)"
  "act_readonly m \<Longrightarrow> (\<And>x. act_readonly (h x)) \<Longrightarrow>
   act_readonly (case opt of None \<Rightarrow> m | Some x \<Rightarrow> h x)"
  by (auto split: option.splits)

lemma act_clean_readonly: "act_readonly m \<Longrightarrow> act_clean m"
  unfolding act_readonly_def act_clean_def by (metis snd_conv)

lemma act_clean_atoms [act_clean_rules]:
  "act_clean (act_return x)" "act_clean (act_throw e)" "act_clean (act_modify u)"
  "act_clean (act_atomically m)"
  by (auto simp: act_clean_def act_return_def act_throw_def act_modify_def act_atomically_def
      split: prod.splits sum.splits)

lemma act_clean_bind [act_clean_rules]:
  assumes "act_readonly m" "\<And>x. act_clean (f x)"
  shows "act_clean (act_bind m f)"
  using assms unfolding act_clean_def act_readonly_def act_bind_def
  by (auto split: prod.splits sum.splits) (metis snd_conv)+

lemma act_clean_cases [act_clean_rules]:
  "act_clean m \<Longrightarrow> act_clean n \<Longrightarrow> act_clean (if b then m else n)"
  "act_clean m \<Longrightarrow> (\<And>x. act_clean (h x)) \<Longrightarrow> act_clean (case opt of None \<Rightarrow> m | Some x \<Rightarrow> h x)"
  "(\<And>x. act_clean (k x)) \<Longrightarrow> act_clean (Let t k)"
  by (auto split: option.splits)

section \<open>Interfaces\<close>

text \<open>
  A machine given by its initial states and its step relation, with an invariant that every step
  keeps: the invariant holds in every reachable state and along every run.
\<close>

inductive reach :: "('s \<Rightarrow> bool) \<Rightarrow> ('s \<Rightarrow> 's \<Rightarrow> bool) \<Rightarrow> 's \<Rightarrow> bool" for init step where
  reach_init: "init s \<Longrightarrow> reach init step s"
| reach_step: "reach init step s \<Longrightarrow> step s t \<Longrightarrow> reach init step t"

locale step_machine =
  fixes init :: "'s \<Rightarrow> bool" and step :: "'s \<Rightarrow> 's \<Rightarrow> bool" and inv :: "'s \<Rightarrow> bool"
  assumes inv_init: "init s \<Longrightarrow> inv s"
    and inv_step: "inv s \<Longrightarrow> step s t \<Longrightarrow> inv t"
begin

lemma reach_inv: "reach init step s \<Longrightarrow> inv s"
  by (induction rule: reach.induct) (auto intro: inv_init inv_step)

lemma steps_inv: "step\<^sup>*\<^sup>* s t \<Longrightarrow> inv s \<Longrightarrow> inv t"
  by (induction rule: rtranclp_induct) (auto intro: inv_step)

end

text \<open>
  A merge operator that keeps the value of the higher rank, the old one on a tie: how the finding
  repository combines severities and scope statuses of repeated observations.
\<close>

locale rank_merge =
  fixes rank :: "'v \<Rightarrow> int" and merge :: "'v \<Rightarrow> 'v \<Rightarrow> 'v"
  assumes merge_def: "merge old new = (if rank new > rank old then new else old)"
begin

lemma merge_rank: "rank (merge a b) = max (rank a) (rank b)"
  by (simp add: merge_def)

lemma merge_ge: "rank a \<le> rank (merge a b)" "rank b \<le> rank (merge a b)"
  by (simp_all add: merge_def)

lemma merge_idem: "merge a a = a"
  by (simp add: merge_def)

lemma merge_assoc: "merge (merge a b) c = merge a (merge b c)"
  by (auto simp: merge_def)

lemma merge_absorb: "merge (merge a b) b = merge a b"
  by (auto simp: merge_def)

end

text \<open>
  The loop that keeps the newest element seen so far, the earlier one on a tie. For a strict weak
  order its result is a member no other member is newer than.
\<close>

definition keep_newer :: "('v \<Rightarrow> 'v \<Rightarrow> bool) \<Rightarrow> 'v \<Rightarrow> 'v option \<Rightarrow> 'v option" where
  "keep_newer newer x best =
     (case best of None \<Rightarrow> Some x | Some b \<Rightarrow> if newer x b then Some x else Some b)"

definition newest :: "('v \<Rightarrow> 'v \<Rightarrow> bool) \<Rightarrow> 'v list \<Rightarrow> 'v option" where
  "newest newer xs = fold (keep_newer newer) xs None"

lemma fold_keep_newer_Some: "\<exists>b'. fold (keep_newer newer) xs (Some b) = Some b'"
  by (induction xs arbitrary: b) (auto simp: keep_newer_def)

lemma newest_None_iff: "newest newer xs = None \<longleftrightarrow> xs = []"
proof (cases xs)
  case (Cons x ys)
  then have "newest newer xs = fold (keep_newer newer) ys (Some x)"
    by (simp add: newest_def keep_newer_def)
  then show ?thesis using Cons fold_keep_newer_Some [of newer ys x] by auto
qed (simp add: newest_def)

lemma fold_keep_newer_mem:
  "fold (keep_newer newer) xs best = Some b \<Longrightarrow> b \<in> set xs \<or> best = Some b"
  by (induction xs arbitrary: best) (auto simp: keep_newer_def split: option.splits if_splits)

lemma newest_mem: "newest newer xs = Some b \<Longrightarrow> b \<in> set xs"
  using fold_keep_newer_mem [of newer xs None b] by (simp add: newest_def)

locale strict_weak_order =
  fixes newer :: "'v \<Rightarrow> 'v \<Rightarrow> bool"
  assumes newer_irrefl: "\<not> newer x x"
    and newer_trans: "newer x y \<Longrightarrow> newer y z \<Longrightarrow> newer x z"
    and newer_neg_trans: "\<not> newer x y \<Longrightarrow> \<not> newer y z \<Longrightarrow> \<not> newer x z"
begin

lemma fold_keep_newer_max:
  "fold (keep_newer newer) xs best = Some b \<Longrightarrow>
   (\<forall>x \<in> set xs. \<not> newer x b) \<and> (\<forall>b0. best = Some b0 \<longrightarrow> \<not> newer b0 b)"
proof (induction xs arbitrary: best)
  case Nil
  then show ?case by (auto simp: newer_irrefl)
next
  case (Cons x xs)
  from Cons.prems have rest: "fold (keep_newer newer) xs (keep_newer newer x best) = Some b"
    by simp
  have IH: "\<forall>y \<in> set xs. \<not> newer y b"
    and step: "\<And>b0. keep_newer newer x best = Some b0 \<Longrightarrow> \<not> newer b0 b"
    using Cons.IH [OF rest] by auto
  show ?case
  proof (cases best)
    case None
    then show ?thesis using IH step [of x] by (simp add: keep_newer_def)
  next
    case (Some b0)
    show ?thesis
    proof (cases "newer x b0")
      case True
      then have "\<not> newer x b" using step [of x] Some by (simp add: keep_newer_def)
      moreover from this True have "\<not> newer b0 b" using newer_trans by blast
      ultimately show ?thesis using IH Some by simp
    next
      case False
      then have "\<not> newer b0 b" using step [of b0] Some by (simp add: keep_newer_def)
      with False have "\<not> newer x b" using newer_neg_trans by blast
      with \<open>\<not> newer b0 b\<close> show ?thesis using IH Some by simp
    qed
  qed
qed

lemma newest_max: "newest newer xs = Some b \<Longrightarrow> x \<in> set xs \<Longrightarrow> \<not> newer x b"
  using fold_keep_newer_max [of xs None b] by (simp add: newest_def)

lemma newest_exists: "xs \<noteq> [] \<Longrightarrow> \<exists>b \<in> set xs. newest newer xs = Some b"
  using newest_None_iff [of newer xs] newest_mem [of newer xs] by (cases "newest newer xs") auto

end

end
