(* ===== verification/Hitch_Types.thy ===== *)
theory Hitch_Types
  imports Harness_Prelude
begin

text \<open>
  The data of the hitch control plane, from \<open>src/hitch/types.ts\<close>: every string-literal union as a
  datatype with the source's members, every interface as a record. A field that the source types
  as \<open>T | null\<close> or as optional is an option; counters and budgets are \<open>int\<close>, as SQLite's INTEGER
  columns and the comparisons of the code have them. Record fields carry a short prefix
  (\<open>s_\<close> session, \<open>a_\<close> attempt, \<open>c_\<close> review cycle, \<open>f_\<close> finding, \<open>k_\<close> close check, \<open>e_\<close> evidence,
  \<open>m_\<close> metrics) because Isabelle's field names are global.
\<close>

section \<open>Enumerations\<close>

datatype hitch_status = S_open | S_in_progress | S_close_ready | S_closed | S_diverging
  | S_budget_exhausted | S_escalated | S_cancelled

datatype hitch_created_source = CS_cli | CS_mcp | CS_dashboard | CS_worker | CS_import

datatype hitch_attempt_type = AT_plan | AT_implement | AT_fix_review | AT_rerun | AT_validate
  | AT_close_check | AT_classify_findings | AT_defer_followups

datatype hitch_attempt_status = AS_pending | AS_running | AS_succeeded | AS_failed | AS_cancelled

datatype hitch_review_mode = RM_initial | RM_delta | RM_close | RM_regression | RM_manual

datatype hitch_finding_source = Src_review | Src_test | Src_doctor | Src_human | Src_mcp
  | Src_codex | Src_other

datatype hitch_finding_severity = P0 | P1 | P2 | P3 | Info

datatype hitch_scope_status = In_scope | Out_of_scope | Unknown_scope | Duplicate_scope

datatype hitch_lifecycle_status = L_open | L_fixed | L_reopened | L_deferred | L_duplicate
  | L_out_of_scope | L_escalated | L_accepted_risk

datatype hitch_close_check_status = K_pending | K_passed | K_failed | K_skipped | K_unknown

datatype hitch_convergence_decision = D_continue | D_needs_fix | D_needs_classification
  | D_close_ready | D_closed | D_diverging | D_budget_exhausted | D_escalate | D_cancel

datatype hitch_lifecycle_event_name = Ev_reopened | Ev_closed | Ev_cancelled | Ev_pr_adopted
  | Ev_updated | Ev_diverging_recovered

datatype hitch_next_action_kind = A_fix_findings | A_classify_findings | A_run_review
  | A_run_close_check | A_defer_followups | A_close_hitch | A_ask_human

datatype hitch_close_condition_kind = CK_command | CK_finding_policy | CK_manual
  | CK_operation_status | CK_db_doctor | CK_review_consensus | CK_artifact_exists
  | CK_facet_red_test | CK_evidence_attached

datatype hitch_evidence_kind = EK_command | EK_metrics | EK_before_after | EK_transcript | EK_note

text \<open>The operator is the only attester of stage A; the column is checked against it again.\<close>

datatype evidence_attester = Att_operator

fun hitch_status_str :: "hitch_status \<Rightarrow> string" where
  "hitch_status_str S_open = ''open''"
| "hitch_status_str S_in_progress = ''in_progress''"
| "hitch_status_str S_close_ready = ''close_ready''"
| "hitch_status_str S_closed = ''closed''"
| "hitch_status_str S_diverging = ''diverging''"
| "hitch_status_str S_budget_exhausted = ''budget_exhausted''"
| "hitch_status_str S_escalated = ''escalated''"
| "hitch_status_str S_cancelled = ''cancelled''"

fun close_check_status_str :: "hitch_close_check_status \<Rightarrow> string" where
  "close_check_status_str K_pending = ''pending''"
| "close_check_status_str K_passed = ''passed''"
| "close_check_status_str K_failed = ''failed''"
| "close_check_status_str K_skipped = ''skipped''"
| "close_check_status_str K_unknown = ''unknown''"

fun close_condition_kind_str :: "hitch_close_condition_kind \<Rightarrow> string" where
  "close_condition_kind_str CK_command = ''command''"
| "close_condition_kind_str CK_finding_policy = ''finding_policy''"
| "close_condition_kind_str CK_manual = ''manual''"
| "close_condition_kind_str CK_operation_status = ''operation_status''"
| "close_condition_kind_str CK_db_doctor = ''db_doctor''"
| "close_condition_kind_str CK_review_consensus = ''review_consensus''"
| "close_condition_kind_str CK_artifact_exists = ''artifact_exists''"
| "close_condition_kind_str CK_facet_red_test = ''facet_red_test''"
| "close_condition_kind_str CK_evidence_attached = ''evidence_attached''"

fun severity_str :: "hitch_finding_severity \<Rightarrow> string" where
  "severity_str P0 = ''P0''"
| "severity_str P1 = ''P1''"
| "severity_str P2 = ''P2''"
| "severity_str P3 = ''P3''"
| "severity_str Info = ''info''"

fun decision_str :: "hitch_convergence_decision \<Rightarrow> string" where
  "decision_str D_continue = ''continue''"
| "decision_str D_needs_fix = ''needs_fix''"
| "decision_str D_needs_classification = ''needs_classification''"
| "decision_str D_close_ready = ''close_ready''"
| "decision_str D_closed = ''closed''"
| "decision_str D_diverging = ''diverging''"
| "decision_str D_budget_exhausted = ''budget_exhausted''"
| "decision_str D_escalate = ''escalate''"
| "decision_str D_cancel = ''cancel''"

fun next_action_kind_str :: "hitch_next_action_kind \<Rightarrow> string" where
  "next_action_kind_str A_fix_findings = ''fix_findings''"
| "next_action_kind_str A_classify_findings = ''classify_findings''"
| "next_action_kind_str A_run_review = ''run_review''"
| "next_action_kind_str A_run_close_check = ''run_close_check''"
| "next_action_kind_str A_defer_followups = ''defer_followups''"
| "next_action_kind_str A_close_hitch = ''close_hitch''"
| "next_action_kind_str A_ask_human = ''ask_human''"

section \<open>Finding provenance and review categories\<close>

definition OPERATOR_ORIGIN_FINDING_SOURCES :: "hitch_finding_source list" where
  "OPERATOR_ORIGIN_FINDING_SOURCES = [Src_human, Src_mcp]"

definition HARNESS_ORIGIN_FINDING_SOURCES :: "hitch_finding_source list" where
  "HARNESS_ORIGIN_FINDING_SOURCES = [Src_review, Src_test, Src_doctor, Src_codex, Src_other]"

definition ADVISORY_REVIEW_FINDING_CATEGORIES :: "string list" where
  "ADVISORY_REVIEW_FINDING_CATEGORIES =
     [''review-non-blocking-comment'', ''review-out-of-scope-suggestion'']"

definition REVIEW_BLOCKING_FINDING_CATEGORIES :: "string list" where
  "REVIEW_BLOCKING_FINDING_CATEGORIES = [''review-required-change'', ''review-negative-decision'']"

text \<open>The compile-time guard of the source: every finding source is in one of the two lists.\<close>

lemma finding_sources_classified:
  "set OPERATOR_ORIGIN_FINDING_SOURCES \<union> set HARNESS_ORIGIN_FINDING_SOURCES = UNIV"
proof -
  have "s \<in> set OPERATOR_ORIGIN_FINDING_SOURCES \<union> set HARNESS_ORIGIN_FINDING_SOURCES" for s
    by (cases s)
      (simp_all add: OPERATOR_ORIGIN_FINDING_SOURCES_def HARNESS_ORIGIN_FINDING_SOURCES_def)
  then show ?thesis by blast
qed

section \<open>Scope, close conditions and policy\<close>

record hitch_scope =
  sc_targetFiles :: "string list option"
  sc_targetOperations :: "string list option"
  sc_allowedFindingCategories :: "string list option"
  sc_excludedCategories :: "string list option"
  sc_notes :: "string option"
  sc_targetSummary :: "string option"

record hitch_close_condition =
  cc_id :: string
  cc_kind :: hitch_close_condition_kind
  cc_required :: bool
  cc_description :: "string option"
  cc_command :: "string option"
  cc_rule :: "json_object option"
  cc_metadata :: "json_object option"

record hitch_divergence_policy =
  dv_maxNewFindingsPerCycle :: int
  dv_maxTotalNewFindings :: int
  dv_requireNewFindingsDecreaseAfterCycle :: int
  dv_maxReopenedPerFinding :: int
  dv_nearDuplicateDedup :: bool

record hitch_close_requires =
  cr_noOpenInScopeP0 :: bool
  cr_noOpenInScopeP1 :: bool
  cr_noUnknownScope :: bool
  cr_maxOpenInScopeP2 :: "int option"

record hitch_policy =
  p_autoFixSeverities :: "hitch_finding_severity list"
  p_deferSeverities :: "hitch_finding_severity list"
  p_autoFixOnlyInScope :: bool
  p_deferOutOfScope :: bool
  p_stopOnUnknownScope :: bool
  p_allowEmptyCloseConditions :: bool
  p_reviewModeSequence :: "hitch_review_mode list"
  p_divergence :: hitch_divergence_policy
  p_closeRequires :: hitch_close_requires

definition DEFAULT_HITCH_POLICY :: hitch_policy where
  "DEFAULT_HITCH_POLICY = \<lparr>
     p_autoFixSeverities = [P1],
     p_deferSeverities = [P2, P3],
     p_autoFixOnlyInScope = True,
     p_deferOutOfScope = True,
     p_stopOnUnknownScope = True,
     p_allowEmptyCloseConditions = False,
     p_reviewModeSequence = [RM_initial, RM_delta, RM_close],
     p_divergence = \<lparr>
       dv_maxNewFindingsPerCycle = 5,
       dv_maxTotalNewFindings = 12,
       dv_requireNewFindingsDecreaseAfterCycle = 2,
       dv_maxReopenedPerFinding = 2,
       dv_nearDuplicateDedup = True\<rparr>,
     p_closeRequires = \<lparr>
       cr_noOpenInScopeP0 = True,
       cr_noOpenInScopeP1 = True,
       cr_noUnknownScope = True,
       cr_maxOpenInScopeP2 = None\<rparr>\<rparr>"

section \<open>Rows of the control plane\<close>

text \<open>
  The session record also has the two columns \<open>close_push_attempts\<close> and \<open>close_push_run_id\<close> of
  \<open>hitch_sessions\<close>, which \<open>rowToSession\<close> leaves out of its result.
\<close>

record hitch_session =
  s_hitchId :: string
  s_title :: string
  s_description :: "string option"
  s_projectId :: "string option"
  s_repoId :: "string option"
  s_domain :: "string option"
  s_backlogItemId :: "string option"
  s_status :: hitch_status
  s_scope :: hitch_scope
  s_closeConditions :: "hitch_close_condition list"
  s_policy :: hitch_policy
  s_maxIterations :: int
  s_maxReviewCycles :: int
  s_maxReruns :: int
  s_maxTotalNewFindings :: int
  s_currentIteration :: int
  s_currentReviewCycle :: int
  s_createdBy :: string
  s_createdSource :: hitch_created_source
  s_createdAt :: timestamp
  s_updatedAt :: timestamp
  s_closedAt :: "timestamp option"
  s_closeSummary :: "string option"
  s_escalationReason :: "string option"
  s_closePushAttempts :: int
  s_closePushRunId :: "string option"

record hitch_attempt =
  a_attemptId :: string
  a_hitchId :: string
  a_iteration :: int
  a_attemptType :: hitch_attempt_type
  a_status :: hitch_attempt_status
  a_operationId :: "string option"
  a_runId :: "string option"
  a_parentAttemptId :: "string option"
  a_input :: json_object
  a_result :: json_object
  a_errorMessage :: "string option"
  a_startedAt :: "timestamp option"
  a_completedAt :: "timestamp option"
  a_createdAt :: timestamp

record hitch_review_cycle =
  c_cycleId :: string
  c_hitchId :: string
  c_cycleNumber :: int
  c_reviewMode :: hitch_review_mode
  c_triggerAttemptId :: "string option"
  c_sourceReviewId :: "string option"
  c_sourceRunId :: "string option"
  c_findingsSeen :: int
  c_findingsNew :: int
  c_findingsReopened :: int
  c_findingsFixed :: int
  c_findingsDeferred :: int
  c_findingsInScopeOpen :: int
  c_createdAt :: timestamp
  c_completedAt :: "timestamp option"
  c_summary :: "string option"

record hitch_finding =
  f_findingId :: string
  f_hitchId :: string
  f_stableKey :: string
  f_duplicateOf :: "string option"
  f_source :: hitch_finding_source
  f_sourceRef :: "string option"
  f_sourceAttemptId :: "string option"
  f_sourceCycleId :: "string option"
  f_severity :: hitch_finding_severity
  f_category :: string
  f_scopeStatus :: hitch_scope_status
  f_lifecycleStatus :: hitch_lifecycle_status
  f_summary :: string
  f_detail :: "string option"
  f_filePath :: "string option"
  f_symbol :: "string option"
  f_suggestedFix :: "string option"
  f_firstSeenAt :: timestamp
  f_lastSeenAt :: timestamp
  f_fixedAt :: "timestamp option"
  f_deferredAt :: "timestamp option"
  f_escalatedAt :: "timestamp option"
  f_reopenCount :: int
  f_deferredBacklogItemId :: "string option"
  f_deferredIssueUrl :: "string option"
  f_classificationReason :: "string option"
  f_resolutionNote :: "string option"

record hitch_close_check =
  k_checkId :: string
  k_hitchId :: string
  k_conditionId :: string
  k_status :: hitch_close_check_status
  k_checkedAt :: timestamp
  k_checkedBy :: string
  k_evidence :: json_object
  k_message :: "string option"

record hitch_evidence =
  e_evidenceId :: string
  e_hitchId :: string
  e_runId :: "string option"
  e_conditionId :: "string option"
  e_kind :: hitch_evidence_kind
  e_attester :: evidence_attester
  e_label :: string
  e_command :: "string option"
  e_exitCode :: "int option"
  e_summaryMetrics :: json_object
  e_metricsSchema :: int
  e_outputExcerpt :: "string option"
  e_secretSuspect :: bool
  e_redacted :: bool
  e_createdAt :: timestamp

section \<open>Convergence results\<close>

text \<open>
  A decision packet is the jury's consultant-grade explanation; the controller reads only its
  \<open>decisionKinds\<close> and the ids of its findings.
\<close>

record hitch_decision_packet =
  dp_decisionKinds :: "string list"
  dp_findingIds :: "string list"
  dp_body :: json

record hitch_next_action =
  na_kind :: hitch_next_action_kind
  na_findingIds :: "string list option"
  na_message :: string
  na_decisionPacket :: "hitch_decision_packet option"

record cycle_finding_count =
  cf_cycleId :: string
  cf_cycleNumber :: int
  cf_findingsNew :: int

record harness_origin_divergence_metrics =
  ho_newFindings :: int
  ho_maxReopenCount :: int
  ho_newFindingsByCycle :: "cycle_finding_count list"

record hitch_metrics =
  m_openInScopeP0 :: int
  m_openInScopeP1 :: int
  m_openInScopeP2 :: int
  m_openUnknownScope :: int
  m_openOutOfScope :: int
  m_totalNewFindings :: int
  m_newFindingsThisCycle :: int
  m_reviewCyclesUsed :: int
  m_iterationsUsed :: int
  m_rerunsUsed :: int
  m_closeConditionsPassed :: int
  m_closeConditionsFailed :: int
  m_closeConditionsPending :: int
  m_maxReopenCount :: int
  m_harnessOriginNewFindings :: int
  m_harnessOriginNewFindingsThisCycle :: int
  m_harnessOriginMaxReopenCount :: int
  m_harnessOriginNewFindingsByCycle :: "cycle_finding_count list"

record hitch_convergence_result =
  r_hitchId :: string
  r_decision :: hitch_convergence_decision
  r_reason :: string
  r_metrics :: hitch_metrics
  r_nextAction :: hitch_next_action

text \<open>
  A recorded decision. Its \<open>metrics_json\<close> column holds the metrics and, for an advisory row, the
  marker \<open>advisorySeverityRecord: true\<close>, here the boolean \<open>dr_advisory\<close>.
\<close>

record hitch_decision_record =
  dr_decisionId :: string
  dr_hitchId :: string
  dr_cycleId :: "string option"
  dr_attemptId :: "string option"
  dr_decision :: hitch_convergence_decision
  dr_reason :: string
  dr_metrics :: hitch_metrics
  dr_advisory :: bool
  dr_nextAction :: "hitch_next_action option"
  dr_createdAt :: timestamp
  dr_createdBy :: string

record hitch_lifecycle_event =
  ev_eventId :: string
  ev_hitchId :: string
  ev_event :: hitch_lifecycle_event_name
  ev_reason :: string
  ev_detail :: "json_object option"
  ev_createdAt :: timestamp
  ev_createdBy :: string

section \<open>A sample hitch\<close>

text \<open>A session with the default policy, used to instantiate the theorems at concrete inputs.\<close>

definition ex_scope :: hitch_scope where
  "ex_scope = \<lparr>sc_targetFiles = None, sc_targetOperations = None,
     sc_allowedFindingCategories = Some [''bug''], sc_excludedCategories = None, sc_notes = None,
     sc_targetSummary = None\<rparr>"

definition ex_session :: hitch_session where
  "ex_session = \<lparr>s_hitchId = ''h1'', s_title = ''t'', s_description = None, s_projectId = None,
     s_repoId = None, s_domain = None, s_backlogItemId = None, s_status = S_open, s_scope = ex_scope,
     s_closeConditions = [], s_policy = DEFAULT_HITCH_POLICY, s_maxIterations = 4,
     s_maxReviewCycles = 3, s_maxReruns = 2, s_maxTotalNewFindings = 12, s_currentIteration = 0,
     s_currentReviewCycle = 0, s_createdBy = ''op'', s_createdSource = CS_cli, s_createdAt = ''t0'',
     s_updatedAt = ''t0'', s_closedAt = None, s_closeSummary = None, s_escalationReason = None,
     s_closePushAttempts = 0, s_closePushRunId = None\<rparr>"

end
