(* ===== verification/Facet_Coverage.thy ===== *)
theory Facet_Coverage
  imports Hitch_Types
begin

text \<open>
  The deterministic RED-test gate of \<open>src/hitch/facet-coverage.ts\<close>: the fail-closed parse of a
  \<open>facet_red_test\<close> rule and the per-facet coverage evaluation from the run's changed paths and the
  recorded RED evidence. The glob matcher (the \<open>minimatch\<close> package, called with the harness's
  fixed options) is the parameter \<open>mm path glob\<close>.
\<close>

type_synonym glob_matcher = "string \<Rightarrow> string \<Rightarrow> bool"

record facet_spec =
  fs_id :: string
  fs_testGlobs :: "string list"
  fs_changedFileGlobs :: "string list option"
  fs_description :: "string option"

record facet_red_evidence =
  fe_facetId :: string
  fe_redTestPath :: string
  fe_redDemonstrated :: bool
  fe_runId :: string
  fe_evidenceRef :: "string option"

record parsed_facet_rule =
  pf_facets :: "facet_spec list"
  pf_errors :: "string list"

datatype facet_coverage_status = FC_passed | FC_failed | FC_pending

datatype facet_reason_code = FR_passed | FR_fail_open_shape | FR_red_not_demonstrated | FR_no_change

record per_facet_coverage =
  pc_facetId :: string
  pc_status :: facet_coverage_status
  pc_reasonCode :: facet_reason_code
  pc_reason :: string

record facet_coverage_result =
  fr_status :: facet_coverage_status
  fr_perFacet :: "per_facet_coverage list"
  fr_message :: string

section \<open>Parsing the rule\<close>

fun json_nonempty_str :: "json \<Rightarrow> bool" where
  "json_nonempty_str (JStr s) = (s \<noteq> [])"
| "json_nonempty_str _ = False"

fun isStringArray :: "json \<Rightarrow> bool" where
  "isStringArray (JArr vs) = list_all json_nonempty_str vs"
| "isStringArray _ = False"

fun json_str :: "json \<Rightarrow> string option" where
  "json_str (JStr s) = Some s"
| "json_str _ = None"

fun json_str_list :: "json \<Rightarrow> string list" where
  "json_str_list (JArr vs) = List.map_filter json_str vs"
| "json_str_list _ = []"

text \<open>A value with \<open>typeof v === "object" && v !== null\<close>, as its own properties; an array has
  only index properties, none of which the parsers below read.\<close>

fun json_props :: "json \<Rightarrow> json_object option" where
  "json_props (JObj ps) = Some ps"
| "json_props (JArr vs) = Some []"
| "json_props _ = None"

record facet_parse_state =
  ps_facets :: "facet_spec list"
  ps_errors :: "string list"
  ps_seen :: "string list"

definition facet_entry_error :: "string \<Rightarrow> facet_parse_state \<Rightarrow> facet_parse_state" where
  "facet_entry_error msg st = st\<lparr>ps_errors := ps_errors st @ [msg]\<rparr>"

definition parseFacetEntry :: "nat \<Rightarrow> json \<Rightarrow> facet_parse_state \<Rightarrow> facet_parse_state" where
  "parseFacetEntry index raw st =
     (case json_props raw of
        None \<Rightarrow> facet_entry_error (''facet['' @ js_nat index @ ''] must be an object'') st
      | Some entry \<Rightarrow>
         (case Option.bind (map_of entry ''id'') json_str of
            None \<Rightarrow> facet_entry_error
              (''facet['' @ js_nat index @ ''] is missing a non-empty string id'') st
          | Some fid \<Rightarrow>
             if js_trim fid = [] then facet_entry_error
               (''facet['' @ js_nat index @ ''] is missing a non-empty string id'') st
             else if fid \<in> set (ps_seen st) then
               facet_entry_error (''facet id '' @ fid @ '' is duplicated'') st
             else
               (let st1 = st\<lparr>ps_seen := ps_seen st @ [fid]\<rparr>;
                    globs = map_of entry ''testGlobs'';
                    changed = map_of entry ''changedFileGlobs''
                in if \<not> (case globs of Some g \<Rightarrow> isStringArray g \<and> json_str_list g \<noteq> [] | None \<Rightarrow> False)
                   then facet_entry_error
                     (''facet '' @ fid @ '' requires a non-empty testGlobs[] of strings'') st1
                   else if (case changed of None \<Rightarrow> False | Some g \<Rightarrow> \<not> isStringArray g)
                   then facet_entry_error
                     (''facet '' @ fid @ '' changedFileGlobs must be an array of strings'') st1
                   else st1\<lparr>ps_facets := ps_facets st1 @
                     [\<lparr>fs_id = fid,
                       fs_testGlobs = (case globs of Some g \<Rightarrow> json_str_list g | None \<Rightarrow> []),
                       fs_changedFileGlobs = map_option json_str_list changed,
                       fs_description = Option.bind (map_of entry ''description'') json_str\<rparr>]\<rparr>)))"

fun parseFacetEntries :: "nat \<Rightarrow> json list \<Rightarrow> facet_parse_state \<Rightarrow> facet_parse_state" where
  "parseFacetEntries i [] st = st"
| "parseFacetEntries i (raw # raws) st = parseFacetEntries (Suc i) raws (parseFacetEntry i raw st)"

definition parseFacetRule :: "json_object option \<Rightarrow> parsed_facet_rule" where
  "parseFacetRule rule =
     (case rule of
        None \<Rightarrow> \<lparr>pf_facets = [], pf_errors = [''facet_red_test rule is missing'']\<rparr>
      | Some r \<Rightarrow>
         (case map_of r ''facets'' of
            Some (JArr raws) \<Rightarrow>
              (if raws = [] then \<lparr>pf_facets = [],
                  pf_errors = [''facet_red_test rule.facets must declare at least one facet'']\<rparr>
               else let st = parseFacetEntries 0 raws \<lparr>ps_facets = [], ps_errors = [], ps_seen = []\<rparr>
                    in \<lparr>pf_facets = ps_facets st, pf_errors = ps_errors st\<rparr>)
          | _ \<Rightarrow> \<lparr>pf_facets = [],
              pf_errors = [''facet_red_test rule.facets must be a non-empty array'']\<rparr>))"

section \<open>Coverage\<close>

definition matchesAny :: "glob_matcher \<Rightarrow> string \<Rightarrow> string list \<Rightarrow> bool" where
  "matchesAny mm path globs \<longleftrightarrow> (\<exists>g \<in> set globs. mm path g)"

definition evaluateOneFacet ::
  "glob_matcher \<Rightarrow> facet_spec \<Rightarrow> string list \<Rightarrow> facet_red_evidence list \<Rightarrow> string \<Rightarrow> per_facet_coverage"
where
  "evaluateOneFacet mm facet changedPaths evidence runId =
     (let matchedTestPaths = filter (\<lambda>p. matchesAny mm p (fs_testGlobs facet)) changedPaths;
          productionTouched =
            (case fs_changedFileGlobs facet of
               None \<Rightarrow> False
             | Some globs \<Rightarrow> (\<exists>p \<in> set changedPaths. matchesAny mm p globs))
      in if matchedTestPaths = [] then
           (if productionTouched
            then \<lparr>pc_facetId = fs_id facet, pc_status = FC_failed, pc_reasonCode = FR_fail_open_shape,
                  pc_reason = ''production surface changed, no covering test''\<rparr>
            else \<lparr>pc_facetId = fs_id facet, pc_status = FC_pending, pc_reasonCode = FR_no_change,
                  pc_reason = ''no covering test changed and no production surface touched''\<rparr>)
         else
           (case find (\<lambda>e. fe_facetId e = fs_id facet \<and> fe_redDemonstrated e \<and> fe_runId e = runId
                           \<and> fe_redTestPath e \<in> set matchedTestPaths) evidence of
              None \<Rightarrow> \<lparr>pc_facetId = fs_id facet, pc_status = FC_failed,
                 pc_reasonCode = FR_red_not_demonstrated,
                 pc_reason = ''covering test changed but RED not demonstrated for this run''\<rparr>
            | Some _ \<Rightarrow> \<lparr>pc_facetId = fs_id facet, pc_status = FC_passed, pc_reasonCode = FR_passed,
                 pc_reason = ''RED test demonstrated''\<rparr>))"

fun facet_status_str :: "facet_coverage_status \<Rightarrow> string" where
  "facet_status_str FC_passed = ''passed''"
| "facet_status_str FC_failed = ''failed''"
| "facet_status_str FC_pending = ''pending''"

definition summarise :: "facet_coverage_status \<Rightarrow> per_facet_coverage list \<Rightarrow> string" where
  "summarise status perFacet =
     (if status = FC_passed
      then ''all '' @ js_nat (length perFacet) @ '' contracted facet(s) have a demonstrated RED test''
      else facet_status_str status @ '': '' @
        js_join ''; '' (map (\<lambda>f. pc_facetId f @ '': '' @ pc_reason f)
          (filter (\<lambda>f. pc_status f \<noteq> FC_passed) perFacet)))"

definition evaluateFacetRedCoverage ::
  "glob_matcher \<Rightarrow> facet_spec list \<Rightarrow> string list \<Rightarrow> facet_red_evidence list \<Rightarrow> string
     \<Rightarrow> facet_coverage_result"
where
  "evaluateFacetRedCoverage mm facets changedPaths evidence runId =
     (if facets = [] then
        \<lparr>fr_status = FC_pending, fr_perFacet = [], fr_message = ''no contracted facets declared''\<rparr>
      else
        (let perFacet = map (\<lambda>f. evaluateOneFacet mm f changedPaths evidence runId) facets;
             status = (if \<exists>f \<in> set perFacet. pc_status f = FC_failed then FC_failed
                       else if \<exists>f \<in> set perFacet. pc_status f = FC_pending then FC_pending
                       else FC_passed)
         in \<lparr>fr_status = status, fr_perFacet = perFacet, fr_message = summarise status perFacet\<rparr>))"

section \<open>What a parsed rule guarantees\<close>

definition wf_facet :: "facet_spec \<Rightarrow> bool" where
  "wf_facet f \<longleftrightarrow> js_trim (fs_id f) \<noteq> [] \<and> fs_testGlobs f \<noteq> [] \<and> [] \<notin> set (fs_testGlobs f)"

lemma isStringArray_no_empty: "isStringArray v \<Longrightarrow> [] \<notin> set (json_str_list v)"
proof (cases v)
  case (JArr vs)
  assume "isStringArray v"
  then have "list_all json_nonempty_str vs" using JArr by simp
  then have "[] \<notin> set (List.map_filter json_str vs)"
    by (induction vs) (auto simp: List.map_filter_simps split: option.splits elim: json_str.elims)
  then show ?thesis using JArr by simp
qed simp_all

definition parse_ok :: "facet_parse_state \<Rightarrow> bool" where
  "parse_ok st \<longleftrightarrow> (\<forall>f \<in> set (ps_facets st). wf_facet f) \<and> distinct (map fs_id (ps_facets st))
     \<and> set (map fs_id (ps_facets st)) \<subseteq> set (ps_seen st)"

lemma parseFacetEntry_ok: "parse_ok st \<Longrightarrow> parse_ok (parseFacetEntry i raw st)"
  by (auto simp: parseFacetEntry_def parse_ok_def facet_entry_error_def wf_facet_def Let_def
      dest: isStringArray_no_empty split: option.splits if_splits)

lemma parseFacetEntry_count:
  "length (ps_facets (parseFacetEntry i raw st)) + length (ps_errors (parseFacetEntry i raw st)) =
   Suc (length (ps_facets st) + length (ps_errors st))"
  by (auto simp: parseFacetEntry_def facet_entry_error_def Let_def split: option.splits)

lemma parseFacetEntries_ok: "parse_ok st \<Longrightarrow> parse_ok (parseFacetEntries i raws st)"
  by (induction raws arbitrary: i st) (auto intro: parseFacetEntry_ok)

lemma parseFacetEntries_count:
  "length (ps_facets (parseFacetEntries i raws st)) + length (ps_errors (parseFacetEntries i raws st)) =
   length raws + length (ps_facets st) + length (ps_errors st)"
  by (induction raws arbitrary: i st) (auto simp: parseFacetEntry_count)

lemma parseFacetRule_complete:
  assumes "pf_errors (parseFacetRule rule) = []"
  obtains r raws where "rule = Some r" "map_of r ''facets'' = Some (JArr raws)" "raws \<noteq> []"
    "length (pf_facets (parseFacetRule rule)) = length raws"
    "\<forall>f \<in> set (pf_facets (parseFacetRule rule)). wf_facet f"
    "distinct (map fs_id (pf_facets (parseFacetRule rule)))"
proof -
  let ?st0 = "\<lparr>ps_facets = [], ps_errors = [], ps_seen = []\<rparr>"
  from assms obtain r raws where r: "rule = Some r" "map_of r ''facets'' = Some (JArr raws)"
    and ne: "raws \<noteq> []"
    by (auto simp: parseFacetRule_def split: option.splits json.splits if_splits)
  have eq: "parseFacetRule rule = \<lparr>pf_facets = ps_facets (parseFacetEntries 0 raws ?st0),
      pf_errors = ps_errors (parseFacetEntries 0 raws ?st0)\<rparr>"
    using r ne by (simp add: parseFacetRule_def Let_def)
  have "parse_ok (parseFacetEntries 0 raws ?st0)"
    by (rule parseFacetEntries_ok) (simp add: parse_ok_def)
  then show ?thesis
    using that [OF r ne] parseFacetEntries_count [of 0 raws ?st0] assms eq
    by (simp add: parse_ok_def)
qed

section \<open>What coverage means\<close>

text \<open>A facet is demonstrated when a changed path matches one of its test globs and some evidence
  row shows RED for this facet, in this run, on such a path.\<close>

definition facet_demonstrated ::
  "glob_matcher \<Rightarrow> string list \<Rightarrow> facet_red_evidence list \<Rightarrow> string \<Rightarrow> facet_spec \<Rightarrow> bool" where
  "facet_demonstrated mm changedPaths evidence runId f \<longleftrightarrow>
     (\<exists>e \<in> set evidence. fe_facetId e = fs_id f \<and> fe_redDemonstrated e \<and> fe_runId e = runId
        \<and> fe_redTestPath e \<in> set changedPaths \<and> matchesAny mm (fe_redTestPath e) (fs_testGlobs f))"

lemma evaluateOneFacet_passed_iff:
  "pc_status (evaluateOneFacet mm f paths evidence runId) = FC_passed \<longleftrightarrow>
   facet_demonstrated mm paths evidence runId f"
  by (auto simp: evaluateOneFacet_def facet_demonstrated_def Let_def find_None_iff filter_empty_conv
      split: option.splits dest!: find_SomeD)

lemma evaluateFacetRedCoverage_passed_iff:
  "fr_status (evaluateFacetRedCoverage mm facets paths evidence runId) = FC_passed \<longleftrightarrow>
   facets \<noteq> [] \<and> (\<forall>f \<in> set facets. facet_demonstrated mm paths evidence runId f)"
proof -
  have "s = FC_passed \<longleftrightarrow> s \<noteq> FC_failed \<and> s \<noteq> FC_pending" for s
    by (cases s) auto
  then show ?thesis
    unfolding evaluateOneFacet_passed_iff [symmetric]
    by (auto simp: evaluateFacetRedCoverage_def Let_def)
qed

end
