(* ===== verification/Close_Checks.thy ===== *)
theory Close_Checks
  imports Facet_Coverage
begin

text \<open>
  The close gate of \<open>src/hitch/close-checks.ts\<close>: the latest recorded check per condition, the
  evaluation of each kind of close condition (recorded checks, finding policies, facet RED tests,
  operator evidence, review consensus) and the counts the controller reads. From
  \<open>src/hitch/review-consensus-evidence.ts\<close> it models the selection of the evidence rows and the
  decision on metrics rows; the decision on a transcript's text is the parameter \<open>td\<close>.
\<close>

datatype facet_pending_disposition = Code_recoverable | Evidence_recoverable

text \<open>
  Messages are text, except the two that print arbitrary values: a violated finding policy keeps
  its (name, actual, max) triples and a malformed evidence rule its errors, of which
  \<open>Unknown_evidence_kind v\<close> holds the value that the source renders with \<open>String(rule.kind)\<close>.
\<close>

datatype evidence_rule_error = Unknown_evidence_kind json | Bad_required_metric_keys

datatype close_message = Txt string
  | Finding_policy_violations "(string \<times> int \<times> rat) list"
  | Malformed_evidence_contract "evidence_rule_error list"

record evaluated_close_condition =
  ec_condition :: hitch_close_condition
  ec_status :: hitch_close_check_status
  ec_check :: "hitch_close_check option"
  ec_message :: close_message
  ec_facetPendingDisposition :: "facet_pending_disposition option"

record close_condition_evaluation =
  ce_conditions :: "evaluated_close_condition list"
  ce_requiredPassed :: int
  ce_requiredFailed :: int
  ce_requiredPending :: int
  ce_allRequiredPassed :: bool

record finding_policy_counts =
  fp_openInScopeP0 :: int
  fp_openInScopeP1 :: int
  fp_openInScopeP2 :: int
  fp_openUnknownScope :: int

datatype row_decision = RD_passed | RD_blocked string | RD_none

datatype evidence_evaluation = EE_passed string | EE_blocked string string | EE_missing

record close_input =
  ci_conditions :: "hitch_close_condition list"
  ci_checks :: "hitch_close_check list"
  ci_findingCounts :: finding_policy_counts
  ci_freshAfter :: "timestamp option"
  ci_allowEmptyCloseConditions :: bool
  ci_changedPaths :: "string list"
  ci_latestCodingRunId :: "string option"
  ci_evidenceRows :: "hitch_evidence list"

section \<open>Latest recorded checks\<close>

definition newer_check :: "hitch_close_check \<Rightarrow> hitch_close_check \<Rightarrow> bool" where
  "newer_check check previous \<longleftrightarrow>
     k_checkedAt check > k_checkedAt previous \<or>
     (k_checkedAt check = k_checkedAt previous \<and> k_checkId check > k_checkId previous)"

definition latestCloseChecksByCondition ::
  "hitch_close_check list \<Rightarrow> string \<Rightarrow> hitch_close_check option" where
  "latestCloseChecksByCondition checks =
     fold (\<lambda>check latest. latest(k_conditionId check :=
             keep_newer newer_check check (latest (k_conditionId check)))) checks Map.empty"

section \<open>Recorded checks\<close>

definition is_fresh :: "timestamp option \<Rightarrow> timestamp \<Rightarrow> bool" where
  "is_fresh freshAfter t \<longleftrightarrow> (case freshAfter of None \<Rightarrow> True | Some fa \<Rightarrow> \<not> t < fa)"

definition evaluateRecordedCheck ::
  "hitch_close_condition \<Rightarrow> hitch_close_check option \<Rightarrow> timestamp option \<Rightarrow> evaluated_close_condition"
where
  "evaluateRecordedCheck condition check freshAfter =
     (case check of
        None \<Rightarrow> \<lparr>ec_condition = condition, ec_status = K_pending, ec_check = None,
          ec_message = Txt ''no close-check evidence recorded'', ec_facetPendingDisposition = None\<rparr>
      | Some chk \<Rightarrow>
          if \<not> is_fresh freshAfter (k_checkedAt chk)
          then \<lparr>ec_condition = condition, ec_status = K_pending, ec_check = check,
            ec_message = Txt (''close-check evidence is stale; ''
              @ ''record fresh evidence after latest mutation''),
            ec_facetPendingDisposition = None\<rparr>
          else \<lparr>ec_condition = condition, ec_status = k_status chk, ec_check = check,
            ec_message = Txt (or_else (k_message chk) (close_check_status_str (k_status chk))),
            ec_facetPendingDisposition = None\<rparr>)"

section \<open>Review consensus\<close>

definition P0_KEYS :: "string list" where
  "P0_KEYS = [''openInScopeP0'', ''open_in_scope_p0'', ''p0'', ''P0'']"

definition P1_KEYS :: "string list" where
  "P1_KEYS = [''openInScopeP1'', ''open_in_scope_p1'', ''p1'', ''P1'']"

fun json_zero :: "json \<Rightarrow> bool" where
  "json_zero (JNum n) = (n = 0)"
| "json_zero (JStr s) = (js_trim s = ''0'')"
| "json_zero _ = False"

fun metricZeroLoop :: "json_object \<Rightarrow> string list \<Rightarrow> string \<Rightarrow> bool \<Rightarrow> row_decision" where
  "metricZeroLoop metrics [] label found =
     (if found then RD_passed else RD_blocked (label @ '' metric is missing''))"
| "metricZeroLoop metrics (key # keys) label found =
     (case map_of metrics key of
        None \<Rightarrow> metricZeroLoop metrics keys label found
      | Some value \<Rightarrow>
          if json_zero value then metricZeroLoop metrics keys label True
          else RD_blocked (label @ '' metric '' @ key @ '' is non-zero or unparseable''))"

definition metricZero :: "json_object \<Rightarrow> string list \<Rightarrow> string \<Rightarrow> row_decision" where
  "metricZero metrics keys label = metricZeroLoop metrics keys label False"

definition reviewConsensusMetricsDecision :: "json_object \<Rightarrow> row_decision" where
  "reviewConsensusMetricsDecision metrics =
     (case metricZero metrics P0_KEYS ''P0'' of
        RD_blocked r \<Rightarrow> RD_blocked r
      | _ \<Rightarrow> (case metricZero metrics P1_KEYS ''P1'' of
          RD_blocked r \<Rightarrow> RD_blocked r
        | _ \<Rightarrow> RD_passed))"

type_synonym transcript_decision = "string option \<Rightarrow> row_decision"

definition reviewConsensusEvidenceDecision ::
  "transcript_decision \<Rightarrow> hitch_evidence \<Rightarrow> row_decision" where
  "reviewConsensusEvidenceDecision td row =
     (case e_kind row of
        EK_metrics \<Rightarrow> reviewConsensusMetricsDecision (e_summaryMetrics row)
      | EK_transcript \<Rightarrow> td (e_outputExcerpt row)
      | _ \<Rightarrow> RD_none)"

text \<open>A stable sort by \<open>newestEvidenceFirst\<close>: descending by creation time, then by id.\<close>

definition newestEvidenceFirst :: "hitch_evidence list \<Rightarrow> hitch_evidence list" where
  "newestEvidenceFirst rows = rev (sort_key (\<lambda>e. (e_createdAt e, e_evidenceId e)) (rev rows))"

fun firstDecisiveEvidence ::
  "transcript_decision \<Rightarrow> hitch_evidence list \<Rightarrow> evidence_evaluation" where
  "firstDecisiveEvidence td [] = EE_missing"
| "firstDecisiveEvidence td (row # rows) =
     (case reviewConsensusEvidenceDecision td row of
        RD_none \<Rightarrow> firstDecisiveEvidence td rows
      | RD_passed \<Rightarrow> EE_passed (e_evidenceId row)
      | RD_blocked reason \<Rightarrow> EE_blocked (e_evidenceId row) reason)"

definition consensus_candidate :: "string \<Rightarrow> timestamp option \<Rightarrow> hitch_evidence \<Rightarrow> bool" where
  "consensus_candidate conditionId freshAfter row \<longleftrightarrow>
     e_attester row = Att_operator \<and> e_conditionId row = Some conditionId
     \<and> is_fresh freshAfter (e_createdAt row)"

definition evaluateReviewConsensusEvidenceRows ::
  "transcript_decision \<Rightarrow> string \<Rightarrow> timestamp option \<Rightarrow> hitch_evidence list \<Rightarrow> evidence_evaluation"
where
  "evaluateReviewConsensusEvidenceRows td conditionId freshAfter evidenceRows =
     firstDecisiveEvidence td
       (newestEvidenceFirst (filter (consensus_candidate conditionId freshAfter) evidenceRows))"

definition evaluateReviewConsensus ::
  "transcript_decision \<Rightarrow> hitch_close_condition \<Rightarrow> hitch_close_check option \<Rightarrow> timestamp option
     \<Rightarrow> hitch_evidence list \<Rightarrow> evaluated_close_condition"
where
  "evaluateReviewConsensus td condition check freshAfter evidenceRows =
     (let checkIsFresh =
            (case check of None \<Rightarrow> False | Some chk \<Rightarrow> is_fresh freshAfter (k_checkedAt chk))
      in if checkIsFresh then evaluateRecordedCheck condition check freshAfter
         else
           (case evaluateReviewConsensusEvidenceRows td (cc_id condition) freshAfter evidenceRows of
              EE_passed eid \<Rightarrow> \<lparr>ec_condition = condition, ec_status = K_passed, ec_check = None,
                ec_message = Txt (''attached Codex review evidence accepted ('' @ eid @ '')''),
                ec_facetPendingDisposition = None\<rparr>
            | EE_blocked eid reason \<Rightarrow> \<lparr>ec_condition = condition, ec_status = K_pending,
                ec_check = None,
                ec_message = Txt (''attached Codex review evidence rejected ('' @ eid @ ''): '' @ reason),
                ec_facetPendingDisposition = None\<rparr>
            | EE_missing \<Rightarrow>
                if check \<noteq> None
                then \<lparr>ec_condition = condition, ec_status = K_pending, ec_check = check,
                  ec_message = Txt (''review consensus close-check is stale; ''
                    @ ''attach fresh Codex no-finding evidence or rerun review''),
                  ec_facetPendingDisposition = None\<rparr>
                else \<lparr>ec_condition = condition, ec_status = K_pending, ec_check = None,
                  ec_message = Txt (''no review consensus evidence recorded; ''
                    @ ''attach Codex no-finding evidence or run review''),
                  ec_facetPendingDisposition = None\<rparr>))"

section \<open>Facet RED tests\<close>

fun facet_close_status :: "facet_coverage_status \<Rightarrow> hitch_close_check_status" where
  "facet_close_status FC_passed = K_passed"
| "facet_close_status FC_failed = K_failed"
| "facet_close_status FC_pending = K_pending"

definition facetPendingDispositionFor :: "facet_coverage_result \<Rightarrow> facet_pending_disposition" where
  "facetPendingDispositionFor result =
     (if \<exists>f \<in> set (fr_perFacet result). pc_status f \<noteq> FC_passed \<and> pc_reasonCode f = FR_no_change
      then Code_recoverable else Evidence_recoverable)"

definition downgradeMissingEvidenceToPending :: "facet_coverage_result \<Rightarrow> hitch_close_check_status" where
  "downgradeMissingEvidenceToPending result =
     (if \<exists>f \<in> set (fr_perFacet result). pc_reasonCode f = FR_fail_open_shape then K_failed
      else if \<forall>f \<in> set (fr_perFacet result). pc_status f = FC_passed then K_passed
      else K_pending)"

definition json_field_str :: "json_object \<Rightarrow> string \<Rightarrow> string option" where
  "json_field_str obj key = Option.bind (map_of obj key) json_str"

definition parseFacetEvidenceEntry :: "json \<Rightarrow> facet_red_evidence option" where
  "parseFacetEvidenceEntry entry =
     (case json_props entry of
        None \<Rightarrow> None
      | Some e \<Rightarrow>
         (case (json_field_str e ''facetId'', json_field_str e ''redTestPath'', json_field_str e ''runId'') of
            (Some facetId, Some redTestPath, Some runId) \<Rightarrow>
              if facetId = [] \<or> redTestPath = [] \<or> runId = [] then None
              else Some \<lparr>fe_facetId = facetId, fe_redTestPath = redTestPath,
                fe_redDemonstrated = (map_of e ''redDemonstrated'' = Some (JBool True)),
                fe_runId = runId, fe_evidenceRef = json_field_str e ''evidenceRef''\<rparr>
          | _ \<Rightarrow> None))"

definition parseFacetEvidence :: "json_object \<Rightarrow> facet_red_evidence list" where
  "parseFacetEvidence evidence =
     (case map_of evidence ''facets'' of
        Some (JArr raw) \<Rightarrow> List.map_filter parseFacetEvidenceEntry raw
      | _ \<Rightarrow> [])"

definition evaluateFacetRedTest ::
  "glob_matcher \<Rightarrow> hitch_close_condition \<Rightarrow> hitch_close_check option \<Rightarrow> timestamp option
     \<Rightarrow> string list \<Rightarrow> string option \<Rightarrow> evaluated_close_condition"
where
  "evaluateFacetRedTest mm condition check freshAfter changedPaths latestCodingRunId =
     (let parsed = parseFacetRule (cc_rule condition)
      in if pf_errors parsed \<noteq> [] then
           \<lparr>ec_condition = condition, ec_status = K_failed, ec_check = check,
            ec_message = Txt (''malformed facet_red_test contract: '' @ js_join ''; '' (pf_errors parsed)),
            ec_facetPendingDisposition = None\<rparr>
         else
           (case latestCodingRunId of
              None \<Rightarrow> \<lparr>ec_condition = condition, ec_status = K_pending, ec_check = check,
                ec_message = Txt ''facet_red_test: no resolvable run to evaluate coverage against'',
                ec_facetPendingDisposition = None\<rparr>
            | Some runId \<Rightarrow>
               if runId = [] then \<lparr>ec_condition = condition, ec_status = K_pending, ec_check = check,
                 ec_message = Txt ''facet_red_test: no resolvable run to evaluate coverage against'',
                 ec_facetPendingDisposition = None\<rparr>
               else
                 (let evidenceIsFresh =
                        (case check of None \<Rightarrow> False | Some chk \<Rightarrow> is_fresh freshAfter (k_checkedAt chk));
                      evidence =
                        (if evidenceIsFresh
                         then parseFacetEvidence (case check of None \<Rightarrow> [] | Some chk \<Rightarrow> k_evidence chk)
                         else []);
                      result = evaluateFacetRedCoverage mm (pf_facets parsed) changedPaths evidence runId;
                      status = (if evidenceIsFresh then facet_close_status (fr_status result)
                                else downgradeMissingEvidenceToPending result);
                      disposition = (if status = K_pending
                                     then Some (facetPendingDispositionFor result) else None)
                  in \<lparr>ec_condition = condition, ec_status = status, ec_check = check,
                      ec_message = Txt
                        (if check \<noteq> None \<and> \<not> evidenceIsFresh \<and> disposition = Some Evidence_recoverable
                         then ''facet_red_test: recorded evidence is stale; ''
                           @ ''record fresh RED evidence after latest mutation''
                         else fr_message result),
                      ec_facetPendingDisposition = disposition\<rparr>)))"

section \<open>Attached evidence\<close>

fun evidence_kind_of :: "string \<Rightarrow> hitch_evidence_kind option" where
  "evidence_kind_of s =
     (if s = ''command'' then Some EK_command
      else if s = ''metrics'' then Some EK_metrics
      else if s = ''before_after'' then Some EK_before_after
      else if s = ''transcript'' then Some EK_transcript
      else if s = ''note'' then Some EK_note
      else None)"

record parsed_evidence_rule =
  er_kind :: "hitch_evidence_kind option"
  er_requiredMetricKeys :: "string list option"
  er_errors :: "evidence_rule_error list"

definition parseEvidenceAttachedRule :: "json_object option \<Rightarrow> parsed_evidence_rule" where
  "parseEvidenceAttachedRule rule =
     (case rule of
        None \<Rightarrow> \<lparr>er_kind = None, er_requiredMetricKeys = None, er_errors = []\<rparr>
      | Some r \<Rightarrow>
         (let raw_kind = map_of r ''kind'';
              kind = Option.bind (Option.bind raw_kind json_str) evidence_kind_of;
              raw_keys = map_of r ''requiredMetricKeys'';
              keys_ok = (case raw_keys of None \<Rightarrow> True | Some v \<Rightarrow> isStringArray v)
          in \<lparr>er_kind = kind,
              er_requiredMetricKeys = (if keys_ok then map_option json_str_list raw_keys else None),
              er_errors =
                (case raw_kind of
                   None \<Rightarrow> []
                 | Some v \<Rightarrow> if kind = None then [Unknown_evidence_kind v] else [])
                @ (if keys_ok then [] else [Bad_required_metric_keys])\<rparr>))"

definition evidence_candidate ::
  "hitch_close_condition \<Rightarrow> parsed_evidence_rule \<Rightarrow> hitch_evidence \<Rightarrow> bool" where
  "evidence_candidate condition parsed row \<longleftrightarrow>
     e_attester row = Att_operator \<and> e_conditionId row = Some (cc_id condition)
     \<and> (case er_kind parsed of None \<Rightarrow> True | Some kd \<Rightarrow> e_kind row = kd)
     \<and> (case er_requiredMetricKeys parsed of
          None \<Rightarrow> True
        | Some ks \<Rightarrow> \<forall>key \<in> set ks. map_of (e_summaryMetrics row) key \<noteq> None)"

definition evaluateEvidenceAttached ::
  "hitch_close_condition \<Rightarrow> hitch_evidence list \<Rightarrow> timestamp option \<Rightarrow> evaluated_close_condition"
where
  "evaluateEvidenceAttached condition evidenceRows freshAfter =
     (let parsed = parseEvidenceAttachedRule (cc_rule condition);
          candidates = filter (evidence_candidate condition parsed) evidenceRows
      in if er_errors parsed \<noteq> [] then
           \<lparr>ec_condition = condition, ec_status = K_failed, ec_check = None,
            ec_message = Malformed_evidence_contract (er_errors parsed), ec_facetPendingDisposition = None\<rparr>
         else if candidates = [] then
           \<lparr>ec_condition = condition, ec_status = K_pending, ec_check = None,
            ec_message = Txt ''no operator evidence attached for this condition'',
            ec_facetPendingDisposition = None\<rparr>
         else if \<not> (\<exists>row \<in> set candidates. is_fresh freshAfter (e_createdAt row)) then
           \<lparr>ec_condition = condition, ec_status = K_pending, ec_check = None,
            ec_message = Txt (''attached evidence is stale; record fresh evidence after latest mutation''),
            ec_facetPendingDisposition = None\<rparr>
         else
           \<lparr>ec_condition = condition, ec_status = K_passed, ec_check = None,
            ec_message = Txt ''operator evidence attached'', ec_facetPendingDisposition = None\<rparr>)"

section \<open>Finding policies\<close>

text \<open>\<open>numberRule(value, Infinity)\<close>: \<open>None\<close> is positive infinity.\<close>

fun numberRule :: "json option \<Rightarrow> rat option" where
  "numberRule (Some (JNum n)) = Some n"
| "numberRule _ = None"

definition finding_policy_violations ::
  "json_object \<Rightarrow> finding_policy_counts \<Rightarrow> (string \<times> int \<times> rat) list" where
  "finding_policy_violations rule counts =
     List.map_filter
       (\<lambda>(name, actual). case numberRule (map_of rule name) of
          None \<Rightarrow> None
        | Some mx \<Rightarrow> if rat_of_int actual > mx then Some (name, actual, mx) else None)
       [(''maxOpenInScopeP0'', fp_openInScopeP0 counts),
        (''maxOpenInScopeP1'', fp_openInScopeP1 counts),
        (''maxOpenInScopeP2'', fp_openInScopeP2 counts),
        (''maxOpenUnknownScope'', fp_openUnknownScope counts)]"

definition evaluateFindingPolicy ::
  "hitch_close_condition \<Rightarrow> finding_policy_counts \<Rightarrow> evaluated_close_condition" where
  "evaluateFindingPolicy condition counts =
     (let failed = finding_policy_violations (or_else (cc_rule condition) []) counts
      in \<lparr>ec_condition = condition,
          ec_status = (if failed = [] then K_passed else K_failed),
          ec_check = None,
          ec_message = (if failed = [] then Txt ''finding policy passed''
                        else Finding_policy_violations failed),
          ec_facetPendingDisposition = None\<rparr>)"

section \<open>The gate\<close>

definition evaluateCloseCondition ::
  "glob_matcher \<Rightarrow> transcript_decision \<Rightarrow> close_input \<Rightarrow> hitch_close_condition
     \<Rightarrow> evaluated_close_condition" where
  "evaluateCloseCondition mm td inp condition =
     (let latest = latestCloseChecksByCondition (ci_checks inp)
      in case cc_kind condition of
           CK_finding_policy \<Rightarrow> evaluateFindingPolicy condition (ci_findingCounts inp)
         | CK_facet_red_test \<Rightarrow> evaluateFacetRedTest mm condition (latest (cc_id condition))
             (ci_freshAfter inp) (ci_changedPaths inp) (ci_latestCodingRunId inp)
         | CK_evidence_attached \<Rightarrow> evaluateEvidenceAttached condition (ci_evidenceRows inp)
             (ci_freshAfter inp)
         | CK_review_consensus \<Rightarrow> evaluateReviewConsensus td condition (latest (cc_id condition))
             (ci_freshAfter inp) (ci_evidenceRows inp)
         | _ \<Rightarrow> evaluateRecordedCheck condition (latest (cc_id condition)) (ci_freshAfter inp))"

definition evaluateCloseConditions ::
  "glob_matcher \<Rightarrow> transcript_decision \<Rightarrow> close_input \<Rightarrow> close_condition_evaluation" where
  "evaluateCloseConditions mm td inp =
     (if ci_conditions inp = [] \<and> \<not> ci_allowEmptyCloseConditions inp then
        \<lparr>ce_conditions = [], ce_requiredPassed = 0, ce_requiredFailed = 0, ce_requiredPending = 1,
         ce_allRequiredPassed = False\<rparr>
      else
        (let conditions = map (evaluateCloseCondition mm td inp) (ci_conditions inp);
             required = filter (\<lambda>e. cc_required (ec_condition e)) conditions;
             passed = length (filter (\<lambda>e. ec_status e = K_passed) required);
             failed = length (filter (\<lambda>e. ec_status e = K_failed) required);
             pending = length (filter (\<lambda>e. ec_status e \<noteq> K_passed \<and> ec_status e \<noteq> K_failed) required)
         in \<lparr>ce_conditions = conditions, ce_requiredPassed = int passed, ce_requiredFailed = int failed,
             ce_requiredPending = int pending, ce_allRequiredPassed = (failed = 0 \<and> pending = 0)\<rparr>))"

section \<open>The newest check wins\<close>

interpretation checks: strict_weak_order newer_check
  by unfold_locales (auto simp: newer_check_def)

lemma latest_fold:
  "fold (\<lambda>check latest. latest(k_conditionId check :=
      keep_newer newer_check check (latest (k_conditionId check)))) checks m cid =
   fold (keep_newer newer_check) (filter (\<lambda>c. k_conditionId c = cid) checks) (m cid)"
  by (induction checks arbitrary: m) auto

lemma latest_newest:
  "latestCloseChecksByCondition checks cid =
   newest newer_check (filter (\<lambda>c. k_conditionId c = cid) checks)"
  by (simp add: latestCloseChecksByCondition_def newest_def latest_fold)

lemma latest_None_iff:
  "latestCloseChecksByCondition checks cid = None \<longleftrightarrow> cid \<notin> set (map k_conditionId checks)"
  by (auto simp: latest_newest newest_None_iff filter_empty_conv)

lemma latest_SomeD:
  assumes "latestCloseChecksByCondition checks cid = Some chk"
  shows "chk \<in> set checks" "k_conditionId chk = cid"
    "c \<in> set checks \<Longrightarrow> k_conditionId c = cid \<Longrightarrow> \<not> newer_check c chk"
proof -
  let ?xs = "filter (\<lambda>c. k_conditionId c = cid) checks"
  have nw: "newest newer_check ?xs = Some chk" using assms by (simp add: latest_newest)
  from newest_mem [OF this] show "chk \<in> set checks" "k_conditionId chk = cid" by auto
  show "c \<in> set checks \<Longrightarrow> k_conditionId c = cid \<Longrightarrow> \<not> newer_check c chk"
    using checks.newest_max [OF nw, of c] by simp
qed

lemma newer_check_total:
  "k_checkId a \<noteq> k_checkId b \<Longrightarrow> newer_check a b \<or> newer_check b a"
  by (auto simp: newer_check_def neq_iff)

section \<open>When a condition passes\<close>

lemma is_fresh_simps [simp]:
  "is_fresh None t" "is_fresh (Some fa) t \<longleftrightarrow> fa \<le> t"
  by (auto simp: is_fresh_def not_less)

lemma ec_condition_recorded [simp]: "ec_condition (evaluateRecordedCheck c check fa) = c"
  by (simp add: evaluateRecordedCheck_def split: option.split)

lemma ec_condition_policy [simp]: "ec_condition (evaluateFindingPolicy c counts) = c"
  by (simp add: evaluateFindingPolicy_def Let_def)

lemma ec_condition_evidence [simp]: "ec_condition (evaluateEvidenceAttached c rows fa) = c"
  by (simp add: evaluateEvidenceAttached_def Let_def)

lemma ec_condition_consensus [simp]: "ec_condition (evaluateReviewConsensus td c check fa rows) = c"
  by (simp add: evaluateReviewConsensus_def Let_def split: evidence_evaluation.split)

lemma ec_condition_facet [simp]: "ec_condition (evaluateFacetRedTest mm c check fa paths run) = c"
proof (cases run)
  case (Some runId)
  then show ?thesis by (simp add: evaluateFacetRedTest_def Let_def)
qed (simp add: evaluateFacetRedTest_def Let_def)

lemma ec_condition_evaluate [simp]: "ec_condition (evaluateCloseCondition mm td inp c) = c"
  by (cases "cc_kind c") (simp_all add: evaluateCloseCondition_def)

lemma evaluateRecordedCheck_passed_iff [fail_closed]:
  "ec_status (evaluateRecordedCheck c check fa) = K_passed \<longleftrightarrow>
   (\<exists>chk. check = Some chk \<and> is_fresh fa (k_checkedAt chk) \<and> k_status chk = K_passed)"
  by (auto simp: evaluateRecordedCheck_def split: option.splits)

lemma evaluateFindingPolicy_passed_iff [fail_closed]:
  "ec_status (evaluateFindingPolicy c counts) = K_passed \<longleftrightarrow>
   finding_policy_violations (or_else (cc_rule c) []) counts = []"
  by (simp add: evaluateFindingPolicy_def Let_def)

lemma evaluateEvidenceAttached_passed_iff [fail_closed]:
  "ec_status (evaluateEvidenceAttached c rows fa) = K_passed \<longleftrightarrow>
   er_errors (parseEvidenceAttachedRule (cc_rule c)) = [] \<and>
   (\<exists>row \<in> set rows. evidence_candidate c (parseEvidenceAttachedRule (cc_rule c)) row
      \<and> is_fresh fa (e_createdAt row))"
  by (auto simp: evaluateEvidenceAttached_def Let_def filter_empty_conv)

text \<open>With no evidence at all no facet is demonstrated, so a non-empty contract cannot pass.\<close>

lemma facet_demonstrated_Nil [simp]: "\<not> facet_demonstrated mm paths [] runId f"
  by (simp add: facet_demonstrated_def)

lemma perFacet_no_evidence:
  "f \<in> set (fr_perFacet (evaluateFacetRedCoverage mm facets paths [] runId)) \<Longrightarrow>
   pc_status f \<noteq> FC_passed"
  by (auto simp: evaluateFacetRedCoverage_def Let_def evaluateOneFacet_passed_iff split: if_splits)

lemma perFacet_nonempty:
  "facets \<noteq> [] \<Longrightarrow> fr_perFacet (evaluateFacetRedCoverage mm facets paths ev runId) \<noteq> []"
  by (simp add: evaluateFacetRedCoverage_def Let_def)

lemma downgrade_never_passes:
  "facets \<noteq> [] \<Longrightarrow>
   downgradeMissingEvidenceToPending (evaluateFacetRedCoverage mm facets paths [] runId) \<noteq> K_passed"
  using perFacet_no_evidence [of _ mm facets paths runId] perFacet_nonempty [of facets mm paths "[]" runId]
  by (auto simp: downgradeMissingEvidenceToPending_def dest: hd_in_set)

lemma parsed_facets_nonempty:
  "pf_errors (parseFacetRule rule) = [] \<Longrightarrow> pf_facets (parseFacetRule rule) \<noteq> []"
  by (erule parseFacetRule_complete) auto

lemma facet_close_status_passed [simp]: "facet_close_status s = K_passed \<longleftrightarrow> s = FC_passed"
  by (cases s) auto

lemma evaluateFacetRedTest_passed_iff [fail_closed]:
  "ec_status (evaluateFacetRedTest mm c check fa paths run) = K_passed \<longleftrightarrow>
   (\<exists>runId chk. run = Some runId \<and> runId \<noteq> [] \<and> check = Some chk \<and> is_fresh fa (k_checkedAt chk)
      \<and> pf_errors (parseFacetRule (cc_rule c)) = []
      \<and> (\<forall>f \<in> set (pf_facets (parseFacetRule (cc_rule c))).
           facet_demonstrated mm paths (parseFacetEvidence (k_evidence chk)) runId f))"
  using parsed_facets_nonempty [of "cc_rule c"]
  by (auto simp: evaluateFacetRedTest_def Let_def downgrade_never_passes
      evaluateFacetRedCoverage_passed_iff split: option.splits if_splits)

subsection \<open>Review consensus\<close>

lemma set_newestEvidenceFirst [simp]: "set (newestEvidenceFirst rows) = set rows"
  by (simp add: newestEvidenceFirst_def)

lemma newestEvidenceFirst_sorted:
  "sorted_wrt (\<lambda>a b. (e_createdAt b, e_evidenceId b) \<le> (e_createdAt a, e_evidenceId a))
     (newestEvidenceFirst rows)"
  using sorted_sort_key [of "\<lambda>e. (e_createdAt e, e_evidenceId e)" "rev rows"]
  by (simp add: newestEvidenceFirst_def sorted_wrt_rev sorted_map)

lemma firstDecisiveEvidence_passed:
  assumes "firstDecisiveEvidence td rows = EE_passed eid"
  obtains pre row post where "rows = pre @ row # post" "e_evidenceId row = eid"
    "reviewConsensusEvidenceDecision td row = RD_passed"
    "\<forall>r \<in> set pre. reviewConsensusEvidenceDecision td r = RD_none"
proof -
  from assms have "\<exists>pre row post. rows = pre @ row # post \<and> e_evidenceId row = eid \<and>
    reviewConsensusEvidenceDecision td row = RD_passed \<and>
    (\<forall>r \<in> set pre. reviewConsensusEvidenceDecision td r = RD_none)"
  proof (induction rows)
    case (Cons r rows)
    show ?case
    proof (cases "reviewConsensusEvidenceDecision td r")
      case RD_passed
      with Cons.prems show ?thesis by (intro exI [of _ "[]"]) auto
    next
      case RD_none
      with Cons obtain pre row post where "rows = pre @ row # post" "e_evidenceId row = eid"
        "reviewConsensusEvidenceDecision td row = RD_passed"
        "\<forall>r \<in> set pre. reviewConsensusEvidenceDecision td r = RD_none" by auto
      with RD_none show ?thesis by (intro exI [of _ "r # pre"]) auto
    qed (use Cons.prems in auto)
  qed simp
  then show ?thesis using that by blast
qed

text \<open>
  Accepted consensus evidence: an operator row for this condition, fresh, that passes, while every
  such row that is strictly newer says nothing about the verdict.
\<close>

definition consensus_evidence_accepted ::
  "transcript_decision \<Rightarrow> string \<Rightarrow> timestamp option \<Rightarrow> hitch_evidence list \<Rightarrow> bool" where
  "consensus_evidence_accepted td cid fa rows \<longleftrightarrow>
     (\<exists>row \<in> set rows. consensus_candidate cid fa row
        \<and> reviewConsensusEvidenceDecision td row = RD_passed
        \<and> (\<forall>r \<in> set rows. consensus_candidate cid fa r
             \<and> (e_createdAt row, e_evidenceId row) < (e_createdAt r, e_evidenceId r)
             \<longrightarrow> reviewConsensusEvidenceDecision td r = RD_none))"

lemma evidence_rows_passed:
  assumes "evaluateReviewConsensusEvidenceRows td cid fa rows = EE_passed eid"
  shows "consensus_evidence_accepted td cid fa rows"
proof -
  let ?rows = "newestEvidenceFirst (filter (consensus_candidate cid fa) rows)"
  from assms obtain pre row post where split: "?rows = pre @ row # post"
    and row: "reviewConsensusEvidenceDecision td row = RD_passed"
    and pre: "\<forall>r \<in> set pre. reviewConsensusEvidenceDecision td r = RD_none"
    unfolding evaluateReviewConsensusEvidenceRows_def by (rule firstDecisiveEvidence_passed)
  have members: "set (pre @ row # post) = {r \<in> set rows. consensus_candidate cid fa r}"
    using split [symmetric] by auto
  have "\<forall>r \<in> set post. (e_createdAt r, e_evidenceId r) \<le> (e_createdAt row, e_evidenceId row)"
    using newestEvidenceFirst_sorted [of "filter (consensus_candidate cid fa) rows"]
    by (simp add: split sorted_wrt_append)
  then have "reviewConsensusEvidenceDecision td r = RD_none"
    if "r \<in> set rows" "consensus_candidate cid fa r"
      "(e_createdAt row, e_evidenceId row) < (e_createdAt r, e_evidenceId r)" for r
  proof -
    have "r \<in> set (pre @ row # post)" using that members by blast
    moreover have "r \<notin> set post" "r \<noteq> row"
      using that(3) \<open>\<forall>r \<in> set post. _ r\<close> leD by blast+
    ultimately show ?thesis using pre by auto
  qed
  moreover have "row \<in> set rows \<and> consensus_candidate cid fa row" using members by auto
  ultimately show ?thesis using row by (auto simp: consensus_evidence_accepted_def)
qed

lemma evaluateReviewConsensus_passed [fail_closed]:
  assumes "ec_status (evaluateReviewConsensus td c check fa rows) = K_passed"
  shows "(\<exists>chk. check = Some chk \<and> is_fresh fa (k_checkedAt chk) \<and> k_status chk = K_passed)
    \<or> (\<forall>chk. check = Some chk \<longrightarrow> \<not> is_fresh fa (k_checkedAt chk))
       \<and> consensus_evidence_accepted td (cc_id c) fa rows"
  using assms evidence_rows_passed [of td "cc_id c" fa rows]
  by (auto simp: evaluateReviewConsensus_def Let_def evaluateRecordedCheck_passed_iff
      split: option.splits if_splits evidence_evaluation.splits)

text \<open>Conversely, when the rows have distinct ids, accepted evidence is what the scan finds.\<close>

lemma firstDecisiveEvidence_skip:
  "\<forall>r \<in> set pre. reviewConsensusEvidenceDecision td r = RD_none \<Longrightarrow>
   reviewConsensusEvidenceDecision td row = RD_passed \<Longrightarrow>
   firstDecisiveEvidence td (pre @ row # post) = EE_passed (e_evidenceId row)"
  by (induction pre) auto

lemma evidence_rows_accepted:
  assumes "consensus_evidence_accepted td cid fa rows" and dist: "distinct (map e_evidenceId rows)"
  shows "\<exists>eid. evaluateReviewConsensusEvidenceRows td cid fa rows = EE_passed eid"
proof -
  let ?fs = "filter (consensus_candidate cid fa) rows"
  let ?rows = "newestEvidenceFirst ?fs"
  from assms(1) obtain row where row: "row \<in> set ?rows"
    and passed: "reviewConsensusEvidenceDecision td row = RD_passed"
    and newer: "\<And>r. r \<in> set ?rows \<Longrightarrow>
      (e_createdAt row, e_evidenceId row) < (e_createdAt r, e_evidenceId r) \<Longrightarrow>
      reviewConsensusEvidenceDecision td r = RD_none"
    by (auto simp: consensus_evidence_accepted_def)
  from row obtain pre post where split: "?rows = pre @ row # post" using split_list by metis
  have "distinct (map e_evidenceId ?rows)"
    using distinct_map_filter [OF dist, of "consensus_candidate cid fa"]
    by (simp add: newestEvidenceFirst_def distinct_map)
  then have ids: "e_evidenceId r \<noteq> e_evidenceId row" if "r \<in> set pre" for r
    using that unfolding split by (simp add: image_iff) (metis (no_types))
  have "(e_createdAt row, e_evidenceId row) \<le> (e_createdAt r, e_evidenceId r)" if "r \<in> set pre" for r
    using newestEvidenceFirst_sorted [of ?fs] that by (auto simp: split sorted_wrt_append)
  then have "(e_createdAt row, e_evidenceId row) < (e_createdAt r, e_evidenceId r)" if "r \<in> set pre" for r
    using that ids by (metis order_le_imp_less_or_eq prod.inject)
  moreover have "r \<in> set ?rows" if "r \<in> set pre" for r
    unfolding split using that by simp
  ultimately have "\<forall>r \<in> set pre. reviewConsensusEvidenceDecision td r = RD_none"
    using newer by blast
  then show ?thesis
    unfolding evaluateReviewConsensusEvidenceRows_def split
    using firstDecisiveEvidence_skip passed by blast
qed

section \<open>What an open gate means\<close>

text \<open>
  The contract of a close condition, by its kind, over the newest recorded check, the evidence
  rows, the finding counts and the changed paths.
\<close>

definition recorded_pass :: "close_input \<Rightarrow> string \<Rightarrow> bool" where
  "recorded_pass inp cid \<longleftrightarrow>
     (\<exists>chk. latestCloseChecksByCondition (ci_checks inp) cid = Some chk
        \<and> is_fresh (ci_freshAfter inp) (k_checkedAt chk) \<and> k_status chk = K_passed)"

definition fresh_check_recorded :: "close_input \<Rightarrow> string \<Rightarrow> bool" where
  "fresh_check_recorded inp cid \<longleftrightarrow>
     (\<exists>chk. latestCloseChecksByCondition (ci_checks inp) cid = Some chk
        \<and> is_fresh (ci_freshAfter inp) (k_checkedAt chk))"

definition close_condition_met ::
  "glob_matcher \<Rightarrow> transcript_decision \<Rightarrow> close_input \<Rightarrow> hitch_close_condition \<Rightarrow> bool" where
  "close_condition_met mm td inp c \<longleftrightarrow>
     (case cc_kind c of
        CK_finding_policy \<Rightarrow>
          finding_policy_violations (or_else (cc_rule c) []) (ci_findingCounts inp) = []
      | CK_facet_red_test \<Rightarrow>
          pf_errors (parseFacetRule (cc_rule c)) = [] \<and>
          (\<exists>runId chk. ci_latestCodingRunId inp = Some runId \<and> runId \<noteq> []
             \<and> latestCloseChecksByCondition (ci_checks inp) (cc_id c) = Some chk
             \<and> is_fresh (ci_freshAfter inp) (k_checkedAt chk)
             \<and> (\<forall>f \<in> set (pf_facets (parseFacetRule (cc_rule c))). facet_demonstrated mm
                  (ci_changedPaths inp) (parseFacetEvidence (k_evidence chk)) runId f))
      | CK_evidence_attached \<Rightarrow>
          er_errors (parseEvidenceAttachedRule (cc_rule c)) = [] \<and>
          (\<exists>row \<in> set (ci_evidenceRows inp).
             evidence_candidate c (parseEvidenceAttachedRule (cc_rule c)) row
             \<and> is_fresh (ci_freshAfter inp) (e_createdAt row))
      | CK_review_consensus \<Rightarrow>
          recorded_pass inp (cc_id c) \<or>
          \<not> fresh_check_recorded inp (cc_id c)
            \<and> consensus_evidence_accepted td (cc_id c) (ci_freshAfter inp) (ci_evidenceRows inp)
      | _ \<Rightarrow> recorded_pass inp (cc_id c))"

lemma evaluateReviewConsensus_passed_iff:
  assumes "distinct (map e_evidenceId rows)"
  shows "ec_status (evaluateReviewConsensus td c check fa rows) = K_passed \<longleftrightarrow>
    (\<exists>chk. check = Some chk \<and> is_fresh fa (k_checkedAt chk) \<and> k_status chk = K_passed)
    \<or> (\<forall>chk. check = Some chk \<longrightarrow> \<not> is_fresh fa (k_checkedAt chk))
       \<and> consensus_evidence_accepted td (cc_id c) fa rows"
proof (cases "\<exists>chk. check = Some chk \<and> is_fresh fa (k_checkedAt chk)")
  case True
  then show ?thesis by (auto simp: evaluateReviewConsensus_def evaluateRecordedCheck_passed_iff)
next
  case False
  then have "ec_status (evaluateReviewConsensus td c check fa rows) = K_passed \<longleftrightarrow>
      (\<exists>eid. evaluateReviewConsensusEvidenceRows td (cc_id c) fa rows = EE_passed eid)"
    by (auto simp: evaluateReviewConsensus_def Let_def split: option.splits evidence_evaluation.split)
  then show ?thesis
    using False evidence_rows_passed [of td "cc_id c" fa rows] evidence_rows_accepted [OF _ assms]
    by blast
qed

lemma evaluateCloseCondition_passed_iff:
  assumes "distinct (map e_evidenceId (ci_evidenceRows inp))"
  shows "ec_status (evaluateCloseCondition mm td inp c) = K_passed \<longleftrightarrow> close_condition_met mm td inp c"
proof (cases "cc_kind c")
  case CK_review_consensus
  then show ?thesis
    by (auto simp: evaluateCloseCondition_def evaluateReviewConsensus_passed_iff [OF assms]
        close_condition_met_def recorded_pass_def fresh_check_recorded_def)
next
  case CK_facet_red_test
  then show ?thesis
    by (auto simp: evaluateCloseCondition_def close_condition_met_def evaluateFacetRedTest_passed_iff)
qed (simp_all add: evaluateCloseCondition_def close_condition_met_def evaluateFindingPolicy_passed_iff
       evaluateEvidenceAttached_passed_iff evaluateRecordedCheck_passed_iff recorded_pass_def)

lemma no_failed_no_pending:
  "filter (\<lambda>c. st c = K_failed) cs = [] \<and> filter (\<lambda>c. st c \<noteq> K_passed \<and> st c \<noteq> K_failed) cs = []
   \<longleftrightarrow> (\<forall>c \<in> set cs. st c = K_passed)"
  by (induction cs) auto

lemma all_image_iff: "(\<forall>e. e \<in> f ` A \<and> P e \<longrightarrow> Q e) \<longleftrightarrow> (\<forall>c \<in> A. P (f c) \<longrightarrow> Q (f c))"
  by blast

lemma allRequiredPassed_iff:
  "ce_allRequiredPassed (evaluateCloseConditions mm td inp) \<longleftrightarrow>
   (ci_conditions inp \<noteq> [] \<or> ci_allowEmptyCloseConditions inp) \<and>
   (\<forall>c \<in> set (ci_conditions inp). cc_required c \<longrightarrow>
      ec_status (evaluateCloseCondition mm td inp c) = K_passed)"
  by (simp add: evaluateCloseConditions_def Let_def no_failed_no_pending all_image_iff)

text \<open>
  C2: the close gate opens exactly when there is at least one condition (or the policy allows none)
  and every required condition meets the contract of its kind.
\<close>

theorem close_gate_iff:
  assumes "distinct (map e_evidenceId (ci_evidenceRows inp))"
  shows "ce_allRequiredPassed (evaluateCloseConditions mm td inp) \<longleftrightarrow>
    (ci_conditions inp \<noteq> [] \<or> ci_allowEmptyCloseConditions inp) \<and>
    (\<forall>c \<in> set (ci_conditions inp). cc_required c \<longrightarrow> close_condition_met mm td inp c)"
  by (simp add: allRequiredPassed_iff evaluateCloseCondition_passed_iff [OF assms])

text \<open>A gate with a command condition that passed after the latest mutation, a manual condition that
  is not required, and a finding policy.\<close>

definition ex_condition :: "string \<Rightarrow> hitch_close_condition_kind \<Rightarrow> bool \<Rightarrow> json_object option
    \<Rightarrow> hitch_close_condition" where
  "ex_condition cid kind req rule = \<lparr>cc_id = cid, cc_kind = kind, cc_required = req,
     cc_description = None, cc_command = None, cc_rule = rule, cc_metadata = None\<rparr>"

definition ex_check :: "string \<Rightarrow> string \<Rightarrow> hitch_close_check_status \<Rightarrow> timestamp \<Rightarrow> hitch_close_check" where
  "ex_check kid cid st t = \<lparr>k_checkId = kid, k_hitchId = ''h1'', k_conditionId = cid, k_status = st,
     k_checkedAt = t, k_checkedBy = ''op'', k_evidence = [], k_message = None\<rparr>"

definition ex_close_input :: "timestamp option \<Rightarrow> close_input" where
  "ex_close_input fa = \<lparr>
     ci_conditions = [ex_condition ''tests'' CK_command True None,
       ex_condition ''signoff'' CK_manual False None,
       ex_condition ''policy'' CK_finding_policy True (Some [(''maxOpenInScopeP1'', JNum 0)])],
     ci_checks = [ex_check ''k1'' ''tests'' K_failed ''t1'', ex_check ''k2'' ''tests'' K_passed ''t3''],
     ci_findingCounts = \<lparr>fp_openInScopeP0 = 0, fp_openInScopeP1 = 0, fp_openInScopeP2 = 4,
       fp_openUnknownScope = 0\<rparr>,
     ci_freshAfter = fa, ci_allowEmptyCloseConditions = False, ci_changedPaths = [],
     ci_latestCodingRunId = None, ci_evidenceRows = []\<rparr>"

lemmas ex_close_simps = ex_close_input_def ex_condition_def ex_check_def

theorem close_gate_iff_witness:
  "distinct (map e_evidenceId (ci_evidenceRows (ex_close_input (Some ''t2'')))) \<and>
   ce_allRequiredPassed (evaluateCloseConditions (=) (\<lambda>_. RD_none) (ex_close_input (Some ''t2''))) \<and>
   \<not> ce_allRequiredPassed (evaluateCloseConditions (=) (\<lambda>_. RD_none) (ex_close_input (Some ''t4'')))"
  using close_gate_iff [of "ex_close_input (Some ''t2'')" "(=)" "\<lambda>_. RD_none"]
    close_gate_iff [of "ex_close_input (Some ''t4'')" "(=)" "\<lambda>_. RD_none"]
  by (simp add: ex_close_simps close_condition_met_def recorded_pass_def latestCloseChecksByCondition_def
      keep_newer_def newer_check_def finding_policy_violations_def List.map_filter_def)

lemma close_gate_counts:
  assumes "ci_conditions inp \<noteq> []"
  shows "ce_requiredPassed (evaluateCloseConditions mm td inp)
    + ce_requiredFailed (evaluateCloseConditions mm td inp)
    + ce_requiredPending (evaluateCloseConditions mm td inp) =
    int (length (filter cc_required (ci_conditions inp)))"
proof -
  have "length (filter (\<lambda>c. cc_required c \<and> st c = K_passed) cs)
      + length (filter (\<lambda>c. cc_required c \<and> st c = K_failed) cs)
      + length (filter (\<lambda>c. cc_required c \<and> st c \<noteq> K_passed \<and> st c \<noteq> K_failed) cs) =
      length (filter cc_required cs)" for st and cs :: "hitch_close_condition list"
    by (induction cs) auto
  then show ?thesis
    using assms by (simp add: evaluateCloseConditions_def Let_def filter_map o_def flip: of_nat_add)
qed

text \<open>
  Evidence older than the latest mutation never opens the gate. When every recorded check and
  every evidence row predates \<open>freshAfter\<close>, no condition passes except a finding policy, which reads
  the current findings.
\<close>

theorem stale_evidence_never_passes:
  assumes "ci_freshAfter inp = Some fa"
    and "\<forall>chk \<in> set (ci_checks inp). k_checkedAt chk < fa"
    and "\<forall>row \<in> set (ci_evidenceRows inp). e_createdAt row < fa"
    and "ec_status (evaluateCloseCondition mm td inp c) = K_passed"
  shows "cc_kind c = CK_finding_policy"
proof -
  have stale: "\<not> is_fresh (ci_freshAfter inp) (k_checkedAt chk)"
    if "latestCloseChecksByCondition (ci_checks inp) cid = Some chk" for cid chk
    using latest_SomeD(1) [OF that] assms(1,2) by force
  have no_row: "\<not> is_fresh (ci_freshAfter inp) (e_createdAt row)" if "row \<in> set (ci_evidenceRows inp)" for row
    using that assms(1,3) by force
  have "\<not> consensus_evidence_accepted td cid (ci_freshAfter inp) (ci_evidenceRows inp)" for cid
    using no_row by (auto simp: consensus_evidence_accepted_def consensus_candidate_def)
  then show ?thesis
    using assms(4) stale no_row
    by (cases "cc_kind c")
      (auto simp: evaluateCloseCondition_def evaluateRecordedCheck_passed_iff
        evaluateFacetRedTest_passed_iff evaluateEvidenceAttached_passed_iff
        dest!: evaluateReviewConsensus_passed)
qed

theorem stale_evidence_never_passes_witness:
  "ec_status (evaluateCloseCondition (=) (\<lambda>_. RD_none) (ex_close_input (Some ''t4''))
      (ex_condition ''policy'' CK_finding_policy True None)) = K_passed \<and>
   cc_kind (ex_condition ''policy'' CK_finding_policy True None) = CK_finding_policy"
  using stale_evidence_never_passes [of "ex_close_input (Some ''t4'')" "''t4''" "(=)" "\<lambda>_. RD_none"
      "ex_condition ''policy'' CK_finding_policy True None"]
  by (simp add: ex_close_simps evaluateCloseCondition_def evaluateFindingPolicy_def
      finding_policy_violations_def List.map_filter_def)

end
