(* ===== verification/Text_Match.thy ===== *)
theory Text_Match
  imports Harness_Prelude
begin

text \<open>
  The text functions of JavaScript that the classifiers use: lower-casing, whitespace collapsing,
  and the two shapes of word search that the sources write as regular expressions. Text is ASCII:
  \<open>toLowerCase\<close>, \<open>trim\<close>, \<open>\s\<close> and the case-insensitive flag are modelled on ASCII characters.
\<close>

definition char_code :: "char \<Rightarrow> nat" where
  "char_code c = of_char c"

definition to_lower_char :: "char \<Rightarrow> char" where
  "to_lower_char c = (if 65 \<le> char_code c \<and> char_code c \<le> 90 then char_of (char_code c + 32) else c)"

definition js_lower :: "string \<Rightarrow> string" where
  "js_lower s = map to_lower_char s"

text \<open>\<open>s.replace(/\s+/g, " ")\<close>\<close>

fun collapse_ws :: "string \<Rightarrow> string" where
  "collapse_ws [] = []"
| "collapse_ws (c # cs) =
     (if is_ws c
      then (case cs of
              d # _ \<Rightarrow> if is_ws d then collapse_ws cs else CHR '' '' # collapse_ws cs
            | [] \<Rightarrow> [CHR '' ''])
      else c # collapse_ws cs)"

definition is_lower_alnum :: "char \<Rightarrow> bool" where
  "is_lower_alnum c \<longleftrightarrow> (97 \<le> char_code c \<and> char_code c \<le> 122) \<or> (48 \<le> char_code c \<and> char_code c \<le> 57)"

text \<open>The class \<open>\w\<close> of regular expressions.\<close>

definition is_word_char :: "char \<Rightarrow> bool" where
  "is_word_char c \<longleftrightarrow> is_lower_alnum (to_lower_char c) \<or> c = CHR ''_''"

definition opt_holds :: "('a \<Rightarrow> bool) \<Rightarrow> 'a option \<Rightarrow> bool" where
  "opt_holds P x = (case x of None \<Rightarrow> False | Some c \<Rightarrow> P c)"

definition first_char :: "string \<Rightarrow> char option" where
  "first_char s = (case s of [] \<Rightarrow> None | c # _ \<Rightarrow> Some c)"

text \<open>The assertion \<open>\b\<close> between two neighbouring characters; \<open>None\<close> is the edge of the text.\<close>

definition word_boundary :: "char option \<Rightarrow> char option \<Rightarrow> bool" where
  "word_boundary p q \<longleftrightarrow> opt_holds is_word_char p \<noteq> opt_holds is_word_char q"

definition last_char :: "char option \<Rightarrow> string \<Rightarrow> char option" where
  "last_char prev s = (if s = [] then prev else Some (last s))"

text \<open>\<open>/\b(w1|...|wn)\b/i.test(text)\<close> for literal alternatives.\<close>

definition word_here :: "char option \<Rightarrow> string \<Rightarrow> string \<Rightarrow> bool" where
  "word_here prev text w \<longleftrightarrow>
     js_lower (take (length w) text) = w \<and> word_boundary prev (first_char text)
     \<and> word_boundary (last_char prev (take (length w) text)) (first_char (drop (length w) text))"

fun word_search :: "string list \<Rightarrow> char option \<Rightarrow> string \<Rightarrow> bool" where
  "word_search ws prev [] = list_ex (word_here prev []) ws"
| "word_search ws prev (c # cs) = (list_ex (word_here prev (c # cs)) ws \<or> word_search ws (Some c) cs)"

definition has_any_word :: "string list \<Rightarrow> string \<Rightarrow> bool" where
  "has_any_word ws text = word_search ws None text"

text \<open>\<open>new RegExp("(^|[^a-z0-9])" + term + "([^a-z0-9]|$)").test(text)\<close> with the term escaped.\<close>

fun term_search :: "char option \<Rightarrow> string \<Rightarrow> string \<Rightarrow> bool" where
  "term_search prev [] trm = (trm = [] \<and> \<not> opt_holds is_lower_alnum prev)"
| "term_search prev (c # cs) trm =
     ((take (length trm) (c # cs) = trm \<and> \<not> opt_holds is_lower_alnum prev
        \<and> \<not> opt_holds is_lower_alnum (first_char (drop (length trm) (c # cs))))
      \<or> term_search (Some c) cs trm)"

text \<open>The maximal non-empty runs of characters that satisfy \<open>P\<close>: what \<open>split(/[^P]+/)\<close> leaves
  once empty pieces are dropped.\<close>

fun runs_acc :: "(char \<Rightarrow> bool) \<Rightarrow> string \<Rightarrow> string \<Rightarrow> string list" where
  "runs_acc P acc [] = (if acc = [] then [] else [rev acc])"
| "runs_acc P acc (c # cs) =
     (if P c then runs_acc P (c # acc) cs
      else (if acc = [] then [] else [rev acc]) @ runs_acc P [] cs)"

definition runs :: "(char \<Rightarrow> bool) \<Rightarrow> string \<Rightarrow> string list" where
  "runs P s = runs_acc P [] s"

text \<open>\<open>s.includes(sub)\<close>\<close>

fun js_includes :: "string \<Rightarrow> string \<Rightarrow> bool" where
  "js_includes [] sub = (sub = [])"
| "js_includes (c # cs) sub = (take (length sub) (c # cs) = sub \<or> js_includes cs sub)"

lemma runs_acc_members:
  "r \<in> set (runs_acc P acc s) \<Longrightarrow> \<forall>c \<in> set acc. P c \<Longrightarrow> r \<noteq> [] \<and> (\<forall>c \<in> set r. P c)"
  by (induction P acc s rule: runs_acc.induct) (auto split: if_splits)

lemma runs_members: "r \<in> set (runs P s) \<Longrightarrow> r \<noteq> [] \<and> (\<forall>c \<in> set r. P c)"
  using runs_acc_members [of r P "[]" s] by (simp add: runs_def)

lemma js_includes_iff: "js_includes s sub \<longleftrightarrow> (\<exists>p q. s = p @ sub @ q)"
proof (induction s sub rule: js_includes.induct)
  case (2 c cs sub)
  have "(\<exists>p q. c # cs = p @ sub @ q) \<longleftrightarrow> (\<exists>q. c # cs = sub @ q) \<or> (\<exists>p q. cs = p @ sub @ q)"
    by (metis Cons_eq_append_conv append_Cons append_Nil)
  moreover have "(\<exists>q. c # cs = sub @ q) \<longleftrightarrow> take (length sub) (c # cs) = sub"
    by (metis append_eq_conv_conj append_take_drop_id)
  ultimately show ?case using 2 by simp
qed auto

end
