(* ===== verification/Classification.thy ===== *)
theory Classification
  imports Text_Match Hitch_Types Facet_Coverage
begin

text \<open>
  The scope heuristics of \<open>src/hitch/classification.ts\<close>: how a finding is judged to lie inside or
  outside the scope of its hitch, and which findings the controller may have fixed without asking.
  The reasons are codes, since the source prints them with \<open>JSON.stringify\<close>. The glob matcher
  \<open>mm\<close> is \<open>minimatch\<close> with the module's fixed options. The advisory-text matchers of the same
  file (regular expressions with bounded gaps) are not modelled.
\<close>

datatype classification_reason = CR_close_check_failure | CR_advisory_comment | CR_excluded_category
  | CR_outside_target_files | CR_matches_target_files | CR_allowed_category | CR_future_or_unrelated
  | CR_mentions_target string | CR_no_match

record classifiable_finding =
  cl_closeCheckSource :: bool
  cl_sourceRef :: "string option"
  cl_category :: "string option"
  cl_summary :: string
  cl_detail :: "string option"
  cl_filePath :: "string option"
  cl_symbol :: "string option"

record finding_classification =
  fc_scopeStatus :: hitch_scope_status
  fc_reason :: classification_reason

definition FUTURE_OR_UNRELATED_WORDS :: "string list" where
  "FUTURE_OR_UNRELATED_WORDS = [''future'', ''future-phase'', ''later'', ''nice-to-have'',
     ''opportunistic'', ''cleanup'', ''refactor'', ''unrelated'', ''separate phase'', ''follow-up only'']"

definition GENERIC_TARGET_TERMS :: "string list" where
  "GENERIC_TARGET_TERMS = [''add'', ''fix'', ''goal'', ''phase'', ''safety'', ''test'', ''update'']"

definition normalizeToken :: "string \<Rightarrow> string" where
  "normalizeToken value = js_lower (js_trim value)"

definition normalizeText :: "string \<Rightarrow> string" where
  "normalizeText value = collapse_ws (js_lower (js_trim value))"

definition normalizePath :: "string \<Rightarrow> string" where
  "normalizePath path =
     (let p = map (\<lambda>c. if c = CHR 0x5C then CHR ''/'' else c) (js_trim path)
      in if js_starts_with p ''./'' then drop 2 p else p)"

definition is_term_char :: "char \<Rightarrow> bool" where
  "is_term_char c \<longleftrightarrow> is_lower_alnum c \<or> c \<in> {CHR ''.'', CHR ''_'', CHR ''-''}"

definition splitTargetTerms :: "string \<Rightarrow> string list" where
  "splitTargetTerms value =
     filter (\<lambda>t. length t \<ge> 3 \<and> t \<notin> set GENERIC_TARGET_TERMS)
       (map js_trim (runs is_term_char (normalizeText value)))"

definition matchToken :: "string \<Rightarrow> string list \<Rightarrow> string option" where
  "matchToken value allowed =
     (if value = [] then None else find (\<lambda>candidate. normalizeToken candidate = value) allowed)"

definition matchesAnyFile :: "glob_matcher \<Rightarrow> string \<Rightarrow> string list \<Rightarrow> bool" where
  "matchesAnyFile mm filePath patterns \<longleftrightarrow> (\<exists>p \<in> set patterns. mm filePath (normalizePath p))"

definition hasWord :: "string \<Rightarrow> string \<Rightarrow> bool" where
  "hasWord text trm = term_search None text trm"

definition matchedTargetMention :: "hitch_session \<Rightarrow> string \<Rightarrow> string option" where
  "matchedTargetMention session findingText =
     (let targets = [or_else (sc_targetSummary (s_scope session)) [], or_else (s_domain session) []]
            @ or_else (sc_targetOperations (s_scope session)) []
      in find (\<lambda>target. length target \<ge> 3 \<and> hasWord findingText target)
           (concat (map splitTargetTerms targets)))"

definition isCloseCheckFailure :: "classifiable_finding \<Rightarrow> bool" where
  "isCloseCheckFailure finding \<longleftrightarrow>
     cl_closeCheckSource finding \<or>
     normalizeToken (or_else (cl_category finding) []) \<in> {''close-check-failure'', ''close_check_failure''} \<or>
     (let sourceRef = normalizeText (or_else (cl_sourceRef finding) [])
      in js_starts_with sourceRef ''close-check:'' \<or> js_starts_with sourceRef ''close_check:'')"

definition classifyFindingForHitch ::
  "glob_matcher \<Rightarrow> hitch_session \<Rightarrow> classifiable_finding \<Rightarrow> finding_classification" where
  "classifyFindingForHitch mm session finding =
     (let category = normalizeToken (or_else (cl_category finding) []);
          filePath = normalizePath (or_else (cl_filePath finding) []);
          text = normalizeText (js_join '' '' [cl_summary finding, or_else (cl_detail finding) [],
                   or_else (cl_symbol finding) []]);
          scope = s_scope session;
          targetFiles = or_else (sc_targetFiles scope) []
      in if isCloseCheckFailure finding then
           \<lparr>fc_scopeStatus = In_scope, fc_reason = CR_close_check_failure\<rparr>
         else if category = ''review-non-blocking-comment'' then
           \<lparr>fc_scopeStatus = Out_of_scope, fc_reason = CR_advisory_comment\<rparr>
         else if matchToken category (or_else (sc_excludedCategories scope) []) \<noteq> None then
           \<lparr>fc_scopeStatus = Out_of_scope, fc_reason = CR_excluded_category\<rparr>
         else if filePath \<noteq> [] \<and> targetFiles \<noteq> [] \<and> \<not> matchesAnyFile mm filePath targetFiles then
           \<lparr>fc_scopeStatus = Out_of_scope, fc_reason = CR_outside_target_files\<rparr>
         else if filePath \<noteq> [] \<and> targetFiles \<noteq> [] \<and> matchesAnyFile mm filePath targetFiles then
           \<lparr>fc_scopeStatus = In_scope, fc_reason = CR_matches_target_files\<rparr>
         else if matchToken category (or_else (sc_allowedFindingCategories scope) []) \<noteq> None then
           \<lparr>fc_scopeStatus = In_scope, fc_reason = CR_allowed_category\<rparr>
         else if has_any_word FUTURE_OR_UNRELATED_WORDS
                   (js_join '' '' [cl_summary finding, or_else (cl_detail finding) []]) then
           \<lparr>fc_scopeStatus = Out_of_scope, fc_reason = CR_future_or_unrelated\<rparr>
         else (case matchedTargetMention session text of
             Some target \<Rightarrow> \<lparr>fc_scopeStatus = In_scope, fc_reason = CR_mentions_target target\<rparr>
           | None \<Rightarrow> \<lparr>fc_scopeStatus = Unknown_scope, fc_reason = CR_no_match\<rparr>))"

text \<open>\<open>lifecycleStatus\<close> is optional in the source's candidate; \<open>None\<close> is its absence.\<close>

definition canAutoFixFinding ::
  "hitch_session \<Rightarrow> hitch_finding_severity \<Rightarrow> hitch_scope_status \<Rightarrow> hitch_lifecycle_status option \<Rightarrow> bool"
where
  "canAutoFixFinding session severity scopeStatus lifecycleStatus =
     (if severity \<notin> set (p_autoFixSeverities (s_policy session)) then False
      else if lifecycleStatus \<noteq> None \<and> lifecycleStatus \<notin> {Some L_open, Some L_reopened} then False
      else if p_autoFixOnlyInScope (s_policy session) then scopeStatus = In_scope
      else scopeStatus \<noteq> Unknown_scope \<and> scopeStatus \<noteq> Duplicate_scope)"

section \<open>Facts\<close>

lemma classify_never_duplicate:
  "fc_scopeStatus (classifyFindingForHitch mm session finding) \<noteq> Duplicate_scope"
  by (simp add: classifyFindingForHitch_def Let_def split: option.split)

lemma matchToken_None_iff:
  "matchToken v xs = None \<longleftrightarrow> v = [] \<or> (\<forall>c \<in> set xs. normalizeToken c \<noteq> v)"
  by (auto simp: matchToken_def find_None_iff)

lemma matchToken_mono: "set xs \<subseteq> set ys \<Longrightarrow> matchToken v ys = None \<Longrightarrow> matchToken v xs = None"
  by (auto simp: matchToken_None_iff)

lemma matchesAnyFile_mono:
  "set xs \<subseteq> set ys \<Longrightarrow> matchesAnyFile mm path xs \<Longrightarrow> matchesAnyFile mm path ys"
  by (auto simp: matchesAnyFile_def)

lemma find_Some_iff_ex: "(\<exists>y. find P xs = Some y) \<longleftrightarrow> (\<exists>x \<in> set xs. P x)"
  using find_None_iff [of P xs] by (cases "find P xs") auto

lemma matchedTargetMention_mono:
  assumes "matchedTargetMention s' text \<noteq> None" and "s_domain s = s_domain s'"
    and "sc_targetSummary (s_scope s) = sc_targetSummary (s_scope s')"
    and "set (or_else (sc_targetOperations (s_scope s')) []) \<subseteq>
      set (or_else (sc_targetOperations (s_scope s)) [])"
  shows "matchedTargetMention s text \<noteq> None"
  using assms by (auto simp: matchedTargetMention_def Let_def find_Some_iff_ex find_None_iff)

text \<open>When the classifier says in scope: its branches in one formula.\<close>

lemma classify_in_scope_iff:
  "fc_scopeStatus (classifyFindingForHitch mm s f) = In_scope \<longleftrightarrow>
   isCloseCheckFailure f \<or>
   (let category = normalizeToken (or_else (cl_category f) []);
        path = normalizePath (or_else (cl_filePath f) []);
        files = or_else (sc_targetFiles (s_scope s)) []
    in category \<noteq> ''review-non-blocking-comment''
       \<and> matchToken category (or_else (sc_excludedCategories (s_scope s)) []) = None
       \<and> (if path \<noteq> [] \<and> files \<noteq> [] then matchesAnyFile mm path files
          else matchToken category (or_else (sc_allowedFindingCategories (s_scope s)) []) \<noteq> None
            \<or> \<not> has_any_word FUTURE_OR_UNRELATED_WORDS
                 (js_join '' '' [cl_summary f, or_else (cl_detail f) []])
              \<and> matchedTargetMention s (normalizeText (js_join '' ''
                   [cl_summary f, or_else (cl_detail f) [], or_else (cl_symbol f) []])) \<noteq> None))"
  unfolding classifyFindingForHitch_def Let_def by (simp split: option.split)

end
