(* ===== verification/Spec_Gates.thy ===== *)
theory Spec_Gates
  imports Close_Checks Classification
begin

text \<open>
  The gates on a hitch's specification: \<open>src/hitch/spec-gates.ts\<close> (does an edit widen the scope,
  does it loosen the close gate) and \<open>src/hitch/spec-validation.ts\<close> (is a list of close conditions
  well formed). The theorems say what the two gates protect: an edit that is not widening brings
  no finding into scope, and an edit that is not loosening cannot open the close gate.
\<close>

section \<open>Scope widening\<close>

definition arrayFieldWidens :: "string list option \<Rightarrow> string list option \<Rightarrow> bool" where
  "arrayFieldWidens previous next =
     (let nextArr = or_else next []
      in if nextArr = [] then False
         else (\<exists>value \<in> set nextArr. value \<notin> set (or_else previous [])))"

definition targetFilesWiden :: "string list option \<Rightarrow> string list option \<Rightarrow> bool" where
  "targetFilesWiden previous next =
     (let prev = or_else previous []; nxt = or_else next []
      in if prev = [] \<and> nxt = [] then False
         else if nxt = [] \<or> prev = [] then True
         else (\<exists>value \<in> set nxt. value \<notin> set prev))"

definition excludedCategoriesWiden :: "string list option \<Rightarrow> string list option \<Rightarrow> bool" where
  "excludedCategoriesWiden previous next =
     (case previous of
        None \<Rightarrow> False
      | Some prev \<Rightarrow> (case next of
          None \<Rightarrow> True
        | Some nxt \<Rightarrow> (\<exists>value \<in> set prev. value \<notin> set nxt)))"

definition isScopeWidening :: "hitch_scope \<Rightarrow> hitch_scope \<Rightarrow> bool" where
  "isScopeWidening previous next =
     (if targetFilesWiden (sc_targetFiles previous) (sc_targetFiles next) then True
      else if arrayFieldWidens (sc_targetOperations previous) (sc_targetOperations next) then True
      else if arrayFieldWidens (sc_allowedFindingCategories previous)
                (sc_allowedFindingCategories next) then True
      else if excludedCategoriesWiden (sc_excludedCategories previous)
                (sc_excludedCategories next) then True
      else sc_targetSummary previous \<noteq> sc_targetSummary next)"

section \<open>Loosening the close gate\<close>

text \<open>
  The fingerprint is the JSON text of four fields; \<open>JSON.stringify\<close> is injective on JSON values, so
  comparing texts is comparing the tuples.
\<close>

definition conditionGateFingerprint ::
  "hitch_close_condition \<Rightarrow> hitch_close_condition_kind \<times> string option \<times> json_object option
     \<times> json_object option" where
  "conditionGateFingerprint condition =
     (cc_kind condition, cc_command condition, cc_rule condition, cc_metadata condition)"

definition conditionById :: "hitch_close_condition list \<Rightarrow> string \<Rightarrow> hitch_close_condition option" where
  "conditionById conditions = map_of (rev (map (\<lambda>c. (cc_id c, c)) conditions))"

fun closeConditionsLoosenGate :: "hitch_close_condition list \<Rightarrow> hitch_close_condition list \<Rightarrow> bool" where
  "closeConditionsLoosenGate [] next = False"
| "closeConditionsLoosenGate (condition # previous) next =
     (if \<not> cc_required condition then closeConditionsLoosenGate previous next
      else (case conditionById next (cc_id condition) of
          None \<Rightarrow> True
        | Some replacement \<Rightarrow>
            if \<not> cc_required replacement then True
            else if conditionGateFingerprint condition \<noteq> conditionGateFingerprint replacement then True
            else closeConditionsLoosenGate previous next))"

section \<open>Validation of close conditions\<close>

datatype issue_severity = Hard | Advisory

datatype validation_category = Auto_verify | External_evidence

record validation_issue =
  vi_severity :: issue_severity
  vi_code :: string
  vi_message :: string
  vi_path :: string
  vi_conditionId :: "string option"
  vi_conditionIndex :: "nat option"
  vi_kind :: "hitch_close_condition_kind option"
  vi_category :: "validation_category option"

fun kind_category :: "hitch_close_condition_kind \<Rightarrow> validation_category" where
  "kind_category CK_command = Auto_verify"
| "kind_category CK_finding_policy = Auto_verify"
| "kind_category CK_manual = External_evidence"
| "kind_category CK_operation_status = External_evidence"
| "kind_category CK_db_doctor = External_evidence"
| "kind_category CK_review_consensus = Auto_verify"
| "kind_category CK_artifact_exists = External_evidence"
| "kind_category CK_facet_red_test = Auto_verify"
| "kind_category CK_evidence_attached = Auto_verify"

definition EXTERNAL_EVIDENCE_KINDS :: "hitch_close_condition_kind list" where
  "EXTERNAL_EVIDENCE_KINDS = [CK_manual, CK_artifact_exists, CK_operation_status, CK_db_doctor]"

definition FINDING_POLICY_RULE_KEYS :: "string list" where
  "FINDING_POLICY_RULE_KEYS =
     [''maxOpenInScopeP0'', ''maxOpenInScopeP1'', ''maxOpenInScopeP2'', ''maxOpenUnknownScope'']"

text \<open>One issue as the validators push it: severity, code, message and path.\<close>

type_synonym raw_issue = "issue_severity \<times> string \<times> string \<times> string"

definition issue_path :: "nat \<Rightarrow> string \<Rightarrow> string" where
  "issue_path index field = ''['' @ js_nat index @ ''].'' @ field"

fun valid_threshold :: "json \<Rightarrow> bool" where
  "valid_threshold (JNum n) = (n \<ge> 0)"
| "valid_threshold _ = False"

definition validateFindingPolicyCondition :: "hitch_close_condition \<Rightarrow> nat \<Rightarrow> raw_issue list" where
  "validateFindingPolicyCondition condition index =
     List.map_filter
       (\<lambda>(key, value).
          if key \<notin> set FINDING_POLICY_RULE_KEYS then
            Some (Hard, ''finding_policy_unknown_rule'',
              ''finding_policy rule key '' @ key @ '' is not supported'',
              issue_path index (''rule.'' @ key))
          else if \<not> valid_threshold value then
            Some (Hard, ''finding_policy_invalid_threshold'',
              ''finding_policy rule '' @ key @ '' must be a non-negative number'',
              issue_path index (''rule.'' @ key))
          else None)
       (or_else (cc_rule condition) [])"

definition metadata_text :: "hitch_close_condition \<Rightarrow> string \<Rightarrow> string option" where
  "metadata_text condition key = Option.bind (cc_metadata condition) (\<lambda>m. json_field_str m key)"

definition validateOperationStatusCondition :: "hitch_close_condition \<Rightarrow> nat \<Rightarrow> raw_issue list" where
  "validateOperationStatusCondition condition index =
     (if js_trim (or_else (metadata_text condition ''operationId'') []) = [] then
        [(Hard, ''operation_status_missing_operation_id'',
          ''operation_status requires metadata.operationId'',
          issue_path index ''metadata.operationId'')]
      else [])"

definition validateDbDoctorCondition :: "hitch_close_condition \<Rightarrow> bool \<Rightarrow> nat \<Rightarrow> raw_issue list" where
  "validateDbDoctorCondition condition allowRequiredDbDoctor index =
     (if cc_required condition \<and> \<not> allowRequiredDbDoctor then
        [(Hard, ''db_doctor_required_without_runner'',
          ''required db_doctor close conditions need explicit external-evidence acknowledgement'',
          issue_path index ''required'')]
      else [])"

definition AUTO_INTENT_WORDS :: "string list" where
  "AUTO_INTENT_WORDS = [''npm'', ''pnpm'', ''yarn'', ''test'', ''typecheck'', ''lint'', ''pass'',
     ''passes'', ''count'', ''threshold'', ''run'', ''execute'']"

definition validateExternalEvidenceCondition ::
  "hitch_close_condition \<Rightarrow> hitch_close_condition_kind \<Rightarrow> nat \<Rightarrow> raw_issue list" where
  "validateExternalEvidenceCondition condition kind index =
     (let description = js_trim (or_else (cc_description condition) [])
      in (if description = [] then
            [(Advisory, ''external_evidence_missing_description'', close_condition_kind_str kind @
              '' external-evidence condition should describe the evidence source'',
              issue_path index ''description'')]
          else if has_any_word AUTO_INTENT_WORDS description then
            [(Advisory, ''auto_intent_external_kind'', close_condition_kind_str kind @
              '' description looks like an auto-verifiable gate'', issue_path index ''description'')]
          else [])
         @ (if kind = CK_artifact_exists \<and> js_trim (or_else (metadata_text condition ''path'') []) = [] then
              [(Advisory, ''artifact_exists_missing_path'',
                ''artifact_exists should include metadata.path'', issue_path index ''metadata.path'')]
            else []))"

definition validateFacetRedTestCondition :: "hitch_close_condition \<Rightarrow> nat \<Rightarrow> raw_issue list" where
  "validateFacetRedTestCondition condition index =
     (let parsed = parseFacetRule (cc_rule condition)
      in map (\<lambda>err. (Hard, ''facet_red_test_invalid_contract'', err, issue_path index ''rule.facets''))
           (pf_errors parsed)
         @ map (\<lambda>facet. (Advisory, ''facet_red_test_test_globs_unconventional'',
             ''facet '' @ fs_id facet @
             '' declares a production surface but its testGlobs do not look test-shaped'',
             issue_path index ''rule.facets''))
           (filter (\<lambda>facet. or_else (fs_changedFileGlobs facet) [] \<noteq> []
              \<and> (\<forall>g \<in> set (fs_testGlobs facet). \<not> js_includes g ''test'')) (pf_facets parsed)))"

definition validateReviewConsensusCondition :: "hitch_close_condition \<Rightarrow> nat \<Rightarrow> raw_issue list" where
  "validateReviewConsensusCondition condition index =
     (let description = js_trim (or_else (cc_description condition) [])
      in if description \<noteq> [] \<and> \<not> has_any_word [''review'', ''approved'', ''consensus''] description then
           [(Advisory, ''review_consensus_ambiguous_description'',
             ''review_consensus description should identify review approval semantics'',
             issue_path index ''description'')]
         else [])"

definition kind_issues :: "bool \<Rightarrow> nat \<Rightarrow> hitch_close_condition \<Rightarrow> raw_issue list" where
  "kind_issues allowRequiredDbDoctor index condition =
     (let kind = cc_kind condition
      in (case kind of
            CK_finding_policy \<Rightarrow> validateFindingPolicyCondition condition index
          | CK_operation_status \<Rightarrow> validateOperationStatusCondition condition index
          | CK_db_doctor \<Rightarrow> validateDbDoctorCondition condition allowRequiredDbDoctor index
          | CK_facet_red_test \<Rightarrow> validateFacetRedTestCondition condition index
          | _ \<Rightarrow> [])
         @ (if kind \<in> set EXTERNAL_EVIDENCE_KINDS
            then validateExternalEvidenceCondition condition kind index else [])
         @ (if kind = CK_review_consensus then validateReviewConsensusCondition condition index else []))"

text \<open>
  The id check, with the ids seen so far and the index each was first seen at. The type of close
  conditions has the kind already parsed, so the branch \<open>unknown_kind\<close> cannot be taken.
\<close>

definition id_issues :: "(string \<times> nat) list \<Rightarrow> nat \<Rightarrow> hitch_close_condition \<Rightarrow> raw_issue list" where
  "id_issues ids index condition =
     (if cc_id condition = [] then
        [(Hard, ''missing_condition_id'', ''condition id is required'', issue_path index ''id'')]
      else (case map_of ids (cc_id condition) of
          Some previous \<Rightarrow>
            [(Hard, ''duplicate_condition_id'', ''condition id '' @ cc_id condition @
              '' duplicates index '' @ js_nat previous, issue_path index ''id'')]
        | None \<Rightarrow> []))"

definition tag_issue :: "nat \<Rightarrow> hitch_close_condition \<Rightarrow> raw_issue \<Rightarrow> validation_issue" where
  "tag_issue index condition = (\<lambda>(severity, code, message, path).
     \<lparr>vi_severity = severity, vi_code = code, vi_message = message, vi_path = path,
      vi_conditionId = (if cc_id condition = [] then None else Some (cc_id condition)),
      vi_conditionIndex = Some index, vi_kind = Some (cc_kind condition),
      vi_category = Some (kind_category (cc_kind condition))\<rparr>)"

fun condition_issues ::
  "bool \<Rightarrow> (string \<times> nat) list \<Rightarrow> nat \<Rightarrow> hitch_close_condition list \<Rightarrow> validation_issue list" where
  "condition_issues allow ids index [] = []"
| "condition_issues allow ids index (c # cs) =
     map (tag_issue index c) (id_issues ids index c @ kind_issues allow index c)
     @ condition_issues allow
         (if cc_id c = [] \<or> map_of ids (cc_id c) \<noteq> None then ids else (cc_id c, index) # ids)
         (Suc index) cs"

record close_condition_validation =
  vr_valid :: bool
  vr_errors :: "validation_issue list"
  vr_warnings :: "validation_issue list"

definition validateCloseConditions :: "hitch_close_condition list \<Rightarrow> bool \<Rightarrow> close_condition_validation" where
  "validateCloseConditions conditions allowRequiredDbDoctor =
     (let externalCount = length (filter (\<lambda>c. kind_category (cc_kind c) = External_evidence) conditions);
          issues = condition_issues allowRequiredDbDoctor [] 0 conditions
            @ (if conditions \<noteq> [] \<and> 2 * externalCount > length conditions then
                 [\<lparr>vi_severity = Advisory, vi_code = ''external_evidence_majority'',
                   vi_message = ''more than half of close conditions require external evidence'',
                   vi_path = ''$'', vi_conditionId = None, vi_conditionIndex = None, vi_kind = None,
                   vi_category = Some External_evidence\<rparr>]
               else []);
          errors = filter (\<lambda>i. vi_severity i = Hard) issues;
          warnings = filter (\<lambda>i. vi_severity i = Advisory) issues
      in \<lparr>vr_valid = (errors = []), vr_errors = errors, vr_warnings = warnings\<rparr>)"

definition formatCloseConditionValidationIssues :: "validation_issue list \<Rightarrow> string" where
  "formatCloseConditionValidationIssues issues =
     js_join ''; '' (map (\<lambda>i. vi_path i @ '' '' @ vi_code i @ '': '' @ vi_message i) issues)"

definition assertValidCloseConditions ::
  "hitch_close_condition list \<Rightarrow> bool \<Rightarrow> (string \<times> validation_issue list) + unit" where
  "assertValidCloseConditions conditions allowRequiredDbDoctor =
     (let result = validateCloseConditions conditions allowRequiredDbDoctor
      in if vr_valid result then Inr ()
         else Inl (formatCloseConditionValidationIssues (vr_errors result), vr_errors result))"

section \<open>A scope edit that does not widen\<close>

lemma arrayFieldWidens_iff:
  "arrayFieldWidens p n \<longleftrightarrow> \<not> set (or_else n []) \<subseteq> set (or_else p [])"
  by (auto simp: arrayFieldWidens_def Let_def)

lemma excludedCategoriesWiden_iff:
  "\<not> excludedCategoriesWiden p n \<Longrightarrow> set (or_else p []) \<subseteq> set (or_else n [])"
  by (auto simp: excludedCategoriesWiden_def split: option.splits)

lemma targetFilesWiden_iff:
  "\<not> targetFilesWiden p n \<longleftrightarrow>
   (or_else p [] = [] \<longleftrightarrow> or_else n [] = []) \<and> set (or_else n []) \<subseteq> set (or_else p [])"
  by (auto simp: targetFilesWiden_def Let_def)

lemma not_wideningD:
  assumes "\<not> isScopeWidening p n"
  shows "or_else (sc_targetFiles p) [] = [] \<longleftrightarrow> or_else (sc_targetFiles n) [] = []"
    "set (or_else (sc_targetFiles n) []) \<subseteq> set (or_else (sc_targetFiles p) [])"
    "set (or_else (sc_targetOperations n) []) \<subseteq> set (or_else (sc_targetOperations p) [])"
    "set (or_else (sc_allowedFindingCategories n) []) \<subseteq> set (or_else (sc_allowedFindingCategories p) [])"
    "set (or_else (sc_excludedCategories p) []) \<subseteq> set (or_else (sc_excludedCategories n) [])"
    "sc_targetSummary p = sc_targetSummary n"
proof -
  have "\<not> targetFilesWiden (sc_targetFiles p) (sc_targetFiles n)"
    "\<not> arrayFieldWidens (sc_targetOperations p) (sc_targetOperations n)"
    "\<not> arrayFieldWidens (sc_allowedFindingCategories p) (sc_allowedFindingCategories n)"
    "\<not> excludedCategoriesWiden (sc_excludedCategories p) (sc_excludedCategories n)"
    "sc_targetSummary p = sc_targetSummary n"
    using assms by (simp_all add: isScopeWidening_def split: if_splits)
  then show "or_else (sc_targetFiles p) [] = [] \<longleftrightarrow> or_else (sc_targetFiles n) [] = []"
    "set (or_else (sc_targetFiles n) []) \<subseteq> set (or_else (sc_targetFiles p) [])"
    "set (or_else (sc_targetOperations n) []) \<subseteq> set (or_else (sc_targetOperations p) [])"
    "set (or_else (sc_allowedFindingCategories n) []) \<subseteq> set (or_else (sc_allowedFindingCategories p) [])"
    "set (or_else (sc_excludedCategories p) []) \<subseteq> set (or_else (sc_excludedCategories n) [])"
    "sc_targetSummary p = sc_targetSummary n"
    by (simp_all add: targetFilesWiden_iff arrayFieldWidens_iff excludedCategoriesWiden_iff)
qed

lemma scope_branch_mono:
  assumes "cf \<or> nb \<and> ex' \<and> (if p \<and> q' then m' else a' \<or> nf \<and> t')"
    and "q \<longleftrightarrow> q'" "ex' \<Longrightarrow> ex" "m' \<Longrightarrow> m" "a' \<Longrightarrow> a" "t' \<Longrightarrow> t"
  shows "cf \<or> nb \<and> ex \<and> (if p \<and> q then m else a \<or> nf \<and> t)"
  using assms by (auto split: if_splits)

text \<open>
  C10: a scope edit that \<open>isScopeWidening\<close> lets through brings no finding into scope: whatever the
  classifier puts in scope under the new scope was in scope under the old one, for every finding
  and every glob matcher.
\<close>

theorem not_widening_adds_nothing:
  assumes edit: "\<not> isScopeWidening (s_scope s) scope'"
    and now: "fc_scopeStatus (classifyFindingForHitch mm (s\<lparr>s_scope := scope'\<rparr>) f) = In_scope"
  shows "fc_scopeStatus (classifyFindingForHitch mm s f) = In_scope"
proof -
  note nw = not_wideningD [OF edit]
  let ?cat = "normalizeToken (or_else (cl_category f) [])"
  let ?path = "normalizePath (or_else (cl_filePath f) [])"
  let ?text = "normalizeText (js_join '' '' [cl_summary f, or_else (cl_detail f) [], or_else (cl_symbol f) []])"
  have excl: "matchToken ?cat (or_else (sc_excludedCategories (s_scope s)) []) = None"
    if "matchToken ?cat (or_else (sc_excludedCategories scope') []) = None"
    using matchToken_mono [OF nw(5) that] .
  have allow: "matchToken ?cat (or_else (sc_allowedFindingCategories (s_scope s)) []) \<noteq> None"
    if "matchToken ?cat (or_else (sc_allowedFindingCategories scope') []) \<noteq> None"
    by (rule contrapos_nn [OF that matchToken_mono [OF nw(4)]])
  have files: "matchesAnyFile mm ?path (or_else (sc_targetFiles (s_scope s)) [])"
    if "matchesAnyFile mm ?path (or_else (sc_targetFiles scope') [])"
    using matchesAnyFile_mono [OF nw(2) that] .
  have mention: "matchedTargetMention s ?text \<noteq> None"
    if "matchedTargetMention (s\<lparr>s_scope := scope'\<rparr>) ?text \<noteq> None"
    by (rule matchedTargetMention_mono [OF that]) (simp_all add: nw(3,6))
  have "or_else (sc_targetFiles (s_scope s)) [] \<noteq> [] \<longleftrightarrow> or_else (sc_targetFiles scope') [] \<noteq> []"
    using nw(1) by simp
  note branch = scope_branch_mono [OF _ this]
  have scope: "s_scope (s\<lparr>s_scope := scope'\<rparr>) = scope'" by simp
  show ?thesis
    unfolding classify_in_scope_iff Let_def
    by (rule branch [OF now [unfolded classify_in_scope_iff Let_def scope]])
      (fact excl files allow mention)+
qed

definition ex_bug :: classifiable_finding where
  "ex_bug = \<lparr>cl_closeCheckSource = False, cl_sourceRef = None, cl_category = Some ''Bug'',
     cl_summary = ''lost update'', cl_detail = None, cl_filePath = None, cl_symbol = None\<rparr>"

theorem not_widening_adds_nothing_witness:
  "\<not> isScopeWidening (s_scope ex_session) (ex_scope\<lparr>sc_excludedCategories := Some [''docs'']\<rparr>) \<and>
   fc_scopeStatus (classifyFindingForHitch (=) ex_session ex_bug) = In_scope"
proof -
  let ?scope = "ex_scope\<lparr>sc_excludedCategories := Some [''docs'']\<rparr>"
  have edit: "\<not> isScopeWidening (s_scope ex_session) ?scope" by code_simp
  moreover have "fc_scopeStatus (classifyFindingForHitch (=) (ex_session\<lparr>s_scope := ?scope\<rparr>) ex_bug) = In_scope"
    by code_simp
  ultimately show ?thesis using not_widening_adds_nothing [of ex_session ?scope "(=)" ex_bug] by blast
qed

section \<open>A gate edit that does not loosen\<close>

lemma conditionById_SomeD:
  "conditionById cs cid = Some c \<Longrightarrow> c \<in> set cs \<and> cc_id c = cid"
  unfolding conditionById_def by (drule map_of_SomeD) auto

lemma not_loosenedD:
  assumes "\<not> closeConditionsLoosenGate previous next" "c \<in> set previous" "cc_required c"
  obtains r where "r \<in> set next" "cc_id r = cc_id c" "cc_required r"
    "conditionGateFingerprint r = conditionGateFingerprint c"
proof -
  from assms have "\<exists>r. conditionById next (cc_id c) = Some r \<and> cc_required r
      \<and> conditionGateFingerprint r = conditionGateFingerprint c"
    by (induction previous) (auto split: option.splits if_splits)
  then show ?thesis using that conditionById_SomeD by blast
qed

text \<open>The outcome of a condition depends on its id, its kind and its rule only.\<close>

lemma close_condition_met_cong:
  assumes "cc_id r = cc_id c" "cc_kind r = cc_kind c" "cc_rule r = cc_rule c"
  shows "close_condition_met mm td inp r \<longleftrightarrow> close_condition_met mm td inp c"
  using assms
  by (cases "cc_kind c") (simp_all add: close_condition_met_def evidence_candidate_def)

text \<open>
  C11: an edit of the close conditions that \<open>closeConditionsLoosenGate\<close> lets through cannot open the
  gate. Whenever the edited conditions let a hitch close, every condition that was required before
  the edit is met too.
\<close>

theorem not_loosened_still_gated:
  assumes "\<not> closeConditionsLoosenGate previous (ci_conditions inp)"
    and "distinct (map e_evidenceId (ci_evidenceRows inp))"
    and "ce_allRequiredPassed (evaluateCloseConditions mm td inp)"
    and "c \<in> set previous" and "cc_required c"
  shows "close_condition_met mm td inp c"
proof -
  from assms(1,4,5) obtain r where r: "r \<in> set (ci_conditions inp)" "cc_id r = cc_id c" "cc_required r"
    "conditionGateFingerprint r = conditionGateFingerprint c" by (rule not_loosenedD)
  have "close_condition_met mm td inp r"
    using assms(3) r(1,3) allRequiredPassed_iff evaluateCloseCondition_passed_iff [OF assms(2)] by blast
  then show ?thesis
    using close_condition_met_cong [of r c] r(2,4) by (simp add: conditionGateFingerprint_def)
qed

theorem not_loosened_still_gated_witness:
  "\<not> closeConditionsLoosenGate [ex_condition ''tests'' CK_command True None]
      (ci_conditions (ex_close_input (Some ''t2''))) \<and>
   close_condition_met (=) (\<lambda>_. RD_none) (ex_close_input (Some ''t2''))
      (ex_condition ''tests'' CK_command True None)"
proof -
  let ?prev = "[ex_condition ''tests'' CK_command True None]" and ?inp = "ex_close_input (Some ''t2'')"
  have kept: "\<not> closeConditionsLoosenGate ?prev (ci_conditions ?inp)" by code_simp
  have "ce_allRequiredPassed (evaluateCloseConditions (=) (\<lambda>_. RD_none) ?inp)" by code_simp
  then have "close_condition_met (=) (\<lambda>_. RD_none) ?inp (ex_condition ''tests'' CK_command True None)"
    using not_loosened_still_gated [OF kept, of "(=)" "\<lambda>_. RD_none"] by (simp add: ex_close_simps)
  with kept show ?thesis by blast
qed

section \<open>What validation guarantees\<close>

definition hard_ok :: "bool \<Rightarrow> hitch_close_condition \<Rightarrow> bool" where
  "hard_ok allowRequiredDbDoctor c \<longleftrightarrow> cc_id c \<noteq> [] \<and>
     (case cc_kind c of
        CK_finding_policy \<Rightarrow> (\<forall>(key, value) \<in> set (or_else (cc_rule c) []).
           key \<in> set FINDING_POLICY_RULE_KEYS \<and> valid_threshold value)
      | CK_operation_status \<Rightarrow> (\<exists>op. metadata_text c ''operationId'' = Some op \<and> js_trim op \<noteq> [])
      | CK_db_doctor \<Rightarrow> cc_required c \<longrightarrow> allowRequiredDbDoctor
      | CK_facet_red_test \<Rightarrow> pf_errors (parseFacetRule (cc_rule c)) = []
      | _ \<Rightarrow> True)"

lemma js_trim_Nil [simp]: "js_trim [] = []"
  by (simp add: js_trim_def)

lemma ball_map_filter:
  "(\<forall>y \<in> set (List.map_filter f xs). P y) \<longleftrightarrow>
   (\<forall>x \<in> set xs. case f x of None \<Rightarrow> True | Some y \<Rightarrow> P y)"
  by (induction xs) (auto simp: List.map_filter_simps split: option.splits)

lemma external_advisory:
  "i \<in> set (validateExternalEvidenceCondition c k n) \<Longrightarrow> fst i = Advisory"
  by (auto simp: validateExternalEvidenceCondition_def Let_def split: if_splits)

lemma consensus_advisory:
  "i \<in> set (validateReviewConsensusCondition c n) \<Longrightarrow> fst i = Advisory"
  by (auto simp: validateReviewConsensusCondition_def Let_def split: if_splits)

lemma policy_issues_none:
  "(\<forall>i \<in> set (validateFindingPolicyCondition c n). fst i \<noteq> Hard) \<longleftrightarrow>
   (\<forall>(key, value) \<in> set (or_else (cc_rule c) []).
      key \<in> set FINDING_POLICY_RULE_KEYS \<and> valid_threshold value)"
  unfolding validateFindingPolicyCondition_def ball_map_filter
  by (rule ball_cong [OF refl]) (simp split: prod.split)

lemma facet_issues_none:
  "(\<forall>i \<in> set (validateFacetRedTestCondition c n). fst i \<noteq> Hard) \<longleftrightarrow>
   pf_errors (parseFacetRule (cc_rule c)) = []"
  by (simp add: validateFacetRedTestCondition_def Let_def ball_Un)

lemma operation_issues_none:
  "(\<forall>i \<in> set (validateOperationStatusCondition c n). fst i \<noteq> Hard) \<longleftrightarrow>
   (\<exists>op. metadata_text c ''operationId'' = Some op \<and> js_trim op \<noteq> [])"
  by (cases "metadata_text c ''operationId''") (simp_all add: validateOperationStatusCondition_def)

lemma kind_issues_none:
  "(\<forall>i \<in> set (kind_issues allow n c). fst i \<noteq> Hard) \<and> cc_id c \<noteq> [] \<longleftrightarrow> hard_ok allow c"
  using external_advisory [of _ c _ n] consensus_advisory [of _ c n]
    policy_issues_none [of c n] facet_issues_none [of c n] operation_issues_none [of c n]
  by (cases "cc_kind c")
    (auto simp: kind_issues_def hard_ok_def Let_def ball_Un validateDbDoctorCondition_def
      EXTERNAL_EVIDENCE_KINDS_def)

lemma id_issues_none:
  "(\<forall>i \<in> set (id_issues ids n c). fst i \<noteq> Hard) \<longleftrightarrow> cc_id c \<noteq> [] \<and> cc_id c \<notin> fst ` set ids"
  using map_of_eq_None_iff [of ids "cc_id c"]
  by (cases "map_of ids (cc_id c)") (auto simp: id_issues_def)

lemma vi_severity_tag [simp]: "vi_severity (tag_issue n c i) = fst i"
  by (cases i) (simp add: tag_issue_def)

lemma condition_issues_none:
  "(\<forall>i \<in> set (condition_issues allow ids n cs). vi_severity i \<noteq> Hard) \<longleftrightarrow>
   (\<forall>c \<in> set cs. hard_ok allow c \<and> cc_id c \<notin> fst ` set ids) \<and> distinct (map cc_id cs)"
proof (induction cs arbitrary: ids n)
  case (Cons c cs)
  show ?case
  proof (cases "hard_ok allow c \<and> cc_id c \<notin> fst ` set ids")
    case True
    then have "cc_id c \<noteq> []" "map_of ids (cc_id c) = None"
      by (auto simp: hard_ok_def map_of_eq_None_iff)
    then show ?thesis
      using True kind_issues_none [of allow n c] id_issues_none [of ids n c]
        Cons.IH [of "(cc_id c, n) # ids" "Suc n"] by (auto simp: ball_Un) (metis image_eqI)+
  next
    case False
    then show ?thesis
      using kind_issues_none [of allow n c] id_issues_none [of ids n c] by (auto simp: ball_Un)
  qed
qed simp

text \<open>
  C12: validation accepts a list of close conditions exactly when ids are present and unique and every
  condition has the well-formed contract of its kind; advisories never reject.
\<close>

theorem validateCloseConditions_valid_iff:
  "vr_valid (validateCloseConditions cs allow) \<longleftrightarrow>
   list_all (hard_ok allow) cs \<and> distinct (map cc_id cs)"
  using condition_issues_none [of allow "[]" 0 cs]
  by (auto simp: list_all_iff validateCloseConditions_def Let_def filter_empty_conv)

end
