(* ===== verification/Hitch_Store.thy ===== *)
theory Hitch_Store
  imports Spec_Gates
begin

text \<open>
  The hitch tables of the harness database and the repositories over them:
  \<open>src/hitch/repositories/shared.ts\<close>, \<open>session-repository.ts\<close>, \<open>attempt-repository.ts\<close>,
  \<open>review-cycle-repository.ts\<close>, \<open>close-check-repository.ts\<close>, \<open>convergence-decision-repository.ts\<close>
  and \<open>evidence-repository.ts\<close>. Each repository method is one operation of the state-and-exception
  monad on the record \<open>hitch_db\<close>; a method that opens a transaction is wrapped in
  \<open>act_atomically\<close>. The clock and the random ids are arguments: \<open>now\<close> is the value of
  \<open>opts.now ?? new Date().toISOString()\<close> and \<open>eid\<close>, \<open>newId\<close> are the ids that \<open>randomUUID\<close> makes or
  the caller passes. JSON columns hold the decoded values; the zod schemas of
  \<open>src/hitch/schemas.ts\<close> are the predicates \<open>scope_ok\<close>, \<open>conditions_ok\<close> and \<open>policy_ok\<close>.
\<close>

section \<open>Tables and errors\<close>

record run_row =
  rn_runId :: string
  rn_prUrl :: "string option"
  rn_prNumber :: "int option"
  rn_meta :: "json option"

record run_changed_file =
  rf_runId :: string
  rf_path :: string
  rf_allowed :: bool
  rf_ignored :: bool

record hitch_db =
  db_sessions :: "hitch_session list"
  db_attempts :: "hitch_attempt list"
  db_cycles :: "hitch_review_cycle list"
  db_findings :: "hitch_finding list"
  db_closeChecks :: "hitch_close_check list"
  db_decisions :: "hitch_decision_record list"
  db_events :: "hitch_lifecycle_event list"
  db_evidence :: "hitch_evidence list"
  db_runs :: "run_row list"
  db_changedFiles :: "run_changed_file list"

text \<open>One constructor per throw site; the SQL errors are the constraint violations of the schema.\<close>

datatype hitch_error =
    Hitch_not_found string
  | Not_reopenable string hitch_status
  | Not_diverging string hitch_status
  | No_longer_diverging string
  | Revalidation_failed string
  | AdoptPr_needs_pr | AdoptPr_needs_reason
  | Update_needs_field | Update_needs_reason
  | Schema_invalid string
  | Close_conditions_invalid string "validation_issue list"
  | Reopen_before_update string hitch_status
  | Cannot_update string hitch_status
  | Scope_widen_needs_flag string | Gate_loosen_needs_flag string
  | Attempt_not_found string
  | Cycle_not_found string
  | Close_check_not_found string
  | Condition_not_declared string
  | Not_manually_recordable string hitch_close_condition_kind
  | Decision_not_found string
  | Finding_not_found string
  | Finding_other_hitch string string
  | Finding_self_duplicate string
  | Finding_bad_duplicate string
  | Finding_input_invalid string
  | Finding_not_out_of_scope string hitch_scope_status
  | Finding_not_deferred string hitch_lifecycle_status
  | Sql_unique string
  | Sql_foreign_key string

type_synonym 'a hitch_act = "(hitch_db, hitch_error, 'a) act"

section \<open>Shared helpers\<close>

definition getHitchSession :: "hitch_db \<Rightarrow> string \<Rightarrow> hitch_session option" where
  "getHitchSession db hitchId = tbl_get s_hitchId hitchId (db_sessions db)"

definition requireHitchSession :: "string \<Rightarrow> hitch_session hitch_act" where
  "requireHitchSession hitchId = act_require (\<lambda>db. getHitchSession db hitchId) (Hitch_not_found hitchId)"

definition update_session :: "string \<Rightarrow> (hitch_session \<Rightarrow> hitch_session) \<Rightarrow> unit hitch_act" where
  "update_session hitchId f =
     act_modify (\<lambda>db. db\<lparr>db_sessions := tbl_update s_hitchId hitchId f (db_sessions db)\<rparr>)"

definition touchHitchSession :: "string \<Rightarrow> timestamp \<Rightarrow> unit hitch_act" where
  "touchHitchSession hitchId updatedAt = update_session hitchId (\<lambda>s. s\<lparr>s_updatedAt := updatedAt\<rparr>)"

definition session_exists :: "string \<Rightarrow> hitch_db \<Rightarrow> bool" where
  "session_exists hitchId db = tbl_has s_hitchId hitchId (db_sessions db)"

definition CODING_RUN_ATTEMPT_TYPES :: "hitch_attempt_type list" where
  "CODING_RUN_ATTEMPT_TYPES = [AT_implement, AT_rerun]"

definition listAttempts :: "hitch_db \<Rightarrow> string \<Rightarrow> hitch_attempt list" where
  "listAttempts db hitchId =
     sort_key (\<lambda>a. (a_iteration a, a_createdAt a)) (filter (\<lambda>a. a_hitchId a = hitchId) (db_attempts db))"

definition is_coding_run :: "hitch_attempt \<Rightarrow> bool" where
  "is_coding_run a \<longleftrightarrow> a_attemptType a \<in> set CODING_RUN_ATTEMPT_TYPES
     \<and> a_runId a \<noteq> None \<and> a_runId a \<noteq> Some []"

definition latestCodingRunId :: "hitch_db \<Rightarrow> string \<Rightarrow> string option" where
  "latestCodingRunId db hitchId = Option.bind (find is_coding_run (rev (listAttempts db hitchId))) a_runId"

definition runPr :: "hitch_db \<Rightarrow> string \<Rightarrow> (string option \<times> int option) option" where
  "runPr db runId =
     (case tbl_get rn_runId runId (db_runs db) of
        None \<Rightarrow> None
      | Some row \<Rightarrow>
          if rn_prUrl row = None \<and> rn_prNumber row = None then None
          else Some (rn_prUrl row, rn_prNumber row))"

section \<open>Schemas\<close>

definition nonempty_strings :: "string list option \<Rightarrow> bool" where
  "nonempty_strings xs = (case xs of None \<Rightarrow> True | Some ys \<Rightarrow> [] \<notin> set ys)"

definition scope_ok :: "hitch_scope \<Rightarrow> bool" where
  "scope_ok scope \<longleftrightarrow> nonempty_strings (sc_targetFiles scope) \<and> nonempty_strings (sc_targetOperations scope)
     \<and> nonempty_strings (sc_allowedFindingCategories scope) \<and> nonempty_strings (sc_excludedCategories scope)"

definition conditions_ok :: "hitch_close_condition list \<Rightarrow> bool" where
  "conditions_ok conditions \<longleftrightarrow> (\<forall>c \<in> set conditions. cc_id c \<noteq> [])"

definition policy_ok :: "hitch_policy \<Rightarrow> bool" where
  "policy_ok policy \<longleftrightarrow>
     0 \<le> dv_maxNewFindingsPerCycle (p_divergence policy)
     \<and> 0 \<le> dv_maxTotalNewFindings (p_divergence policy)
     \<and> 0 \<le> dv_requireNewFindingsDecreaseAfterCycle (p_divergence policy)
     \<and> 0 \<le> dv_maxReopenedPerFinding (p_divergence policy)
     \<and> (case cr_maxOpenInScopeP2 (p_closeRequires policy) of None \<Rightarrow> True | Some n \<Rightarrow> 0 \<le> n)"

definition require_valid_conditions :: "hitch_close_condition list \<Rightarrow> unit hitch_act" where
  "require_valid_conditions conditions =
     (case assertValidCloseConditions conditions False of
        Inl (message, issues) \<Rightarrow> act_throw (Close_conditions_invalid message issues)
      | Inr _ \<Rightarrow> act_return ())"

section \<open>JSON images of the configuration\<close>

text \<open>The previous configuration goes into the ledger as JSON; absent optional fields are left out.\<close>

definition opt_field :: "string \<Rightarrow> ('a \<Rightarrow> json) \<Rightarrow> 'a option \<Rightarrow> json_object" where
  "opt_field name enc v = (case v of None \<Rightarrow> [] | Some x \<Rightarrow> [(name, enc x)])"

definition strs_json :: "string list \<Rightarrow> json" where
  "strs_json xs = JArr (map JStr xs)"

definition int_json :: "int \<Rightarrow> json" where
  "int_json n = JNum (of_int n)"

definition null_or :: "('a \<Rightarrow> json) \<Rightarrow> 'a option \<Rightarrow> json" where
  "null_or enc v = (case v of None \<Rightarrow> JNull | Some x \<Rightarrow> enc x)"

definition scope_json :: "hitch_scope \<Rightarrow> json" where
  "scope_json sc = JObj (opt_field ''targetFiles'' strs_json (sc_targetFiles sc)
     @ opt_field ''targetOperations'' strs_json (sc_targetOperations sc)
     @ opt_field ''allowedFindingCategories'' strs_json (sc_allowedFindingCategories sc)
     @ opt_field ''excludedCategories'' strs_json (sc_excludedCategories sc)
     @ opt_field ''notes'' JStr (sc_notes sc) @ opt_field ''targetSummary'' JStr (sc_targetSummary sc))"

definition condition_json :: "hitch_close_condition \<Rightarrow> json" where
  "condition_json c = JObj ([(''id'', JStr (cc_id c)),
     (''kind'', JStr (close_condition_kind_str (cc_kind c))), (''required'', JBool (cc_required c))]
     @ opt_field ''description'' JStr (cc_description c) @ opt_field ''command'' JStr (cc_command c)
     @ opt_field ''rule'' JObj (cc_rule c) @ opt_field ''metadata'' JObj (cc_metadata c))"

fun review_mode_str :: "hitch_review_mode \<Rightarrow> string" where
  "review_mode_str RM_initial = ''initial''"
| "review_mode_str RM_delta = ''delta''"
| "review_mode_str RM_close = ''close''"
| "review_mode_str RM_regression = ''regression''"
| "review_mode_str RM_manual = ''manual''"

definition policy_json :: "hitch_policy \<Rightarrow> json" where
  "policy_json p = JObj [
     (''autoFixSeverities'', strs_json (map severity_str (p_autoFixSeverities p))),
     (''deferSeverities'', strs_json (map severity_str (p_deferSeverities p))),
     (''autoFixOnlyInScope'', JBool (p_autoFixOnlyInScope p)),
     (''deferOutOfScope'', JBool (p_deferOutOfScope p)),
     (''stopOnUnknownScope'', JBool (p_stopOnUnknownScope p)),
     (''allowEmptyCloseConditions'', JBool (p_allowEmptyCloseConditions p)),
     (''reviewModeSequence'', strs_json (map review_mode_str (p_reviewModeSequence p))),
     (''divergence'', JObj [
        (''maxNewFindingsPerCycle'', int_json (dv_maxNewFindingsPerCycle (p_divergence p))),
        (''maxTotalNewFindings'', int_json (dv_maxTotalNewFindings (p_divergence p))),
        (''requireNewFindingsDecreaseAfterCycle'',
          int_json (dv_requireNewFindingsDecreaseAfterCycle (p_divergence p))),
        (''maxReopenedPerFinding'', int_json (dv_maxReopenedPerFinding (p_divergence p))),
        (''nearDuplicateDedup'', JBool (dv_nearDuplicateDedup (p_divergence p)))]),
     (''closeRequires'', JObj ([
        (''noOpenInScopeP0'', JBool (cr_noOpenInScopeP0 (p_closeRequires p))),
        (''noOpenInScopeP1'', JBool (cr_noOpenInScopeP1 (p_closeRequires p))),
        (''noUnknownScope'', JBool (cr_noUnknownScope (p_closeRequires p)))]
        @ opt_field ''maxOpenInScopeP2'' int_json (cr_maxOpenInScopeP2 (p_closeRequires p))))]"

section \<open>Sessions\<close>

record create_session_input =
  ns_title :: string
  ns_description :: "string option"
  ns_projectId :: "string option"
  ns_repoId :: "string option"
  ns_domain :: "string option"
  ns_backlogItemId :: "string option"
  ns_scope :: "hitch_scope option"
  ns_closeConditions :: "hitch_close_condition list option"
  ns_policy :: "hitch_policy option"
  ns_maxIterations :: "int option"
  ns_maxReviewCycles :: "int option"
  ns_maxReruns :: "int option"
  ns_maxTotalNewFindings :: "int option"
  ns_createdBy :: string
  ns_createdSource :: hitch_created_source

definition empty_scope :: hitch_scope where
  "empty_scope = \<lparr>sc_targetFiles = None, sc_targetOperations = None, sc_allowedFindingCategories = None,
     sc_excludedCategories = None, sc_notes = None, sc_targetSummary = None\<rparr>"

definition insert_session :: "hitch_session \<Rightarrow> unit hitch_act" where
  "insert_session row =
     act_bind (act_guard (\<lambda>db. \<not> session_exists (s_hitchId row) db) (Sql_unique ''hitch_sessions''))
       (\<lambda>_. act_modify (\<lambda>db. db\<lparr>db_sessions := db_sessions db @ [row]\<rparr>))"

definition createSession :: "create_session_input \<Rightarrow> string \<Rightarrow> timestamp \<Rightarrow> hitch_session hitch_act" where
  "createSession inp hitchId now =
     (let scope = or_else (ns_scope inp) empty_scope;
          closeConditions = or_else (ns_closeConditions inp) [];
          policy = or_else (ns_policy inp) DEFAULT_HITCH_POLICY
      in act_bind (act_guard (\<lambda>_. scope_ok scope) (Schema_invalid ''scope'')) (\<lambda>_.
         act_bind (act_guard (\<lambda>_. conditions_ok closeConditions) (Schema_invalid ''closeConditions'')) (\<lambda>_.
         act_bind (require_valid_conditions closeConditions) (\<lambda>_.
         act_bind (act_guard (\<lambda>_. policy_ok policy) (Schema_invalid ''policy'')) (\<lambda>_.
         act_bind (insert_session
           \<lparr>s_hitchId = hitchId, s_title = ns_title inp, s_description = ns_description inp,
            s_projectId = ns_projectId inp, s_repoId = ns_repoId inp, s_domain = ns_domain inp,
            s_backlogItemId = ns_backlogItemId inp, s_status = S_open, s_scope = scope,
            s_closeConditions = closeConditions, s_policy = policy,
            s_maxIterations = or_else (ns_maxIterations inp) 3,
            s_maxReviewCycles = or_else (ns_maxReviewCycles inp) 3,
            s_maxReruns = or_else (ns_maxReruns inp) 2,
            s_maxTotalNewFindings =
              or_else (ns_maxTotalNewFindings inp) (dv_maxTotalNewFindings (p_divergence policy)),
            s_currentIteration = 0, s_currentReviewCycle = 0, s_createdBy = ns_createdBy inp,
            s_createdSource = ns_createdSource inp, s_createdAt = now, s_updatedAt = now,
            s_closedAt = None, s_closeSummary = None, s_escalationReason = None,
            s_closePushAttempts = 0, s_closePushRunId = None\<rparr>) (\<lambda>_.
         requireHitchSession hitchId))))))"

record session_filter =
  sf_status :: "hitch_status option"
  sf_projectId :: "string option"
  sf_repoId :: "string option"
  sf_domain :: "string option"
  sf_limit :: "nat option"

definition opt_eq :: "'a option \<Rightarrow> 'a \<Rightarrow> bool" where
  "opt_eq want x = (case want of None \<Rightarrow> True | Some w \<Rightarrow> x = w)"

definition listSessions :: "hitch_db \<Rightarrow> session_filter \<Rightarrow> hitch_session list" where
  "listSessions db f =
     take (or_else (sf_limit f) 50)
       (rev (sort_key (\<lambda>s. (s_updatedAt s, s_hitchId s))
          (filter (\<lambda>s. opt_eq (sf_status f) (s_status s)
             \<and> (case sf_projectId f of None \<Rightarrow> True | Some p \<Rightarrow> s_projectId s = Some p)
             \<and> (case sf_repoId f of None \<Rightarrow> True | Some p \<Rightarrow> s_repoId s = Some p)
             \<and> (case sf_domain f of None \<Rightarrow> True | Some p \<Rightarrow> s_domain s = Some p))
            (db_sessions db))))"

definition insertLifecycleEvent ::
  "string \<Rightarrow> string \<Rightarrow> hitch_lifecycle_event_name \<Rightarrow> string \<Rightarrow> json_object option \<Rightarrow> timestamp
     \<Rightarrow> string \<Rightarrow> unit hitch_act" where
  "insertLifecycleEvent eid hitchId event reason detail createdAt createdBy =
     act_bind (act_guard (\<lambda>db. \<not> tbl_has ev_eventId eid (db_events db)) (Sql_unique ''hitch_lifecycle_events''))
      (\<lambda>_. act_bind (act_guard (session_exists hitchId) (Sql_foreign_key ''hitch_lifecycle_events''))
      (\<lambda>_. act_modify (\<lambda>db. db\<lparr>db_events := db_events db @
        [\<lparr>ev_eventId = eid, ev_hitchId = hitchId, ev_event = event, ev_reason = reason,
          ev_detail = detail, ev_createdAt = createdAt, ev_createdBy = createdBy\<rparr>]\<rparr>)))"

definition status_row :: "hitch_status \<Rightarrow> string option \<Rightarrow> timestamp \<Rightarrow> hitch_session \<Rightarrow> hitch_session" where
  "status_row status note now s = s\<lparr>s_status := status, s_updatedAt := now,
     s_closedAt := coalesce (if status = S_closed \<or> status = S_cancelled then Some now else None)
       (s_closedAt s),
     s_closeSummary := coalesce (if status = S_closed then note else None) (s_closeSummary s),
     s_escalationReason := coalesce (if status = S_escalated then note else None) (s_escalationReason s)\<rparr>"

definition updateStatus ::
  "string \<Rightarrow> hitch_status \<Rightarrow> string option \<Rightarrow> string \<Rightarrow> timestamp \<Rightarrow> string \<Rightarrow> hitch_session hitch_act" where
  "updateStatus hitchId status note createdBy now eid = act_atomically (
     act_bind (act_guard (session_exists hitchId) (Hitch_not_found hitchId)) (\<lambda>_.
     act_bind (update_session hitchId (status_row status note now)) (\<lambda>_.
     act_bind
       (if status = S_closed \<or> status = S_cancelled
        then insertLifecycleEvent eid hitchId (if status = S_closed then Ev_closed else Ev_cancelled)
          (or_else note []) None now createdBy
        else act_return ()) (\<lambda>_.
     requireHitchSession hitchId))))"

definition incrementClosePushAttempts :: "string \<Rightarrow> string \<Rightarrow> timestamp \<Rightarrow> int hitch_act" where
  "incrementClosePushAttempts hitchId runId now = act_atomically (
     act_bind (requireHitchSession hitchId) (\<lambda>cur.
       let nxt = (if s_closePushRunId cur = Some runId then s_closePushAttempts cur + 1 else 1)
       in act_bind (update_session hitchId (\<lambda>s. s\<lparr>s_closePushAttempts := nxt,
            s_closePushRunId := Some runId, s_updatedAt := now\<rparr>)) (\<lambda>_. act_return nxt)))"

text \<open>\<open>nonNegInt\<close> on a JavaScript number: \<open>None\<close> is \<open>undefined\<close>, NaN or an infinity.\<close>

definition nonNegInt :: "rat option \<Rightarrow> int" where
  "nonNegInt value = (case value of None \<Rightarrow> 0 | Some r \<Rightarrow> max 0 (if r < 0 then \<lceil>r\<rceil> else \<lfloor>r\<rfloor>))"

definition REOPENABLE_STATUSES :: "hitch_status list" where
  "REOPENABLE_STATUSES = [S_closed, S_budget_exhausted, S_escalated]"

definition reopenSession ::
  "string \<Rightarrow> string \<Rightarrow> string \<Rightarrow> rat option \<Rightarrow> rat option \<Rightarrow> rat option \<Rightarrow> timestamp \<Rightarrow> string
     \<Rightarrow> hitch_session hitch_act" where
  "reopenSession hitchId reason createdBy extendIterations extendReviewCycles extendReruns now eid =
     act_bind (requireHitchSession hitchId) (\<lambda>session.
       if s_status session \<notin> set REOPENABLE_STATUSES
       then act_throw (Not_reopenable hitchId (s_status session))
       else let it = nonNegInt extendIterations; rc = nonNegInt extendReviewCycles;
                rr = nonNegInt extendReruns
         in act_atomically (
           act_bind (act_guard (session_exists hitchId) (Hitch_not_found hitchId)) (\<lambda>_.
           act_bind (update_session hitchId (\<lambda>s. s\<lparr>s_status := S_open, s_updatedAt := now,
             s_closedAt := None, s_closeSummary := None, s_escalationReason := None,
             s_closePushAttempts := 0, s_closePushRunId := None,
             s_maxIterations := s_maxIterations s + it,
             s_maxReviewCycles := s_maxReviewCycles s + rc,
             s_maxReruns := s_maxReruns s + rr\<rparr>)) (\<lambda>_.
           act_bind (insertLifecycleEvent eid hitchId Ev_reopened reason
             (Some [(''previousStatus'', JStr (hitch_status_str (s_status session))),
                (''budgetExtensions'', JObj [(''iterations'', int_json it),
                   (''reviewCycles'', int_json rc), (''reruns'', int_json rr)])])
             now createdBy) (\<lambda>_.
           requireHitchSession hitchId)))))"

text \<open>The re-validation callback reads the database and may throw.\<close>

definition recoverDivergingSession ::
  "string \<Rightarrow> string \<Rightarrow> string \<Rightarrow> rat option \<Rightarrow> (hitch_db \<Rightarrow> hitch_error option) \<Rightarrow> timestamp \<Rightarrow> string
     \<Rightarrow> hitch_session hitch_act" where
  "recoverDivergingSession hitchId reason createdBy extendDivergenceBudget revalidate now eid =
     act_bind (requireHitchSession hitchId) (\<lambda>session.
       if s_status session \<noteq> S_diverging then act_throw (Not_diverging hitchId (s_status session))
       else let extension = nonNegInt extendDivergenceBudget
         in act_atomically (
           act_bind (act_get revalidate) (\<lambda>err.
           act_bind (case err of None \<Rightarrow> act_return () | Some e \<Rightarrow> act_throw e) (\<lambda>_.
           act_bind (requireHitchSession hitchId) (\<lambda>current.
           act_bind (act_guard (\<lambda>db. case getHitchSession db hitchId of
                 None \<Rightarrow> False | Some s \<Rightarrow> s_status s = S_diverging)
             (No_longer_diverging hitchId)) (\<lambda>_.
           act_bind (update_session hitchId (\<lambda>s. s\<lparr>s_status := S_open, s_updatedAt := now,
             s_maxTotalNewFindings := s_maxTotalNewFindings s + extension\<rparr>)) (\<lambda>_.
           act_bind (insertLifecycleEvent eid hitchId Ev_diverging_recovered reason
             (Some [(''previousStatus'', JStr ''diverging''),
                (''divergenceBudgetExtension'', int_json extension),
                (''previousMaxTotalNewFindings'', int_json (s_maxTotalNewFindings current)),
                (''newMaxTotalNewFindings'', int_json (s_maxTotalNewFindings current + extension))])
             now createdBy) (\<lambda>_.
           requireHitchSession hitchId))))))))"

definition adoptPr ::
  "string \<Rightarrow> string option \<Rightarrow> int option \<Rightarrow> string \<Rightarrow> string \<Rightarrow> timestamp \<Rightarrow> string \<Rightarrow> hitch_session hitch_act"
where
  "adoptPr hitchId prUrl prNumber reason createdBy now eid =
     (if prUrl = None \<and> prNumber = None then act_throw AdoptPr_needs_pr
      else if js_trim reason = [] then act_throw AdoptPr_needs_reason
      else act_atomically (
        act_bind (requireHitchSession hitchId) (\<lambda>_.
        act_bind (act_get (\<lambda>db. latestCodingRunId db hitchId)) (\<lambda>runId.
        act_bind (act_get (\<lambda>db. Option.bind runId (runPr db))) (\<lambda>supersededPr.
        act_bind (insertLifecycleEvent eid hitchId Ev_pr_adopted reason
          (Some [(''adoptedPr'', JObj [(''url'', null_or JStr prUrl), (''number'', null_or int_json prNumber)]),
             (''supersededPr'', null_or (\<lambda>(u, n). JObj [(''url'', null_or JStr u),
                (''number'', null_or int_json n)]) supersededPr),
             (''runId'', null_or JStr runId)]) now createdBy) (\<lambda>_.
        act_bind (touchHitchSession hitchId now) (\<lambda>_.
        requireHitchSession hitchId)))))))"

definition hasAdoptedPr :: "hitch_db \<Rightarrow> string \<Rightarrow> bool" where
  "hasAdoptedPr db hitchId \<longleftrightarrow> (\<exists>e \<in> set (db_events db). ev_hitchId e = hitchId \<and> ev_event e = Ev_pr_adopted)"

definition listLifecycleEvents :: "hitch_db \<Rightarrow> string \<Rightarrow> hitch_lifecycle_event list" where
  "listLifecycleEvents db hitchId = sort_key ev_createdAt (filter (\<lambda>e. ev_hitchId e = hitchId) (db_events db))"

subsection \<open>Configuration updates\<close>

definition CONFIG_UPDATE_STATUSES :: "hitch_status list" where
  "CONFIG_UPDATE_STATUSES = [S_open, S_in_progress, S_close_ready]"

definition REOPEN_BEFORE_UPDATE_STATUSES :: "hitch_status list" where
  "REOPEN_BEFORE_UPDATE_STATUSES = [S_closed, S_budget_exhausted, S_escalated]"

definition assertConfigUpdateAllowed :: "hitch_session \<Rightarrow> hitch_error option" where
  "assertConfigUpdateAllowed session =
     (if s_status session \<in> set CONFIG_UPDATE_STATUSES then None
      else if s_status session \<in> set REOPEN_BEFORE_UPDATE_STATUSES
      then Some (Reopen_before_update (s_hitchId session) (s_status session))
      else Some (Cannot_update (s_hitchId session) (s_status session)))"

definition boolGateLoosened :: "bool \<Rightarrow> bool \<Rightarrow> bool" where
  "boolGateLoosened previous next \<longleftrightarrow> previous \<and> \<not> next"

definition numericMaxGateLoosened :: "int option \<Rightarrow> int option \<Rightarrow> bool" where
  "numericMaxGateLoosened previous next =
     (case previous of None \<Rightarrow> False
      | Some p \<Rightarrow> (case next of None \<Rightarrow> True | Some n \<Rightarrow> n > p))"

definition policyLoosensGate :: "hitch_policy \<Rightarrow> hitch_policy \<Rightarrow> bool" where
  "policyLoosensGate previous next =
     (let pr = p_closeRequires previous; nr = p_closeRequires next
      in if \<not> p_allowEmptyCloseConditions previous \<and> p_allowEmptyCloseConditions next then True
         else if boolGateLoosened (cr_noOpenInScopeP0 pr) (cr_noOpenInScopeP0 nr) then True
         else if boolGateLoosened (cr_noOpenInScopeP1 pr) (cr_noOpenInScopeP1 nr) then True
         else if boolGateLoosened (cr_noUnknownScope pr) (cr_noUnknownScope nr) then True
         else numericMaxGateLoosened (cr_maxOpenInScopeP2 pr) (cr_maxOpenInScopeP2 nr))"

record update_config_input =
  uc_hitchId :: string
  uc_scope :: "hitch_scope option"
  uc_closeConditions :: "hitch_close_condition list option"
  uc_policy :: "hitch_policy option"
  uc_reason :: string
  uc_allowScopeWiden :: bool
  uc_allowGateLoosen :: bool
  uc_createdBy :: string

definition apply_config :: "update_config_input \<Rightarrow> timestamp \<Rightarrow> hitch_session \<Rightarrow> hitch_session" where
  "apply_config inp now s = s\<lparr>
     s_scope := or_else (uc_scope inp) (s_scope s),
     s_closeConditions := or_else (uc_closeConditions inp) (s_closeConditions s),
     s_policy := or_else (uc_policy inp) (s_policy s),
     s_updatedAt := now\<rparr>"

definition config_detail :: "update_config_input \<Rightarrow> hitch_session \<Rightarrow> json_object" where
  "config_detail inp session =
     [(''updatedFields'', strs_json (
         (if uc_scope inp = None then [] else [''scope''])
         @ (if uc_closeConditions inp = None then [] else [''closeConditions''])
         @ (if uc_policy inp = None then [] else [''policy''])))]
     @ (if uc_scope inp = None then [] else [(''previousScope'', scope_json (s_scope session))])
     @ (if uc_closeConditions inp = None then []
        else [(''previousCloseConditions'', JArr (map condition_json (s_closeConditions session)))])
     @ (if uc_policy inp = None then [] else [(''previousPolicy'', policy_json (s_policy session))])"

text \<open>The throw that stops the update inside its transaction, if one does.\<close>

definition config_gate_error :: "update_config_input \<Rightarrow> hitch_session \<Rightarrow> hitch_error option" where
  "config_gate_error inp session =
     (if assertConfigUpdateAllowed session \<noteq> None then assertConfigUpdateAllowed session
      else if (case uc_scope inp of None \<Rightarrow> False
         | Some scope \<Rightarrow> \<not> uc_allowScopeWiden inp \<and> isScopeWidening (s_scope session) scope)
      then Some (Scope_widen_needs_flag (uc_hitchId inp))
      else if (case uc_closeConditions inp of None \<Rightarrow> False
         | Some conds \<Rightarrow> \<not> uc_allowGateLoosen inp \<and> closeConditionsLoosenGate (s_closeConditions session) conds)
      then Some (Gate_loosen_needs_flag (uc_hitchId inp))
      else if (case uc_policy inp of None \<Rightarrow> False
         | Some policy \<Rightarrow> \<not> uc_allowGateLoosen inp \<and> policyLoosensGate (s_policy session) policy)
      then Some (Gate_loosen_needs_flag (uc_hitchId inp))
      else None)"

definition config_gates :: "update_config_input \<Rightarrow> hitch_session \<Rightarrow> unit hitch_act" where
  "config_gates inp session =
     (case config_gate_error inp session of None \<Rightarrow> act_return () | Some e \<Rightarrow> act_throw e)"

definition updateSessionConfig :: "update_config_input \<Rightarrow> timestamp \<Rightarrow> string \<Rightarrow> hitch_session hitch_act" where
  "updateSessionConfig inp now eid =
     (if uc_scope inp = None \<and> uc_closeConditions inp = None \<and> uc_policy inp = None
      then act_throw Update_needs_field
      else if js_trim (uc_reason inp) = [] then act_throw Update_needs_reason
      else
        act_bind (act_guard (\<lambda>_. case uc_scope inp of None \<Rightarrow> True | Some sc \<Rightarrow> scope_ok sc)
          (Schema_invalid ''scope'')) (\<lambda>_.
        act_bind (act_guard (\<lambda>_. case uc_closeConditions inp of None \<Rightarrow> True | Some cs \<Rightarrow> conditions_ok cs)
          (Schema_invalid ''closeConditions'')) (\<lambda>_.
        act_bind (case uc_closeConditions inp of None \<Rightarrow> act_return ()
          | Some cs \<Rightarrow> require_valid_conditions cs) (\<lambda>_.
        act_bind (act_guard (\<lambda>_. case uc_policy inp of None \<Rightarrow> True | Some po \<Rightarrow> policy_ok po)
          (Schema_invalid ''policy'')) (\<lambda>_.
        act_atomically (
          act_bind (requireHitchSession (uc_hitchId inp)) (\<lambda>session.
          act_bind (config_gates inp session) (\<lambda>_.
          act_bind (act_guard (session_exists (uc_hitchId inp)) (Hitch_not_found (uc_hitchId inp))) (\<lambda>_.
          act_bind (update_session (uc_hitchId inp) (apply_config inp now)) (\<lambda>_.
          act_bind (insertLifecycleEvent eid (uc_hitchId inp) Ev_updated (uc_reason inp)
            (Some (config_detail inp session)) now (uc_createdBy inp)) (\<lambda>_.
          requireHitchSession (uc_hitchId inp))))))))))))"

section \<open>Attempts\<close>

record create_attempt_input =
  at_hitchId :: string
  at_iteration :: "int option"
  at_attemptType :: hitch_attempt_type
  at_status :: "hitch_attempt_status option"
  at_operationId :: "string option"
  at_runId :: "string option"
  at_parentAttemptId :: "string option"
  at_input :: "json_object option"
  at_startedAt :: "timestamp option"

definition getAttempt :: "hitch_db \<Rightarrow> string \<Rightarrow> hitch_attempt option" where
  "getAttempt db attemptId = tbl_get a_attemptId attemptId (db_attempts db)"

definition requireAttempt :: "string \<Rightarrow> hitch_attempt hitch_act" where
  "requireAttempt attemptId = act_require (\<lambda>db. getAttempt db attemptId) (Attempt_not_found attemptId)"

definition max_iteration :: "hitch_db \<Rightarrow> string \<Rightarrow> int" where
  "max_iteration db hitchId = max0 (map a_iteration (filter (\<lambda>a. a_hitchId a = hitchId) (db_attempts db)))"

definition nextIteration :: "string \<Rightarrow> timestamp \<Rightarrow> int hitch_act" where
  "nextIteration hitchId clock =
     act_bind (act_get (\<lambda>db. max_iteration db hitchId + 1)) (\<lambda>n.
     act_bind (update_session hitchId (\<lambda>s. s\<lparr>s_currentIteration := max (s_currentIteration s) n,
       s_updatedAt := clock\<rparr>)) (\<lambda>_. act_return n))"

definition insert_attempt :: "hitch_attempt \<Rightarrow> unit hitch_act" where
  "insert_attempt row =
     act_bind (act_guard (\<lambda>db. \<not> tbl_has a_attemptId (a_attemptId row) (db_attempts db))
       (Sql_unique ''hitch_attempts'')) (\<lambda>_.
     act_bind (act_guard (session_exists (a_hitchId row)) (Sql_foreign_key ''hitch_attempts'')) (\<lambda>_.
     act_modify (\<lambda>db. db\<lparr>db_attempts := db_attempts db @ [row]\<rparr>)))"

text \<open>\<open>clock\<close> is the wall clock that \<open>nextIteration\<close> reads on its own.\<close>

definition createAttempt ::
  "create_attempt_input \<Rightarrow> string \<Rightarrow> timestamp \<Rightarrow> timestamp \<Rightarrow> hitch_attempt hitch_act" where
  "createAttempt inp attemptId now clock =
     act_bind (case at_iteration inp of Some n \<Rightarrow> act_return n
       | None \<Rightarrow> nextIteration (at_hitchId inp) clock) (\<lambda>iteration.
     act_bind (insert_attempt \<lparr>a_attemptId = attemptId, a_hitchId = at_hitchId inp,
       a_iteration = iteration, a_attemptType = at_attemptType inp,
       a_status = or_else (at_status inp) AS_running, a_operationId = at_operationId inp,
       a_runId = at_runId inp, a_parentAttemptId = at_parentAttemptId inp,
       a_input = or_else (at_input inp) [], a_result = [], a_errorMessage = None,
       a_startedAt = Some (or_else (at_startedAt inp) now), a_completedAt = None,
       a_createdAt = now\<rparr>) (\<lambda>_.
     act_bind (touchHitchSession (at_hitchId inp) now) (\<lambda>_.
     requireAttempt attemptId)))"

definition completeAttempt ::
  "string \<Rightarrow> hitch_attempt_status \<Rightarrow> string option \<Rightarrow> string option \<Rightarrow> json_object option \<Rightarrow> string option
     \<Rightarrow> timestamp \<Rightarrow> hitch_attempt hitch_act" where
  "completeAttempt attemptId status operationId runId result errorMessage now =
     act_bind (act_modify (\<lambda>db. db\<lparr>db_attempts := tbl_update a_attemptId attemptId
       (\<lambda>a. a\<lparr>a_status := status, a_operationId := coalesce operationId (a_operationId a),
          a_runId := coalesce runId (a_runId a), a_result := or_else result [],
          a_errorMessage := errorMessage, a_completedAt := Some now\<rparr>) (db_attempts db)\<rparr>)) (\<lambda>_.
     act_bind (requireAttempt attemptId) (\<lambda>attempt.
     act_bind (touchHitchSession (a_hitchId attempt) now) (\<lambda>_.
     act_return attempt)))"

definition discardAttempt :: "string \<Rightarrow> timestamp \<Rightarrow> unit hitch_act" where
  "discardAttempt attemptId now = act_atomically (
     act_bind (act_get (\<lambda>db. getAttempt db attemptId)) (\<lambda>found.
       case found of
         None \<Rightarrow> act_return ()
       | Some attempt \<Rightarrow>
           act_bind (act_modify (\<lambda>db. db\<lparr>db_attempts :=
             filter (\<lambda>a. a_attemptId a \<noteq> attemptId) (db_attempts db)\<rparr>)) (\<lambda>_.
           act_bind (act_get (\<lambda>db. max_iteration db (a_hitchId attempt))) (\<lambda>n.
           update_session (a_hitchId attempt)
             (\<lambda>s. s\<lparr>s_currentIteration := n, s_updatedAt := now\<rparr>)))))"

section \<open>Review cycles\<close>

definition getReviewCycle :: "hitch_db \<Rightarrow> string \<Rightarrow> hitch_review_cycle option" where
  "getReviewCycle db cycleId = tbl_get c_cycleId cycleId (db_cycles db)"

definition requireReviewCycle :: "string \<Rightarrow> hitch_review_cycle hitch_act" where
  "requireReviewCycle cycleId = act_require (\<lambda>db. getReviewCycle db cycleId) (Cycle_not_found cycleId)"

definition listReviewCycles :: "hitch_db \<Rightarrow> string \<Rightarrow> hitch_review_cycle list" where
  "listReviewCycles db hitchId = sort_key c_cycleNumber (filter (\<lambda>c. c_hitchId c = hitchId) (db_cycles db))"

definition nextReviewCycleNumber :: "hitch_db \<Rightarrow> string \<Rightarrow> int" where
  "nextReviewCycleNumber db hitchId =
     max0 (map c_cycleNumber (filter (\<lambda>c. c_hitchId c = hitchId) (db_cycles db))) + 1"

definition insert_cycle :: "hitch_review_cycle \<Rightarrow> unit hitch_act" where
  "insert_cycle row =
     act_bind (act_guard (\<lambda>db. \<not> tbl_has c_cycleId (c_cycleId row) (db_cycles db)
         \<and> (c_hitchId row, c_cycleNumber row) \<notin> set (map (\<lambda>c. (c_hitchId c, c_cycleNumber c)) (db_cycles db)))
       (Sql_unique ''hitch_review_cycles'')) (\<lambda>_.
     act_bind (act_guard (session_exists (c_hitchId row)) (Sql_foreign_key ''hitch_review_cycles'')) (\<lambda>_.
     act_modify (\<lambda>db. db\<lparr>db_cycles := db_cycles db @ [row]\<rparr>)))"

definition startReviewCycle ::
  "string \<Rightarrow> string \<Rightarrow> int option \<Rightarrow> hitch_review_mode \<Rightarrow> string option \<Rightarrow> string option \<Rightarrow> string option
     \<Rightarrow> timestamp \<Rightarrow> hitch_review_cycle hitch_act" where
  "startReviewCycle cycleId hitchId cycleNumber reviewMode triggerAttemptId sourceReviewId sourceRunId now =
     act_bind (act_get (\<lambda>db. or_else cycleNumber (nextReviewCycleNumber db hitchId))) (\<lambda>n.
     act_bind (insert_cycle \<lparr>c_cycleId = cycleId, c_hitchId = hitchId, c_cycleNumber = n,
       c_reviewMode = reviewMode, c_triggerAttemptId = triggerAttemptId,
       c_sourceReviewId = sourceReviewId, c_sourceRunId = sourceRunId, c_findingsSeen = 0,
       c_findingsNew = 0, c_findingsReopened = 0, c_findingsFixed = 0, c_findingsDeferred = 0,
       c_findingsInScopeOpen = 0, c_createdAt = now, c_completedAt = None, c_summary = None\<rparr>) (\<lambda>_.
     act_bind (update_session hitchId (\<lambda>s. s\<lparr>s_currentReviewCycle := max (s_currentReviewCycle s) n,
       s_updatedAt := now\<rparr>)) (\<lambda>_.
     requireReviewCycle cycleId)))"

record complete_cycle_input =
  cx_cycleId :: string
  cx_findingsSeen :: "int option"
  cx_findingsNew :: "int option"
  cx_findingsReopened :: "int option"
  cx_findingsFixed :: "int option"
  cx_findingsDeferred :: "int option"
  cx_findingsInScopeOpen :: "int option"
  cx_summary :: "string option"

definition completeReviewCycle :: "complete_cycle_input \<Rightarrow> timestamp \<Rightarrow> hitch_review_cycle hitch_act" where
  "completeReviewCycle inp now =
     act_bind (act_modify (\<lambda>db. db\<lparr>db_cycles := tbl_update c_cycleId (cx_cycleId inp)
       (\<lambda>c. c\<lparr>c_findingsSeen := or_else (cx_findingsSeen inp) 0,
          c_findingsNew := or_else (cx_findingsNew inp) 0,
          c_findingsReopened := or_else (cx_findingsReopened inp) 0,
          c_findingsFixed := or_else (cx_findingsFixed inp) 0,
          c_findingsDeferred := or_else (cx_findingsDeferred inp) 0,
          c_findingsInScopeOpen := or_else (cx_findingsInScopeOpen inp) 0,
          c_summary := cx_summary inp, c_completedAt := Some now\<rparr>) (db_cycles db)\<rparr>)) (\<lambda>_.
     act_bind (requireReviewCycle (cx_cycleId inp)) (\<lambda>cycle.
     act_bind (touchHitchSession (c_hitchId cycle) now) (\<lambda>_.
     act_return cycle)))"

section \<open>Close checks\<close>

datatype recording_mode = Manual_mode | Deterministic_mode

definition MANUALLY_RECORDABLE_CLOSE_CONDITION_KINDS :: "hitch_close_condition_kind list" where
  "MANUALLY_RECORDABLE_CLOSE_CONDITION_KINDS =
     [CK_command, CK_manual, CK_operation_status, CK_db_doctor, CK_artifact_exists]"

definition assertCloseCheckRecordable :: "string \<Rightarrow> string \<Rightarrow> recording_mode option \<Rightarrow> unit hitch_act" where
  "assertCloseCheckRecordable hitchId conditionId recordingMode =
     act_bind (requireHitchSession hitchId) (\<lambda>session.
       case find (\<lambda>c. cc_id c = conditionId) (s_closeConditions session) of
         None \<Rightarrow> act_throw (Condition_not_declared conditionId)
       | Some condition \<Rightarrow>
           if or_else recordingMode Manual_mode = Manual_mode
              \<and> cc_kind condition \<notin> set MANUALLY_RECORDABLE_CLOSE_CONDITION_KINDS
           then act_throw (Not_manually_recordable (cc_id condition) (cc_kind condition))
           else act_return ())"

definition getCloseCheck :: "hitch_db \<Rightarrow> string \<Rightarrow> hitch_close_check option" where
  "getCloseCheck db checkId = tbl_get k_checkId checkId (db_closeChecks db)"

definition requireCloseCheck :: "string \<Rightarrow> hitch_close_check hitch_act" where
  "requireCloseCheck checkId = act_require (\<lambda>db. getCloseCheck db checkId) (Close_check_not_found checkId)"

definition listCloseChecks :: "hitch_db \<Rightarrow> string \<Rightarrow> hitch_close_check list" where
  "listCloseChecks db hitchId =
     sort_key (\<lambda>k. (k_checkedAt k, k_checkId k)) (filter (\<lambda>k. k_hitchId k = hitchId) (db_closeChecks db))"

definition insert_close_check :: "hitch_close_check \<Rightarrow> unit hitch_act" where
  "insert_close_check row =
     act_bind (act_guard (\<lambda>db. \<not> tbl_has k_checkId (k_checkId row) (db_closeChecks db))
       (Sql_unique ''hitch_close_checks'')) (\<lambda>_.
     act_bind (act_guard (session_exists (k_hitchId row)) (Sql_foreign_key ''hitch_close_checks'')) (\<lambda>_.
     act_modify (\<lambda>db. db\<lparr>db_closeChecks := db_closeChecks db @ [row]\<rparr>)))"

definition recordCloseCheck ::
  "string \<Rightarrow> string \<Rightarrow> string \<Rightarrow> hitch_close_check_status \<Rightarrow> string \<Rightarrow> json_object option \<Rightarrow> string option
     \<Rightarrow> recording_mode option \<Rightarrow> timestamp \<Rightarrow> hitch_close_check hitch_act" where
  "recordCloseCheck checkId hitchId conditionId status checkedBy evidence message recordingMode checkedAt =
     act_bind (assertCloseCheckRecordable hitchId conditionId recordingMode) (\<lambda>_.
     act_bind (insert_close_check \<lparr>k_checkId = checkId, k_hitchId = hitchId, k_conditionId = conditionId,
       k_status = status, k_checkedAt = checkedAt, k_checkedBy = checkedBy,
       k_evidence = or_else evidence [], k_message = message\<rparr>) (\<lambda>_.
     act_bind (touchHitchSession hitchId checkedAt) (\<lambda>_.
     requireCloseCheck checkId)))"

section \<open>Decisions and evidence\<close>

definition getDecision :: "hitch_db \<Rightarrow> string \<Rightarrow> hitch_decision_record option" where
  "getDecision db decisionId = tbl_get dr_decisionId decisionId (db_decisions db)"

definition requireDecision :: "string \<Rightarrow> hitch_decision_record hitch_act" where
  "requireDecision decisionId = act_require (\<lambda>db. getDecision db decisionId) (Decision_not_found decisionId)"

definition listDecisions :: "hitch_db \<Rightarrow> string \<Rightarrow> hitch_decision_record list" where
  "listDecisions db hitchId =
     sort_key (\<lambda>d. (dr_createdAt d, dr_decisionId d)) (filter (\<lambda>d. dr_hitchId d = hitchId) (db_decisions db))"

definition insert_decision :: "hitch_decision_record \<Rightarrow> unit hitch_act" where
  "insert_decision row =
     act_bind (act_guard (\<lambda>db. \<not> tbl_has dr_decisionId (dr_decisionId row) (db_decisions db))
       (Sql_unique ''hitch_convergence_decisions'')) (\<lambda>_.
     act_bind (act_guard (session_exists (dr_hitchId row)) (Sql_foreign_key ''hitch_convergence_decisions'')) (\<lambda>_.
     act_modify (\<lambda>db. db\<lparr>db_decisions := db_decisions db @ [row]\<rparr>)))"

definition recordConvergenceDecision :: "hitch_decision_record \<Rightarrow> hitch_decision_record hitch_act" where
  "recordConvergenceDecision row =
     act_bind (insert_decision row) (\<lambda>_.
     act_bind (touchHitchSession (dr_hitchId row) (dr_createdAt row)) (\<lambda>_.
     requireDecision (dr_decisionId row)))"

definition insert_evidence :: "hitch_evidence \<Rightarrow> unit hitch_act" where
  "insert_evidence row =
     act_bind (act_guard (\<lambda>db. \<not> tbl_has e_evidenceId (e_evidenceId row) (db_evidence db))
       (Sql_unique ''hitch_evidence'')) (\<lambda>_.
     act_bind (act_guard (session_exists (e_hitchId row)) (Sql_foreign_key ''hitch_evidence'')) (\<lambda>_.
     act_modify (\<lambda>db. db\<lparr>db_evidence := db_evidence db @ [row]\<rparr>)))"

definition insertEvidence :: "hitch_evidence \<Rightarrow> unit hitch_act" where
  "insertEvidence row =
     act_bind (insert_evidence row) (\<lambda>_. touchHitchSession (e_hitchId row) (e_createdAt row))"

definition listEvidence :: "hitch_db \<Rightarrow> string \<Rightarrow> hitch_evidence list" where
  "listEvidence db hitchId =
     sort_key (\<lambda>e. (e_createdAt e, e_evidenceId e)) (filter (\<lambda>e. e_hitchId e = hitchId) (db_evidence db))"

definition getEvidence :: "hitch_db \<Rightarrow> string \<Rightarrow> hitch_evidence option" where
  "getEvidence db evidenceId = tbl_get e_evidenceId evidenceId (db_evidence db)"

section \<open>The constraints of the schema\<close>

text \<open>
  Primary keys, the foreign key to the session, one row per review-cycle number, and one canonical
  finding per stable key.
\<close>

definition keyed :: "('r \<Rightarrow> string) \<Rightarrow> ('r \<Rightarrow> string) \<Rightarrow> hitch_session list \<Rightarrow> 'r list \<Rightarrow> bool" where
  "keyed key owner sessions rows \<longleftrightarrow>
     distinct (map key rows) \<and> (\<forall>r \<in> set rows. tbl_has s_hitchId (owner r) sessions)"

definition canonical_keys :: "hitch_finding list \<Rightarrow> (string \<times> string) list" where
  "canonical_keys fs = map (\<lambda>f. (f_hitchId f, f_stableKey f)) (filter (\<lambda>f. f_duplicateOf f = None) fs)"

definition schema_inv :: "hitch_db \<Rightarrow> bool" where
  "schema_inv db \<longleftrightarrow>
     distinct (map s_hitchId (db_sessions db))
     \<and> keyed a_attemptId a_hitchId (db_sessions db) (db_attempts db)
     \<and> keyed c_cycleId c_hitchId (db_sessions db) (db_cycles db)
     \<and> distinct (map (\<lambda>c. (c_hitchId c, c_cycleNumber c)) (db_cycles db))
     \<and> keyed f_findingId f_hitchId (db_sessions db) (db_findings db)
     \<and> distinct (canonical_keys (db_findings db))
     \<and> keyed k_checkId k_hitchId (db_sessions db) (db_closeChecks db)
     \<and> keyed dr_decisionId dr_hitchId (db_sessions db) (db_decisions db)
     \<and> keyed ev_eventId ev_hitchId (db_sessions db) (db_events db)
     \<and> keyed e_evidenceId e_hitchId (db_sessions db) (db_evidence db)"

lemma keyed_Nil [simp]: "keyed key owner sessions []"
  by (simp add: keyed_def)

lemma keyed_append:
  "keyed key owner ss (rows @ [r]) \<longleftrightarrow>
   keyed key owner ss rows \<and> \<not> tbl_has key (key r) rows \<and> tbl_has s_hitchId (owner r) ss"
  by (auto simp: keyed_def tbl_has_def)

lemma keyed_update:
  assumes "\<And>r. key (f r) = key r" "\<And>r. owner (f r) = owner r" "keyed key owner ss rows"
  shows "keyed key owner ss (tbl_update key k f rows)"
  using assms(3) map_tbl_update_same [of key f key k rows, OF assms(1)]
  by (auto simp: keyed_def assms(2) dest!: set_tbl_update_subset)

lemma keyed_sessions:
  "(\<And>h. tbl_has s_hitchId h ss \<Longrightarrow> tbl_has s_hitchId h ss') \<Longrightarrow> keyed key owner ss rows \<Longrightarrow>
   keyed key owner ss' rows"
  by (auto simp: keyed_def)

lemma keyed_filter: "keyed key owner ss rows \<Longrightarrow> keyed key owner ss (filter P rows)"
  by (auto simp: keyed_def distinct_map_filter)

lemma act_keeps_reads [act_inv_rules]:
  "act_keeps I (requireHitchSession h)" "act_keeps I (requireAttempt a)"
  "act_keeps I (requireReviewCycle c)" "act_keeps I (requireCloseCheck k)"
  "act_keeps I (requireDecision d)" "act_keeps I (require_valid_conditions cs)"
  by (auto simp: requireHitchSession_def requireAttempt_def requireReviewCycle_def requireCloseCheck_def
      requireDecision_def require_valid_conditions_def
      intro!: act_inv_rules)

lemma keyed_update_session:
  "(\<And>s. s_hitchId (f s) = s_hitchId s) \<Longrightarrow>
   keyed key owner (tbl_update s_hitchId h f ss) rows = keyed key owner ss rows"
  by (simp add: keyed_def)

lemma schema_update_session [act_inv_rules]:
  assumes "\<And>s. s_hitchId (f s) = s_hitchId s"
  shows "act_keeps schema_inv (update_session h f)"
  unfolding update_session_def
  by (rule act_keeps_modify)
    (simp add: schema_inv_def map_tbl_update_same [where g = s_hitchId and f = f, OF assms]
      keyed_update_session [where f = f, OF assms])

lemma schema_touch [act_inv_rules]: "act_keeps schema_inv (touchHitchSession h t)"
  unfolding touchHitchSession_def by (rule schema_update_session) simp

lemma schema_insert_session [act_inv_rules]: "act_keeps schema_inv (insert_session row)"
  unfolding insert_session_def
  by (rule act_keeps_guarded)
    (simp add: schema_inv_def session_exists_def keyed_def tbl_has_def)

lemma schema_inserts [act_inv_rules]:
  "act_keeps schema_inv (insertLifecycleEvent eid h ev r d t by)"
  "act_keeps schema_inv (insert_attempt ra)"
  "act_keeps schema_inv (insert_cycle rc)"
  "act_keeps schema_inv (insert_close_check rk)"
  "act_keeps schema_inv (insert_decision rd)"
  "act_keeps schema_inv (insert_evidence re)"
  unfolding insertLifecycleEvent_def insert_attempt_def insert_cycle_def insert_close_check_def
    insert_decision_def insert_evidence_def
  by (rule act_keeps_guarded2; simp add: schema_inv_def keyed_append session_exists_def)+

lemma schema_config_gates [act_inv_rules]: "act_keeps I (config_gates inp s)"
  unfolding config_gates_def by (intro act_inv_rules)

lemma schema_recordable [act_inv_rules]: "act_keeps I (assertCloseCheckRecordable h c m)"
  unfolding assertCloseCheckRecordable_def by (intro act_inv_rules)

lemma schema_nextIteration [act_inv_rules]: "act_keeps schema_inv (nextIteration h t)"
  unfolding nextIteration_def by (intro act_inv_rules) simp

lemma schema_session_ops [act_inv_rules]:
  "act_keeps schema_inv (createSession inp h t)"
  "act_keeps schema_inv (updateStatus h st note by t eid)"
  "act_keeps schema_inv (incrementClosePushAttempts h run t)"
  "act_keeps schema_inv (reopenSession h reason by e1 e2 e3 t eid)"
  "act_keeps schema_inv (recoverDivergingSession h reason by ext rv t eid)"
  "act_keeps schema_inv (adoptPr h url num reason by t eid)"
  "act_keeps schema_inv (updateSessionConfig uinp t eid)"
  unfolding createSession_def updateStatus_def incrementClosePushAttempts_def reopenSession_def
    recoverDivergingSession_def adoptPr_def updateSessionConfig_def
  by (intro act_inv_rules; simp add: status_row_def apply_config_def)+

lemma schema_attempt_ops [act_inv_rules]:
  "act_keeps schema_inv (createAttempt ainp aid t clock)"
  "act_keeps schema_inv (completeAttempt aid st op run res err t)"
  "act_keeps schema_inv (discardAttempt aid t)"
proof -
  show "act_keeps schema_inv (createAttempt ainp aid t clock)"
    unfolding createAttempt_def by (intro act_inv_rules)
  show "act_keeps schema_inv (completeAttempt aid st op run res err t)"
    unfolding completeAttempt_def by (intro act_inv_rules) (simp add: schema_inv_def keyed_update)
  show "act_keeps schema_inv (discardAttempt aid t)"
    unfolding discardAttempt_def by (intro act_inv_rules) (simp_all add: schema_inv_def keyed_filter)
qed

lemma schema_cycle_ops [act_inv_rules]:
  "act_keeps schema_inv (startReviewCycle cid h n mode ta srev srun t)"
  "act_keeps schema_inv (completeReviewCycle cinp t)"
proof -
  show "act_keeps schema_inv (startReviewCycle cid h n mode ta srev srun t)"
    unfolding startReviewCycle_def by (intro act_inv_rules) simp
  show "act_keeps schema_inv (completeReviewCycle cinp t)"
    unfolding completeReviewCycle_def
    by (intro act_inv_rules)
      (simp add: schema_inv_def keyed_update map_tbl_update_same [where g = "\<lambda>c. (c_hitchId c, c_cycleNumber c)"])
qed

lemma schema_other_ops [act_inv_rules]:
  "act_keeps schema_inv (recordCloseCheck kid h c st by ev msg mode t)"
  "act_keeps schema_inv (recordConvergenceDecision row)"
  "act_keeps schema_inv (insertEvidence erow)"
  unfolding recordCloseCheck_def recordConvergenceDecision_def insertEvidence_def
  by (intro act_inv_rules)+

section \<open>The lifecycle ledger\<close>

text \<open>A closed or cancelled session has its closing time and its event in the ledger.\<close>

definition has_event :: "hitch_db \<Rightarrow> string \<Rightarrow> hitch_lifecycle_event_name \<Rightarrow> bool" where
  "has_event db h ev \<longleftrightarrow> (\<exists>e \<in> set (db_events db). ev_hitchId e = h \<and> ev_event e = ev)"

definition ledger_ok :: "hitch_db \<Rightarrow> hitch_session \<Rightarrow> bool" where
  "ledger_ok db s \<longleftrightarrow>
     (s_status s = S_closed \<longrightarrow> s_closedAt s \<noteq> None \<and> has_event db (s_hitchId s) Ev_closed)
     \<and> (s_status s = S_cancelled \<longrightarrow> s_closedAt s \<noteq> None \<and> has_event db (s_hitchId s) Ev_cancelled)"

definition ledger_inv :: "hitch_db \<Rightarrow> bool" where
  "ledger_inv db \<longleftrightarrow> (\<forall>s \<in> set (db_sessions db). ledger_ok db s)"

text \<open>An update that leaves a session's closing state alone, or leads to a status that is not final.\<close>

definition ledger_neutral :: "(hitch_session \<Rightarrow> hitch_session) \<Rightarrow> bool" where
  "ledger_neutral f \<longleftrightarrow> (\<forall>s. s_hitchId (f s) = s_hitchId s \<and>
     (s_status (f s) \<in> {S_closed, S_cancelled} \<longrightarrow> s_status (f s) = s_status s \<and> s_closedAt (f s) = s_closedAt s))"

lemma ledger_ok_neutral:
  assumes "ledger_neutral f" "ledger_ok db s"
  shows "ledger_ok db (f s)"
proof -
  have "s_hitchId (f s) = s_hitchId s"
    and "s_status (f s) \<in> {S_closed, S_cancelled} \<Longrightarrow> s_status s = s_status (f s) \<and> s_closedAt s = s_closedAt (f s)"
    using assms(1) unfolding ledger_neutral_def by metis+
  then show ?thesis using assms(2) unfolding ledger_ok_def by (metis insert_iff)
qed

lemma ledger_ok_sessions [simp]: "ledger_ok (db\<lparr>db_sessions := ss\<rparr>) s = ledger_ok db s"
  by (simp add: ledger_ok_def has_event_def)

lemma ledger_update_session [act_inv_rules]:
  assumes "ledger_neutral f"
  shows "act_keeps ledger_inv (update_session h f)"
  unfolding update_session_def
  by (rule act_keeps_modify)
    (auto simp: ledger_inv_def ledger_ok_neutral [OF assms] dest!: set_tbl_update_subset)

lemma ledger_touch [act_inv_rules]: "act_keeps ledger_inv (touchHitchSession h t)"
  unfolding touchHitchSession_def by (rule ledger_update_session) (simp add: ledger_neutral_def)

lemma ledger_inserts [act_inv_rules]:
  "act_keeps ledger_inv (insertLifecycleEvent eid h ev r d t by)"
  "act_keeps ledger_inv (insert_attempt ra)"
  "act_keeps ledger_inv (insert_cycle rc)"
  "act_keeps ledger_inv (insert_close_check rk)"
  "act_keeps ledger_inv (insert_decision rd)"
  "act_keeps ledger_inv (insert_evidence re)"
  unfolding insertLifecycleEvent_def insert_attempt_def insert_cycle_def insert_close_check_def
    insert_decision_def insert_evidence_def
  by (rule act_keeps_guarded2; force simp add: ledger_inv_def ledger_ok_def has_event_def)+

lemma ledger_createSession [act_inv_rules]: "act_keeps ledger_inv (createSession inp h t)"
proof -
  have "act_keeps ledger_inv (insert_session row)" if "s_status row = S_open" for row
    unfolding insert_session_def using that
    by (intro act_keeps_guarded) (auto simp: ledger_inv_def ledger_ok_def has_event_def)
  then show ?thesis unfolding createSession_def by (intro act_inv_rules) simp
qed

text \<open>What \<open>updateStatus\<close> does, on every branch.\<close>

lemma session_exists_iff: "session_exists h db \<longleftrightarrow> (\<exists>s. getHitchSession db h = Some s)"
  by (simp add: session_exists_def getHitchSession_def tbl_has_get)

definition with_session :: "string \<Rightarrow> (hitch_session \<Rightarrow> hitch_session) \<Rightarrow> hitch_db \<Rightarrow> hitch_db" where
  "with_session h f db = db\<lparr>db_sessions := tbl_update s_hitchId h f (db_sessions db)\<rparr>"

definition with_event :: "hitch_lifecycle_event \<Rightarrow> hitch_db \<Rightarrow> hitch_db" where
  "with_event e db = db\<lparr>db_events := db_events db @ [e]\<rparr>"

lemma getHitchSession_with [simp]:
  "(\<And>s. s_hitchId (f s) = s_hitchId s) \<Longrightarrow>
   getHitchSession (with_session h f db) j =
     (if j = h then map_option f (getHitchSession db h) else getHitchSession db j)"
  "getHitchSession (with_event e db) j = getHitchSession db j"
  by (simp_all add: getHitchSession_def with_session_def with_event_def tbl_get_update)

lemma with_fields [simp]:
  "db_events (with_session h f db) = db_events db"
  "db_sessions (with_session h f db) = tbl_update s_hitchId h f (db_sessions db)"
  "db_sessions (with_event e db) = db_sessions db"
  "db_events (with_event e db) = db_events db @ [e]"
  by (simp_all add: with_session_def with_event_def)

lemma update_session_run [act_simps]: "act_bind (update_session h f) k db = k () (with_session h f db)"
  by (simp add: update_session_def with_session_def act_simps)

lemma requireHitchSession_run [act_simps]:
  "act_bind (requireHitchSession h) k db =
     (case getHitchSession db h of None \<Rightarrow> (Inl (Hitch_not_found h), db) | Some s \<Rightarrow> k s db)"
  "requireHitchSession h db =
     (case getHitchSession db h of None \<Rightarrow> (Inl (Hitch_not_found h), db) | Some s \<Rightarrow> (Inr s, db))"
  by (simp_all add: requireHitchSession_def act_simps)

lemma insertLifecycleEvent_run [act_simps]:
  "act_bind (insertLifecycleEvent eid h ev reason detail t by) k db =
     (if tbl_has ev_eventId eid (db_events db) then (Inl (Sql_unique ''hitch_lifecycle_events''), db)
      else if \<not> session_exists h db then (Inl (Sql_foreign_key ''hitch_lifecycle_events''), db)
      else k () (with_event \<lparr>ev_eventId = eid, ev_hitchId = h, ev_event = ev, ev_reason = reason,
          ev_detail = detail, ev_createdAt = t, ev_createdBy = by\<rparr> db))"
  by (simp add: insertLifecycleEvent_def with_event_def act_simps)

lemma s_hitchId_status_row [simp]: "s_hitchId (status_row st note t s) = s_hitchId s"
  by (simp add: status_row_def)

lemma updateStatus_run:
  "updateStatus h st note by t eid db =
     (case getHitchSession db h of
        None \<Rightarrow> (Inl (Hitch_not_found h), db)
      | Some s \<Rightarrow>
          if st = S_closed \<or> st = S_cancelled then
            (if tbl_has ev_eventId eid (db_events db) then (Inl (Sql_unique ''hitch_lifecycle_events''), db)
             else (Inr (status_row st note t s),
               with_event \<lparr>ev_eventId = eid, ev_hitchId = h,
                 ev_event = (if st = S_closed then Ev_closed else Ev_cancelled),
                 ev_reason = or_else note [], ev_detail = None, ev_createdAt = t, ev_createdBy = by\<rparr>
                 (with_session h (status_row st note t) db)))
          else (Inr (status_row st note t s), with_session h (status_row st note t) db))"
  by (auto simp: updateStatus_def act_simps session_exists_iff split: option.split)

lemma ledger_updateStatus [act_inv_rules]: "act_keeps ledger_inv (updateStatus h st note by t eid)"
proof (cases "st = S_closed \<or> st = S_cancelled")
  case True
  then show ?thesis
    by (auto simp: act_keeps_def updateStatus_run ledger_inv_def ledger_ok_def has_event_def
        status_row_def split: option.splits dest!: set_tbl_update_subset)
next
  case False
  then show ?thesis
    unfolding updateStatus_def by (intro act_inv_rules) (auto simp: ledger_neutral_def status_row_def)
qed

lemma ledger_session_ops [act_inv_rules]:
  "act_keeps ledger_inv (incrementClosePushAttempts h run t)"
  "act_keeps ledger_inv (reopenSession h reason by e1 e2 e3 t eid)"
  "act_keeps ledger_inv (recoverDivergingSession h reason by ext rv t eid)"
  "act_keeps ledger_inv (adoptPr h url num reason by t eid)"
  "act_keeps ledger_inv (updateSessionConfig uinp t eid)"
  unfolding incrementClosePushAttempts_def reopenSession_def
    recoverDivergingSession_def adoptPr_def updateSessionConfig_def
  by (intro act_inv_rules; simp add: ledger_neutral_def apply_config_def)+

lemma ledger_other_ops [act_inv_rules]:
  "act_keeps ledger_inv (createAttempt ainp aid t clock)"
  "act_keeps ledger_inv (completeAttempt aid ast op run res err t)"
  "act_keeps ledger_inv (discardAttempt aid t)"
  "act_keeps ledger_inv (startReviewCycle cid h n mode ta srev srun t)"
  "act_keeps ledger_inv (completeReviewCycle cinp t)"
  "act_keeps ledger_inv (recordCloseCheck kid h c st by ev msg cmode t)"
  "act_keeps ledger_inv (recordConvergenceDecision row)"
  "act_keeps ledger_inv (insertEvidence erow)"
  unfolding createAttempt_def nextIteration_def completeAttempt_def discardAttempt_def
    startReviewCycle_def completeReviewCycle_def recordCloseCheck_def recordConvergenceDecision_def
    insertEvidence_def
  by (intro act_inv_rules; simp add: ledger_neutral_def ledger_inv_def ledger_ok_def has_event_def)+

section \<open>Reopening\<close>

lemma nonNegInt_nonneg: "0 \<le> nonNegInt r"
  by (simp add: nonNegInt_def split: option.split)

definition reopened_row :: "int \<Rightarrow> int \<Rightarrow> int \<Rightarrow> timestamp \<Rightarrow> hitch_session \<Rightarrow> hitch_session" where
  "reopened_row it rc rr now s = s\<lparr>s_status := S_open, s_updatedAt := now,
     s_closedAt := None, s_closeSummary := None, s_escalationReason := None,
     s_closePushAttempts := 0, s_closePushRunId := None,
     s_maxIterations := s_maxIterations s + it, s_maxReviewCycles := s_maxReviewCycles s + rc,
     s_maxReruns := s_maxReruns s + rr\<rparr>"

lemma s_hitchId_reopened_row [simp]: "s_hitchId (reopened_row it rc rr t s) = s_hitchId s"
  by (simp add: reopened_row_def)

lemma reopenSession_run:
  "reopenSession h reason by e1 e2 e3 t eid db =
     (case getHitchSession db h of
        None \<Rightarrow> (Inl (Hitch_not_found h), db)
      | Some s \<Rightarrow>
          if s_status s \<notin> set REOPENABLE_STATUSES then (Inl (Not_reopenable h (s_status s)), db)
          else if tbl_has ev_eventId eid (db_events db)
          then (Inl (Sql_unique ''hitch_lifecycle_events''), db)
          else let row = reopened_row (nonNegInt e1) (nonNegInt e2) (nonNegInt e3) t
            in (Inr (row s), with_event \<lparr>ev_eventId = eid, ev_hitchId = h, ev_event = Ev_reopened,
                 ev_reason = reason, ev_detail = Some [(''previousStatus'', JStr (hitch_status_str (s_status s))),
                   (''budgetExtensions'', JObj [(''iterations'', int_json (nonNegInt e1)),
                     (''reviewCycles'', int_json (nonNegInt e2)), (''reruns'', int_json (nonNegInt e3))])],
                 ev_createdAt = t, ev_createdBy = by\<rparr> (with_session h row db)))"
  by (auto simp: reopenSession_def act_simps session_exists_iff Let_def reopened_row_def [symmetric, abs_def]
      split: option.split)

text \<open>
  C8: reopening is all or nothing. A refused reopen leaves the database as it was; a successful one
  starts from a closed, exhausted or escalated session (never from a cancelled or a diverging one),
  leaves it open with its closing markers and its push budget cleared, shrinks no budget, records
  the event in the ledger, and touches no other session.
\<close>

theorem reopenSession_all_or_nothing:
  assumes "reopenSession h reason by e1 e2 e3 t eid db = (r, db')"
  shows "case r of
      Inl e \<Rightarrow> db' = db
    | Inr s' \<Rightarrow> \<exists>s. getHitchSession db h = Some s \<and> getHitchSession db' h = Some s'
        \<and> s_status s \<in> {S_closed, S_budget_exhausted, S_escalated}
        \<and> s_status s' = S_open \<and> s_closedAt s' = None \<and> s_escalationReason s' = None
        \<and> s_closePushAttempts s' = 0 \<and> s_closePushRunId s' = None
        \<and> s_maxIterations s \<le> s_maxIterations s' \<and> s_maxReviewCycles s \<le> s_maxReviewCycles s'
        \<and> s_maxReruns s \<le> s_maxReruns s' \<and> s_maxTotalNewFindings s' = s_maxTotalNewFindings s
        \<and> has_event db' h Ev_reopened
        \<and> (\<forall>j. j \<noteq> h \<longrightarrow> getHitchSession db' j = getHitchSession db j)"
  using assms nonNegInt_nonneg [of e1] nonNegInt_nonneg [of e2] nonNegInt_nonneg [of e3]
  by (auto simp: reopenSession_run REOPENABLE_STATUSES_def Let_def reopened_row_def has_event_def
      split: option.splits if_splits)

definition ex_db :: "hitch_session \<Rightarrow> hitch_db" where
  "ex_db s = \<lparr>db_sessions = [s], db_attempts = [], db_cycles = [], db_findings = [], db_closeChecks = [],
     db_decisions = [], db_events = [], db_evidence = [], db_runs = [], db_changedFiles = []\<rparr>"

theorem reopenSession_all_or_nothing_witness:
  "\<exists>s' db'. reopenSession ''h1'' ''late bug'' ''op'' (Some 2) None (Some (-1)) ''t9'' ''e1''
       (ex_db (ex_session\<lparr>s_status := S_closed, s_closedAt := Some ''t8''\<rparr>)) = (Inr s', db')
     \<and> s_status s' = S_open \<and> s_closedAt s' = None \<and> has_event db' ''h1'' Ev_reopened"
proof -
  let ?db = "ex_db (ex_session\<lparr>s_status := S_closed, s_closedAt := Some ''t8''\<rparr>)"
  obtain r db' where run: "reopenSession ''h1'' ''late bug'' ''op'' (Some 2) None (Some (-1)) ''t9'' ''e1'' ?db = (r, db')"
    by (cases "reopenSession ''h1'' ''late bug'' ''op'' (Some 2) None (Some (-1)) ''t9'' ''e1'' ?db")
  moreover from run obtain s' where "r = Inr s'"
    by (auto simp: reopenSession_run getHitchSession_def ex_db_def ex_session_def REOPENABLE_STATUSES_def
        tbl_has_def Let_def split: if_splits)
  ultimately show ?thesis using reopenSession_all_or_nothing [OF run] by auto
qed

section \<open>Configuration updates\<close>

definition update_config_ok :: "update_config_input \<Rightarrow> hitch_session \<Rightarrow> bool" where
  "update_config_ok inp s \<longleftrightarrow>
     s_status s \<in> {S_open, S_in_progress, S_close_ready}
     \<and> (\<forall>scope. uc_scope inp = Some scope \<longrightarrow> uc_allowScopeWiden inp \<or> \<not> isScopeWidening (s_scope s) scope)
     \<and> (\<forall>cs. uc_closeConditions inp = Some cs \<longrightarrow>
          vr_valid (validateCloseConditions cs False)
          \<and> (uc_allowGateLoosen inp \<or> \<not> closeConditionsLoosenGate (s_closeConditions s) cs))
     \<and> (\<forall>p. uc_policy inp = Some p \<longrightarrow> uc_allowGateLoosen inp \<or> \<not> policyLoosensGate (s_policy s) p)"

lemma require_valid_conditions_run [act_simps]:
  "act_bind (require_valid_conditions cs) k db =
     (if vr_valid (validateCloseConditions cs False) then k () db
      else (Inl (Close_conditions_invalid (formatCloseConditionValidationIssues
          (vr_errors (validateCloseConditions cs False)))
          (vr_errors (validateCloseConditions cs False))), db))"
  by (simp add: require_valid_conditions_def assertValidCloseConditions_def Let_def act_simps)

lemma config_gates_run:
  "act_bind (config_gates inp s) k db =
     (case config_gate_error inp s of None \<Rightarrow> k () db | Some e \<Rightarrow> (Inl e, db))"
  by (simp add: config_gates_def act_simps split: option.split)

lemma config_gate_error_None:
  assumes "config_gate_error inp s = None"
    and "\<And>cs. uc_closeConditions inp = Some cs \<Longrightarrow> vr_valid (validateCloseConditions cs False)"
  shows "update_config_ok inp s"
  using assms
  by (auto simp: config_gate_error_def update_config_ok_def assertConfigUpdateAllowed_def
      CONFIG_UPDATE_STATUSES_def split: if_splits)

lemma s_hitchId_apply_config [simp]: "s_hitchId (apply_config inp t s) = s_hitchId s"
  by (simp add: apply_config_def)

lemma updateSessionConfig_ok:
  assumes "updateSessionConfig inp t eid db = (Inr s', db')"
  obtains s where "getHitchSession db (uc_hitchId inp) = Some s" "update_config_ok inp s"
    "s' = apply_config inp t s" "getHitchSession db' (uc_hitchId inp) = Some s'"
    "has_event db' (uc_hitchId inp) Ev_updated"
proof -
  let ?h = "uc_hitchId inp"
  from assms have run: "act_atomically (
      act_bind (requireHitchSession ?h) (\<lambda>session.
      act_bind (config_gates inp session) (\<lambda>_.
      act_bind (act_guard (session_exists ?h) (Hitch_not_found ?h)) (\<lambda>_.
      act_bind (update_session ?h (apply_config inp t)) (\<lambda>_.
      act_bind (insertLifecycleEvent eid ?h Ev_updated (uc_reason inp)
        (Some (config_detail inp session)) t (uc_createdBy inp)) (\<lambda>_.
      requireHitchSession ?h)))))) db = (Inr s', db')"
    and valid: "\<And>cs. uc_closeConditions inp = Some cs \<Longrightarrow> vr_valid (validateCloseConditions cs False)"
    by (auto simp: updateSessionConfig_def act_simps split: if_splits option.splits)
  from run obtain s where s: "getHitchSession db ?h = Some s"
    by (auto simp: act_simps split: option.splits)
  let ?k = "\<lambda>_::unit. act_bind (act_guard (session_exists ?h) (Hitch_not_found ?h)) (\<lambda>_.
      act_bind (update_session ?h (apply_config inp t)) (\<lambda>_.
      act_bind (insertLifecycleEvent eid ?h Ev_updated (uc_reason inp)
        (Some (config_detail inp s)) t (uc_createdBy inp)) (\<lambda>_. requireHitchSession ?h)))"
  from run s have "act_bind (config_gates inp s) ?k db = (Inr s', db')"
    by (simp add: act_atomically_ok requireHitchSession_run)
  then have gate: "config_gate_error inp s = None" and k: "?k () db = (Inr s', db')"
    by (auto simp: config_gates_run split: option.splits)
  note ok = config_gate_error_None [OF gate valid]
  from k s have "s' = apply_config inp t s" "getHitchSession db' ?h = Some s'" "has_event db' ?h Ev_updated"
    by (auto simp: act_simps session_exists_iff has_event_def split: if_splits)
  with s ok show ?thesis using that by blast
qed

text \<open>Every session operation that fails leaves the database as it was.\<close>

lemma readonly_reads [act_clean_rules]:
  "act_readonly (requireHitchSession h)" "act_readonly (require_valid_conditions cs)"
  unfolding requireHitchSession_def require_valid_conditions_def
  by (auto intro!: act_clean_rules split: sum.split)

lemma session_ops_clean:
  "act_clean (updateStatus h st note by t eid)"
  "act_clean (incrementClosePushAttempts h run t)"
  "act_clean (reopenSession h reason by e1 e2 e3 t eid)"
  "act_clean (recoverDivergingSession h reason by ext rv t eid)"
  "act_clean (adoptPr h url num reason by t eid)"
  "act_clean (updateSessionConfig uinp t eid)"
  unfolding updateStatus_def incrementClosePushAttempts_def reopenSession_def
    recoverDivergingSession_def adoptPr_def updateSessionConfig_def
  by (intro act_clean_rules)+

definition gate_input :: "hitch_session \<Rightarrow> close_input \<Rightarrow> close_input" where
  "gate_input s inp = inp\<lparr>ci_conditions := s_closeConditions s,
     ci_allowEmptyCloseConditions := p_allowEmptyCloseConditions (s_policy s)\<rparr>"

lemma close_condition_met_gate [simp]:
  "close_condition_met mm td (gate_input s inp) c = close_condition_met mm td inp c"
  by (cases "cc_kind c")
    (simp_all add: close_condition_met_def gate_input_def recorded_pass_def fresh_check_recorded_def)

lemma gate_input_open:
  assumes "distinct (map e_evidenceId (ci_evidenceRows inp))"
  shows "ce_allRequiredPassed (evaluateCloseConditions mm td (gate_input s inp)) \<longleftrightarrow>
    (s_closeConditions s \<noteq> [] \<or> p_allowEmptyCloseConditions (s_policy s)) \<and>
    (\<forall>c \<in> set (s_closeConditions s). cc_required c \<longrightarrow> close_condition_met mm td inp c)"
proof -
  have "distinct (map e_evidenceId (ci_evidenceRows (gate_input s inp)))"
    using assms by (simp add: gate_input_def)
  note iff = evaluateCloseCondition_passed_iff [OF this]
  have fields: "ci_conditions (gate_input s inp) = s_closeConditions s"
    "ci_allowEmptyCloseConditions (gate_input s inp) = p_allowEmptyCloseConditions (s_policy s)"
    by (simp_all add: gate_input_def)
  show ?thesis unfolding allRequiredPassed_iff iff fields close_condition_met_gate by (rule refl)
qed

text \<open>
  C6: without the explicit flag a configuration update cannot open the close gate. If an update
  without \<open>allowGateLoosen\<close> succeeds on a hitch that has close conditions, then whenever the updated
  configuration lets the hitch close, the previous one does too, on the same evidence. (On a hitch without conditions an added
  condition may open the gate, flag or not.)
\<close>

theorem config_update_cannot_open_gate:
  assumes upd: "updateSessionConfig uinp t eid db = (Inr s', db')"
    and flag: "\<not> uc_allowGateLoosen uinp"
    and old: "getHitchSession db (uc_hitchId uinp) = Some s" "s_closeConditions s \<noteq> []"
    and rows: "distinct (map e_evidenceId (ci_evidenceRows inp))"
    and opened: "ce_allRequiredPassed (evaluateCloseConditions mm td (gate_input s' inp))"
  shows "ce_allRequiredPassed (evaluateCloseConditions mm td (gate_input s inp))"
proof -
  from upd old(1) have ok: "update_config_ok uinp s" and s': "s' = apply_config uinp t s"
    by (auto elim: updateSessionConfig_ok)
  have met: "close_condition_met mm td inp r" if "r \<in> set (s_closeConditions s')" "cc_required r" for r
    using opened that gate_input_open [OF rows] by blast
  have "close_condition_met mm td inp c" if c: "c \<in> set (s_closeConditions s)" "cc_required c" for c
  proof (cases "uc_closeConditions uinp")
    case None
    then show ?thesis using met [OF _ c(2)] c(1) by (simp add: s' apply_config_def)
  next
    case (Some cs)
    then have "\<not> closeConditionsLoosenGate (s_closeConditions s) (s_closeConditions s')"
      using ok flag by (simp add: update_config_ok_def s' apply_config_def)
    then obtain r where r: "r \<in> set (s_closeConditions s')" "cc_id r = cc_id c" "cc_required r"
      "conditionGateFingerprint r = conditionGateFingerprint c"
      using c by (rule not_loosenedD)
    then show ?thesis
      using met [OF r(1,3)] close_condition_met_cong [of r c] by (simp add: conditionGateFingerprint_def)
  qed
  then show ?thesis using old(2) gate_input_open [OF rows] by blast
qed

definition ex_tests :: hitch_close_condition where
  "ex_tests = ex_condition ''tests'' CK_command True None"

definition ex_update :: update_config_input where
  "ex_update = \<lparr>uc_hitchId = ''h1'', uc_scope = None,
     uc_closeConditions = Some [ex_tests, ex_condition ''policy'' CK_finding_policy True None],
     uc_policy = None, uc_reason = ''tighten'', uc_allowScopeWiden = False, uc_allowGateLoosen = False,
     uc_createdBy = ''op''\<rparr>"

theorem config_update_cannot_open_gate_witness:
  "\<exists>s' db'. updateSessionConfig ex_update ''t5'' ''e1'' (ex_db (ex_session\<lparr>s_closeConditions := [ex_tests]\<rparr>))
       = (Inr s', db')
     \<and> ce_allRequiredPassed (evaluateCloseConditions (=) (\<lambda>_. RD_none)
         (gate_input (ex_session\<lparr>s_closeConditions := [ex_tests]\<rparr>) (ex_close_input (Some ''t2''))))"
proof -
  let ?s = "ex_session\<lparr>s_closeConditions := [ex_tests]\<rparr>"
  have ok: "case updateSessionConfig ex_update ''t5'' ''e1'' (ex_db ?s) of
      (Inl _, _) \<Rightarrow> False
    | (Inr s', _) \<Rightarrow> ce_allRequiredPassed (evaluateCloseConditions (=) (\<lambda>_. RD_none)
        (gate_input s' (ex_close_input (Some ''t2''))))"
    by code_simp
  then obtain s' db' where upd: "updateSessionConfig ex_update ''t5'' ''e1'' (ex_db ?s) = (Inr s', db')"
    and opened: "ce_allRequiredPassed (evaluateCloseConditions (=) (\<lambda>_. RD_none)
        (gate_input s' (ex_close_input (Some ''t2''))))"
    by (auto split: prod.splits sum.splits)
  have "getHitchSession (ex_db ?s) (uc_hitchId ex_update) = Some ?s" by code_simp
  with config_update_cannot_open_gate [OF upd _ _ _ _ opened, of ?s] upd show ?thesis
    by (simp add: ex_update_def ex_close_input_def)
qed

end
