(* ===== verification/Near_Duplicate.thy ===== *)
theory Near_Duplicate
  imports Text_Match Hitch_Types
begin

text \<open>
  \<open>src/hitch/near-duplicate.ts\<close> and \<open>src/hitch/stable-key.ts\<close>: when a new finding is taken for a
  restatement of an existing one, and the identity text behind a finding's stable key. The
  tokenizer of summaries (a chain of regular-expression replacements of line references) is the
  parameter \<open>tok\<close>; \<open>sha\<close> is SHA-256 in hexadecimal. Jaccard scores are exact rationals: the
  quotients are of small integers, so the comparisons with the thresholds agree with those on
  doubles.
\<close>

record near_duplicate_candidate =
  nd_findingId :: string
  nd_hitchId :: string
  nd_category :: string
  nd_summary :: string
  nd_filePath :: "string option"
  nd_symbol :: "string option"

record summary_tokens =
  tk_exactKey :: string
  tk_wordTokens :: "string list"
  tk_tokenSet :: "string list"
  tk_meaningfulNumbers :: "string list"
  tk_distinctiveTokens :: "string list"

type_synonym tokenizer = "string \<Rightarrow> summary_tokens"

definition MIN_FUZZY_TOKENS :: nat where
  "MIN_FUZZY_TOKENS = 5"

definition normalizeCategory :: "string \<Rightarrow> string" where
  "normalizeCategory value = collapse_ws (js_lower (js_trim value))"

definition slashes :: "string \<Rightarrow> string" where
  "slashes s = map (\<lambda>c. if c = CHR 0x5C then CHR ''/'' else c) s"

definition strip_dot_slash :: "string \<Rightarrow> string" where
  "strip_dot_slash s = (if js_starts_with s ''./'' then drop 2 s else s)"

definition normalizeFilePath :: "string option \<Rightarrow> string option" where
  "normalizeFilePath value =
     (let normalized = js_lower (js_trim (strip_dot_slash (slashes (or_else value []))))
      in if normalized = [] then None else Some normalized)"

definition normalizeSymbol :: "string option \<Rightarrow> string option" where
  "normalizeSymbol value =
     (let normalized = collapse_ws (js_lower (js_trim (or_else value [])))
      in if normalized = [] then None else Some normalized)"

definition filePathsCompatible :: "string option \<Rightarrow> string option \<Rightarrow> bool" where
  "filePathsCompatible incoming existing \<longleftrightarrow> incoming = existing"

definition symbolsCompatible :: "string option \<Rightarrow> string option \<Rightarrow> bool" where
  "symbolsCompatible incoming existing \<longleftrightarrow> incoming = existing"

definition pathless :: "string option \<Rightarrow> string option \<Rightarrow> bool" where
  "pathless filePath symbol \<longleftrightarrow> filePath = None \<and> symbol = None"

fun bigrams :: "string list \<Rightarrow> string list" where
  "bigrams (a # b # ts) = (a @ '' '' @ b) # bigrams (b # ts)"
| "bigrams _ = []"

definition jaccard :: "string list \<Rightarrow> string list \<Rightarrow> rat" where
  "jaccard left right =
     (let l = remdups left; r = remdups right;
          intersection = length (filter (\<lambda>item. item \<in> set r) l);
          union = length l + length r - intersection
      in if l = [] \<and> r = [] then 1
         else if union = 0 then 0
         else of_nat intersection / of_nat union)"

definition sameMeaningfulNumbers :: "string list \<Rightarrow> string list \<Rightarrow> bool" where
  "sameMeaningfulNumbers left right \<longleftrightarrow>
     length left = length right \<and> list_all2 (=) left right"

definition compatibleDistinctiveTokens :: "string list \<Rightarrow> string list \<Rightarrow> bool" where
  "compatibleDistinctiveTokens incoming existing \<longleftrightarrow>
     incoming = [] \<or> existing = [] \<or> (\<exists>token \<in> set incoming. token \<in> set existing)"

text \<open>The \<open>continue\<close> guards of the loop that do not look at the scores.\<close>

definition comparable :: "tokenizer \<Rightarrow> near_duplicate_candidate \<Rightarrow> near_duplicate_candidate \<Rightarrow> bool" where
  "comparable tok incoming candidate \<longleftrightarrow>
     nd_hitchId candidate = nd_hitchId incoming
     \<and> normalizeCategory (nd_category candidate) = normalizeCategory (nd_category incoming)
     \<and> filePathsCompatible (normalizeFilePath (nd_filePath incoming)) (normalizeFilePath (nd_filePath candidate))
     \<and> symbolsCompatible (normalizeSymbol (nd_symbol incoming)) (normalizeSymbol (nd_symbol candidate))
     \<and> sameMeaningfulNumbers (tk_meaningfulNumbers (tok (nd_summary incoming)))
          (tk_meaningfulNumbers (tok (nd_summary candidate)))
     \<and> (pathless (normalizeFilePath (nd_filePath incoming)) (normalizeSymbol (nd_symbol incoming)) \<longrightarrow>
          compatibleDistinctiveTokens (tk_distinctiveTokens (tok (nd_summary incoming)))
            (tk_distinctiveTokens (tok (nd_summary candidate))))"

definition token_threshold :: "bool \<Rightarrow> rat" where
  "token_threshold isPathless = (if isPathless then 3/4 else 3/5)"

definition bigram_threshold :: "bool \<Rightarrow> rat" where
  "bigram_threshold isPathless = (if isPathless then 3/5 else 1/2)"

fun nearDuplicateLoop ::
  "tokenizer \<Rightarrow> near_duplicate_candidate \<Rightarrow> near_duplicate_candidate list
     \<Rightarrow> (near_duplicate_candidate \<times> rat) option \<Rightarrow> near_duplicate_candidate option" where
  "nearDuplicateLoop tok incoming [] best = map_option fst best"
| "nearDuplicateLoop tok incoming (candidate # candidates) best =
     (let inc = tok (nd_summary incoming); ext = tok (nd_summary candidate);
          isPathless = pathless (normalizeFilePath (nd_filePath incoming)) (normalizeSymbol (nd_symbol incoming))
      in if \<not> comparable tok incoming candidate then nearDuplicateLoop tok incoming candidates best
         else if length (tk_wordTokens inc) < MIN_FUZZY_TOKENS \<or> length (tk_wordTokens ext) < MIN_FUZZY_TOKENS
         then (if tk_exactKey inc \<noteq> tk_exactKey ext then nearDuplicateLoop tok incoming candidates best
               else Some candidate)
         else
           (let tokenJaccard = jaccard (tk_tokenSet inc) (tk_tokenSet ext);
                bigramJaccard = jaccard (bigrams (tk_wordTokens inc)) (bigrams (tk_wordTokens ext));
                score = tokenJaccard + bigramJaccard
            in if tokenJaccard < token_threshold isPathless \<or> bigramJaccard < bigram_threshold isPathless
               then nearDuplicateLoop tok incoming candidates best
               else nearDuplicateLoop tok incoming candidates
                 (case best of
                    None \<Rightarrow> Some (candidate, score)
                  | Some (b, s) \<Rightarrow> if score > s then Some (candidate, score) else best)))"

text \<open>The incoming finding is given as a candidate record; its \<open>findingId\<close> is not read.\<close>

definition findNearDuplicate ::
  "tokenizer \<Rightarrow> near_duplicate_candidate \<Rightarrow> near_duplicate_candidate list \<Rightarrow> near_duplicate_candidate option"
where
  "findNearDuplicate tok incoming candidates = nearDuplicateLoop tok incoming candidates None"

section \<open>Stable keys\<close>

definition normalizePart :: "string option \<Rightarrow> string" where
  "normalizePart value = collapse_ws (js_lower (js_trim (strip_dot_slash (slashes (or_else value [])))))"

definition normalizeFindingIdentity :: "string option \<Rightarrow> string option \<Rightarrow> string \<Rightarrow> string \<Rightarrow> string" where
  "normalizeFindingIdentity filePath symbol category summary =
     js_join [CHR 0x0A] [normalizePart filePath, normalizePart symbol, normalizePart (Some category),
       normalizePart (Some summary)]"

definition hitchFindingStableKey ::
  "(string \<Rightarrow> string) \<Rightarrow> string option \<Rightarrow> string option \<Rightarrow> string \<Rightarrow> string \<Rightarrow> string" where
  "hitchFindingStableKey sha filePath symbol category summary =
     sha (normalizeFindingIdentity filePath symbol category summary)"

section \<open>Facts\<close>

lemma nearDuplicateLoop_Some:
  "nearDuplicateLoop tok incoming cs best = Some c \<Longrightarrow>
   (c \<in> set cs \<and> comparable tok incoming c) \<or> (\<exists>s. best = Some (c, s))"
proof (induction cs arbitrary: best)
  case (Cons candidate cs)
  have step: "nearDuplicateLoop tok incoming cs best' = Some c \<Longrightarrow>
      c \<in> set cs \<and> comparable tok incoming c \<or> (\<exists>s. best' = Some (c, s))" for best'
    by (rule Cons.IH)
  from Cons.prems show ?case
    by (auto simp: Let_def split: if_splits option.splits prod.splits dest!: step)
qed auto

text \<open>
  a near duplicate is one of the candidates and agrees with the new finding on the hitch, the
  category, the file, the symbol and every meaningful number of its summary; findings anchored at
  different places are never merged.
\<close>

theorem findNearDuplicate_agrees:
  assumes "findNearDuplicate tok incoming candidates = Some c"
  shows "c \<in> set candidates \<and> nd_hitchId c = nd_hitchId incoming
    \<and> normalizeCategory (nd_category c) = normalizeCategory (nd_category incoming)
    \<and> normalizeFilePath (nd_filePath c) = normalizeFilePath (nd_filePath incoming)
    \<and> normalizeSymbol (nd_symbol c) = normalizeSymbol (nd_symbol incoming)
    \<and> tk_meaningfulNumbers (tok (nd_summary c)) = tk_meaningfulNumbers (tok (nd_summary incoming))"
  using nearDuplicateLoop_Some [of tok incoming candidates None c] assms
  by (auto simp: findNearDuplicate_def comparable_def filePathsCompatible_def symbolsCompatible_def
      sameMeaningfulNumbers_def list.rel_eq)

definition ex_tok :: tokenizer where
  "ex_tok s = \<lparr>tk_exactKey = s, tk_wordTokens = [], tk_tokenSet = [], tk_meaningfulNumbers = [],
     tk_distinctiveTokens = []\<rparr>"

definition ex_candidate :: "string \<Rightarrow> string option \<Rightarrow> string \<Rightarrow> near_duplicate_candidate" where
  "ex_candidate fid path summary = \<lparr>nd_findingId = fid, nd_hitchId = ''h1'', nd_category = ''Bug'',
     nd_summary = summary, nd_filePath = path, nd_symbol = None\<rparr>"

theorem findNearDuplicate_agrees_witness:
  "findNearDuplicate ex_tok (ex_candidate ''f9'' (Some ''./a.ts'') ''same'')
     [ex_candidate ''f1'' (Some ''b.ts'') ''same'', ex_candidate ''f2'' (Some ''a.ts'') ''same'']
     = Some (ex_candidate ''f2'' (Some ''a.ts'') ''same'')
   \<and> normalizeFilePath (Some ''a.ts'') = normalizeFilePath (Some ''./a.ts'')"
proof -
  have run: "findNearDuplicate ex_tok (ex_candidate ''f9'' (Some ''./a.ts'') ''same'')
     [ex_candidate ''f1'' (Some ''b.ts'') ''same'', ex_candidate ''f2'' (Some ''a.ts'') ''same'']
     = Some (ex_candidate ''f2'' (Some ''a.ts'') ''same'')" by code_simp
  from findNearDuplicate_agrees [OF run] run show ?thesis by (simp add: ex_candidate_def)
qed

text \<open>The score is symmetric and stays between zero and one.\<close>

lemma length_filter_mem_card: "distinct l \<Longrightarrow> length (filter (\<lambda>x. x \<in> A) l) = card (set l \<inter> A)"
  by (metis distinct_card distinct_filter inf_commute set_filter Int_def Collect_mem_eq Collect_conj_eq)

lemma jaccard_commute: "jaccard a b = jaccard b a"
  by (auto simp: jaccard_def Let_def length_filter_mem_card Int_commute add.commute)

lemma jaccard_bounds: "0 \<le> jaccard a b \<and> jaccard a b \<le> 1"
proof -
  let ?i = "length (filter (\<lambda>x. x \<in> set b) (remdups a))"
  have "?i \<le> length (remdups a)" by (rule length_filter_le)
  moreover have "?i \<le> length (remdups b)"
    using card_mono [of "set b" "set a \<inter> set b"]
    by (simp add: length_filter_mem_card length_remdups_card_conv)
  ultimately have "?i \<le> length (remdups a) + length (remdups b) - ?i" by linarith
  then have "rat_of_nat ?i \<le> of_nat (length (remdups a) + length (remdups b) - ?i)"
    by (rule of_nat_mono)
  then show ?thesis by (auto simp: jaccard_def Let_def divide_le_eq)
qed

end
