(* ===== verification/Findings.thy ===== *)
theory Findings
  imports Hitch_Store Near_Duplicate
begin

text \<open>
  Findings: \<open>src/hitch/repositories/finding-helpers.ts\<close>, \<open>finding-write.ts\<close> and
  \<open>finding-repository.ts\<close>. A finding is created or re-observed (\<open>upsertFinding\<close>), classified,
  fixed, deferred, linked to an issue, or retired by a later approving review; the reads count what
  still blocks the hitch. The tokenizer and the hash are parameters, as in \<open>Near_Duplicate\<close>.
\<close>

section \<open>Ranks and lifecycle rules\<close>

fun severity_rank :: "hitch_finding_severity \<Rightarrow> int" where
  "severity_rank P0 = 0"
| "severity_rank P1 = 1"
| "severity_rank P2 = 2"
| "severity_rank P3 = 3"
| "severity_rank Info = 4"

definition moreSevere :: "hitch_finding_severity \<Rightarrow> hitch_finding_severity \<Rightarrow> hitch_finding_severity" where
  "moreSevere current incoming = (if severity_rank incoming < severity_rank current then incoming else current)"

fun scope_rank :: "hitch_scope_status \<Rightarrow> int" where
  "scope_rank Duplicate_scope = -1"
| "scope_rank Out_of_scope = 0"
| "scope_rank Unknown_scope = 1"
| "scope_rank In_scope = 2"

definition moreBlockingScope :: "hitch_scope_status \<Rightarrow> hitch_scope_status \<Rightarrow> hitch_scope_status" where
  "moreBlockingScope current incoming = (if scope_rank incoming > scope_rank current then incoming else current)"

definition OPEN_FINDING_LIFECYCLES :: "hitch_lifecycle_status list" where
  "OPEN_FINDING_LIFECYCLES = [L_open, L_reopened, L_escalated]"

definition UNRESOLVED_OUT_OF_SCOPE_FINDING_LIFECYCLES :: "hitch_lifecycle_status list" where
  "UNRESOLVED_OUT_OF_SCOPE_FINDING_LIFECYCLES = [L_open, L_reopened, L_out_of_scope, L_escalated]"

definition NON_BLOCKING_CANONICAL_LIFECYCLES :: "hitch_lifecycle_status list" where
  "NON_BLOCKING_CANONICAL_LIFECYCLES = [L_deferred, L_accepted_risk, L_out_of_scope]"

definition isHarnessOriginFindingSource :: "hitch_finding_source \<Rightarrow> bool" where
  "isHarnessOriginFindingSource source \<longleftrightarrow> source \<in> set HARNESS_ORIGIN_FINDING_SOURCES"

definition defaultLifecycleForScope :: "hitch_scope_status \<Rightarrow> hitch_lifecycle_status" where
  "defaultLifecycleForScope scopeStatus =
     (if scopeStatus = Out_of_scope then L_out_of_scope
      else if scopeStatus = Duplicate_scope then L_duplicate
      else L_open)"

definition incomingCloseBlockerCandidate ::
  "hitch_scope_status \<Rightarrow> hitch_lifecycle_status \<Rightarrow> hitch_finding_severity \<Rightarrow> bool" where
  "incomingCloseBlockerCandidate scopeStatus lifecycleStatus severity =
     (if lifecycleStatus \<notin> set OPEN_FINDING_LIFECYCLES then False
      else if scopeStatus \<noteq> In_scope \<and> scopeStatus \<noteq> Unknown_scope then False
      else severity = P0 \<or> severity = P1 \<or> severity = P2)"

definition shouldReopenForIncoming ::
  "hitch_lifecycle_status \<Rightarrow> hitch_scope_status \<Rightarrow> hitch_lifecycle_status \<Rightarrow> hitch_finding_severity \<Rightarrow> bool"
where
  "shouldReopenForIncoming canonicalLifecycle incomingScope incomingLifecycle incomingSeverity \<longleftrightarrow>
     canonicalLifecycle \<in> set NON_BLOCKING_CANONICAL_LIFECYCLES
     \<and> incomingCloseBlockerCandidate incomingScope incomingLifecycle incomingSeverity"

definition NEAR_DUPLICATE_CLASSIFICATION_PREFIX :: string where
  "NEAR_DUPLICATE_CLASSIFICATION_PREFIX = ''near-duplicate of ''"

definition nearDuplicateClassificationReason :: "string \<Rightarrow> string option \<Rightarrow> string" where
  "nearDuplicateClassificationReason canonicalFindingId classificationReason =
     (let suffix = (if js_trim (or_else classificationReason []) = [] then []
                    else ''; '' @ js_trim (or_else classificationReason []))
      in NEAR_DUPLICATE_CLASSIFICATION_PREFIX @ canonicalFindingId @ suffix)"

definition isNearDuplicateClassificationReason :: "string option \<Rightarrow> bool" where
  "isNearDuplicateClassificationReason reason =
     (case reason of None \<Rightarrow> False | Some r \<Rightarrow> js_starts_with r NEAR_DUPLICATE_CLASSIFICATION_PREFIX)"

definition AUTO_RESOLVE_NOTE_PREFIX :: string where
  "AUTO_RESOLVE_NOTE_PREFIX = ''auto-resolved: superseded by approving review''"

section \<open>Table access\<close>

definition getFinding :: "hitch_db \<Rightarrow> string \<Rightarrow> hitch_finding option" where
  "getFinding db findingId = tbl_get f_findingId findingId (db_findings db)"

definition requireFinding :: "string \<Rightarrow> hitch_finding hitch_act" where
  "requireFinding findingId = act_require (\<lambda>db. getFinding db findingId) (Finding_not_found findingId)"

definition with_findings :: "(hitch_finding list \<Rightarrow> hitch_finding list) \<Rightarrow> hitch_db \<Rightarrow> hitch_db" where
  "with_findings g db = db\<lparr>db_findings := g (db_findings db)\<rparr>"

text \<open>An UPDATE of one finding, checked against the unique index on canonical stable keys.\<close>

definition update_finding :: "string \<Rightarrow> (hitch_finding \<Rightarrow> hitch_finding) \<Rightarrow> unit hitch_act" where
  "update_finding findingId f =
     act_bind (act_guard (\<lambda>db. distinct (canonical_keys (tbl_update f_findingId findingId f (db_findings db))))
       (Sql_unique ''hitch_findings'')) (\<lambda>_.
     act_modify (with_findings (tbl_update f_findingId findingId f)))"

definition insert_finding :: "hitch_finding \<Rightarrow> unit hitch_act" where
  "insert_finding row =
     act_bind (act_guard (\<lambda>db. \<not> tbl_has f_findingId (f_findingId row) (db_findings db)
         \<and> distinct (canonical_keys (db_findings db @ [row])))
       (Sql_unique ''hitch_findings'')) (\<lambda>_.
     act_bind (act_guard (session_exists (f_hitchId row)) (Sql_foreign_key ''hitch_findings'')) (\<lambda>_.
     act_modify (with_findings (\<lambda>fs. fs @ [row]))))"

section \<open>Promoting the canonical finding\<close>

record incoming_observation =
  io_severity :: hitch_finding_severity
  io_scopeStatus :: hitch_scope_status
  io_lifecycleStatus :: hitch_lifecycle_status
  io_summary :: string
  io_detail :: "string option"
  io_source :: hitch_finding_source

definition io_blocker :: "incoming_observation \<Rightarrow> bool" where
  "io_blocker io = incomingCloseBlockerCandidate (io_scopeStatus io) (io_lifecycleStatus io) (io_severity io)"

text \<open>
  The UPDATE shared by a re-observed finding and a promoted canonical finding: the flags are
  computed from the row as it was read, the CASE on \<open>lifecycle_status\<close> from the row being updated.
\<close>

definition promoted_row ::
  "incoming_observation \<Rightarrow> hitch_finding_severity \<Rightarrow> hitch_scope_status \<Rightarrow> bool \<Rightarrow> bool \<Rightarrow> bool \<Rightarrow> bool
     \<Rightarrow> timestamp \<Rightarrow> hitch_finding \<Rightarrow> hitch_finding" where
  "promoted_row io severity scopeStatus promotes fixedReopen lifecycleReopen countReopen now f =
     (let reopens = (f_lifecycleStatus f = L_fixed \<and> fixedReopen) \<or> lifecycleReopen
      in f\<lparr>f_severity := severity,
           f_scopeStatus := scopeStatus,
           f_summary := (if promotes then io_summary io else f_summary f),
           f_detail := (if promotes then coalesce (io_detail io) (f_detail f) else f_detail f),
           f_lifecycleStatus := (if reopens then L_reopened else f_lifecycleStatus f),
           f_fixedAt := (if reopens then None else f_fixedAt f),
           f_deferredAt := (if lifecycleReopen then None else f_deferredAt f),
           f_deferredBacklogItemId := (if lifecycleReopen then None else f_deferredBacklogItemId f),
           f_deferredIssueUrl := (if lifecycleReopen then None else f_deferredIssueUrl f),
           f_reopenCount := (if reopens \<and> countReopen then f_reopenCount f + 1 else f_reopenCount f),
           f_lastSeenAt := now\<rparr>)"

definition promoteDuplicateCanonical ::
  "string \<Rightarrow> incoming_observation \<Rightarrow> timestamp \<Rightarrow> bool \<Rightarrow> bool hitch_act" where
  "promoteDuplicateCanonical canonicalFindingId io now suppressFixedReopenCount =
     act_bind (requireFinding canonicalFindingId) (\<lambda>canonical.
       let severity = moreSevere (f_severity canonical) (io_severity io);
           scopeStatus = (if io_blocker io then moreBlockingScope (f_scopeStatus canonical) (io_scopeStatus io)
                          else f_scopeStatus canonical);
           lifecycleReopen = shouldReopenForIncoming (f_lifecycleStatus canonical) (io_scopeStatus io)
             (io_lifecycleStatus io) (io_severity io);
           fixedReopen = (f_lifecycleStatus canonical = L_fixed \<and> io_blocker io);
           reopened = (fixedReopen \<or> lifecycleReopen);
           promotes = (severity \<noteq> f_severity canonical \<or> scopeStatus \<noteq> f_scopeStatus canonical \<or> reopened);
           countReopen = (isHarnessOriginFindingSource (io_source io)
             \<and> (lifecycleReopen \<or> fixedReopen \<and> \<not> suppressFixedReopenCount))
       in act_bind (update_finding canonicalFindingId
            (promoted_row io severity scopeStatus promotes fixedReopen lifecycleReopen countReopen now)) (\<lambda>_.
          act_return reopened))"

section \<open>Creating and re-observing findings\<close>

record upsert_finding_input =
  ui_findingId :: "string option"
  ui_hitchId :: string
  ui_stableKey :: "string option"
  ui_duplicateOf :: "string option"
  ui_source :: hitch_finding_source
  ui_sourceRef :: "string option"
  ui_sourceAttemptId :: "string option"
  ui_sourceCycleId :: "string option"
  ui_severity :: hitch_finding_severity
  ui_category :: string
  ui_scopeStatus :: "hitch_scope_status option"
  ui_lifecycleStatus :: "hitch_lifecycle_status option"
  ui_summary :: string
  ui_detail :: "string option"
  ui_filePath :: "string option"
  ui_symbol :: "string option"
  ui_suggestedFix :: "string option"
  ui_classificationReason :: "string option"

record upsert_finding_result =
  ur_finding :: hitch_finding
  ur_created :: bool
  ur_reopened :: bool

record prepared_upsert =
  pu_stableKey :: string
  pu_scopeStatus :: hitch_scope_status
  pu_explicitDuplicateOf :: "string option"

definition requireCanonicalDuplicateFinding :: "string \<Rightarrow> string option \<Rightarrow> string option \<Rightarrow> string hitch_act" where
  "requireCanonicalDuplicateFinding hitchId findingId duplicateOf =
     (case duplicateOf of
        None \<Rightarrow> act_throw (Finding_input_invalid ''duplicate finding requires duplicateOf'')
      | Some target \<Rightarrow>
          if Some target = findingId then act_throw (Finding_self_duplicate target)
          else act_bind (requireFinding target) (\<lambda>canonical.
            if f_hitchId canonical \<noteq> hitchId then act_throw (Finding_other_hitch target hitchId)
            else if f_scopeStatus canonical = Duplicate_scope \<or> f_lifecycleStatus canonical = L_duplicate
                    \<or> f_duplicateOf canonical \<noteq> None
            then act_throw (Finding_bad_duplicate target)
            else act_return (f_findingId canonical)))"

definition prepareUpsertFinding :: "(string \<Rightarrow> string) \<Rightarrow> upsert_finding_input \<Rightarrow> prepared_upsert hitch_act" where
  "prepareUpsertFinding sha inp =
     (let stableKey = or_else (ui_stableKey inp)
            (hitchFindingStableKey sha (ui_filePath inp) (ui_symbol inp) (ui_category inp) (ui_summary inp));
          scopeStatus = or_else (ui_scopeStatus inp) Unknown_scope
      in if scopeStatus = Duplicate_scope
         then act_bind (requireCanonicalDuplicateFinding (ui_hitchId inp) (ui_findingId inp) (ui_duplicateOf inp))
           (\<lambda>target. act_return \<lparr>pu_stableKey = stableKey, pu_scopeStatus = scopeStatus,
              pu_explicitDuplicateOf = Some target\<rparr>)
         else act_return \<lparr>pu_stableKey = stableKey, pu_scopeStatus = scopeStatus,
              pu_explicitDuplicateOf = None\<rparr>)"

definition existing_finding :: "hitch_db \<Rightarrow> string \<Rightarrow> string \<Rightarrow> hitch_finding option" where
  "existing_finding db hitchId stableKey =
     (case sort_key (\<lambda>f. (if f_duplicateOf f = None then 0 else 1 :: nat, f_firstSeenAt f, f_findingId f))
        (filter (\<lambda>f. f_hitchId f = hitchId \<and> f_stableKey f = stableKey) (db_findings db)) of
        [] \<Rightarrow> None
      | f # _ \<Rightarrow> Some f)"

definition to_candidate :: "hitch_finding \<Rightarrow> near_duplicate_candidate" where
  "to_candidate f = \<lparr>nd_findingId = f_findingId f, nd_hitchId = f_hitchId f, nd_category = f_category f,
     nd_summary = f_summary f, nd_filePath = f_filePath f, nd_symbol = f_symbol f\<rparr>"

definition findNearDuplicateForInput ::
  "tokenizer \<Rightarrow> hitch_db \<Rightarrow> upsert_finding_input \<Rightarrow> near_duplicate_candidate option" where
  "findNearDuplicateForInput tok db inp =
     findNearDuplicate tok
       \<lparr>nd_findingId = [], nd_hitchId = ui_hitchId inp, nd_category = ui_category inp,
        nd_summary = ui_summary inp, nd_filePath = ui_filePath inp, nd_symbol = ui_symbol inp\<rparr>
       (map to_candidate (sort_key (\<lambda>f. (f_firstSeenAt f, f_findingId f))
          (filter (\<lambda>f. f_hitchId f = ui_hitchId inp \<and> f_duplicateOf f = None) (db_findings db))))"

definition observation :: "upsert_finding_input \<Rightarrow> hitch_scope_status \<Rightarrow> incoming_observation" where
  "observation inp scopeStatus =
     \<lparr>io_severity = ui_severity inp, io_scopeStatus = scopeStatus,
      io_lifecycleStatus = or_else (ui_lifecycleStatus inp) (defaultLifecycleForScope scopeStatus),
      io_summary = ui_summary inp, io_detail = ui_detail inp, io_source = ui_source inp\<rparr>"

text \<open>The UPDATE of a re-observed finding: the shared columns, then its own three.\<close>

definition reobserved_row ::
  "upsert_finding_input \<Rightarrow> hitch_scope_status \<Rightarrow> hitch_finding \<Rightarrow> timestamp \<Rightarrow> hitch_finding \<Rightarrow> hitch_finding"
where
  "reobserved_row inp scopeStatus existing now f =
     (let io = observation inp scopeStatus;
          isDup = (f_duplicateOf existing \<noteq> None);
          scopeToStore = (if isDup then f_scopeStatus existing
                          else if io_blocker io then moreBlockingScope (f_scopeStatus existing) scopeStatus
                          else f_scopeStatus existing);
          lifecycleReopen = (if isDup then False
            else shouldReopenForIncoming (f_lifecycleStatus existing) scopeStatus (io_lifecycleStatus io)
              (ui_severity inp));
          fixedReopen = (\<not> isDup \<and> f_lifecycleStatus existing = L_fixed \<and> io_blocker io);
          severity = moreSevere (f_severity existing) (ui_severity inp);
          promotes = (\<not> isDup \<and> (severity \<noteq> f_severity existing \<or> scopeToStore \<noteq> f_scopeStatus existing
                        \<or> lifecycleReopen \<or> fixedReopen));
          g = promoted_row io severity scopeToStore promotes fixedReopen lifecycleReopen
                (isHarnessOriginFindingSource (ui_source inp)) now f
      in g\<lparr>f_sourceRef := ui_sourceRef inp, f_sourceAttemptId := ui_sourceAttemptId inp,
           f_suggestedFix := coalesce (ui_suggestedFix inp) (f_suggestedFix f)\<rparr>)"

text \<open>Whether the re-observation reopens the row itself.\<close>

definition reobserved_reopens :: "upsert_finding_input \<Rightarrow> hitch_scope_status \<Rightarrow> hitch_finding \<Rightarrow> bool" where
  "reobserved_reopens inp scopeStatus existing \<longleftrightarrow>
     f_duplicateOf existing = None \<and>
     ((f_lifecycleStatus existing = L_fixed \<and> io_blocker (observation inp scopeStatus))
      \<or> shouldReopenForIncoming (f_lifecycleStatus existing) scopeStatus
           (io_lifecycleStatus (observation inp scopeStatus)) (ui_severity inp))"

definition reobserveFinding ::
  "upsert_finding_input \<Rightarrow> prepared_upsert \<Rightarrow> hitch_finding \<Rightarrow> timestamp \<Rightarrow> upsert_finding_result hitch_act"
where
  "reobserveFinding inp prepared existing now =
     (let scopeStatus = pu_scopeStatus prepared
      in act_bind (case coalesce (pu_explicitDuplicateOf prepared) (f_duplicateOf existing) of
             None \<Rightarrow> act_return False
           | Some canonical \<Rightarrow> promoteDuplicateCanonical canonical (observation inp scopeStatus) now
               (isNearDuplicateClassificationReason (f_classificationReason existing))) (\<lambda>canonicalReopened.
         act_bind (update_finding (f_findingId existing) (reobserved_row inp scopeStatus existing now)) (\<lambda>_.
         act_bind (touchHitchSession (ui_hitchId inp) now) (\<lambda>_.
         act_bind (requireFinding (f_findingId existing)) (\<lambda>finding.
         act_return \<lparr>ur_finding = finding, ur_created = False,
           ur_reopened = (reobserved_reopens inp scopeStatus existing \<or> canonicalReopened)\<rparr>)))))"

text \<open>The fuzzy fallback runs only when the input names neither a canonical finding nor a key.\<close>

definition nearDuplicateOf ::
  "tokenizer \<Rightarrow> upsert_finding_input \<Rightarrow> prepared_upsert \<Rightarrow> near_duplicate_candidate option hitch_act" where
  "nearDuplicateOf tok inp prepared =
     (if pu_explicitDuplicateOf prepared = None \<and> ui_stableKey inp = None
         \<and> pu_scopeStatus prepared \<noteq> Duplicate_scope
      then act_bind (requireHitchSession (ui_hitchId inp)) (\<lambda>session.
        if dv_nearDuplicateDedup (p_divergence (s_policy session))
        then act_get (\<lambda>db. findNearDuplicateForInput tok db inp) else act_return None)
      else act_return None)"

definition new_finding_row ::
  "upsert_finding_input \<Rightarrow> prepared_upsert \<Rightarrow> near_duplicate_candidate option \<Rightarrow> string \<Rightarrow> timestamp \<Rightarrow> hitch_finding"
where
  "new_finding_row inp prepared nearDuplicate findingId now =
     (let insertScope = (if nearDuplicate = None then pu_scopeStatus prepared else Duplicate_scope)
      in \<lparr>f_findingId = findingId, f_hitchId = ui_hitchId inp, f_stableKey = pu_stableKey prepared,
          f_duplicateOf = (case nearDuplicate of None \<Rightarrow> pu_explicitDuplicateOf prepared
            | Some c \<Rightarrow> Some (nd_findingId c)),
          f_source = ui_source inp, f_sourceRef = ui_sourceRef inp,
          f_sourceAttemptId = ui_sourceAttemptId inp, f_sourceCycleId = ui_sourceCycleId inp,
          f_severity = ui_severity inp, f_category = ui_category inp, f_scopeStatus = insertScope,
          f_lifecycleStatus = (case (nearDuplicate, ui_lifecycleStatus inp) of
              (None, Some l) \<Rightarrow> l | _ \<Rightarrow> defaultLifecycleForScope insertScope),
          f_summary = ui_summary inp, f_detail = ui_detail inp,
          f_filePath = ui_filePath inp, f_symbol = ui_symbol inp, f_suggestedFix = ui_suggestedFix inp,
          f_firstSeenAt = now, f_lastSeenAt = now, f_fixedAt = None, f_deferredAt = None,
          f_escalatedAt = None, f_reopenCount = 0, f_deferredBacklogItemId = None,
          f_deferredIssueUrl = None,
          f_classificationReason = (case nearDuplicate of None \<Rightarrow> ui_classificationReason inp
            | Some c \<Rightarrow> Some (nearDuplicateClassificationReason (nd_findingId c) (ui_classificationReason inp))),
          f_resolutionNote = None\<rparr>)"

definition insertNewFinding ::
  "tokenizer \<Rightarrow> upsert_finding_input \<Rightarrow> prepared_upsert \<Rightarrow> string \<Rightarrow> timestamp \<Rightarrow> upsert_finding_result hitch_act"
where
  "insertNewFinding tok inp prepared findingId now =
     act_bind (nearDuplicateOf tok inp prepared) (\<lambda>nearDuplicate.
       let row = new_finding_row inp prepared nearDuplicate findingId now
       in act_bind (case f_duplicateOf row of
              None \<Rightarrow> act_return False
            | Some canonical \<Rightarrow> promoteDuplicateCanonical canonical
                (observation inp (pu_scopeStatus prepared)) now (nearDuplicate \<noteq> None)) (\<lambda>reopened.
          act_bind (insert_finding row) (\<lambda>_.
          act_bind (touchHitchSession (ui_hitchId inp) now) (\<lambda>_.
          act_bind (requireFinding findingId) (\<lambda>finding.
          act_return \<lparr>ur_finding = finding, ur_created = True, ur_reopened = reopened\<rparr>)))))"

text \<open>\<open>newId\<close> is \<open>finding-\<close> and a fresh uuid, used when the input names no id.\<close>

definition upsertFindingWithin ::
  "tokenizer \<Rightarrow> upsert_finding_input \<Rightarrow> prepared_upsert \<Rightarrow> string \<Rightarrow> timestamp \<Rightarrow> upsert_finding_result hitch_act"
where
  "upsertFindingWithin tok inp prepared newId now =
     act_bind (act_get (\<lambda>db. existing_finding db (ui_hitchId inp) (pu_stableKey prepared))) (\<lambda>existing.
       case existing of
         Some f \<Rightarrow> reobserveFinding inp prepared f now
       | None \<Rightarrow> insertNewFinding tok inp prepared (or_else (ui_findingId inp) newId) now)"

definition upsertFinding ::
  "tokenizer \<Rightarrow> (string \<Rightarrow> string) \<Rightarrow> upsert_finding_input \<Rightarrow> string \<Rightarrow> timestamp \<Rightarrow> upsert_finding_result hitch_act"
where
  "upsertFinding tok sha inp newId now =
     act_bind (prepareUpsertFinding sha inp) (\<lambda>prepared.
       act_atomically (upsertFindingWithin tok inp prepared newId now))"

definition upsertFindingCore ::
  "tokenizer \<Rightarrow> (string \<Rightarrow> string) \<Rightarrow> upsert_finding_input \<Rightarrow> string \<Rightarrow> timestamp \<Rightarrow> upsert_finding_result hitch_act"
where
  "upsertFindingCore tok sha inp newId now =
     act_bind (prepareUpsertFinding sha inp) (\<lambda>prepared. upsertFindingWithin tok inp prepared newId now)"

section \<open>Classification\<close>

definition classified_lifecycle :: "hitch_scope_status \<Rightarrow> hitch_lifecycle_status \<Rightarrow> hitch_lifecycle_status" where
  "classified_lifecycle scopeStatus current =
     (if scopeStatus = Duplicate_scope then L_duplicate
      else if scopeStatus = Out_of_scope \<and> current \<noteq> L_deferred then L_out_of_scope
      else if scopeStatus = Unknown_scope \<and> current \<noteq> L_open \<and> current \<noteq> L_reopened \<and> current \<noteq> L_escalated
      then L_open
      else if scopeStatus = In_scope \<and> (current = L_out_of_scope \<or> current = L_duplicate \<or> current = L_deferred)
      then L_open
      else current)"

definition classified_row ::
  "hitch_scope_status \<Rightarrow> hitch_lifecycle_status \<Rightarrow> string option \<Rightarrow> string \<Rightarrow> timestamp
     \<Rightarrow> hitch_finding \<Rightarrow> hitch_finding" where
  "classified_row scopeStatus lifecycleStatus duplicateOf reason now f =
     (let live = (scopeStatus = In_scope \<or> scopeStatus = Unknown_scope)
      in f\<lparr>f_scopeStatus := scopeStatus, f_lifecycleStatus := lifecycleStatus, f_duplicateOf := duplicateOf,
           f_classificationReason := Some reason,
           f_deferredAt := (if live then None else f_deferredAt f),
           f_deferredBacklogItemId := (if live then None else f_deferredBacklogItemId f),
           f_deferredIssueUrl := (if live then None else f_deferredIssueUrl f),
           f_fixedAt := (if live then None else f_fixedAt f),
           f_lastSeenAt := now\<rparr>)"

definition classifyFinding ::
  "string \<Rightarrow> hitch_scope_status \<Rightarrow> string \<Rightarrow> string option \<Rightarrow> timestamp \<Rightarrow> hitch_finding hitch_act" where
  "classifyFinding findingId scopeStatus reason duplicateOf now =
     act_bind (requireFinding findingId) (\<lambda>current.
     act_bind (if scopeStatus = Duplicate_scope
         then act_bind (requireCanonicalDuplicateFinding (f_hitchId current) (Some (f_findingId current)) duplicateOf)
           (\<lambda>target. act_return (Some target))
         else act_return None) (\<lambda>target.
     act_bind (update_finding findingId (classified_row scopeStatus
         (classified_lifecycle scopeStatus (f_lifecycleStatus current)) target reason now)) (\<lambda>_.
     act_bind (touchHitchSession (f_hitchId current) now) (\<lambda>_.
     act_bind (case target of
         None \<Rightarrow> act_return False
       | Some canonical \<Rightarrow> promoteDuplicateCanonical canonical
           \<lparr>io_severity = f_severity current, io_scopeStatus = f_scopeStatus current,
            io_lifecycleStatus = f_lifecycleStatus current, io_summary = f_summary current,
            io_detail = f_detail current, io_source = f_source current\<rparr> now False) (\<lambda>_.
     requireFinding findingId)))))"

section \<open>Resolution\<close>

definition fixed_row :: "(string option \<Rightarrow> string option) \<Rightarrow> timestamp \<Rightarrow> hitch_finding \<Rightarrow> hitch_finding" where
  "fixed_row note now f = f\<lparr>f_lifecycleStatus := L_fixed, f_fixedAt := Some now,
     f_resolutionNote := note (f_resolutionNote f), f_deferredAt := None,
     f_deferredBacklogItemId := None, f_deferredIssueUrl := None, f_lastSeenAt := now\<rparr>"

definition markFindingFixed :: "string \<Rightarrow> string option \<Rightarrow> timestamp \<Rightarrow> hitch_finding hitch_act" where
  "markFindingFixed findingId note now =
     act_bind (requireFinding findingId) (\<lambda>current.
     act_bind (update_finding findingId (fixed_row (coalesce note) now)) (\<lambda>_.
     act_bind (touchHitchSession (f_hitchId current) now) (\<lambda>_.
     requireFinding findingId)))"

definition deferFinding ::
  "string \<Rightarrow> string option \<Rightarrow> string option \<Rightarrow> timestamp \<Rightarrow> hitch_finding hitch_act" where
  "deferFinding findingId note backlogItemId now =
     act_bind (requireFinding findingId) (\<lambda>current.
       if f_scopeStatus current \<noteq> Out_of_scope
       then act_throw (Finding_not_out_of_scope findingId (f_scopeStatus current))
       else
         act_bind (update_finding findingId (\<lambda>f. f\<lparr>f_lifecycleStatus := L_deferred, f_deferredAt := Some now,
           f_deferredBacklogItemId := coalesce backlogItemId (f_deferredBacklogItemId f),
           f_resolutionNote := coalesce note (f_resolutionNote f), f_fixedAt := None,
           f_lastSeenAt := now\<rparr>)) (\<lambda>_.
         act_bind (touchHitchSession (f_hitchId current) now) (\<lambda>_.
         requireFinding findingId)))"

definition linkFindingIssue :: "string \<Rightarrow> string \<Rightarrow> timestamp \<Rightarrow> hitch_finding hitch_act" where
  "linkFindingIssue findingId issueUrl now =
     act_bind (requireFinding findingId) (\<lambda>current.
       if f_lifecycleStatus current \<noteq> L_deferred
       then act_throw (Finding_not_deferred findingId (f_lifecycleStatus current))
       else
         act_bind (update_finding findingId (\<lambda>f. f\<lparr>f_deferredIssueUrl :=
           coalesce (f_deferredIssueUrl f) (Some issueUrl)\<rparr>)) (\<lambda>_.
         act_bind (touchHitchSession (f_hitchId current) now) (\<lambda>_.
         requireFinding findingId)))"

text \<open>
  \<open>backlogItem\<close> is the id of the backlog item that \<open>insertBacklogItemInTransaction\<close> wrote in the
  same transaction, \<open>None\<close> when none was asked for; the backlog tables are not part of \<open>hitch_db\<close>.
\<close>

definition classifyAndDeferFinding ::
  "string \<Rightarrow> string \<Rightarrow> string option \<Rightarrow> timestamp \<Rightarrow> hitch_finding hitch_act" where
  "classifyAndDeferFinding findingId reason backlogItem now = act_atomically (
     act_bind (requireFinding findingId) (\<lambda>current.
     act_bind (classifyFinding findingId Out_of_scope reason None now) (\<lambda>_.
     deferFinding findingId (Some reason) (coalesce backlogItem (f_deferredBacklogItemId current)) now)))"

subsection \<open>Retirement by a later approving review\<close>

record resolve_superseded_input =
  rs_hitchId :: string
  rs_supersedingCycleId :: string
  rs_categories :: "string list"
  rs_decisionRunId :: string

definition superseded :: "hitch_db \<Rightarrow> resolve_superseded_input \<Rightarrow> string list \<Rightarrow> int \<Rightarrow> hitch_finding \<Rightarrow> bool" where
  "superseded db inp categories supersedingNumber f \<longleftrightarrow>
     f_hitchId f = rs_hitchId inp \<and> f_source f = Src_review \<and> f_scopeStatus f = In_scope
     \<and> f_lifecycleStatus f \<in> {L_open, L_reopened} \<and> f_severity f \<noteq> P0 \<and> f_duplicateOf f = None
     \<and> f_category f \<in> set categories
     \<and> (\<exists>c \<in> set (db_cycles db). f_sourceCycleId f = Some (c_cycleId c) \<and> c_hitchId c = f_hitchId f
          \<and> c_cycleNumber c < supersedingNumber)"

text \<open>\<open>LIKE prefix%\<close> ignores the case of ASCII letters.\<close>

definition like_prefix :: "string \<Rightarrow> string \<Rightarrow> bool" where
  "like_prefix text p \<longleftrightarrow> js_lower (take (length p) text) = js_lower p"

definition auto_note :: "string \<Rightarrow> string option \<Rightarrow> string option" where
  "auto_note note old =
     (case old of None \<Rightarrow> Some note
      | Some n \<Rightarrow> if like_prefix n AUTO_RESOLVE_NOTE_PREFIX then Some note else Some n)"

definition superseded_ids :: "hitch_db \<Rightarrow> resolve_superseded_input \<Rightarrow> string list \<Rightarrow> int \<Rightarrow> string list" where
  "superseded_ids db inp categories n =
     map f_findingId (sort_key (\<lambda>f. (f_firstSeenAt f, f_findingId f))
       (filter (superseded db inp categories n) (db_findings db)))"

definition resolveSupersededReviewFindingsWithin ::
  "resolve_superseded_input \<Rightarrow> string list \<Rightarrow> timestamp \<Rightarrow> hitch_finding list hitch_act" where
  "resolveSupersededReviewFindingsWithin inp categories now =
     (let note = AUTO_RESOLVE_NOTE_PREFIX @ '' (run '' @ rs_decisionRunId inp @ '', cycle ''
            @ rs_supersedingCycleId inp @ '')''
      in act_bind (act_get (\<lambda>db. find (\<lambda>c. c_cycleId c = rs_supersedingCycleId inp
             \<and> c_hitchId c = rs_hitchId inp) (db_cycles db))) (\<lambda>supersedingCycle.
         case supersedingCycle of
           None \<Rightarrow> act_return []
         | Some cyc \<Rightarrow>
             act_bind (act_get (\<lambda>db. latestCodingRunId db (rs_hitchId inp))) (\<lambda>currentTarget.
             if currentTarget \<noteq> None \<and> currentTarget \<noteq> Some (rs_decisionRunId inp) then act_return []
             else act_bind (act_get (\<lambda>db. superseded_ids db inp categories (c_cycleNumber cyc))) (\<lambda>ids.
               if ids = [] then act_return []
               else
                 act_bind (act_map (\<lambda>fid. update_finding fid (fixed_row (auto_note note) now)) ids) (\<lambda>_.
                 act_bind (touchHitchSession (rs_hitchId inp) now) (\<lambda>_.
                 act_map requireFinding ids))))))"

definition resolveSupersededReviewFindingsCore ::
  "resolve_superseded_input \<Rightarrow> timestamp \<Rightarrow> hitch_finding list hitch_act" where
  "resolveSupersededReviewFindingsCore inp now =
     (let categories = filter (\<lambda>c. c \<in> set REVIEW_BLOCKING_FINDING_CATEGORIES) (rs_categories inp)
      in if categories = [] then act_return []
         else resolveSupersededReviewFindingsWithin inp categories now)"

definition resolveSupersededReviewFindings ::
  "resolve_superseded_input \<Rightarrow> timestamp \<Rightarrow> hitch_finding list hitch_act" where
  "resolveSupersededReviewFindings inp now =
     (let categories = filter (\<lambda>c. c \<in> set REVIEW_BLOCKING_FINDING_CATEGORIES) (rs_categories inp)
      in if categories = [] then act_return []
         else act_atomically (resolveSupersededReviewFindingsWithin inp categories now))"

section \<open>Reads\<close>

record finding_filter =
  ff_hitchId :: "string option"
  ff_scopeStatus :: "hitch_scope_status option"
  ff_scopeStatusIn :: "hitch_scope_status list option"
  ff_lifecycleStatus :: "hitch_lifecycle_status option"
  ff_lifecycleStatusIn :: "hitch_lifecycle_status list option"
  ff_severity :: "hitch_finding_severity option"
  ff_severityIn :: "hitch_finding_severity list option"

definition opt_in :: "'a list option \<Rightarrow> 'a \<Rightarrow> bool" where
  "opt_in want x = (case want of None \<Rightarrow> True | Some xs \<Rightarrow> x \<in> set xs)"

definition finding_matches :: "finding_filter \<Rightarrow> hitch_finding \<Rightarrow> bool" where
  "finding_matches flt f \<longleftrightarrow>
     opt_eq (ff_hitchId flt) (f_hitchId f)
     \<and> opt_eq (ff_scopeStatus flt) (f_scopeStatus f) \<and> opt_in (ff_scopeStatusIn flt) (f_scopeStatus f)
     \<and> opt_eq (ff_lifecycleStatus flt) (f_lifecycleStatus f)
     \<and> opt_in (ff_lifecycleStatusIn flt) (f_lifecycleStatus f)
     \<and> opt_eq (ff_severity flt) (f_severity f) \<and> opt_in (ff_severityIn flt) (f_severity f)"

definition listFindings :: "hitch_db \<Rightarrow> finding_filter \<Rightarrow> nat option \<Rightarrow> nat option \<Rightarrow> hitch_finding list" where
  "listFindings db flt limit offset =
     take (or_else limit 200) (drop (or_else offset 0)
       (sort_key (\<lambda>f. (f_firstSeenAt f, f_findingId f)) (filter (finding_matches flt) (db_findings db))))"

definition countFindings :: "hitch_db \<Rightarrow> finding_filter \<Rightarrow> nat" where
  "countFindings db flt = length (filter (finding_matches flt) (db_findings db))"

record finding_summary_counts =
  su_openInScopeP0 :: nat
  su_openInScopeP1 :: nat
  su_openInScopeP2 :: nat
  su_openUnknownScope :: nat
  su_openOutOfScope :: nat

text \<open>The rows of \<open>SELECT ..., COUNT(*) ... GROUP BY scope_status, severity, lifecycle_status\<close>.\<close>

type_synonym summary_key = "hitch_scope_status \<times> hitch_finding_severity \<times> hitch_lifecycle_status"

definition summary_key :: "hitch_finding \<Rightarrow> summary_key" where
  "summary_key f = (f_scopeStatus f, f_severity f, f_lifecycleStatus f)"

definition summary_rows :: "hitch_db \<Rightarrow> string \<Rightarrow> (summary_key \<times> nat) list" where
  "summary_rows db hitchId =
     (let rows = filter (\<lambda>f. f_hitchId f = hitchId \<and>
            (f_lifecycleStatus f \<in> set OPEN_FINDING_LIFECYCLES
             \<or> f_scopeStatus f = Out_of_scope
               \<and> f_lifecycleStatus f \<in> set UNRESOLVED_OUT_OF_SCOPE_FINDING_LIFECYCLES)) (db_findings db)
      in map (\<lambda>k. (k, length (filter (\<lambda>f. summary_key f = k) rows))) (remdups (map summary_key rows)))"

definition add_summary_row ::
  "summary_key \<times> nat \<Rightarrow> finding_summary_counts \<Rightarrow> finding_summary_counts" where
  "add_summary_row = (\<lambda>((scope, severity, lifecycle), n) counts.
     if scope = Out_of_scope then
       (if lifecycle \<in> set UNRESOLVED_OUT_OF_SCOPE_FINDING_LIFECYCLES
        then counts\<lparr>su_openOutOfScope := su_openOutOfScope counts + n\<rparr> else counts)
     else if lifecycle \<notin> set OPEN_FINDING_LIFECYCLES then counts
     else if scope = Unknown_scope then counts\<lparr>su_openUnknownScope := su_openUnknownScope counts + n\<rparr>
     else if scope = In_scope then
       (if severity = P0 then counts\<lparr>su_openInScopeP0 := su_openInScopeP0 counts + n\<rparr>
        else if severity = P1 then counts\<lparr>su_openInScopeP1 := su_openInScopeP1 counts + n\<rparr>
        else if severity = P2 then counts\<lparr>su_openInScopeP2 := su_openInScopeP2 counts + n\<rparr>
        else counts)
     else counts)"

definition zero_counts :: finding_summary_counts where
  "zero_counts = \<lparr>su_openInScopeP0 = 0, su_openInScopeP1 = 0, su_openInScopeP2 = 0,
     su_openUnknownScope = 0, su_openOutOfScope = 0\<rparr>"

definition countFindingSummary :: "hitch_db \<Rightarrow> string \<Rightarrow> finding_summary_counts" where
  "countFindingSummary db hitchId = fold add_summary_row (summary_rows db hitchId) zero_counts"

definition maxFindingReopenCount :: "hitch_db \<Rightarrow> string \<Rightarrow> int" where
  "maxFindingReopenCount db hitchId =
     max0 (map f_reopenCount (filter (\<lambda>f. f_hitchId f = hitchId) (db_findings db)))"

definition latestFindingMutationAt :: "hitch_db \<Rightarrow> string \<Rightarrow> timestamp option" where
  "latestFindingMutationAt db hitchId =
     (let fs = filter (\<lambda>f. f_hitchId f = hitchId) (db_findings db)
      in max_opt (map f_lastSeenAt fs @ List.map_filter f_fixedAt fs @ List.map_filter f_deferredAt fs
           @ List.map_filter f_escalatedAt fs))"

section \<open>Severities and scopes merge upwards\<close>

interpretation sev: rank_merge "\<lambda>s. - severity_rank s" moreSevere
  by unfold_locales (simp add: moreSevere_def)

interpretation scp: rank_merge scope_rank moreBlockingScope
  by unfold_locales (simp add: moreBlockingScope_def)

lemma severity_rank_inject: "severity_rank a = severity_rank b \<longleftrightarrow> a = b"
  by (cases a; cases b) simp_all

text \<open>Severities are ordered by urgency, so that the merge is the library's maximum.\<close>

instantiation hitch_finding_severity :: linorder
begin

definition less_eq_hitch_finding_severity :: "hitch_finding_severity \<Rightarrow> hitch_finding_severity \<Rightarrow> bool" where
  "less_eq_hitch_finding_severity a b \<longleftrightarrow> severity_rank b \<le> severity_rank a"

definition less_hitch_finding_severity :: "hitch_finding_severity \<Rightarrow> hitch_finding_severity \<Rightarrow> bool" where
  "less_hitch_finding_severity a b \<longleftrightarrow> severity_rank b < severity_rank a"

instance
  by standard (auto simp: less_eq_hitch_finding_severity_def less_hitch_finding_severity_def severity_rank_inject)

end

lemma moreSevere_max: "moreSevere a b = max a b"
  by (simp add: moreSevere_def max_def less_eq_hitch_finding_severity_def not_le severity_rank_inject)

section \<open>The counts are the counts\<close>

lemma count_by_key:
  assumes "finite K" "key ` set rows \<subseteq> K"
  shows "(\<Sum>k \<in> K. if P k then length (filter (\<lambda>r. key r = k) rows) else 0) = length (filter (\<lambda>r. P (key r)) rows)"
  using assms(2)
proof (induction rows)
  case (Cons r rows)
  have "(\<Sum>k \<in> K. if P k then length (filter (\<lambda>x. key x = k) (r # rows)) else 0)
      = (\<Sum>k \<in> K. (if P k then length (filter (\<lambda>x. key x = k) rows) else 0)
           + (if k = key r then (if P (key r) then 1 else 0) else 0))"
    by (intro sum.cong) auto
  also have "\<dots> = length (filter (\<lambda>x. P (key x)) rows) + (if P (key r) then 1 else 0)"
    using Cons assms(1) by (simp only: sum.distrib sum.delta) simp
  finally show ?case by simp
next
  case Nil
  show ?case by (rule trans [OF sum.neutral]) auto
qed

lemma group_counts:
  "(\<Sum>(k, n) \<leftarrow> map (\<lambda>k. (k, length (filter (\<lambda>r. key r = k) rows))) (remdups (map key rows)). if P k then n else 0)
   = length (filter (\<lambda>r. P (key r)) rows)"
  using count_by_key [of "key ` set rows" key rows P]
  by (simp add: o_def case_prod_beta' sum_list_distinct_conv_sum_set split_beta cong: if_cong)

lemma fold_add_summary_row:
  "su_openInScopeP0 (fold add_summary_row rows c) = su_openInScopeP0 c +
     (\<Sum>((sc, sv, lc), n) \<leftarrow> rows. if sc = In_scope \<and> sv = P0 \<and> lc \<in> set OPEN_FINDING_LIFECYCLES then n else 0)"
  "su_openInScopeP1 (fold add_summary_row rows c) = su_openInScopeP1 c +
     (\<Sum>((sc, sv, lc), n) \<leftarrow> rows. if sc = In_scope \<and> sv = P1 \<and> lc \<in> set OPEN_FINDING_LIFECYCLES then n else 0)"
  "su_openInScopeP2 (fold add_summary_row rows c) = su_openInScopeP2 c +
     (\<Sum>((sc, sv, lc), n) \<leftarrow> rows. if sc = In_scope \<and> sv = P2 \<and> lc \<in> set OPEN_FINDING_LIFECYCLES then n else 0)"
  "su_openUnknownScope (fold add_summary_row rows c) = su_openUnknownScope c +
     (\<Sum>((sc, sv, lc), n) \<leftarrow> rows. if sc = Unknown_scope \<and> lc \<in> set OPEN_FINDING_LIFECYCLES then n else 0)"
  "su_openOutOfScope (fold add_summary_row rows c) = su_openOutOfScope c +
     (\<Sum>((sc, sv, lc), n) \<leftarrow> rows. if sc = Out_of_scope
        \<and> lc \<in> set UNRESOLVED_OUT_OF_SCOPE_FINDING_LIFECYCLES then n else 0)"
  by (induction rows arbitrary: c) (auto simp: add_summary_row_def split: prod.splits)

text \<open>The finding is a live member of the class the controller counts.\<close>

definition is_open :: "hitch_finding \<Rightarrow> bool" where
  "is_open f \<longleftrightarrow> f_lifecycleStatus f \<in> set OPEN_FINDING_LIFECYCLES"

definition count_where :: "hitch_db \<Rightarrow> string \<Rightarrow> (hitch_finding \<Rightarrow> bool) \<Rightarrow> nat" where
  "count_where db hitchId P = length (filter (\<lambda>f. f_hitchId f = hitchId \<and> P f) (db_findings db))"

lemma summary_rows_sum:
  assumes "\<And>sc sv lc. P (sc, sv, lc) \<Longrightarrow> lc \<in> set OPEN_FINDING_LIFECYCLES
      \<or> sc = Out_of_scope \<and> lc \<in> set UNRESOLVED_OUT_OF_SCOPE_FINDING_LIFECYCLES"
  shows "(\<Sum>(k, n) \<leftarrow> summary_rows db h. if P k then n else 0) = count_where db h (\<lambda>f. P (summary_key f))"
proof -
  have "P (summary_key f) \<Longrightarrow> f_lifecycleStatus f \<in> set OPEN_FINDING_LIFECYCLES \<or> f_scopeStatus f = Out_of_scope
      \<and> f_lifecycleStatus f \<in> set UNRESOLVED_OUT_OF_SCOPE_FINDING_LIFECYCLES" for f
    using assms by (auto simp: summary_key_def)
  then show ?thesis
    unfolding summary_rows_def Let_def group_counts
    by (simp add: count_where_def) (metis (mono_tags, lifting))
qed

lemma summary_sum:
  assumes "\<And>sc sv lc. Q sc sv lc \<Longrightarrow> lc \<in> set OPEN_FINDING_LIFECYCLES
      \<or> sc = Out_of_scope \<and> lc \<in> set UNRESOLVED_OUT_OF_SCOPE_FINDING_LIFECYCLES"
    and "\<And>f. Q (f_scopeStatus f) (f_severity f) (f_lifecycleStatus f) \<longleftrightarrow> R f"
  shows "(\<Sum>((sc, sv, lc), n) \<leftarrow> summary_rows db h. if Q sc sv lc then n else 0) = count_where db h R"
proof -
  have "(\<Sum>(k, n) \<leftarrow> summary_rows db h. if (\<lambda>(sc, sv, lc). Q sc sv lc) k then n else 0) = count_where db h R"
    using summary_rows_sum [of "\<lambda>(sc, sv, lc). Q sc sv lc" db h] assms by (simp add: summary_key_def)
  then show ?thesis by (simp add: case_prod_unfold)
qed

lemma countFindingSummary_counts:
  "countFindingSummary db h =
     \<lparr>su_openInScopeP0 = count_where db h (\<lambda>f. is_open f \<and> f_scopeStatus f = In_scope \<and> f_severity f = P0),
      su_openInScopeP1 = count_where db h (\<lambda>f. is_open f \<and> f_scopeStatus f = In_scope \<and> f_severity f = P1),
      su_openInScopeP2 = count_where db h (\<lambda>f. is_open f \<and> f_scopeStatus f = In_scope \<and> f_severity f = P2),
      su_openUnknownScope = count_where db h (\<lambda>f. is_open f \<and> f_scopeStatus f = Unknown_scope),
      su_openOutOfScope = count_where db h (\<lambda>f. f_scopeStatus f = Out_of_scope
        \<and> f_lifecycleStatus f \<in> set UNRESOLVED_OUT_OF_SCOPE_FINDING_LIFECYCLES)\<rparr>"
  unfolding countFindingSummary_def
  by (intro finding_summary_counts.equality; (simp only: fold_add_summary_row zero_counts_def
      finding_summary_counts.simps add_0)?; (rule summary_sum; auto simp: is_open_def | simp))

text \<open>
  The grouped SQL count and its folding give exactly the numbers of open in-scope P0, P1 and P2
  findings, of open findings of unknown scope, and of unresolved out-of-scope findings.
\<close>

theorem countFindingSummary_correct:
  "countFindingSummary db h =
     \<lparr>su_openInScopeP0 = count_where db h (\<lambda>f. is_open f \<and> f_scopeStatus f = In_scope \<and> f_severity f = P0),
      su_openInScopeP1 = count_where db h (\<lambda>f. is_open f \<and> f_scopeStatus f = In_scope \<and> f_severity f = P1),
      su_openInScopeP2 = count_where db h (\<lambda>f. is_open f \<and> f_scopeStatus f = In_scope \<and> f_severity f = P2),
      su_openUnknownScope = count_where db h (\<lambda>f. is_open f \<and> f_scopeStatus f = Unknown_scope),
      su_openOutOfScope = count_where db h (\<lambda>f. f_scopeStatus f = Out_of_scope
        \<and> f_lifecycleStatus f \<in> set UNRESOLVED_OUT_OF_SCOPE_FINDING_LIFECYCLES)\<rparr>"
  by (rule countFindingSummary_counts)

section \<open>Every finding operation keeps the schema and the ledger\<close>

lemma schema_update_finding [act_inv_rules]:
  assumes "\<And>g. f_findingId (f g) = f_findingId g" "\<And>g. f_hitchId (f g) = f_hitchId g"
  shows "act_keeps schema_inv (update_finding fid f)"
  unfolding update_finding_def
  by (rule act_keeps_guarded) (simp add: schema_inv_def with_findings_def keyed_update assms)

lemma schema_insert_finding [act_inv_rules]: "act_keeps schema_inv (insert_finding row)"
  unfolding insert_finding_def
  by (rule act_keeps_guarded2) (simp add: schema_inv_def with_findings_def keyed_append session_exists_def)

lemma ledger_with_findings: "ledger_inv (with_findings g db) = ledger_inv db"
  by (simp add: ledger_inv_def ledger_ok_def has_event_def with_findings_def)

lemma ledger_finding_writes [act_inv_rules]:
  "act_keeps ledger_inv (update_finding fid f)" "act_keeps ledger_inv (insert_finding row)"
  unfolding update_finding_def insert_finding_def
  by (intro act_inv_rules; simp add: ledger_with_findings)+

lemma act_keeps_requireFinding [act_inv_rules]: "act_keeps I (requireFinding fid)"
  unfolding requireFinding_def by (intro act_inv_rules)

lemma act_keeps_prelude [act_inv_rules]:
  "act_keeps I (requireCanonicalDuplicateFinding h fid d)" "act_keeps I (prepareUpsertFinding sha inp)"
  unfolding prepareUpsertFinding_def requireCanonicalDuplicateFinding_def by (intro act_inv_rules)+

lemma promoted_row_keys [simp]:
  "f_findingId (promoted_row io sv sc p fr lr cr t g) = f_findingId g"
  "f_hitchId (promoted_row io sv sc p fr lr cr t g) = f_hitchId g"
  "f_stableKey (promoted_row io sv sc p fr lr cr t g) = f_stableKey g"
  "f_duplicateOf (promoted_row io sv sc p fr lr cr t g) = f_duplicateOf g"
  by (simp_all add: promoted_row_def Let_def)

lemma reobserved_row_keys [simp]:
  "f_findingId (reobserved_row inp sc ex t g) = f_findingId g"
  "f_hitchId (reobserved_row inp sc ex t g) = f_hitchId g"
  "f_stableKey (reobserved_row inp sc ex t g) = f_stableKey g"
  "f_duplicateOf (reobserved_row inp sc ex t g) = f_duplicateOf g"
  by (simp_all add: reobserved_row_def Let_def)

lemma row_keys [simp]:
  "f_findingId (classified_row sc lc d r t g) = f_findingId g"
  "f_hitchId (classified_row sc lc d r t g) = f_hitchId g"
  "f_findingId (fixed_row n t g) = f_findingId g"
  "f_hitchId (fixed_row n t g) = f_hitchId g"
  by (simp_all add: classified_row_def fixed_row_def Let_def)

lemma schema_promote [act_inv_rules]: "act_keeps schema_inv (promoteDuplicateCanonical c io t quiet)"
  unfolding promoteDuplicateCanonical_def by (intro act_inv_rules) simp_all

lemma ledger_promote [act_inv_rules]: "act_keeps ledger_inv (promoteDuplicateCanonical c io t quiet)"
  unfolding promoteDuplicateCanonical_def by (intro act_inv_rules)

lemma act_keeps_nearDuplicateOf [act_inv_rules]: "act_keeps I (nearDuplicateOf tok inp prep)"
  unfolding nearDuplicateOf_def by (intro act_inv_rules)

lemma upsert_keeps [act_inv_rules]:
  "act_keeps schema_inv (upsertFindingWithin tok inp prep newId t)"
  "act_keeps ledger_inv (upsertFindingWithin tok inp prep newId t)"
  unfolding upsertFindingWithin_def reobserveFinding_def insertNewFinding_def
  by (intro act_inv_rules; simp)+

lemma finding_ops_schema [act_inv_rules]:
  "act_keeps schema_inv (upsertFinding tok sha inp newId t)"
  "act_keeps schema_inv (upsertFindingCore tok sha inp newId t)"
  "act_keeps schema_inv (classifyFinding fid sc reason dup t)"
  "act_keeps schema_inv (markFindingFixed fid note t)"
  "act_keeps schema_inv (deferFinding fid note bl t)"
  "act_keeps schema_inv (linkFindingIssue fid url t)"
  "act_keeps schema_inv (resolveSupersededReviewFindingsWithin rinp cats t)"
  unfolding upsertFinding_def upsertFindingCore_def classifyFinding_def markFindingFixed_def
    deferFinding_def linkFindingIssue_def resolveSupersededReviewFindingsWithin_def
  by (intro act_inv_rules; simp)+

lemma finding_ops_ledger [act_inv_rules]:
  "act_keeps ledger_inv (upsertFinding tok sha inp newId t)"
  "act_keeps ledger_inv (upsertFindingCore tok sha inp newId t)"
  "act_keeps ledger_inv (classifyFinding fid sc reason dup t)"
  "act_keeps ledger_inv (markFindingFixed fid note t)"
  "act_keeps ledger_inv (deferFinding fid note bl t)"
  "act_keeps ledger_inv (linkFindingIssue fid url t)"
  "act_keeps ledger_inv (resolveSupersededReviewFindingsWithin rinp cats t)"
  unfolding upsertFinding_def upsertFindingCore_def classifyFinding_def markFindingFixed_def
    deferFinding_def linkFindingIssue_def resolveSupersededReviewFindingsWithin_def
  by (intro act_inv_rules)+

lemma finding_ops_composed [act_inv_rules]:
  "act_keeps schema_inv (classifyAndDeferFinding fid reason bl t)"
  "act_keeps ledger_inv (classifyAndDeferFinding fid reason bl t)"
  "act_keeps schema_inv (resolveSupersededReviewFindings rinp t)"
  "act_keeps ledger_inv (resolveSupersededReviewFindings rinp t)"
  "act_keeps schema_inv (resolveSupersededReviewFindingsCore rinp t)"
  "act_keeps ledger_inv (resolveSupersededReviewFindingsCore rinp t)"
  unfolding classifyAndDeferFinding_def resolveSupersededReviewFindings_def
    resolveSupersededReviewFindingsCore_def
  by (intro act_inv_rules)+

section \<open>No blocker is lost\<close>

text \<open>
  \<open>canonical_ok\<close>: a canonical finding is not marked as a duplicate, and every duplicate points to a
  canonical finding of its own hitch. \<open>blocks io h g\<close>: \<open>g\<close> is an open canonical finding of \<open>h\<close>, at least as
  severe and at least as much in scope as the observation.
\<close>

definition canonical_ok :: "hitch_db \<Rightarrow> bool" where
  "canonical_ok db \<longleftrightarrow> (\<forall>f \<in> set (db_findings db).
     case f_duplicateOf f of
       None \<Rightarrow> f_lifecycleStatus f \<noteq> L_duplicate
     | Some c \<Rightarrow> (\<exists>g \<in> set (db_findings db). f_findingId g = c \<and> f_hitchId g = f_hitchId f
         \<and> f_duplicateOf g = None))"

lemma canonical_okD:
  assumes "canonical_ok db" "f \<in> set (db_findings db)"
  shows "f_duplicateOf f = None \<Longrightarrow> f_lifecycleStatus f \<noteq> L_duplicate"
    "f_duplicateOf f = Some c \<Longrightarrow> \<exists>g \<in> set (db_findings db). f_findingId g = c \<and> f_hitchId g = f_hitchId f
       \<and> f_duplicateOf g = None"
  using bspec [OF assms(1) [unfolded canonical_ok_def] assms(2)] by auto

definition blocks :: "incoming_observation \<Rightarrow> string \<Rightarrow> hitch_finding \<Rightarrow> bool" where
  "blocks io h g \<longleftrightarrow> f_hitchId g = h \<and> f_duplicateOf g = None \<and> is_open g
     \<and> scope_rank (io_scopeStatus io) \<le> scope_rank (f_scopeStatus g)
     \<and> severity_rank (f_severity g) \<le> severity_rank (io_severity io)"

lemma promoted_blocks:
  assumes "io_blocker io" "f_duplicateOf f = None" "f_lifecycleStatus f \<noteq> L_duplicate"
  shows "blocks io (f_hitchId f) (promoted_row io (moreSevere (f_severity f) (io_severity io))
    (moreBlockingScope (f_scopeStatus f) (io_scopeStatus io)) p (f_lifecycleStatus f = L_fixed)
    (shouldReopenForIncoming (f_lifecycleStatus f) (io_scopeStatus io) (io_lifecycleStatus io) (io_severity io))
    cr t f)"
proof -
  have "shouldReopenForIncoming (f_lifecycleStatus f) (io_scopeStatus io) (io_lifecycleStatus io) (io_severity io)
      \<longleftrightarrow> f_lifecycleStatus f \<in> {L_deferred, L_accepted_risk, L_out_of_scope}"
    using assms(1) by (auto simp: shouldReopenForIncoming_def NON_BLOCKING_CANONICAL_LIFECYCLES_def io_blocker_def)
  then show ?thesis
    using assms(2,3) sev.merge_ge(2) [of "io_severity io" "f_severity f"]
      scp.merge_ge(2) [of "io_scopeStatus io" "f_scopeStatus f"]
    by (cases "f_lifecycleStatus f")
      (simp_all add: blocks_def promoted_row_def Let_def is_open_def OPEN_FINDING_LIFECYCLES_def)
qed

lemma canonical_keys_update:
  assumes "\<And>g. f_hitchId (f g) = f_hitchId g" "\<And>g. f_stableKey (f g) = f_stableKey g"
    "\<And>g. f_duplicateOf (f g) = f_duplicateOf g"
  shows "canonical_keys (tbl_update f_findingId fid f fs) = canonical_keys fs"
  by (induction fs) (auto simp: canonical_keys_def assms)

lemma requireFinding_run [act_simps]:
  "act_bind (requireFinding fid) k db =
     (case getFinding db fid of None \<Rightarrow> (Inl (Finding_not_found fid), db) | Some f \<Rightarrow> k f db)"
  by (simp add: requireFinding_def act_simps)

lemma update_finding_run [act_simps]:
  "act_bind (update_finding fid f) k db =
     (if distinct (canonical_keys (tbl_update f_findingId fid f (db_findings db)))
      then k () (with_findings (tbl_update f_findingId fid f) db)
      else (Inl (Sql_unique ''hitch_findings''), db))"
  by (simp add: update_finding_def act_simps)

lemma promote_run:
  assumes "getFinding db c = Some f" "schema_inv db" "io_blocker io"
  shows "\<exists>r p cr. act_bind (promoteDuplicateCanonical c io t q) k db =
    k r (with_findings (tbl_update f_findingId c (promoted_row io (moreSevere (f_severity f) (io_severity io))
      (moreBlockingScope (f_scopeStatus f) (io_scopeStatus io)) p (f_lifecycleStatus f = L_fixed)
      (shouldReopenForIncoming (f_lifecycleStatus f) (io_scopeStatus io) (io_lifecycleStatus io) (io_severity io))
      cr t)) db)"
proof -
  have "distinct (canonical_keys (db_findings db))" using assms(2) by (simp add: schema_inv_def)
  then show ?thesis
    using assms(1,3)
    by (auto simp: promoteDuplicateCanonical_def Let_def act_simps canonical_keys_update)
qed

lemma getFinding_mem: "getFinding db fid = Some f \<Longrightarrow> f \<in> set (db_findings db) \<and> f_findingId f = fid"
  by (auto simp: getFinding_def dest: tbl_get_SomeD)

lemma mem_getFinding: "schema_inv db \<Longrightarrow> f \<in> set (db_findings db) \<Longrightarrow> getFinding db (f_findingId f) = Some f"
  by (simp add: getFinding_def schema_inv_def keyed_def tbl_get_in_distinct)

lemma tbl_update_mem: "r \<in> set rows \<Longrightarrow> key r = k \<Longrightarrow> f r \<in> set (tbl_update key k f rows)"
  by (induction rows) auto

lemma tbl_update_other: "r \<in> set rows \<Longrightarrow> key r \<noteq> k \<Longrightarrow> r \<in> set (tbl_update key k f rows)"
  by (induction rows) auto

text \<open>After the promotion of a canonical finding, the rest of the upsert does not undo it.\<close>

lemma promote_leaves_blocker:
  assumes inv: "schema_inv db" "canonical_ok db" and io: "io_blocker io"
    and c: "c \<in> set (db_findings db)" "f_duplicateOf c = None"
    and run: "act_bind (promoteDuplicateCanonical (f_findingId c) io t q) k db = res"
  shows "\<exists>r db1 g. k r db1 = res \<and> g \<in> set (db_findings db1) \<and> f_findingId g = f_findingId c
    \<and> blocks io (f_hitchId c) g"
proof -
  have dup: "f_lifecycleStatus c \<noteq> L_duplicate" using canonical_okD(1) [OF inv(2) c] .
  obtain r F where eq: "res = k r (with_findings (tbl_update f_findingId (f_findingId c) F) db)"
    and F: "blocks io (f_hitchId c) (F c)" "f_findingId (F c) = f_findingId c"
    using promote_run [OF mem_getFinding [OF inv(1) c(1)] inv(1) io, of t q k] run
      promoted_blocks [OF io c(2) dup] promoted_row_keys(1) by metis
  have "F c \<in> set (db_findings (with_findings (tbl_update f_findingId (f_findingId c) F) db))"
    using tbl_update_mem [OF c(1) refl] by (simp add: with_findings_def)
  with eq F show ?thesis by blast
qed

lemma touch_run [act_simps]:
  "act_bind (touchHitchSession h t) k db = k () (with_session h (\<lambda>s. s\<lparr>s_updatedAt := t\<rparr>) db)"
  by (simp add: touchHitchSession_def act_simps)

lemma db_findings_with [simp]:
  "db_findings (with_session h f db) = db_findings db"
  "db_findings (with_findings g db) = g (db_findings db)"
  by (simp_all add: with_session_def with_findings_def)

lemma insert_finding_run [act_simps]:
  "act_bind (insert_finding row) k db =
     (if tbl_has f_findingId (f_findingId row) (db_findings db)
         \<or> \<not> distinct (canonical_keys (db_findings db @ [row])) then (Inl (Sql_unique ''hitch_findings''), db)
      else if \<not> session_exists (f_hitchId row) db then (Inl (Sql_foreign_key ''hitch_findings''), db)
      else k () (with_findings (\<lambda>fs. fs @ [row]) db))"
  by (simp add: insert_finding_def act_simps)

lemma reobserve_tail:
  assumes "act_bind (update_finding fid F) (\<lambda>_. act_bind (touchHitchSession h t) (\<lambda>_.
      act_bind (requireFinding fid) (\<lambda>x. act_return (R x)))) db = (Inr res, db')"
  shows "db_findings db' = tbl_update f_findingId fid F (db_findings db)"
  using assms by (auto simp: act_simps split: if_splits option.splits)

lemma head_opt_mem: "(case xs of [] \<Rightarrow> None | x # _ \<Rightarrow> Some x) = Some y \<Longrightarrow> y \<in> set xs"
  by (cases xs) auto

lemma existing_finding_mem:
  assumes "existing_finding db h key = Some f"
  shows "f \<in> set (db_findings db) \<and> f_hitchId f = h \<and> f_stableKey f = key"
  using head_opt_mem [OF assms [unfolded existing_finding_def]] by simp

lemma nearDuplicate_mem:
  assumes "findNearDuplicateForInput tok db inp = Some c"
  obtains f where "f \<in> set (db_findings db)" "f_findingId f = nd_findingId c" "f_duplicateOf f = None"
    "f_hitchId f = ui_hitchId inp"
proof -
  have "c \<in> set (map to_candidate (sort_key (\<lambda>f. (f_firstSeenAt f, f_findingId f))
      (filter (\<lambda>f. f_hitchId f = ui_hitchId inp \<and> f_duplicateOf f = None) (db_findings db))))"
    using nearDuplicateLoop_Some assms
    unfolding findNearDuplicateForInput_def findNearDuplicate_def by blast
  then show ?thesis using that by (auto simp: to_candidate_def)
qed

lemma blocks_reobserved:
  assumes io: "io_blocker (observation inp sc)" and f: "f_duplicateOf f = None" "f_lifecycleStatus f \<noteq> L_duplicate"
  shows "blocks (observation inp sc) (f_hitchId f) (reobserved_row inp sc f t f)"
proof -
  let ?io = "observation inp sc"
  have "blocks ?io (f_hitchId f) (promoted_row ?io (moreSevere (f_severity f) (io_severity ?io))
      (moreBlockingScope (f_scopeStatus f) (io_scopeStatus ?io)) p (f_lifecycleStatus f = L_fixed)
      (shouldReopenForIncoming (f_lifecycleStatus f) (io_scopeStatus ?io) (io_lifecycleStatus ?io)
        (io_severity ?io)) cr t f)" for p cr
    by (rule promoted_blocks [OF io f])
  then show ?thesis
    using io f(1) by (simp add: reobserved_row_def Let_def blocks_def is_open_def)
      (simp add: observation_def)
qed

lemma reobserve_keeps_blocker:
  assumes inv: "schema_inv db" "canonical_ok db" and io: "io_blocker (observation inp sc)"
    and f: "f \<in> set (db_findings db)"
    and run: "reobserveFinding inp \<lparr>pu_stableKey = key, pu_scopeStatus = sc, pu_explicitDuplicateOf = None\<rparr> f t db
      = (Inr res, db')"
  shows "\<exists>g \<in> set (db_findings db'). blocks (observation inp sc) (f_hitchId f) g"
proof (cases "f_duplicateOf f")
  case None
  have "act_bind (update_finding (f_findingId f) (reobserved_row inp sc f t)) (\<lambda>_.
      act_bind (touchHitchSession (ui_hitchId inp) t) (\<lambda>_.
      act_bind (requireFinding (f_findingId f)) (\<lambda>x. act_return \<lparr>ur_finding = x, ur_created = False,
        ur_reopened = (reobserved_reopens inp sc f \<or> False)\<rparr>))) db = (Inr res, db')"
    using run unfolding reobserveFinding_def Let_def prepared_upsert.simps None coalesce_simps option.case
      act_bind_simps(1) .
  then have "db_findings db' = tbl_update f_findingId (f_findingId f) (reobserved_row inp sc f t) (db_findings db)"
    by (rule reobserve_tail)
  moreover have "f_lifecycleStatus f \<noteq> L_duplicate"
    using canonical_okD(1) [OF inv(2) f None] .
  then have "blocks (observation inp sc) (f_hitchId f) (reobserved_row inp sc f t f)"
    by (rule blocks_reobserved [OF io None])
  moreover have "reobserved_row inp sc f t f \<in>
      set (tbl_update f_findingId (f_findingId f) (reobserved_row inp sc f t) (db_findings db))"
    by (rule tbl_update_mem [OF f refl])
  ultimately show ?thesis by auto
next
  case (Some c)
  then obtain g0 where g0: "g0 \<in> set (db_findings db)" "f_findingId g0 = c" "f_hitchId g0 = f_hitchId f"
    "f_duplicateOf g0 = None" using canonical_okD(2) [OF inv(2) f] by blast
  then have ne: "f_findingId f \<noteq> f_findingId g0"
    using Some mem_getFinding [OF inv(1) f] mem_getFinding [OF inv(1) g0(1)] by (metis option.discI option.inject)
  have "act_bind (promoteDuplicateCanonical (f_findingId g0) (observation inp sc) t
      (isNearDuplicateClassificationReason (f_classificationReason f))) (\<lambda>cr.
      act_bind (update_finding (f_findingId f) (reobserved_row inp sc f t)) (\<lambda>_.
      act_bind (touchHitchSession (ui_hitchId inp) t) (\<lambda>_.
      act_bind (requireFinding (f_findingId f)) (\<lambda>x. act_return \<lparr>ur_finding = x, ur_created = False,
        ur_reopened = (reobserved_reopens inp sc f \<or> cr)\<rparr>)))) db = (Inr res, db')"
    using run Some g0(2) unfolding reobserveFinding_def Let_def prepared_upsert.simps coalesce_simps option.case by simp
  from promote_leaves_blocker [OF inv io g0(1,4) this] obtain r db1 g where
    tail: "act_bind (update_finding (f_findingId f) (reobserved_row inp sc f t)) (\<lambda>_.
      act_bind (touchHitchSession (ui_hitchId inp) t) (\<lambda>_.
      act_bind (requireFinding (f_findingId f)) (\<lambda>x. act_return \<lparr>ur_finding = x, ur_created = False,
        ur_reopened = (reobserved_reopens inp sc f \<or> r)\<rparr>))) db1 = (Inr res, db')"
    and g: "g \<in> set (db_findings db1)" "f_findingId g = f_findingId g0"
      "blocks (observation inp sc) (f_hitchId g0) g" by blast
  have "g \<in> set (db_findings db')"
    using tbl_update_other [OF g(1)] ne g(2) by (simp add: reobserve_tail [OF tail])
  then show ?thesis using g(3) g0(3) by auto
qed

lemma insert_tail:
  assumes "act_bind (insert_finding row) (\<lambda>_. act_bind (touchHitchSession h t) (\<lambda>_.
      act_bind (requireFinding fid) (\<lambda>x. act_return (R x)))) db = (Inr res, db')"
  shows "db_findings db' = db_findings db @ [row]"
  using assms by (auto simp: act_simps split: if_splits option.splits)

lemma io_blockerD:
  assumes "io_blocker (observation inp sc)"
  shows "sc \<noteq> Duplicate_scope" "sc = In_scope \<or> sc = Unknown_scope"
    "or_else (ui_lifecycleStatus inp) (defaultLifecycleForScope sc) \<in> set OPEN_FINDING_LIFECYCLES"
  using assms by (auto simp: io_blocker_def observation_def incomingCloseBlockerCandidate_def split: if_splits)

lemma nearDuplicateOf_run:
  assumes "act_bind (nearDuplicateOf tok inp prep) k db = (Inr res, db')"
  obtains near where "k near db = (Inr res, db')" "near = None \<or> near = findNearDuplicateForInput tok db inp"
  using assms that unfolding nearDuplicateOf_def
  by (cases "getHitchSession db (ui_hitchId inp)")
    (auto simp: act_bind_assoc requireHitchSession_run act_bind_if act_bind_simps split: if_splits)

lemma insert_keeps_blocker:
  assumes inv: "schema_inv db" "canonical_ok db" and io: "io_blocker (observation inp sc)"
    and run: "insertNewFinding tok inp \<lparr>pu_stableKey = key, pu_scopeStatus = sc, pu_explicitDuplicateOf = None\<rparr>
      fid t db = (Inr res, db')"
  shows "\<exists>g \<in> set (db_findings db'). blocks (observation inp sc) (ui_hitchId inp) g"
proof -
  let ?prep = "\<lparr>pu_stableKey = key, pu_scopeStatus = sc, pu_explicitDuplicateOf = None\<rparr>"
  let ?k = "\<lambda>near r. act_bind (insert_finding (new_finding_row inp ?prep near fid t)) (\<lambda>_.
      act_bind (touchHitchSession (ui_hitchId inp) t) (\<lambda>_.
      act_bind (requireFinding fid) (\<lambda>x. act_return \<lparr>ur_finding = x, ur_created = True, ur_reopened = r\<rparr>)))"
  from run [unfolded insertNewFinding_def] obtain near where
    run': "act_bind (case f_duplicateOf (new_finding_row inp ?prep near fid t) of None \<Rightarrow> act_return False
        | Some canonical \<Rightarrow> promoteDuplicateCanonical canonical (observation inp (pu_scopeStatus ?prep)) t
            (near \<noteq> None)) (?k near) db = (Inr res, db')"
    and near: "near = None \<or> near = findNearDuplicateForInput tok db inp"
    unfolding Let_def by (rule nearDuplicateOf_run)
  note sc = io_blockerD [OF io]
  show ?thesis
  proof (cases near)
    case None
    then have "f_duplicateOf (new_finding_row inp ?prep near fid t) = None"
      by (simp add: new_finding_row_def)
    with run' have "?k near False db = (Inr res, db')" by (simp add: act_bind_simps(1))
    then have "db_findings db' = db_findings db @ [new_finding_row inp ?prep near fid t]"
      by (rule insert_tail)
    moreover have "blocks (observation inp sc) (ui_hitchId inp) (new_finding_row inp ?prep near fid t)"
      using None sc by (cases "ui_lifecycleStatus inp")
        (auto simp: blocks_def is_open_def observation_def new_finding_row_def Let_def)
    ultimately show ?thesis by auto
  next
    case (Some c)
    then have "findNearDuplicateForInput tok db inp = Some c" using near by auto
    then obtain f where f: "f \<in> set (db_findings db)" "f_findingId f = nd_findingId c"
      "f_duplicateOf f = None" "f_hitchId f = ui_hitchId inp" by (rule nearDuplicate_mem)
    have "f_duplicateOf (new_finding_row inp ?prep near fid t) = Some (f_findingId f)"
      by (simp add: new_finding_row_def Some f(2))
    then have "act_bind (promoteDuplicateCanonical (f_findingId f) (observation inp sc) t (near \<noteq> None))
        (?k near) db = (Inr res, db')"
      using run' by simp
    from promote_leaves_blocker [OF inv io f(1,3) this] obtain r db1 g
      where k: "?k near r db1 = (Inr res, db')" and g: "g \<in> set (db_findings db1)"
        "blocks (observation inp sc) (f_hitchId f) g" by blast
    from insert_tail [OF k] g f(4) show ?thesis by auto
  qed
qed


definition ex_finding :: "string \<Rightarrow> string option \<Rightarrow> hitch_scope_status \<Rightarrow> hitch_lifecycle_status \<Rightarrow> hitch_finding" where
  "ex_finding fid dup sc lc = \<lparr>f_findingId = fid, f_hitchId = ''h1'', f_stableKey = ''key-'' @ fid,
     f_duplicateOf = dup, f_source = Src_review, f_sourceRef = None, f_sourceAttemptId = None,
     f_sourceCycleId = None, f_severity = P1, f_category = ''bug'', f_scopeStatus = sc,
     f_lifecycleStatus = lc, f_summary = ''lost update'', f_detail = None, f_filePath = None,
     f_symbol = None, f_suggestedFix = None, f_firstSeenAt = ''t1'', f_lastSeenAt = ''t1'',
     f_fixedAt = None, f_deferredAt = None, f_escalatedAt = None, f_reopenCount = 0,
     f_deferredBacklogItemId = None, f_deferredIssueUrl = None, f_classificationReason = None,
     f_resolutionNote = None\<rparr>"

definition ex_report :: "string \<Rightarrow> upsert_finding_input" where
  "ex_report fid = \<lparr>ui_findingId = None, ui_hitchId = ''h1'', ui_stableKey = Some (''key-'' @ fid),
     ui_duplicateOf = None, ui_source = Src_review, ui_sourceRef = None, ui_sourceAttemptId = None,
     ui_sourceCycleId = None, ui_severity = P1, ui_category = ''bug'', ui_scopeStatus = Some In_scope,
     ui_lifecycleStatus = None, ui_summary = ''lost update'', ui_detail = None, ui_filePath = None,
     ui_symbol = None, ui_suggestedFix = None, ui_classificationReason = None\<rparr>"

definition ex_findings_db :: "hitch_finding list \<Rightarrow> hitch_db" where
  "ex_findings_db fs = (ex_db ex_session)\<lparr>db_findings := fs\<rparr>"


text \<open>
  the hypothesis on duplicates of the previous theorem is not an invariant of the repository.
  Nothing stops \<open>classifyFinding\<close> from turning a finding that others point to into a duplicate
  itself. Start with \<open>a\<close> a duplicate of \<open>b\<close>, classify \<open>b\<close> as a duplicate of \<open>c\<close>, fix \<open>c\<close>, and report \<open>a\<close>
  again as an in-scope P1: only \<open>b\<close> is promoted, whose lifecycle stays \<open>duplicate\<close>, so the report
  reopens nothing and no count of open findings shows it.
\<close>

theorem duplicate_chain_loses_blocker:
  "let db = ex_findings_db [ex_finding ''a'' (Some ''b'') Duplicate_scope L_duplicate,
       ex_finding ''b'' None In_scope L_open, ex_finding ''c'' None In_scope L_open]
   in canonical_ok db \<and>
      (case act_bind (classifyFinding ''b'' Duplicate_scope ''same as c'' (Some ''c'') ''t2'') (\<lambda>_.
          act_bind (markFindingFixed ''c'' None ''t3'') (\<lambda>_.
          upsertFinding ex_tok (\<lambda>s. s) (ex_report ''a'') ''f9'' ''t4'')) db of
         (Inl _, _) \<Rightarrow> False
       | (Inr res, db') \<Rightarrow> \<not> ur_reopened res \<and> countFindingSummary db' ''h1'' = zero_counts)"
  by code_simp

section \<open>What an approving review may retire\<close>

lemma getFinding_with [simp]:
  "getFinding (with_session h u db) fid = getFinding db fid"
  "(\<And>g. f_findingId (F g) = f_findingId g) \<Longrightarrow> getFinding (with_findings (tbl_update f_findingId j F) db) fid =
     (if fid = j then map_option F (getFinding db j) else getFinding db fid)"
  by (simp_all add: getFinding_def tbl_get_update)

lemma update_finding_frame:
  assumes "\<And>g. f_findingId (F g) = f_findingId g" "fid \<noteq> j"
  shows "getFinding (snd (update_finding j F db)) fid = getFinding db fid"
  using assms by (simp add: update_finding_def act_simps)

lemma update_map_frame:
  assumes "\<And>g. f_findingId (F g) = f_findingId g" "fid \<notin> set ids"
  shows "getFinding (snd (act_map (\<lambda>j. update_finding j F) ids db)) fid = getFinding db fid"
  using assms(2)
proof (induction ids arbitrary: db)
  case Nil
  then show ?case by (simp add: act_simps)
next
  case (Cons j ids)
  obtain r1 db1 where 1: "update_finding j F db = (r1, db1)" by fastforce
  obtain r2 db2 where 2: "act_map (\<lambda>j. update_finding j F) ids db1 = (r2, db2)" by fastforce
  have "getFinding db1 fid = getFinding db fid"
    using update_finding_frame [OF assms(1), of fid j db] Cons.prems 1 by simp
  moreover have "getFinding db2 fid = getFinding db1 fid"
    using Cons.IH [of db1] Cons.prems 2 by simp
  ultimately show ?case
    using 1 2 by (cases r1; cases r2) (auto simp: act_bind_def act_return_def)
qed

lemma act_readonly_requires: "act_readonly (act_map requireFinding ids)"
  by (induction ids) (auto simp: requireFinding_def intro!: act_clean_rules)

lemma snd_bind_frame:
  assumes "P (snd (m db))" "\<And>x db1. m db = (Inr x, db1) \<Longrightarrow> P db1 \<Longrightarrow> P (snd (f x db1))"
  shows "P (snd (act_bind m f db))"
  using assms by (auto simp: act_bind_def split: prod.splits sum.splits)

lemma touch_readback_frame:
  "getFinding (snd (act_bind (touchHitchSession h t) (\<lambda>_. act_map requireFinding ids) db)) fid = getFinding db fid"
  using act_readonly_requires [of ids] by (simp add: touch_run act_readonly_def)

lemma resolve_write_frame:
  assumes "fid \<notin> set ids"
  shows "getFinding (snd (act_bind (act_map (\<lambda>j. update_finding j (fixed_row n t)) ids) (\<lambda>_.
      act_bind (touchHitchSession h t) (\<lambda>_. act_map requireFinding ids)) db)) fid = getFinding db fid"
proof (rule snd_bind_frame [where P = "\<lambda>d. getFinding d fid = getFinding db fid"])
  show "getFinding (snd (act_map (\<lambda>j. update_finding j (fixed_row n t)) ids db)) fid = getFinding db fid"
    by (rule update_map_frame [OF _ assms]) simp
qed (simp only: touch_readback_frame)

lemma superseded_ids_mem:
  "schema_inv db \<Longrightarrow> f \<in> set (db_findings db) \<Longrightarrow> f_findingId f \<in> set (superseded_ids db inp cats n) \<Longrightarrow>
   superseded db inp cats n f"
  unfolding superseded_ids_def
  by (auto dest: mem_getFinding) (metis mem_getFinding option.inject)

text \<open>
  An approving review retires nothing outside its allowlist. If the operation changes a finding,
  the finding is a canonical, open, in-scope review finding of this hitch below P0, in a
  review-blocking category, raised in a strictly earlier cycle than the approving one, and the
  approved run is the hitch's current coding run where there is one.
\<close>

theorem resolveSuperseded_frame:
  assumes inv: "schema_inv db" and f: "f \<in> set (db_findings db)"
    and run: "resolveSupersededReviewFindings inp t db = (r, db')"
    and changed: "getFinding db' (f_findingId f) \<noteq> Some f"
  shows "f_hitchId f = rs_hitchId inp \<and> f_source f = Src_review \<and> f_scopeStatus f = In_scope
    \<and> f_lifecycleStatus f \<in> {L_open, L_reopened} \<and> f_severity f \<noteq> P0 \<and> f_duplicateOf f = None
    \<and> f_category f \<in> set REVIEW_BLOCKING_FINDING_CATEGORIES
    \<and> (\<exists>c d. c \<in> set (db_cycles db) \<and> d \<in> set (db_cycles db) \<and> c_cycleId d = rs_supersedingCycleId inp
        \<and> c_hitchId c = rs_hitchId inp \<and> c_hitchId d = rs_hitchId inp
        \<and> f_sourceCycleId f = Some (c_cycleId c) \<and> c_cycleNumber c < c_cycleNumber d)
    \<and> latestCodingRunId db (rs_hitchId inp) \<in> {None, Some (rs_decisionRunId inp)}"
proof -
  let ?cats = "filter (\<lambda>c. c \<in> set REVIEW_BLOCKING_FINDING_CATEGORIES) (rs_categories inp)"
  have same: "getFinding db (f_findingId f) = Some f" using mem_getFinding [OF inv f] .
  then have "db' \<noteq> db" using changed by auto
  then have ne: "?cats \<noteq> []" and within: "snd (resolveSupersededReviewFindingsWithin inp ?cats t db) = db'"
    using run by (auto simp: resolveSupersededReviewFindings_def Let_def act_simps
        split: if_splits prod.splits sum.splits)
  from within changed same obtain d where d: "find (\<lambda>c. c_cycleId c = rs_supersedingCycleId inp
        \<and> c_hitchId c = rs_hitchId inp) (db_cycles db) = Some d"
    and cur: "latestCodingRunId db (rs_hitchId inp) \<in> {None, Some (rs_decisionRunId inp)}"
    and mem: "f_findingId f \<in> set (superseded_ids db inp ?cats (c_cycleNumber d))"
    using resolve_write_frame [of "f_findingId f"]
    by (fastforce simp: resolveSupersededReviewFindingsWithin_def Let_def act_bind_simps act_unfold
        split: option.splits if_splits)
  have "superseded db inp ?cats (c_cycleNumber d) f" by (rule superseded_ids_mem [OF inv f mem])
  then obtain c where "c \<in> set (db_cycles db)" "f_sourceCycleId f = Some (c_cycleId c)"
    "c_hitchId c = f_hitchId f" "c_cycleNumber c < c_cycleNumber d"
    and rest: "f_hitchId f = rs_hitchId inp" "f_source f = Src_review" "f_scopeStatus f = In_scope"
      "f_lifecycleStatus f \<in> {L_open, L_reopened}" "f_severity f \<noteq> P0" "f_duplicateOf f = None"
      "f_category f \<in> set REVIEW_BLOCKING_FINDING_CATEGORIES"
    by (auto simp: superseded_def)
  with find_SomeD [OF d] have "\<exists>c d. c \<in> set (db_cycles db) \<and> d \<in> set (db_cycles db)
      \<and> c_cycleId d = rs_supersedingCycleId inp \<and> c_hitchId c = rs_hitchId inp \<and> c_hitchId d = rs_hitchId inp
      \<and> f_sourceCycleId f = Some (c_cycleId c) \<and> c_cycleNumber c < c_cycleNumber d"
    by metis
  with rest cur show ?thesis by blast
qed

definition ex_cycle :: "string \<Rightarrow> int \<Rightarrow> hitch_review_cycle" where
  "ex_cycle cid n = \<lparr>c_cycleId = cid, c_hitchId = ''h1'', c_cycleNumber = n, c_reviewMode = RM_delta,
     c_triggerAttemptId = None, c_sourceReviewId = None, c_sourceRunId = None, c_findingsSeen = 0,
     c_findingsNew = 0, c_findingsReopened = 0, c_findingsFixed = 0, c_findingsDeferred = 0,
     c_findingsInScopeOpen = 0, c_createdAt = ''t1'', c_completedAt = None, c_summary = None\<rparr>"

definition ex_blocker :: hitch_finding where
  "ex_blocker = (ex_finding ''f1'' None In_scope L_open)\<lparr>f_category := ''review-required-change'',
     f_sourceCycleId := Some ''c1''\<rparr>"

theorem resolveSuperseded_frame_witness:
  "\<exists>r db'. resolveSupersededReviewFindings \<lparr>rs_hitchId = ''h1'', rs_supersedingCycleId = ''c2'',
       rs_categories = [''review-required-change''], rs_decisionRunId = ''r2''\<rparr> ''t9''
       ((ex_findings_db [ex_blocker])\<lparr>db_cycles := [ex_cycle ''c1'' 1, ex_cycle ''c2'' 2]\<rparr>) = (r, db')
     \<and> getFinding db' ''f1'' \<noteq> Some ex_blocker \<and> f_severity ex_blocker \<noteq> P0"
proof -
  let ?inp = "\<lparr>rs_hitchId = ''h1'', rs_supersedingCycleId = ''c2'',
       rs_categories = [''review-required-change''], rs_decisionRunId = ''r2''\<rparr>"
  let ?db = "(ex_findings_db [ex_blocker])\<lparr>db_cycles := [ex_cycle ''c1'' 1, ex_cycle ''c2'' 2]\<rparr>"
  obtain r db' where run: "resolveSupersededReviewFindings ?inp ''t9'' ?db = (r, db')" by fastforce
  have inv: "schema_inv ?db" by code_simp
  have mem: "ex_blocker \<in> set (db_findings ?db)" by (simp add: ex_findings_db_def)
  have "getFinding (snd (resolveSupersededReviewFindings ?inp ''t9'' ?db)) ''f1'' \<noteq> Some ex_blocker"
    by code_simp
  then have changed: "getFinding db' (f_findingId ex_blocker) \<noteq> Some ex_blocker"
    using run by (simp add: ex_blocker_def ex_finding_def)
  with resolveSuperseded_frame [OF inv mem run changed] run show ?thesis
    by (simp add: ex_blocker_def ex_finding_def)
qed

end
