(* ===== verification/Convergence.thy ===== *)
theory Convergence
  imports Findings
begin

text \<open>
  The convergence controller: \<open>src/hitch/convergence-metrics.ts\<close>,
  \<open>src/hitch/repositories/metrics-repository.ts\<close> and \<open>src/hitch/convergence.ts\<close>. It reads the
  tables of one hitch, evaluates the close gate and decides the next step: stop, escalate, close,
  review, classify, fix, validate or ask. The phases linked to the hitch whose approved
  specification drifted are the argument \<open>drifts\<close>; they only appear in a message.
\<close>

section \<open>Metrics\<close>

definition is_coding :: "hitch_attempt \<Rightarrow> bool" where
  "is_coding a \<longleftrightarrow> a_attemptType a \<in> set CODING_RUN_ATTEMPT_TYPES"

definition maxAttemptIteration :: "hitch_attempt list \<Rightarrow> int" where
  "maxAttemptIteration attempts = fold (\<lambda>a m. max m (a_iteration a)) attempts 0"

definition isLatestCodingAttemptFailed :: "hitch_attempt list \<Rightarrow> bool" where
  "isLatestCodingAttemptFailed attempts =
     (case find is_coding (rev attempts) of None \<Rightarrow> False | Some a \<Rightarrow> a_status a = AS_failed)"

definition isLatestCodingAttemptSucceeded :: "hitch_attempt list \<Rightarrow> bool" where
  "isLatestCodingAttemptSucceeded attempts =
     (case find is_coding (rev attempts) of
        None \<Rightarrow> False
      | Some a \<Rightarrow> a_status a = AS_succeeded \<and> a_runId a \<noteq> None \<and> a_runId a \<noteq> Some [])"

definition isReviewPending :: "hitch_attempt list \<Rightarrow> hitch_review_cycle list \<Rightarrow> bool \<Rightarrow> bool" where
  "isReviewPending attempts cycles latestCodingFailed =
     (if latestCodingFailed then False
      else (case find is_coding (rev attempts) of
          None \<Rightarrow> False
        | Some a \<Rightarrow>
            if cycles = [] then True
            else a_createdAt a > fold (\<lambda>c m. if c_createdAt c > m then c_createdAt c else m) cycles []))"

record pending_external_evidence =
  pe_conditionId :: string
  pe_kind :: hitch_close_condition_kind
  pe_description :: "string option"
  pe_pendingCycles :: nat

record pending_routing =
  pr_hasRunnableCommand :: bool
  pr_externalEvidence :: "pending_external_evidence list"
  pr_codeRecoverableFacets :: "string list"

definition RUNNABLE_CLOSE_CHECK_STATUSES :: "hitch_close_check_status list" where
  "RUNNABLE_CLOSE_CHECK_STATUSES = [K_pending, K_skipped, K_unknown]"

definition countPendingCycles :: "evaluated_close_condition \<Rightarrow> hitch_review_cycle list \<Rightarrow> nat" where
  "countPendingCycles evaluated cycles =
     (let checkedAt = map_option k_checkedAt (ec_check evaluated)
      in length (filter (\<lambda>c. case c_completedAt c of
           None \<Rightarrow> False
         | Some completedAt \<Rightarrow> (case checkedAt of None \<Rightarrow> True | Some t \<Rightarrow> completedAt > t)) cycles))"

definition completedReviewCycleCount :: "hitch_review_cycle list \<Rightarrow> nat" where
  "completedReviewCycleCount cycles = length (filter (\<lambda>c. c_completedAt c \<noteq> None) cycles)"

definition runnable_command :: "evaluated_close_condition \<Rightarrow> bool" where
  "runnable_command e \<longleftrightarrow> cc_kind (ec_condition e) = CK_command
     \<and> ec_status e \<in> set RUNNABLE_CLOSE_CHECK_STATUSES"

definition code_recoverable_facet :: "evaluated_close_condition \<Rightarrow> bool" where
  "code_recoverable_facet e \<longleftrightarrow> cc_kind (ec_condition e) = CK_facet_red_test
     \<and> ec_facetPendingDisposition e = Some Code_recoverable"

text \<open>The loop's \<open>continue\<close> branches as successive filters, in the order of the conditions.\<close>

definition requiredPendingCloseCheckRouting ::
  "evaluated_close_condition list \<Rightarrow> int \<Rightarrow> hitch_review_cycle list \<Rightarrow> pending_routing" where
  "requiredPendingCloseCheckRouting conditions requiredPending cycles =
     (let pending = filter (\<lambda>e. cc_required (ec_condition e) \<and> ec_status e \<noteq> K_passed
            \<and> ec_status e \<noteq> K_failed) conditions;
          hasRunnable = (\<exists>e \<in> set pending. runnable_command e);
          rest = filter (\<lambda>e. \<not> runnable_command e \<and> cc_kind (ec_condition e) \<noteq> CK_review_consensus) pending;
          external = map (\<lambda>e. \<lparr>pe_conditionId = cc_id (ec_condition e), pe_kind = cc_kind (ec_condition e),
              pe_description = (let d = js_trim (or_else (cc_description (ec_condition e)) [])
                                in if d = [] then None else Some d),
              pe_pendingCycles = countPendingCycles e cycles\<rparr>)
            (filter (\<lambda>e. \<not> code_recoverable_facet e) rest)
      in \<lparr>pr_hasRunnableCommand = hasRunnable,
          pr_externalEvidence = external
            @ (if conditions = [] \<and> requiredPending > 0 \<and> \<not> hasRunnable
               then [\<lparr>pe_conditionId = ''close conditions'', pe_kind = CK_manual,
                      pe_description = Some ''none configured'',
                      pe_pendingCycles = completedReviewCycleCount cycles\<rparr>]
               else []),
          pr_codeRecoverableFacets = map (\<lambda>e. cc_id (ec_condition e)) (filter code_recoverable_facet rest)\<rparr>)"

record spec_drift =
  sd_phaseId :: string
  sd_approvedSpecHash :: string
  sd_currentSpecHash :: string

definition cycleWord :: "nat \<Rightarrow> string" where
  "cycleWord n = (if n = 1 then ''cycle'' else ''cycles'')"

definition formatPendingExternalEvidenceCondition :: "pending_external_evidence \<Rightarrow> string" where
  "formatPendingExternalEvidenceCondition c =
     ''condition '' @ pe_conditionId c @ '' kind='' @ close_condition_kind_str (pe_kind c) @ '' pending ''
     @ js_nat (pe_pendingCycles c) @ '' '' @ cycleWord (pe_pendingCycles c)
     @ (case pe_description c of None \<Rightarrow> [] | Some d \<Rightarrow> '' ('' @ d @ '')'')"

definition formatLinkedPhaseSpecDrifts :: "spec_drift list \<Rightarrow> string option" where
  "formatLinkedPhaseSpecDrifts drifts =
     (if drifts = [] then None
      else Some (''Spec approval hash drift: '' @ js_join '', ''
        (map (\<lambda>d. ''phase '' @ sd_phaseId d @ '' approved='' @ sd_approvedSpecHash d @ '' current=''
           @ sd_currentSpecHash d) drifts)))"

definition externalEvidenceAskHumanMessage :: "pending_external_evidence list \<Rightarrow> spec_drift list \<Rightarrow> string" where
  "externalEvidenceAskHumanMessage conditions drifts =
     ''Record external close-check evidence for: ''
     @ js_join '', '' (map formatPendingExternalEvidenceCondition conditions)
     @ (case formatLinkedPhaseSpecDrifts drifts of None \<Rightarrow> [] | Some t \<Rightarrow> ''. '' @ t)"

definition newer_timestamp :: "timestamp \<Rightarrow> timestamp \<Rightarrow> bool" where
  "newer_timestamp t latest \<longleftrightarrow> t > latest"

definition mutation_timestamps ::
  "hitch_attempt list \<Rightarrow> timestamp option \<Rightarrow> hitch_review_cycle list \<Rightarrow> timestamp list" where
  "mutation_timestamps attempts findingMutationAt cycles =
     map (\<lambda>a. or_else (a_completedAt a) (or_else (a_startedAt a) (a_createdAt a)))
       (filter (\<lambda>a. a_attemptType a \<noteq> AT_close_check) attempts)
     @ (case findingMutationAt of None \<Rightarrow> [] | Some t \<Rightarrow> [t])
     @ map (\<lambda>c. or_else (c_completedAt c) (c_createdAt c)) cycles"

definition lastCloseCheckInvalidatingMutationAt ::
  "hitch_attempt list \<Rightarrow> timestamp option \<Rightarrow> hitch_review_cycle list \<Rightarrow> timestamp option" where
  "lastCloseCheckInvalidatingMutationAt attempts findingMutationAt cycles =
     newest newer_timestamp (mutation_timestamps attempts findingMutationAt cycles)"

subsection \<open>Reads of the metrics repository\<close>

definition harness_churn :: "hitch_finding \<Rightarrow> bool" where
  "harness_churn f \<longleftrightarrow> f_duplicateOf f = None \<and> f_source f \<in> set HARNESS_ORIGIN_FINDING_SOURCES
     \<and> f_category f \<notin> set ADVISORY_REVIEW_FINDING_CATEGORIES"

definition harnessOriginDivergenceMetrics :: "hitch_db \<Rightarrow> string \<Rightarrow> harness_origin_divergence_metrics" where
  "harnessOriginDivergenceMetrics db hitchId =
     (let churn = filter (\<lambda>f. f_hitchId f = hitchId \<and> harness_churn f) (db_findings db);
          cycles = sort_key (\<lambda>c. (c_cycleNumber c, c_createdAt c, c_cycleId c))
            (filter (\<lambda>c. c_hitchId c = hitchId \<and> c_completedAt c \<noteq> None) (db_cycles db))
      in \<lparr>ho_newFindings = int (length churn), ho_maxReopenCount = max0 (map f_reopenCount churn),
          ho_newFindingsByCycle = map (\<lambda>c. \<lparr>cf_cycleId = c_cycleId c, cf_cycleNumber = c_cycleNumber c,
            cf_findingsNew = int (length (filter (\<lambda>f. f_sourceCycleId f = Some (c_cycleId c)) churn))\<rparr>) cycles\<rparr>)"

definition newestCodingAttemptRunId :: "hitch_db \<Rightarrow> string \<Rightarrow> string option" where
  "newestCodingAttemptRunId db hitchId =
     (case find is_coding (rev (listAttempts db hitchId)) of
        None \<Rightarrow> None
      | Some a \<Rightarrow> if a_runId a \<noteq> None \<and> a_runId a \<noteq> Some [] then a_runId a else None)"

fun sorted_distinct :: "string list \<Rightarrow> string list" where
  "sorted_distinct xs = sort (remdups xs)"

definition changedPathsForRun :: "hitch_db \<Rightarrow> string \<Rightarrow> string list" where
  "changedPathsForRun db runId =
     (let dbPaths = filter (\<lambda>p. p \<noteq> []) (sorted_distinct (map rf_path
            (filter (\<lambda>r. rf_runId r = runId \<and> rf_allowed r \<and> \<not> rf_ignored r) (db_changedFiles db))))
      in if dbPaths \<noteq> [] then dbPaths
         else (case Option.bind (tbl_get rn_runId runId (db_runs db)) rn_meta of
             Some (JObj meta) \<Rightarrow>
               (case Option.bind (map_of meta ''reviewed'') json_props of
                  Some reviewed \<Rightarrow>
                    (case map_of reviewed ''paths'' of
                       Some (JArr paths) \<Rightarrow> filter (\<lambda>p. p \<noteq> []) (List.map_filter json_str paths)
                     | _ \<Rightarrow> [])
                | None \<Rightarrow> [])
           | _ \<Rightarrow> []))"

definition latestCodingRunChangedPaths :: "hitch_db \<Rightarrow> string \<Rightarrow> string option \<times> string list" where
  "latestCodingRunChangedPaths db hitchId =
     (case newestCodingAttemptRunId db hitchId of
        None \<Rightarrow> (None, [])
      | Some runId \<Rightarrow> (Some runId, changedPathsForRun db runId))"

definition buildMetrics ::
  "hitch_session \<Rightarrow> finding_summary_counts \<Rightarrow> hitch_review_cycle list \<Rightarrow> int \<Rightarrow> int \<Rightarrow> int
     \<Rightarrow> harness_origin_divergence_metrics \<Rightarrow> int \<times> int \<times> int \<Rightarrow> hitch_metrics" where
  "buildMetrics session counts cycles attemptsUsed rerunsUsed maxReopenCount ho closeCounts =
     (let (passed, failed, pending) = closeCounts
      in \<lparr>m_openInScopeP0 = int (su_openInScopeP0 counts), m_openInScopeP1 = int (su_openInScopeP1 counts),
          m_openInScopeP2 = int (su_openInScopeP2 counts), m_openUnknownScope = int (su_openUnknownScope counts),
          m_openOutOfScope = int (su_openOutOfScope counts),
          m_totalNewFindings = sum_list (map c_findingsNew cycles),
          m_newFindingsThisCycle = (if cycles = [] then 0 else c_findingsNew (last cycles)),
          m_reviewCyclesUsed = int (length cycles),
          m_iterationsUsed = max (s_currentIteration session) attemptsUsed,
          m_rerunsUsed = rerunsUsed, m_closeConditionsPassed = passed, m_closeConditionsFailed = failed,
          m_closeConditionsPending = pending, m_maxReopenCount = maxReopenCount,
          m_harnessOriginNewFindings = ho_newFindings ho,
          m_harnessOriginNewFindingsThisCycle =
            (if ho_newFindingsByCycle ho = [] then 0 else cf_findingsNew (last (ho_newFindingsByCycle ho))),
          m_harnessOriginMaxReopenCount = ho_maxReopenCount ho,
          m_harnessOriginNewFindingsByCycle = ho_newFindingsByCycle ho\<rparr>)"

section \<open>Stopping rules\<close>

definition hitchBudgetExceededReason :: "hitch_session \<Rightarrow> hitch_metrics \<Rightarrow> string option" where
  "hitchBudgetExceededReason session metrics =
     (if m_iterationsUsed metrics > s_maxIterations session then Some ''max iterations exceeded''
      else if m_reviewCyclesUsed metrics > s_maxReviewCycles session then Some ''max review cycles exceeded''
      else if m_rerunsUsed metrics > s_maxReruns session then Some ''max reruns exceeded''
      else None)"

definition hitchBudgetLimitReason :: "hitch_session \<Rightarrow> hitch_metrics \<Rightarrow> string option" where
  "hitchBudgetLimitReason session metrics =
     (if m_iterationsUsed metrics \<ge> s_maxIterations session then Some ''max iterations reached''
      else if m_reviewCyclesUsed metrics \<ge> s_maxReviewCycles session then Some ''max review cycles reached''
      else if m_rerunsUsed metrics \<ge> s_maxReruns session then Some ''max reruns reached''
      else None)"

fun terminalDecision :: "hitch_status \<Rightarrow> hitch_convergence_decision option" where
  "terminalDecision S_closed = Some D_closed"
| "terminalDecision S_cancelled = Some D_cancel"
| "terminalDecision S_budget_exhausted = Some D_budget_exhausted"
| "terminalDecision S_escalated = Some D_escalate"
| "terminalDecision _ = None"

definition RECOVERABLE_DIVERGENCE_REASON :: string where
  "RECOVERABLE_DIVERGENCE_REASON = ''total new findings exceeded hitch budget''"

definition non_decreasing :: "int \<Rightarrow> cycle_finding_count list \<Rightarrow> bool" where
  "non_decreasing threshold cycleCounts =
     (threshold > 0 \<and> int (length cycleCounts) \<ge> threshold \<and>
      (case rev cycleCounts of
         latest # previous # _ \<Rightarrow> cf_cycleNumber latest \<ge> threshold \<and> cf_findingsNew latest > 0
           \<and> cf_findingsNew latest \<ge> cf_findingsNew previous
       | _ \<Rightarrow> False))"

definition divergenceReason :: "hitch_session \<Rightarrow> hitch_metrics \<Rightarrow> string option" where
  "divergenceReason session metrics =
     (let policy = p_divergence (s_policy session);
          effectiveTotalCeiling = max (dv_maxTotalNewFindings policy) (s_maxTotalNewFindings session)
      in if m_harnessOriginNewFindings metrics > s_maxTotalNewFindings session
         then Some ''total new findings exceeded hitch budget''
         else if m_harnessOriginNewFindings metrics > effectiveTotalCeiling
         then Some ''total new findings exceeded policy budget''
         else if m_harnessOriginNewFindingsThisCycle metrics > dv_maxNewFindingsPerCycle policy
         then Some ''new findings in current cycle exceeded policy budget''
         else if m_harnessOriginMaxReopenCount metrics > dv_maxReopenedPerFinding policy
         then Some ''a finding reopened too many times''
         else if non_decreasing (dv_requireNewFindingsDecreaseAfterCycle policy)
                   (m_harnessOriginNewFindingsByCycle metrics)
         then Some ''new findings did not decrease across review cycles''
         else None)"

definition divergenceReasonForBudget :: "hitch_session \<Rightarrow> hitch_metrics \<Rightarrow> int \<Rightarrow> string option" where
  "divergenceReasonForBudget session metrics hypotheticalMax =
     divergenceReason (session\<lparr>s_maxTotalNewFindings := hypotheticalMax\<rparr>) metrics"

definition closeRequirementsSatisfied :: "hitch_session \<Rightarrow> hitch_metrics \<Rightarrow> bool" where
  "closeRequirementsSatisfied session metrics =
     (let requires = p_closeRequires (s_policy session)
      in if cr_noOpenInScopeP0 requires \<and> m_openInScopeP0 metrics > 0 then False
         else if cr_noOpenInScopeP1 requires \<and> m_openInScopeP1 metrics > 0 then False
         else if cr_noUnknownScope requires \<and> m_openUnknownScope metrics > 0 then False
         else (case cr_maxOpenInScopeP2 requires of
             None \<Rightarrow> True | Some n \<Rightarrow> \<not> m_openInScopeP2 metrics > n))"

section \<open>Advisory text\<close>

definition no_filter :: "string \<Rightarrow> finding_filter" where
  "no_filter hitchId = \<lparr>ff_hitchId = Some hitchId, ff_scopeStatus = None, ff_scopeStatusIn = None,
     ff_lifecycleStatus = None, ff_lifecycleStatusIn = None, ff_severity = None, ff_severityIn = None\<rparr>"

definition openFindingIds ::
  "hitch_db \<Rightarrow> string \<Rightarrow> hitch_scope_status \<Rightarrow> hitch_finding_severity option \<Rightarrow> string list" where
  "openFindingIds db hitchId scopeStatus severity =
     map f_findingId (listFindings db ((no_filter hitchId)\<lparr>ff_scopeStatus := Some scopeStatus,
       ff_severity := severity, ff_lifecycleStatusIn := Some OPEN_FINDING_LIFECYCLES\<rparr>) (Some 200) None)"

definition unresolvedOutOfScopeFindingIds :: "hitch_db \<Rightarrow> string \<Rightarrow> string list" where
  "unresolvedOutOfScopeFindingIds db hitchId =
     map f_findingId (listFindings db ((no_filter hitchId)\<lparr>ff_scopeStatus := Some Out_of_scope,
       ff_lifecycleStatusIn := Some UNRESOLVED_OUT_OF_SCOPE_FINDING_LIFECYCLES\<rparr>) (Some 200) None)"

definition effectiveMaxOpenInScopeP2 :: "hitch_session \<Rightarrow> rat option" where
  "effectiveMaxOpenInScopeP2 session =
     fold (\<lambda>c acc.
         if \<not> cc_required c \<or> cc_kind c \<noteq> CK_finding_policy then acc
         else (case numberRule (Option.bind (cc_rule c) (\<lambda>r. map_of r ''maxOpenInScopeP2'')) of
             None \<Rightarrow> acc
           | Some ruleMax \<Rightarrow> (case acc of None \<Rightarrow> Some ruleMax | Some m \<Rightarrow> Some (min m ruleMax))))
       (s_closeConditions session)
       (map_option rat_of_int (cr_maxOpenInScopeP2 (p_closeRequires (s_policy session))))"

definition nonBlockingSuggestedFixSeverities :: "hitch_session \<Rightarrow> hitch_metrics \<Rightarrow> hitch_finding_severity list" where
  "nonBlockingSuggestedFixSeverities session metrics =
     (case effectiveMaxOpenInScopeP2 session of
        None \<Rightarrow> [P2, P3]
      | Some m \<Rightarrow> if rat_of_int (m_openInScopeP2 metrics) \<le> m then [P2, P3] else [P3])"

definition nonBlockingSuggestedFixAdvisory ::
  "hitch_db \<Rightarrow> hitch_session \<Rightarrow> hitch_metrics \<Rightarrow> string option" where
  "nonBlockingSuggestedFixAdvisory db session metrics =
     (let severities = nonBlockingSuggestedFixSeverities session metrics;
          findings = filter (\<lambda>f. js_trim (or_else (f_suggestedFix f) []) \<noteq> [])
            (listFindings db ((no_filter (s_hitchId session))\<lparr>ff_scopeStatus := Some In_scope,
               ff_severityIn := Some severities, ff_lifecycleStatusIn := Some OPEN_FINDING_LIFECYCLES\<rparr>)
               (Some 200) None);
          displayed = map (\<lambda>f. f_findingId f @ ''('' @ severity_str (f_severity f) @ '')'') (take 200 findings);
          more = (if length findings > length displayed
                  then '', +'' @ js_nat (length findings - length displayed) @ '' more'' else [])
      in if severities = [] then None
         else if findings = [] then None
         else Some (''Non-blocking open in-scope P2/P3 findings with suggested fixes remain'' @
           '' and will not trigger a coder rerun automatically: '' @ js_join '', '' displayed @ more @
           ''. Fix or defer them before close/PR if they should be included.''))"

definition next_action :: "hitch_next_action_kind \<Rightarrow> string list option \<Rightarrow> string \<Rightarrow> hitch_next_action" where
  "next_action kind ids message =
     \<lparr>na_kind = kind, na_findingIds = ids, na_message = message, na_decisionPacket = None\<rparr>"

definition withNonBlockingSuggestedFixAdvisory ::
  "hitch_db \<Rightarrow> hitch_session \<Rightarrow> hitch_metrics \<Rightarrow> hitch_next_action \<Rightarrow> hitch_next_action" where
  "withNonBlockingSuggestedFixAdvisory db session metrics action =
     (case nonBlockingSuggestedFixAdvisory db session metrics of
        None \<Rightarrow> action
      | Some advisory \<Rightarrow> action\<lparr>na_message := na_message action @ '' '' @ advisory\<rparr>)"

section \<open>The decision\<close>

definition mk_result ::
  "string \<Rightarrow> hitch_convergence_decision \<Rightarrow> string \<Rightarrow> hitch_metrics \<Rightarrow> hitch_next_action
     \<Rightarrow> hitch_convergence_result" where
  "mk_result hitchId decision reason metrics action =
     \<lparr>r_hitchId = hitchId, r_decision = decision, r_reason = reason, r_metrics = metrics,
      r_nextAction = action\<rparr>"

record decide_input =
  di_session :: hitch_session
  di_metrics :: hitch_metrics
  di_allRequiredPassed :: bool
  di_latestCodingFailed :: bool
  di_reviewPending :: bool
  di_latestCodingSucceeded :: bool
  di_reviewConsensusPending :: bool
  di_routing :: pending_routing
  di_drifts :: "spec_drift list"

text \<open>
  \<open>decide\<close> is a sequence of guarded returns; it is modelled in four stages, each the guarded returns
  of one part of the source in their order, \<open>None\<close> when the control falls through.
\<close>

definition decideStops :: "hitch_db \<Rightarrow> decide_input \<Rightarrow> hitch_convergence_result option" where
  "decideStops db di =
     (let session = di_session di; metrics = di_metrics di; h = s_hitchId session
      in case terminalDecision (s_status session) of
           Some d \<Rightarrow> Some (mk_result h d (''hitch is '' @ hitch_status_str (s_status session)) metrics
             (next_action A_ask_human None (''Hitch is already '' @ hitch_status_str (s_status session) @ ''.'')))
         | None \<Rightarrow> (case hitchBudgetExceededReason session metrics of
           Some reason \<Rightarrow> Some (mk_result h D_budget_exhausted reason metrics
             (next_action A_ask_human None ''Stop: hitch budget is exhausted.''))
         | None \<Rightarrow>
           if m_openInScopeP0 metrics > 0 then
             Some (mk_result h D_escalate ''open in-scope P0 findings'' metrics
               (next_action A_ask_human (Some (openFindingIds db h In_scope (Some P0)))
                 ''Escalate open in-scope P0 findings.''))
           else (case divergenceReason session metrics of
             Some reason \<Rightarrow> Some (mk_result h D_diverging reason metrics
               (next_action A_ask_human None ''Stop automatic fixing: finding flow is not converging.''))
           | None \<Rightarrow> None)))"

definition decideClose :: "hitch_db \<Rightarrow> decide_input \<Rightarrow> hitch_convergence_result option" where
  "decideClose db di =
     (let session = di_session di; metrics = di_metrics di; h = s_hitchId session;
          adv = withNonBlockingSuggestedFixAdvisory db session metrics;
          outOfScopeDeferralsRequired = (p_deferOutOfScope (s_policy session) \<and> m_openOutOfScope metrics > 0);
          limit = hitchBudgetLimitReason session metrics
      in if di_allRequiredPassed di \<and> closeRequirementsSatisfied session metrics \<and> \<not> outOfScopeDeferralsRequired then
           Some (mk_result h D_close_ready ''original close conditions satisfied'' metrics
             (adv (next_action A_close_hitch None ''Close hitch and defer remaining out-of-scope follow-ups.'')))
         else if limit \<noteq> None \<and> di_reviewPending di \<and> di_latestCodingSucceeded di
                 \<and> m_reviewCyclesUsed metrics < s_maxReviewCycles session then
           Some (mk_result h D_continue ''review the last succeeded coder run before budget_exhausted'' metrics
             (adv (next_action A_run_review None
               ''Review the latest succeeded coder run before stopping at budget.'')))
         else (case limit of
             Some reason \<Rightarrow> Some (mk_result h D_budget_exhausted reason metrics
               (next_action A_ask_human None ''Stop: hitch budget is exhausted.''))
           | None \<Rightarrow>
             if di_reviewPending di \<and> m_reviewCyclesUsed metrics < s_maxReviewCycles session then
               Some (mk_result h D_continue ''review the latest coder run before another fix pass'' metrics
                 (adv (next_action A_run_review None ''Review the latest coder run before another fix pass.'')))
             else None))"

definition decideFindings :: "hitch_db \<Rightarrow> decide_input \<Rightarrow> hitch_convergence_result option" where
  "decideFindings db di =
     (let session = di_session di; metrics = di_metrics di; h = s_hitchId session; policy = s_policy session;
          adv = withNonBlockingSuggestedFixAdvisory db session metrics
      in if m_openUnknownScope metrics > 0
            \<and> (p_stopOnUnknownScope policy \<or> cr_noUnknownScope (p_closeRequires policy)) then
           Some (mk_result h D_needs_classification ''unknown-scope findings require classification'' metrics
             (next_action A_classify_findings (Some (openFindingIds db h Unknown_scope None))
               ''Classify unknown-scope findings before another fix pass.''))
         else if m_openInScopeP1 metrics > 0 \<and> cr_noOpenInScopeP1 (p_closeRequires policy) then
           Some (mk_result h D_needs_fix ''open in-scope P1 findings'' metrics
             (next_action A_fix_findings (Some (openFindingIds db h In_scope (Some P1)))
               ''Fix open in-scope P1 findings.''))
         else if (case cr_maxOpenInScopeP2 (p_closeRequires policy) of
                    None \<Rightarrow> False | Some n \<Rightarrow> m_openInScopeP2 metrics > n) then
           Some (mk_result h D_needs_fix ''open in-scope P2 findings exceed close policy'' metrics
             (next_action A_fix_findings (Some (openFindingIds db h In_scope (Some P2)))
               ''Fix or defer in-scope P2 findings required by close policy.''))
         else if m_closeConditionsFailed metrics > 0 then
           Some (mk_result h D_needs_fix ''required close conditions failed'' metrics
             (next_action A_run_close_check None ''Fix failed close conditions and record fresh evidence.''))
         else if di_allRequiredPassed di \<and> p_deferOutOfScope policy \<and> m_openOutOfScope metrics > 0 then
           Some (mk_result h D_continue ''out-of-scope findings require deferral'' metrics
             (adv (next_action A_defer_followups (Some (unresolvedOutOfScopeFindingIds db h))
               ''Defer out-of-scope findings before closing the hitch.'')))
         else if m_iterationsUsed metrics = 0 then
           Some (mk_result h D_needs_fix ''no implementation attempt yet'' metrics
             (next_action A_fix_findings None ''Run the initial coder pass for this hitch.''))
         else if di_latestCodingFailed di then
           Some (mk_result h D_needs_fix ''latest coding run failed before review; rerun'' metrics
             (next_action A_fix_findings None
               (''The previous coder run failed before review (a failing command, '' @
                ''policy violation, or codex error). Re-run the coder to fix the cause.'')))
         else None)"

definition decideValidation :: "hitch_db \<Rightarrow> decide_input \<Rightarrow> hitch_convergence_result" where
  "decideValidation db di =
     (let session = di_session di; metrics = di_metrics di; h = s_hitchId session;
          adv = withNonBlockingSuggestedFixAdvisory db session metrics; routing = di_routing di
      in if di_reviewConsensusPending di \<and> m_reviewCyclesUsed metrics < s_maxReviewCycles session then
           mk_result h D_continue ''refresh stale review consensus before close'' metrics
             (adv (next_action A_run_review None ''Refresh the review consensus close-check for this run.''))
         else if pr_hasRunnableCommand routing then
           mk_result h D_continue ''more validation required'' metrics
             (adv (next_action A_run_close_check None ''Record command close-check evidence.''))
         else if pr_codeRecoverableFacets routing \<noteq> [] then
           mk_result h D_needs_fix ''facet_red_test pending requires a covering test'' metrics
             (next_action A_fix_findings None
               (''A required facet_red_test condition has no covering test ('' @
                js_join '', '' (pr_codeRecoverableFacets routing) @ ''). Re-run the coder to add a RED '' @
                ''covering test for the facet; recorded evidence alone cannot satisfy it.''))
         else if pr_externalEvidence routing \<noteq> [] then
           mk_result h D_continue ''external close-check evidence required'' metrics
             (adv (next_action A_ask_human None
               (externalEvidenceAskHumanMessage (pr_externalEvidence routing) (di_drifts di))))
         else
           mk_result h D_continue ''more validation required'' metrics
             (adv (next_action A_run_close_check None ''Record command close-check evidence.'')))"

definition decide :: "hitch_db \<Rightarrow> decide_input \<Rightarrow> hitch_convergence_result" where
  "decide db di =
     (case decideStops db di of Some r \<Rightarrow> r
      | None \<Rightarrow> (case decideClose db di of Some r \<Rightarrow> r
      | None \<Rightarrow> (case decideFindings db di of Some r \<Rightarrow> r
      | None \<Rightarrow> decideValidation db di)))"

definition policy_counts :: "finding_summary_counts \<Rightarrow> finding_policy_counts" where
  "policy_counts c = \<lparr>fp_openInScopeP0 = int (su_openInScopeP0 c), fp_openInScopeP1 = int (su_openInScopeP1 c),
     fp_openInScopeP2 = int (su_openInScopeP2 c), fp_openUnknownScope = int (su_openUnknownScope c)\<rparr>"

definition closeInput :: "hitch_db \<Rightarrow> hitch_session \<Rightarrow> close_input" where
  "closeInput db session =
     (let h = s_hitchId session; attempts = listAttempts db h; cycles = listReviewCycles db h;
          facetGate = latestCodingRunChangedPaths db h
      in \<lparr>ci_conditions = s_closeConditions session, ci_checks = listCloseChecks db h,
          ci_findingCounts = policy_counts (countFindingSummary db h),
          ci_freshAfter = lastCloseCheckInvalidatingMutationAt attempts (latestFindingMutationAt db h) cycles,
          ci_allowEmptyCloseConditions = p_allowEmptyCloseConditions (s_policy session),
          ci_changedPaths = snd facetGate, ci_latestCodingRunId = fst facetGate,
          ci_evidenceRows = listEvidence db h\<rparr>)"

definition decideInput ::
  "glob_matcher \<Rightarrow> transcript_decision \<Rightarrow> hitch_db \<Rightarrow> spec_drift list \<Rightarrow> hitch_session \<Rightarrow> decide_input" where
  "decideInput mm td db drifts session =
     (let h = s_hitchId session; attempts = listAttempts db h; cycles = listReviewCycles db h;
          close = evaluateCloseConditions mm td (closeInput db session);
          failed = isLatestCodingAttemptFailed attempts
      in \<lparr>di_session = session,
          di_metrics = buildMetrics session (countFindingSummary db h) cycles (maxAttemptIteration attempts)
            (int (length (filter (\<lambda>a. a_attemptType a = AT_rerun) attempts))) (maxFindingReopenCount db h)
            (harnessOriginDivergenceMetrics db h)
            (ce_requiredPassed close, ce_requiredFailed close, ce_requiredPending close),
          di_allRequiredPassed = ce_allRequiredPassed close,
          di_latestCodingFailed = failed,
          di_reviewPending = isReviewPending attempts cycles failed,
          di_latestCodingSucceeded = isLatestCodingAttemptSucceeded attempts,
          di_reviewConsensusPending = (\<exists>e \<in> set (ce_conditions close). cc_required (ec_condition e)
             \<and> cc_kind (ec_condition e) = CK_review_consensus \<and> ec_status e \<noteq> K_passed),
          di_routing = requiredPendingCloseCheckRouting (ce_conditions close) (ce_requiredPending close) cycles,
          di_drifts = drifts\<rparr>)"

definition evaluate ::
  "glob_matcher \<Rightarrow> transcript_decision \<Rightarrow> spec_drift list \<Rightarrow> string \<Rightarrow> hitch_convergence_result hitch_act" where
  "evaluate mm td drifts hitchId =
     act_bind (requireHitchSession hitchId) (\<lambda>session.
       act_get (\<lambda>db. decide db (decideInput mm td db drifts session)))"

section \<open>The stages of the decision\<close>

lemma result_fields [simp]:
  "r_decision (mk_result h d reason m a) = d" "r_nextAction (mk_result h d reason m a) = a"
  "r_metrics (mk_result h d reason m a) = m" "na_kind (next_action k ids msg) = k"
  "r_hitchId (mk_result h d reason m a) = h" "r_reason (mk_result h d reason m a) = reason"
  by (simp_all add: mk_result_def next_action_def)

lemma advisory_kind [simp]: "na_kind (withNonBlockingSuggestedFixAdvisory db s m a) = na_kind a"
  by (simp add: withNonBlockingSuggestedFixAdvisory_def split: option.split)

definition not_stopped :: "hitch_session \<Rightarrow> hitch_metrics \<Rightarrow> bool" where
  "not_stopped session m \<longleftrightarrow> terminalDecision (s_status session) = None
     \<and> m_iterationsUsed m \<le> s_maxIterations session \<and> m_reviewCyclesUsed m \<le> s_maxReviewCycles session
     \<and> m_rerunsUsed m \<le> s_maxReruns session \<and> m_openInScopeP0 m \<le> 0 \<and> divergenceReason session m = None"

definition budget_left :: "hitch_session \<Rightarrow> hitch_metrics \<Rightarrow> bool" where
  "budget_left session m \<longleftrightarrow> m_iterationsUsed m < s_maxIterations session
     \<and> m_reviewCyclesUsed m < s_maxReviewCycles session \<and> m_rerunsUsed m < s_maxReruns session"

lemma exceeded_None_iff:
  "hitchBudgetExceededReason session m = None \<longleftrightarrow> m_iterationsUsed m \<le> s_maxIterations session
     \<and> m_reviewCyclesUsed m \<le> s_maxReviewCycles session \<and> m_rerunsUsed m \<le> s_maxReruns session"
  by (auto simp: hitchBudgetExceededReason_def)

lemma limit_None_iff: "hitchBudgetLimitReason session m = None \<longleftrightarrow> budget_left session m"
  by (auto simp: hitchBudgetLimitReason_def budget_left_def)

lemma decideStops_None_iff:
  "decideStops db di = None \<longleftrightarrow> not_stopped (di_session di) (di_metrics di)"
  using exceeded_None_iff [of "di_session di" "di_metrics di"]
  by (cases "hitchBudgetExceededReason (di_session di) (di_metrics di)")
    (auto simp: decideStops_def not_stopped_def Let_def split: option.splits)

lemma terminalDecision_range:
  "terminalDecision st = Some d \<Longrightarrow> d \<in> {D_closed, D_cancel, D_budget_exhausted, D_escalate}"
  by (cases st) auto

lemma decideStops_range:
  "decideStops db di = Some r \<Longrightarrow> na_kind (r_nextAction r) = A_ask_human
     \<and> r_decision r \<in> {D_closed, D_cancel, D_budget_exhausted, D_escalate, D_diverging}"
  by (auto simp: decideStops_def Let_def split: option.splits if_splits dest: terminalDecision_range)

definition close_open :: "decide_input \<Rightarrow> bool" where
  "close_open di \<longleftrightarrow> di_allRequiredPassed di \<and> closeRequirementsSatisfied (di_session di) (di_metrics di)
     \<and> \<not> (p_deferOutOfScope (s_policy (di_session di)) \<and> m_openOutOfScope (di_metrics di) > 0)"

lemma decideClose_open:
  "close_open di \<Longrightarrow> \<exists>r. decideClose db di = Some r \<and> r_decision r = D_close_ready
     \<and> na_kind (r_nextAction r) = A_close_hitch"
  by (simp add: decideClose_def close_open_def Let_def)

lemma decideClose_range:
  assumes "\<not> close_open di" "decideClose db di = Some r"
  shows "r_decision r = D_budget_exhausted \<and> na_kind (r_nextAction r) = A_ask_human
     \<or> r_decision r = D_continue \<and> na_kind (r_nextAction r) = A_run_review
        \<and> m_reviewCyclesUsed (di_metrics di) < s_maxReviewCycles (di_session di)"
  using assms unfolding close_open_def decideClose_def Let_def
  by (simp split: if_splits option.splits) auto

lemma decideClose_None:
  "decideClose db di = None \<Longrightarrow> budget_left (di_session di) (di_metrics di)"
  unfolding decideClose_def Let_def by (simp split: if_splits option.splits add: limit_None_iff)

text \<open>A guarded return either returns here or falls through.\<close>

lemma guarded_SomeE:
  "(if b then Some x else y) = Some r \<Longrightarrow> (x = r \<Longrightarrow> P) \<Longrightarrow> (y = Some r \<Longrightarrow> P) \<Longrightarrow> P"
  by (cases b) auto

lemma guarded_all:
  "P x \<Longrightarrow> \<forall>r. y = Some r \<longrightarrow> P r \<Longrightarrow> \<forall>r. (if b then Some x else y) = Some r \<longrightarrow> P r"
  by (cases b) auto

lemma option_case_all:
  "\<forall>r. f = Some r \<longrightarrow> P r \<Longrightarrow> (\<And>x. \<forall>r. g x = Some r \<longrightarrow> P r) \<Longrightarrow>
   \<forall>r. (case opt of None \<Rightarrow> f | Some x \<Rightarrow> g x) = Some r \<longrightarrow> P r"
  by (cases opt) auto

lemma decideFindings_range:
  "decideFindings db di = Some r \<Longrightarrow>
   (r_decision r, na_kind (r_nextAction r)) \<in> {(D_needs_classification, A_classify_findings),
     (D_needs_fix, A_fix_findings), (D_needs_fix, A_run_close_check), (D_continue, A_defer_followups)}"
  unfolding decideFindings_def Let_def by (elim guarded_SomeE) (force | simp)+

lemma decideValidation_range:
  "let r = decideValidation db di in
   (r_decision r, na_kind (r_nextAction r)) \<in> {(D_continue, A_run_close_check),
     (D_needs_fix, A_fix_findings), (D_continue, A_ask_human)}
   \<or> r_decision r = D_continue \<and> na_kind (r_nextAction r) = A_run_review
     \<and> m_reviewCyclesUsed (di_metrics di) < s_maxReviewCycles (di_session di)"
  unfolding decideValidation_def Let_def by simp

lemmas stage_ranges = decideStops_range decideClose_range decideFindings_range

lemma decide_close_ready_iff:
  "r_decision (decide db di) = D_close_ready \<longleftrightarrow>
     not_stopped (di_session di) (di_metrics di) \<and> close_open di"
proof (cases "decideStops db di")
  case (Some r)
  then show ?thesis
    using decideStops_range [OF Some] decideStops_None_iff [of db di] by (auto simp: decide_def)
next
  case None
  then have ns: "not_stopped (di_session di) (di_metrics di)" by (simp add: decideStops_None_iff)
  show ?thesis
  proof (cases "close_open di")
    case True
    then show ?thesis using None ns decideClose_open [OF True, of db] by (auto simp: decide_def)
  next
    case False
    then show ?thesis
      using None decideClose_range [OF False, of db] decideFindings_range [of db di]
        decideValidation_range [of db di]
      by (auto simp: decide_def Let_def split: option.splits)
  qed
qed

text \<open>Every decision that sends work to a runner stays inside the budgets of the session.\<close>

lemma decide_work:
  assumes "r_decision (decide db di) \<in> {D_needs_fix, D_needs_classification, D_continue}"
  shows "not_stopped (di_session di) (di_metrics di) \<and>
    (na_kind (r_nextAction (decide db di)) = A_run_review
       \<and> m_reviewCyclesUsed (di_metrics di) < s_maxReviewCycles (di_session di)
     \<or> budget_left (di_session di) (di_metrics di))"
proof (cases "decideStops db di")
  case (Some r)
  then show ?thesis using decideStops_range [OF Some] assms by (auto simp: decide_def)
next
  case None
  then have ns: "not_stopped (di_session di) (di_metrics di)" by (simp add: decideStops_None_iff)
  show ?thesis
  proof (cases "decideClose db di")
    case (Some r)
    then have "\<not> close_open di" using decideClose_open [of di db] None assms by (auto simp: decide_def)
    then show ?thesis using decideClose_range [OF _ Some] None Some ns assms by (auto simp: decide_def)
  next
    case None
    then show ?thesis using decideClose_None [OF None] ns by simp
  qed
qed

section \<open>When a hitch is ready to close\<close>

abbreviation open_in_scope :: "hitch_db \<Rightarrow> string \<Rightarrow> hitch_finding_severity \<Rightarrow> nat" where
  "open_in_scope db h sv \<equiv> count_where db h (\<lambda>f. is_open f \<and> f_scopeStatus f = In_scope \<and> f_severity f = sv)"

abbreviation open_unknown :: "hitch_db \<Rightarrow> string \<Rightarrow> nat" where
  "open_unknown db h \<equiv> count_where db h (\<lambda>f. is_open f \<and> f_scopeStatus f = Unknown_scope)"

abbreviation unresolved_out_of_scope :: "hitch_db \<Rightarrow> string \<Rightarrow> nat" where
  "unresolved_out_of_scope db h \<equiv> count_where db h (\<lambda>f. f_scopeStatus f = Out_of_scope
     \<and> f_lifecycleStatus f \<in> set UNRESOLVED_OUT_OF_SCOPE_FINDING_LIFECYCLES)"

definition iterations_used :: "hitch_db \<Rightarrow> hitch_session \<Rightarrow> int" where
  "iterations_used db s = max (s_currentIteration s) (maxAttemptIteration (listAttempts db (s_hitchId s)))"

definition cycles_used :: "hitch_db \<Rightarrow> hitch_session \<Rightarrow> int" where
  "cycles_used db s = int (length (filter (\<lambda>c. c_hitchId c = s_hitchId s) (db_cycles db)))"

definition reruns_used :: "hitch_db \<Rightarrow> hitch_session \<Rightarrow> int" where
  "reruns_used db s = int (length (filter (\<lambda>a. a_hitchId a = s_hitchId s \<and> a_attemptType a = AT_rerun)
     (db_attempts db)))"

definition current_metrics ::
  "glob_matcher \<Rightarrow> transcript_decision \<Rightarrow> hitch_db \<Rightarrow> hitch_session \<Rightarrow> hitch_metrics" where
  "current_metrics mm td db s = di_metrics (decideInput mm td db [] s)"

lemma sort_key_length_filter: "length (filter P (sort_key k xs)) = length (filter P xs)"
  by (simp add: filter_sort)

lemma length_listReviewCycles: "int (length (listReviewCycles db (s_hitchId s))) = cycles_used db s"
  by (simp add: listReviewCycles_def cycles_used_def)

lemma length_reruns:
  "int (length (filter (\<lambda>a. a_attemptType a = AT_rerun) (listAttempts db (s_hitchId s)))) = reruns_used db s"
  unfolding listAttempts_def reruns_used_def sort_key_length_filter filter_filter
  by (simp add: conj_commute)

lemma decideInput_fields [simp]:
  "di_session (decideInput mm td db drifts s) = s"
  "di_metrics (decideInput mm td db drifts s) = current_metrics mm td db s"
  "di_allRequiredPassed (decideInput mm td db drifts s) =
     ce_allRequiredPassed (evaluateCloseConditions mm td (closeInput db s))"
  by (simp_all add: decideInput_def current_metrics_def Let_def)

lemma current_metrics_fields [simp]:
  "m_openInScopeP0 (current_metrics mm td db s) = int (open_in_scope db (s_hitchId s) P0)"
  "m_openInScopeP1 (current_metrics mm td db s) = int (open_in_scope db (s_hitchId s) P1)"
  "m_openInScopeP2 (current_metrics mm td db s) = int (open_in_scope db (s_hitchId s) P2)"
  "m_openUnknownScope (current_metrics mm td db s) = int (open_unknown db (s_hitchId s))"
  "m_openOutOfScope (current_metrics mm td db s) = int (unresolved_out_of_scope db (s_hitchId s))"
  "m_iterationsUsed (current_metrics mm td db s) = iterations_used db s"
  "m_reviewCyclesUsed (current_metrics mm td db s) = cycles_used db s"
  "m_rerunsUsed (current_metrics mm td db s) = reruns_used db s"
  unfolding current_metrics_def decideInput_def buildMetrics_def Let_def countFindingSummary_counts
  by (simp_all add: iterations_used_def length_listReviewCycles length_reruns)

text \<open>The session is live, inside its budgets, not diverging, and has no open in-scope P0 finding.\<close>

definition hitch_live :: "glob_matcher \<Rightarrow> transcript_decision \<Rightarrow> hitch_db \<Rightarrow> hitch_session \<Rightarrow> bool" where
  "hitch_live mm td db s \<longleftrightarrow>
     s_status s \<notin> {S_closed, S_cancelled, S_budget_exhausted, S_escalated}
     \<and> iterations_used db s \<le> s_maxIterations s \<and> cycles_used db s \<le> s_maxReviewCycles s
     \<and> reruns_used db s \<le> s_maxReruns s \<and> open_in_scope db (s_hitchId s) P0 = 0
     \<and> divergenceReason s (current_metrics mm td db s) = None"

definition policy_satisfied :: "hitch_db \<Rightarrow> hitch_session \<Rightarrow> bool" where
  "policy_satisfied db s \<longleftrightarrow>
     (let h = s_hitchId s; req = p_closeRequires (s_policy s)
      in (cr_noOpenInScopeP1 req \<longrightarrow> open_in_scope db h P1 = 0)
       \<and> (cr_noUnknownScope req \<longrightarrow> open_unknown db h = 0)
       \<and> (\<forall>n. cr_maxOpenInScopeP2 req = Some n \<longrightarrow> int (open_in_scope db h P2) \<le> n)
       \<and> (p_deferOutOfScope (s_policy s) \<longrightarrow> unresolved_out_of_scope db h = 0))"

lemma not_stopped_live: "not_stopped s (current_metrics mm td db s) \<longleftrightarrow> hitch_live mm td db s"
  unfolding not_stopped_def hitch_live_def current_metrics_fields
  by (cases "s_status s") auto

lemma close_open_iff:
  assumes "open_in_scope db (s_hitchId s) P0 = 0"
  shows "close_open (decideInput mm td db drifts s) \<longleftrightarrow>
    ce_allRequiredPassed (evaluateCloseConditions mm td (closeInput db s)) \<and> policy_satisfied db s"
  unfolding close_open_def closeRequirementsSatisfied_def policy_satisfied_def Let_def
    decideInput_fields current_metrics_fields
  using assms by (auto split: option.splits if_splits)

lemma closeInput_fields [simp]:
  "ci_conditions (closeInput db s) = s_closeConditions s"
  "ci_checks (closeInput db s) = listCloseChecks db (s_hitchId s)"
  "ci_evidenceRows (closeInput db s) = listEvidence db (s_hitchId s)"
  "ci_allowEmptyCloseConditions (closeInput db s) = p_allowEmptyCloseConditions (s_policy s)"
  by (simp_all add: closeInput_def Let_def)

lemma evidence_ids_distinct: "schema_inv db \<Longrightarrow> distinct (map e_evidenceId (listEvidence db h))"
  unfolding schema_inv_def keyed_def listEvidence_def
  by (simp add: distinct_map inj_on_def)

lemma evaluate_run:
  "evaluate mm td drifts h db = (case getHitchSession db h of
     None \<Rightarrow> (Inl (Hitch_not_found h), db)
   | Some s \<Rightarrow> (Inr (decide db (decideInput mm td db drifts s)), db))"
  by (simp add: evaluate_def requireHitchSession_def act_simps split: option.split)

lemma evaluate_readonly: "act_readonly (evaluate mm td drifts h)"
  by (simp add: act_readonly_def evaluate_run split: option.split)

text \<open>
  C1: on a well-formed database the controller reports \<open>close_ready\<close> for an existing session exactly
  when the session is live and inside its budgets, no in-scope P0 finding is open, the findings meet
  the close policy, and every required close condition is met by evidence fresh with respect to the
  latest mutation.
\<close>

theorem evaluate_close_ready_iff:
  assumes "schema_inv db" "getHitchSession db h = Some s"
  shows "(\<exists>r. evaluate mm td drifts h db = (Inr r, db) \<and> r_decision r = D_close_ready) \<longleftrightarrow>
    hitch_live mm td db s \<and> policy_satisfied db s
    \<and> (s_closeConditions s \<noteq> [] \<or> p_allowEmptyCloseConditions (s_policy s))
    \<and> (\<forall>c \<in> set (s_closeConditions s). cc_required c \<longrightarrow> close_condition_met mm td (closeInput db s) c)"
proof -
  have gate: "ce_allRequiredPassed (evaluateCloseConditions mm td (closeInput db s)) \<longleftrightarrow>
      (s_closeConditions s \<noteq> [] \<or> p_allowEmptyCloseConditions (s_policy s))
      \<and> (\<forall>c \<in> set (s_closeConditions s). cc_required c \<longrightarrow> close_condition_met mm td (closeInput db s) c)"
    using evaluateCloseCondition_passed_iff [of "closeInput db s" mm td] evidence_ids_distinct [OF assms(1)]
    by (simp add: allRequiredPassed_iff)
  have "open_in_scope db (s_hitchId s) P0 = 0" if "hitch_live mm td db s"
    using that by (simp add: hitch_live_def)
  then show ?thesis
    using gate assms(2) close_open_iff [of db s mm td drifts]
    by (auto simp: evaluate_run decide_close_ready_iff not_stopped_live)
qed

definition ex_attempt :: "string \<Rightarrow> hitch_attempt_type \<Rightarrow> int \<Rightarrow> hitch_attempt_status \<Rightarrow> timestamp \<Rightarrow> hitch_attempt" where
  "ex_attempt aid kind it st t = \<lparr>a_attemptId = aid, a_hitchId = ''h1'', a_iteration = it,
     a_attemptType = kind, a_status = st, a_operationId = None, a_runId = Some ''r1'', a_parentAttemptId = None,
     a_input = [], a_result = [], a_errorMessage = None, a_startedAt = Some t, a_completedAt = Some t,
     a_createdAt = t\<rparr>"

text \<open>One coder run, one review of it, and the tests recorded as passed at \<open>t\<close>.\<close>

definition ex_ready :: hitch_session where
  "ex_ready = ex_session\<lparr>s_closeConditions := [ex_tests]\<rparr>"

definition ex_ready_db :: "timestamp \<Rightarrow> hitch_db" where
  "ex_ready_db t = (ex_db ex_ready)\<lparr>db_attempts := [ex_attempt ''a1'' AT_implement 1 AS_succeeded ''t1''],
     db_cycles := [ex_cycle ''c1'' 1], db_closeChecks := [ex_check ''k1'' ''tests'' K_passed t]\<rparr>"

theorem evaluate_close_ready_iff_witness:
  "schema_inv (ex_ready_db ''t7'') \<and> getHitchSession (ex_ready_db ''t7'') ''h1'' = Some ex_ready \<and>
   policy_satisfied (ex_ready_db ''t7'') ex_ready \<and>
   close_condition_met (=) (\<lambda>_. RD_none) (closeInput (ex_ready_db ''t7'') ex_ready) ex_tests"
proof -
  have inv: "schema_inv (ex_ready_db ''t7'')" and
    get: "getHitchSession (ex_ready_db ''t7'') ''h1'' = Some ex_ready" by code_simp+
  have "r_decision (decide (ex_ready_db ''t7'') (decideInput (=) (\<lambda>_. RD_none) (ex_ready_db ''t7'') [] ex_ready))
      = D_close_ready" by code_simp
  then show ?thesis
    using evaluate_close_ready_iff [OF inv get, of "(=)" "\<lambda>_. RD_none" "[]"] inv get
    by (simp add: evaluate_run ex_ready_def ex_tests_def ex_condition_def)
qed

section \<open>Freshness of the evidence behind a close\<close>

interpretation stamps: strict_weak_order newer_timestamp
  by unfold_locales (auto simp: newer_timestamp_def)

text \<open>The timestamps that invalidate earlier evidence, read off the tables.\<close>

definition mutated_at :: "hitch_db \<Rightarrow> string \<Rightarrow> timestamp \<Rightarrow> bool" where
  "mutated_at db h t \<longleftrightarrow>
     (\<exists>a \<in> set (db_attempts db). a_hitchId a = h \<and> a_attemptType a \<noteq> AT_close_check
        \<and> t = or_else (a_completedAt a) (or_else (a_startedAt a) (a_createdAt a)))
     \<or> (\<exists>c \<in> set (db_cycles db). c_hitchId c = h \<and> t = or_else (c_completedAt c) (c_createdAt c))
     \<or> (\<exists>f \<in> set (db_findings db). f_hitchId f = h
          \<and> (t = f_lastSeenAt f \<or> f_fixedAt f = Some t \<or> f_deferredAt f = Some t \<or> f_escalatedAt f = Some t))"

lemma max_opt_ge: "t \<in> set xs \<Longrightarrow> \<exists>m. max_opt xs = Some m \<and> t \<le> m"
  by (auto simp: max_opt_def)

lemma finding_mutation_le:
  assumes "f \<in> set (db_findings db)" "f_hitchId f = h"
    "t = f_lastSeenAt f \<or> f_fixedAt f = Some t \<or> f_deferredAt f = Some t \<or> f_escalatedAt f = Some t"
  shows "\<exists>m. latestFindingMutationAt db h = Some m \<and> t \<le> m"
  unfolding latestFindingMutationAt_def Let_def
  by (rule max_opt_ge) (use assms in \<open>auto simp: set_map_filter\<close>)

lemma mutated_at_dominated:
  assumes "mutated_at db h t"
  shows "\<exists>t' \<in> set (mutation_timestamps (listAttempts db h) (latestFindingMutationAt db h)
      (listReviewCycles db h)). t \<le> t'"
  using assms unfolding mutated_at_def mutation_timestamps_def
  by (elim disjE bexE conjE)
    (force simp: listAttempts_def listReviewCycles_def dest: finding_mutation_le)+

lemma freshAfter_bound:
  assumes "mutated_at db (s_hitchId s) t"
  shows "\<exists>fa. ci_freshAfter (closeInput db s) = Some fa \<and> t \<le> fa"
proof -
  let ?xs = "mutation_timestamps (listAttempts db (s_hitchId s)) (latestFindingMutationAt db (s_hitchId s))
      (listReviewCycles db (s_hitchId s))"
  obtain t' where t': "t' \<in> set ?xs" "t \<le> t'" using mutated_at_dominated [OF assms] by blast
  then have "?xs \<noteq> []" by auto
  from stamps.newest_exists [OF this] obtain fa where "newest newer_timestamp ?xs = Some fa" by blast
  moreover from stamps.newest_max [OF this t'(1)] have "t' \<le> fa" by (simp add: newer_timestamp_def not_less)
  ultimately show ?thesis using t'(2)
    by (auto simp: closeInput_def Let_def lastCloseCheckInvalidatingMutationAt_def)
qed

text \<open>
  C4: a hitch that is ready to close rests on evidence newer than its work. Every required condition
  decided by a recorded check has a passed check in the database that is not older than any attempt of the hitch other than a
  close-check attempt (checking does not invalidate what was checked), any review cycle or any finding mutation, and no newer check
  of that condition exists.
\<close>

theorem close_ready_on_fresh_checks:
  assumes "schema_inv db" "getHitchSession db h = Some s"
    and "evaluate mm td drifts h db = (Inr r, db)" "r_decision r = D_close_ready"
    and "c \<in> set (s_closeConditions s)" "cc_required c"
    and "cc_kind c \<in> {CK_command, CK_manual, CK_operation_status, CK_db_doctor, CK_artifact_exists}"
  shows "\<exists>chk \<in> set (db_closeChecks db). k_hitchId chk = s_hitchId s \<and> k_conditionId chk = cc_id c
    \<and> k_status chk = K_passed \<and> (\<forall>t. mutated_at db (s_hitchId s) t \<longrightarrow> t \<le> k_checkedAt chk)
    \<and> (\<forall>k \<in> set (db_closeChecks db). k_hitchId k = s_hitchId s \<and> k_conditionId k = cc_id c
         \<longrightarrow> \<not> newer_check k chk)"
proof -
  let ?inp = "closeInput db s"
  have "ce_allRequiredPassed (evaluateCloseConditions mm td ?inp)"
    using assms(2-4) by (auto simp: evaluate_run decide_close_ready_iff close_open_def)
  then have "close_condition_met mm td ?inp c"
    using assms(5,6) evidence_ids_distinct [OF assms(1), of "s_hitchId s"]
    by (simp add: allRequiredPassed_iff evaluateCloseCondition_passed_iff)
  then have "recorded_pass ?inp (cc_id c)"
    using assms(7) by (auto simp: close_condition_met_def)
  then obtain chk where chk: "latestCloseChecksByCondition (listCloseChecks db (s_hitchId s)) (cc_id c) = Some chk"
      "is_fresh (ci_freshAfter ?inp) (k_checkedAt chk)" "k_status chk = K_passed"
    by (auto simp: recorded_pass_def)
  have "t \<le> k_checkedAt chk" if "mutated_at db (s_hitchId s) t" for t
    using freshAfter_bound [OF that] chk(2) by (auto simp: is_fresh_def)
  then show ?thesis
    using latest_SomeD [OF chk(1)] chk(3) by (auto simp: listCloseChecks_def)
qed

theorem close_ready_on_fresh_checks_witness:
  "\<exists>chk \<in> set (db_closeChecks (ex_ready_db ''t7'')). k_status chk = K_passed
     \<and> (\<forall>t. mutated_at (ex_ready_db ''t7'') ''h1'' t \<longrightarrow> t \<le> k_checkedAt chk)"
proof -
  let ?db = "ex_ready_db ''t7''"
  let ?r = "decide ?db (decideInput (=) (\<lambda>_. RD_none) ?db [] ex_ready)"
  have inv: "schema_inv ?db" and get: "getHitchSession ?db ''h1'' = Some ex_ready" by code_simp+
  have dec: "r_decision ?r = D_close_ready" by code_simp
  have run: "evaluate (=) (\<lambda>_. RD_none) [] ''h1'' ?db = (Inr ?r, ?db)" by (simp add: evaluate_run get)
  from close_ready_on_fresh_checks [OF inv get run dec, of ex_tests] show ?thesis
    by (auto simp: ex_ready_def ex_tests_def ex_condition_def ex_session_def)
qed

section \<open>Recovery from divergence\<close>

text \<open>The triggers of divergence that no session budget can clear.\<close>

definition structural_divergence :: "hitch_divergence_policy \<Rightarrow> hitch_metrics \<Rightarrow> string option" where
  "structural_divergence policy metrics =
     (if m_harnessOriginNewFindingsThisCycle metrics > dv_maxNewFindingsPerCycle policy
      then Some ''new findings in current cycle exceeded policy budget''
      else if m_harnessOriginMaxReopenCount metrics > dv_maxReopenedPerFinding policy
      then Some ''a finding reopened too many times''
      else if non_decreasing (dv_requireNewFindingsDecreaseAfterCycle policy)
                (m_harnessOriginNewFindingsByCycle metrics)
      then Some ''new findings did not decrease across review cycles''
      else None)"

text \<open>
  C9: raising the session budget to \<open>b\<close> clears the recoverable trigger exactly when \<open>b\<close> covers the
  findings counted so far, and leaves the other triggers untouched. In particular the policy total
  never fires on its own: the branch that reports it is dead.
\<close>

theorem divergence_recovery:
  "divergenceReasonForBudget session metrics b =
     (if m_harnessOriginNewFindings metrics > b then Some RECOVERABLE_DIVERGENCE_REASON
      else structural_divergence (p_divergence (s_policy session)) metrics)"
  by (simp add: divergenceReasonForBudget_def divergenceReason_def structural_divergence_def
      RECOVERABLE_DIVERGENCE_REASON_def Let_def)

end
