(* ===== verification/Convergence_Status.thy ===== *)
theory Convergence_Status
  imports Convergence
begin

text \<open>
  What follows from a decision: the status written back to the session
  (\<open>src/hitch/convergence-status.ts\<close>), the gate every mutation linked to a hitch must pass
  (\<open>src/hitch/mutation-gate.ts\<close>), the guard of the classify-then-rerun chain
  (\<open>src/hitch/classify-rerun.ts\<close>) and the action of the orchestrator
  (\<open>src/hitch/orchestrator-dispatch.ts\<close>). Clock readings and fresh ids are arguments.
\<close>

section \<open>Decision and status\<close>

definition has_severity_audit :: "hitch_next_action option \<Rightarrow> bool" where
  "has_severity_audit action =
     (case Option.bind action na_decisionPacket of
        None \<Rightarrow> False | Some packet \<Rightarrow> ''severity_audit'' \<in> set (dp_decisionKinds packet))"

definition isAdvisorySeverityRecord :: "hitch_decision_record \<Rightarrow> bool" where
  "isAdvisorySeverityRecord d =
     (if dr_advisory d then True
      else if dr_decision d \<noteq> D_continue then False
      else has_severity_audit (dr_nextAction d))"

fun statusForConvergenceDecision :: "hitch_convergence_decision \<Rightarrow> hitch_status option" where
  "statusForConvergenceDecision D_close_ready = Some S_close_ready"
| "statusForConvergenceDecision D_diverging = Some S_diverging"
| "statusForConvergenceDecision D_budget_exhausted = Some S_budget_exhausted"
| "statusForConvergenceDecision D_escalate = Some S_escalated"
| "statusForConvergenceDecision _ = None"

definition syncHitchStatusForConvergence ::
  "hitch_convergence_result \<Rightarrow> string \<Rightarrow> timestamp \<Rightarrow> string \<Rightarrow> hitch_session option hitch_act" where
  "syncHitchStatusForConvergence result createdBy now eid =
     act_bind (requireHitchSession (r_hitchId result)) (\<lambda>current.
       if s_status current = S_closed \<or> s_status current = S_cancelled then act_return (Some current)
       else (case statusForConvergenceDecision (r_decision result) of
           Some status \<Rightarrow>
             if s_status current = status then act_return (Some current)
             else act_bind (updateStatus (r_hitchId result) status (Some (r_reason result)) createdBy now eid)
               (\<lambda>s. act_return (Some s))
         | None \<Rightarrow>
             if (s_status current = S_close_ready \<or> s_status current = S_diverging)
                \<and> r_decision result \<noteq> D_closed \<and> r_decision result \<noteq> D_cancel
             then act_bind (updateStatus (r_hitchId result) S_in_progress (Some (r_reason result)) createdBy now eid)
               (\<lambda>s. act_return (Some s))
             else act_return None))"

record record_convergence_input =
  rc_hitchId :: string
  rc_cycleId :: "string option"
  rc_attemptId :: "string option"
  rc_decision :: hitch_convergence_decision
  rc_reason :: string
  rc_metrics :: hitch_metrics
  rc_nextAction :: "hitch_next_action option"
  rc_createdBy :: string
  rc_createdAt :: "timestamp option"
  rc_updateStatus :: bool
  rc_advisory :: bool

text \<open>\<open>did\<close> and \<open>eid\<close> are the fresh ids, \<open>t1\<close> and \<open>t2\<close> the clock at the two writes.\<close>

definition decision_row :: "record_convergence_input \<Rightarrow> string \<Rightarrow> timestamp \<Rightarrow> hitch_decision_record" where
  "decision_row inp did t1 = \<lparr>dr_decisionId = did, dr_hitchId = rc_hitchId inp, dr_cycleId = rc_cycleId inp,
     dr_attemptId = rc_attemptId inp, dr_decision = rc_decision inp, dr_reason = rc_reason inp,
     dr_metrics = rc_metrics inp, dr_advisory = rc_advisory inp, dr_nextAction = rc_nextAction inp,
     dr_createdAt = or_else (rc_createdAt inp) t1, dr_createdBy = rc_createdBy inp\<rparr>"

definition recordConvergenceDecisionWithStatus ::
  "record_convergence_input \<Rightarrow> string \<Rightarrow> string \<Rightarrow> timestamp \<Rightarrow> timestamp
     \<Rightarrow> (hitch_decision_record \<times> hitch_session option) hitch_act" where
  "recordConvergenceDecisionWithStatus inp did eid t1 t2 =
     act_bind (recordConvergenceDecision (decision_row inp did t1)) (\<lambda>decisionRecord.
     act_bind
       (if \<not> rc_updateStatus inp then act_return None
        else syncHitchStatusForConvergence
          \<lparr>r_hitchId = rc_hitchId inp, r_decision = rc_decision inp, r_reason = rc_reason inp,
           r_metrics = rc_metrics inp,
           r_nextAction = or_else (rc_nextAction inp) (next_action A_ask_human None (rc_reason inp))\<rparr>
          (rc_createdBy inp) (or_else (rc_createdAt inp) t2) eid)
       (\<lambda>hitchStatus. act_return (decisionRecord, hitchStatus)))"

definition evaluateConvergenceAndRecordStatus ::
  "glob_matcher \<Rightarrow> transcript_decision \<Rightarrow> spec_drift list \<Rightarrow> string \<Rightarrow> string \<Rightarrow> string option \<Rightarrow> string option
     \<Rightarrow> string \<Rightarrow> string \<Rightarrow> timestamp \<Rightarrow> timestamp
     \<Rightarrow> (hitch_convergence_result \<times> hitch_decision_record \<times> hitch_session option) hitch_act" where
  "evaluateConvergenceAndRecordStatus mm td drifts hitchId createdBy cycleId attemptId did eid t1 t2 =
     act_bind (evaluate mm td drifts hitchId) (\<lambda>convergence.
     act_bind (recordConvergenceDecisionWithStatus
         \<lparr>rc_hitchId = hitchId, rc_cycleId = cycleId, rc_attemptId = attemptId,
          rc_decision = r_decision convergence, rc_reason = r_reason convergence,
          rc_metrics = r_metrics convergence, rc_nextAction = Some (r_nextAction convergence),
          rc_createdBy = createdBy, rc_createdAt = None, rc_updateStatus = True, rc_advisory = False\<rparr>
         did eid t1 t2)
       (\<lambda>recorded. act_return (convergence, recorded)))"

section \<open>The mutation gate\<close>

datatype hitch_linked_mutation_kind = M_run_start | M_review_auto | M_rerun_start | M_review_process
  | M_hitch_orchestrate

fun mutation_kind_str :: "hitch_linked_mutation_kind \<Rightarrow> string" where
  "mutation_kind_str M_run_start = ''run.start''"
| "mutation_kind_str M_review_auto = ''review.auto''"
| "mutation_kind_str M_rerun_start = ''rerun.start''"
| "mutation_kind_str M_review_process = ''review.process''"
| "mutation_kind_str M_hitch_orchestrate = ''hitch.orchestrate''"

fun js_replace_first :: "char \<Rightarrow> string \<Rightarrow> string \<Rightarrow> string" where
  "js_replace_first c by [] = []"
| "js_replace_first c by (x # xs) = (if x = c then by @ xs else x # js_replace_first c by xs)"

record gate_denied =
  gd_code :: string
  gd_message :: string
  gd_convergence :: "hitch_convergence_result option"

datatype gate_result = Gate_allowed hitch_convergence_result | Gate_denied gate_denied

definition allowedByConvergence :: "hitch_linked_mutation_kind \<Rightarrow> hitch_convergence_result \<Rightarrow> bool" where
  "allowedByConvergence mutationKind convergence =
     (let action = na_kind (r_nextAction convergence); decision = r_decision convergence
      in if mutationKind = M_hitch_orchestrate then
           decision = D_needs_fix \<and> (action = A_fix_findings \<or> action = A_run_close_check)
           \<or> decision = D_continue \<and> (action = A_run_review \<or> action = A_run_close_check)
         else if decision = D_needs_fix then
           (if action = A_fix_findings \<or> action = A_run_close_check
            then mutationKind = M_run_start \<or> mutationKind = M_rerun_start else False)
         else if decision = D_continue \<and> action = A_run_review then
           mutationKind = M_review_auto \<or> mutationKind = M_review_process
         else False)"

definition gateCode :: "hitch_convergence_result \<Rightarrow> hitch_linked_mutation_kind \<Rightarrow> string" where
  "gateCode convergence mutationKind =
     (case r_decision convergence of
        D_budget_exhausted \<Rightarrow> ''hitch_budget_exhausted''
      | D_diverging \<Rightarrow> ''hitch_diverging''
      | D_escalate \<Rightarrow> ''hitch_escalated''
      | D_needs_classification \<Rightarrow> ''hitch_needs_classification''
      | D_close_ready \<Rightarrow> ''hitch_close_ready''
      | D_closed \<Rightarrow> ''hitch_closed''
      | D_cancel \<Rightarrow> ''hitch_cancelled''
      | D_continue \<Rightarrow> ''hitch_next_action_'' @ next_action_kind_str (na_kind (r_nextAction convergence))
      | D_needs_fix \<Rightarrow> ''hitch_needs_fix_'' @ next_action_kind_str (na_kind (r_nextAction convergence))
          @ ''_disallows_'' @ js_replace_first (CHR ''.'') ''_'' (mutation_kind_str mutationKind))"

definition evaluateHitchMutationGate ::
  "glob_matcher \<Rightarrow> transcript_decision \<Rightarrow> spec_drift list \<Rightarrow> string \<Rightarrow> hitch_linked_mutation_kind \<Rightarrow> bool
     \<Rightarrow> string option \<Rightarrow> timestamp \<Rightarrow> string \<Rightarrow> gate_result hitch_act" where
  "evaluateHitchMutationGate mm td drifts hitchId mutationKind syncStatus syncCreatedBy now eid =
     act_bind (act_get (\<lambda>db. getHitchSession db hitchId)) (\<lambda>session.
       if session = None then act_return (Gate_denied \<lparr>gd_code = ''hitch_not_found'',
         gd_message = ''hitch '' @ hitchId @ '' not found'', gd_convergence = None\<rparr>)
       else act_bind (evaluate mm td drifts hitchId) (\<lambda>convergence.
         act_bind (if syncStatus
             then act_bind (syncHitchStatusForConvergence convergence (or_else syncCreatedBy ''harness'') now eid)
                    (\<lambda>_. act_return ())
             else act_return ()) (\<lambda>_.
         act_return
           (if allowedByConvergence mutationKind convergence then Gate_allowed convergence
            else Gate_denied \<lparr>gd_code = gateCode convergence mutationKind,
              gd_message = ''hitch '' @ hitchId @ '' blocks '' @ mutation_kind_str mutationKind @ '': decision=''
                @ decision_str (r_decision convergence) @ '' ('' @ r_reason convergence @ '')'',
              gd_convergence = Some convergence\<rparr>))))"

datatype gate_error = Gate_store_error hitch_error | Hitch_mutation_gate_error gate_denied

definition assertHitchCanStartMutation ::
  "glob_matcher \<Rightarrow> transcript_decision \<Rightarrow> spec_drift list \<Rightarrow> string \<Rightarrow> hitch_linked_mutation_kind
     \<Rightarrow> string option \<Rightarrow> timestamp \<Rightarrow> string \<Rightarrow> (hitch_db, gate_error, hitch_convergence_result) act" where
  "assertHitchCanStartMutation mm td drifts hitchId mutationKind syncCreatedBy now eid db =
     (case evaluateHitchMutationGate mm td drifts hitchId mutationKind True syncCreatedBy now eid db of
        (Inl e, db') \<Rightarrow> (Inl (Gate_store_error e), db')
      | (Inr (Gate_allowed c), db') \<Rightarrow> (Inr c, db')
      | (Inr (Gate_denied d), db') \<Rightarrow> (Inl (Hitch_mutation_gate_error d), db'))"

section \<open>The classify-then-rerun chain and the dispatcher\<close>

datatype chain_decision = Chain | Skip_not_requested | Skip_not_needs_fix

definition classifyChainDecision :: "bool \<Rightarrow> hitch_convergence_decision \<Rightarrow> chain_decision" where
  "classifyChainDecision thenRerun decisionAfter =
     (if \<not> thenRerun then Skip_not_requested
      else if decisionAfter \<noteq> D_needs_fix then Skip_not_needs_fix
      else Chain)"

datatype stop_outcome = Stop_closed | Stop_cancelled

datatype orchestrator_action = OA_coder | OA_review | OA_close_check | OA_classify | OA_defer
  | OA_wait string | OA_close_and_pr | OA_stop stop_outcome | OA_escalate string

definition decideOrchestratorAction :: "hitch_convergence_result \<Rightarrow> orchestrator_action" where
  "decideOrchestratorAction convergence =
     (let action = na_kind (r_nextAction convergence)
      in case r_decision convergence of
           D_needs_fix \<Rightarrow>
             if action = A_fix_findings \<or> action = A_run_close_check then OA_coder
             else OA_escalate (''needs_fix with unsupported action '' @ next_action_kind_str action)
         | D_continue \<Rightarrow>
             if action = A_run_review then OA_review
             else if action = A_run_close_check then OA_close_check
             else if action = A_defer_followups then OA_defer
             else if action = A_ask_human then OA_wait (na_message (r_nextAction convergence))
             else OA_escalate (''continue with unsupported action '' @ next_action_kind_str action)
         | D_needs_classification \<Rightarrow> OA_classify
         | D_close_ready \<Rightarrow> OA_close_and_pr
         | D_closed \<Rightarrow> OA_stop Stop_closed
         | D_cancel \<Rightarrow> OA_stop Stop_cancelled
         | d \<Rightarrow> OA_escalate (decision_str d))"

section \<open>Gate and dispatcher agree\<close>

text \<open>
  C7: the dispatcher of the orchestrator and the mutation gate permit the same work. The coder is
  dispatched exactly when a run or rerun may start, the reviewer exactly when a review may, and the
  bounded driver may be entered exactly when the dispatcher picks the coder, the reviewer or a close
  check.
\<close>

theorem dispatch_matches_gate:
  "(decideOrchestratorAction r = OA_coder \<longleftrightarrow> allowedByConvergence M_run_start r)
   \<and> (decideOrchestratorAction r = OA_coder \<longleftrightarrow> allowedByConvergence M_rerun_start r)
   \<and> (decideOrchestratorAction r = OA_review \<longleftrightarrow> allowedByConvergence M_review_auto r)
   \<and> (decideOrchestratorAction r = OA_review \<longleftrightarrow> allowedByConvergence M_review_process r)
   \<and> (decideOrchestratorAction r \<in> {OA_coder, OA_review, OA_close_check}
       \<longleftrightarrow> allowedByConvergence M_hitch_orchestrate r)"
  unfolding decideOrchestratorAction_def allowedByConvergence_def Let_def
  by (intro conjI; cases "r_decision r"; simp)

definition supported :: "hitch_convergence_result \<Rightarrow> bool" where
  "supported r \<longleftrightarrow> na_kind (r_nextAction r) \<in> (case r_decision r of
     D_close_ready \<Rightarrow> {A_close_hitch}
   | D_needs_classification \<Rightarrow> {A_classify_findings}
   | D_needs_fix \<Rightarrow> {A_fix_findings, A_run_close_check}
   | D_continue \<Rightarrow> {A_run_review, A_run_close_check, A_defer_followups, A_ask_human}
   | _ \<Rightarrow> {A_ask_human})"

lemma decide_supported: "supported (decide db di)"
proof -
  have "decideStops db di = Some r \<Longrightarrow> supported r" for r
    by (drule decideStops_range) (auto simp: supported_def)
  moreover have "decideClose db di = Some r \<Longrightarrow> supported r" for r
    using decideClose_open [of di db] decideClose_range [of di db r]
    by (cases "close_open di") (auto simp: supported_def)
  moreover have "decideFindings db di = Some r \<Longrightarrow> supported r" for r
    by (drule decideFindings_range) (auto simp: supported_def)
  moreover have "supported (decideValidation db di)"
    using decideValidation_range [of db di] by (auto simp: supported_def Let_def)
  ultimately show ?thesis by (simp add: decide_def split: option.split)
qed

text \<open>
  the dispatcher never meets a decision it does not support: what the controller returns is
  escalated only when the controller itself stopped on divergence, budget or escalation.
\<close>

theorem dispatch_total:
  "decideOrchestratorAction (decide db di) = OA_escalate reason \<longleftrightarrow>
     r_decision (decide db di) \<in> {D_diverging, D_budget_exhausted, D_escalate}
     \<and> reason = decision_str (r_decision (decide db di))"
  using decide_supported [of db di] unfolding decideOrchestratorAction_def supported_def Let_def
  by (cases "r_decision (decide db di)") auto

section \<open>The mutation gate is sound\<close>

lemma pred_if: "P x \<Longrightarrow> P y \<Longrightarrow> P (if b then x else y)"
  by simp

lemma stage_hitchId:
  "\<forall>r. decideStops db di = Some r \<longrightarrow> r_hitchId r = s_hitchId (di_session di)"
  "\<forall>r. decideClose db di = Some r \<longrightarrow> r_hitchId r = s_hitchId (di_session di)"
  "\<forall>r. decideFindings db di = Some r \<longrightarrow> r_hitchId r = s_hitchId (di_session di)"
  unfolding decideStops_def decideClose_def decideFindings_def Let_def
  by (intro option_case_all guarded_all; simp only: result_fields option.simps option.inject
      HOL.simp_thms all_simps)+

lemma decide_hitchId [simp]: "r_hitchId (decide db di) = s_hitchId (di_session di)"
proof -
  have "r_hitchId (decideValidation db di) = s_hitchId (di_session di)"
    unfolding decideValidation_def Let_def
    by (intro pred_if [where P = "\<lambda>r. r_hitchId r = s_hitchId (di_session di)"]) (rule result_fields)+
  then show ?thesis
    using stage_hitchId [of db di] unfolding decide_def
    by (cases "decideStops db di"; cases "decideClose db di"; cases "decideFindings db di"; simp only: option.simps)
qed

lemma gate_allowed_decide:
  assumes "evaluateHitchMutationGate mm td drifts h kind sync by t eid db = (Inr (Gate_allowed c), db')"
    and "getHitchSession db h = Some s"
  shows "c = decide db (decideInput mm td db drifts s) \<and> allowedByConvergence kind c"
  using assms unfolding evaluateHitchMutationGate_def
  by (auto simp: act_bind_def act_get_def act_return_def evaluate_run split: if_splits prod.splits sum.splits)

lemma allowed_is_work:
  "allowedByConvergence kind c \<Longrightarrow> r_decision c \<in> {D_needs_fix, D_continue}
     \<and> (kind \<in> {M_run_start, M_rerun_start} \<longrightarrow> na_kind (r_nextAction c) \<noteq> A_run_review)
     \<and> (kind \<in> {M_review_auto, M_review_process} \<longrightarrow> na_kind (r_nextAction c) = A_run_review)"
  by (auto simp: allowedByConvergence_def Let_def split: if_splits)

text \<open>
  C3: a mutation linked to a hitch is let through only when the session is live, no in-scope P0
  finding is open, the findings do not diverge and no budget is exceeded; a coder run or rerun further
  needs an unspent unit of every budget, a review an unspent review cycle.
\<close>

theorem mutation_gate_sound:
  assumes "getHitchSession db h = Some s"
    and "evaluateHitchMutationGate mm td drifts h kind sync by t eid db = (Inr (Gate_allowed c), db')"
  shows "hitch_live mm td db s \<and>
    (kind \<in> {M_run_start, M_rerun_start} \<longrightarrow> iterations_used db s < s_maxIterations s
       \<and> cycles_used db s < s_maxReviewCycles s \<and> reruns_used db s < s_maxReruns s) \<and>
    (kind \<in> {M_review_auto, M_review_process} \<longrightarrow> cycles_used db s < s_maxReviewCycles s)"
proof -
  let ?di = "decideInput mm td db drifts s"
  have c: "c = decide db ?di" and ok: "allowedByConvergence kind c"
    using gate_allowed_decide [OF assms(2,1)] by auto
  have work: "r_decision (decide db ?di) \<in> {D_needs_fix, D_needs_classification, D_continue}"
    using allowed_is_work [OF ok] c by auto
  from decide_work [OF this] show ?thesis
    using allowed_is_work [OF ok] c by (auto simp: not_stopped_live budget_left_def)
qed

theorem mutation_gate_sound_witness:
  "case evaluateHitchMutationGate (=) (\<lambda>_. RD_none) [] ''h1'' M_run_start True None ''t5'' ''e1''
       (ex_db ex_ready) of
     (Inr (Gate_allowed _), _) \<Rightarrow> iterations_used (ex_db ex_ready) ex_ready < s_maxIterations ex_ready
   | _ \<Rightarrow> False"
proof -
  have get: "getHitchSession (ex_db ex_ready) ''h1'' = Some ex_ready" by code_simp
  have "case evaluateHitchMutationGate (=) (\<lambda>_. RD_none) [] ''h1'' M_run_start True None ''t5'' ''e1''
       (ex_db ex_ready) of (Inr (Gate_allowed _), _) \<Rightarrow> True | _ \<Rightarrow> False"
    by code_simp
  then obtain c db' where run: "evaluateHitchMutationGate (=) (\<lambda>_. RD_none) [] ''h1'' M_run_start True None
      ''t5'' ''e1'' (ex_db ex_ready) = (Inr (Gate_allowed c), db')"
    by (auto split: prod.splits sum.splits gate_result.splits)
  from mutation_gate_sound [OF get run] run show ?thesis by simp
qed

end
