(* ===== verification/Control_Plane.thy ===== *)
theory Control_Plane
  imports Convergence_Status "HOL-Library.Sublist"
begin

text \<open>
  Properties of the control plane as a whole: how the stored status follows the decisions of the
  controller, and what holds in every database that the repository operations can reach.
\<close>

section \<open>The stored status follows the decision\<close>

text \<open>The status that a decision leaves on a session.\<close>

definition next_status :: "hitch_status \<Rightarrow> hitch_convergence_decision \<Rightarrow> hitch_status" where
  "next_status st d =
     (if st = S_closed \<or> st = S_cancelled then st
      else case statusForConvergenceDecision d of
        Some st' \<Rightarrow> st'
      | None \<Rightarrow> if (st = S_close_ready \<or> st = S_diverging) \<and> d \<noteq> D_closed \<and> d \<noteq> D_cancel
                then S_in_progress else st)"

lemma statusFor_range:
  "statusForConvergenceDecision d = Some st \<Longrightarrow> st \<in> {S_close_ready, S_diverging, S_budget_exhausted, S_escalated}"
  by (cases d) auto

lemma next_status_final: "next_status st d \<in> {S_closed, S_cancelled} \<longleftrightarrow> st \<in> {S_closed, S_cancelled}"
  by (auto simp: next_status_def split: option.splits dest: statusFor_range)

lemma sync_run:
  assumes "getHitchSession db (r_hitchId r) = Some s"
  shows "\<exists>res. syncHitchStatusForConvergence r by t eid db = (Inr res,
    if next_status (s_status s) (r_decision r) = s_status s then db
    else with_session (r_hitchId r) (status_row (next_status (s_status s) (r_decision r)) (Some (r_reason r)) t) db)"
proof (cases "statusForConvergenceDecision (r_decision r)")
  case None
  then show ?thesis
    using assms by (auto simp: syncHitchStatusForConvergence_def act_simps act_bind_def updateStatus_run next_status_def)
next
  case (Some st)
  then have "st \<noteq> S_closed" "st \<noteq> S_cancelled" by (auto dest: statusFor_range)
  with Some show ?thesis
    using assms by (auto simp: syncHitchStatusForConvergence_def act_simps act_bind_def updateStatus_run next_status_def)
qed

definition with_decision :: "hitch_decision_record \<Rightarrow> hitch_db \<Rightarrow> hitch_db" where
  "with_decision row db = with_session (dr_hitchId row) (\<lambda>s. s\<lparr>s_updatedAt := dr_createdAt row\<rparr>)
     (db\<lparr>db_decisions := db_decisions db @ [row]\<rparr>)"

lemma getHitchSession_decisions [simp]: "getHitchSession (db\<lparr>db_decisions := d\<rparr>) h = getHitchSession db h"
  by (simp add: getHitchSession_def)

lemma recordConvergenceDecision_run:
  assumes "getHitchSession db (dr_hitchId row) = Some s" "\<not> tbl_has dr_decisionId (dr_decisionId row) (db_decisions db)"
  shows "recordConvergenceDecision row db = (Inr row, with_decision row db)"
  using assms
  by (simp add: recordConvergenceDecision_def insert_decision_def touchHitchSession_def requireDecision_def
      getDecision_def act_simps session_exists_iff with_decision_def with_session_def tbl_get_insert_new)

subsection \<open>What a decision depends on\<close>

text \<open>Two databases with the same work, and two sessions with the same contract and budgets.\<close>

definition same_work :: "hitch_db \<Rightarrow> hitch_db \<Rightarrow> bool" where
  "same_work db db' \<longleftrightarrow> db_attempts db' = db_attempts db \<and> db_cycles db' = db_cycles db
     \<and> db_findings db' = db_findings db \<and> db_closeChecks db' = db_closeChecks db
     \<and> db_evidence db' = db_evidence db \<and> db_runs db' = db_runs db \<and> db_changedFiles db' = db_changedFiles db"

definition same_contract :: "hitch_session \<Rightarrow> hitch_session \<Rightarrow> bool" where
  "same_contract s s' \<longleftrightarrow> s_hitchId s' = s_hitchId s \<and> s_policy s' = s_policy s
     \<and> s_closeConditions s' = s_closeConditions s \<and> s_maxIterations s' = s_maxIterations s
     \<and> s_maxReviewCycles s' = s_maxReviewCycles s \<and> s_maxReruns s' = s_maxReruns s
     \<and> s_maxTotalNewFindings s' = s_maxTotalNewFindings s \<and> s_currentIteration s' = s_currentIteration s"

lemma same_work_reads:
  assumes "same_work db db'"
  shows "listAttempts db' = listAttempts db" "listReviewCycles db' = listReviewCycles db"
    "countFindingSummary db' = countFindingSummary db" "listCloseChecks db' = listCloseChecks db"
    "listEvidence db' = listEvidence db" "latestFindingMutationAt db' = latestFindingMutationAt db"
    "maxFindingReopenCount db' = maxFindingReopenCount db" "listFindings db' = listFindings db"
    "harnessOriginDivergenceMetrics db' = harnessOriginDivergenceMetrics db"
    "changedPathsForRun db' = changedPathsForRun db"
  using assms unfolding same_work_def fun_eq_iff listAttempts_def listReviewCycles_def countFindingSummary_def
    summary_rows_def listCloseChecks_def listEvidence_def latestFindingMutationAt_def maxFindingReopenCount_def
    listFindings_def harnessOriginDivergenceMetrics_def changedPathsForRun_def
  by (simp_all cong: if_cong)

lemma same_work_derived:
  assumes "same_work db db'"
  shows "latestCodingRunChangedPaths db' = latestCodingRunChangedPaths db" "openFindingIds db' = openFindingIds db"
    "unresolvedOutOfScopeFindingIds db' = unresolvedOutOfScopeFindingIds db"
  unfolding fun_eq_iff latestCodingRunChangedPaths_def newestCodingAttemptRunId_def openFindingIds_def
    unresolvedOutOfScopeFindingIds_def same_work_reads [OF assms] by simp_all

lemma same_contract_rules:
  assumes "same_contract s s'"
  shows "hitchBudgetExceededReason s' m = hitchBudgetExceededReason s m"
    "hitchBudgetLimitReason s' m = hitchBudgetLimitReason s m"
    "divergenceReason s' m = divergenceReason s m"
    "closeRequirementsSatisfied s' m = closeRequirementsSatisfied s m"
    "nonBlockingSuggestedFixSeverities s' m = nonBlockingSuggestedFixSeverities s m"
  using assms unfolding same_contract_def hitchBudgetExceededReason_def hitchBudgetLimitReason_def
    divergenceReason_def closeRequirementsSatisfied_def nonBlockingSuggestedFixSeverities_def
    effectiveMaxOpenInScopeP2_def by simp_all

lemma decideInput_cong:
  assumes "same_work db db'" "same_contract s s'"
  shows "decideInput mm td db' drifts s' = (decideInput mm td db drifts s)\<lparr>di_session := s'\<rparr>"
  using assms(2) unfolding decideInput_def closeInput_def buildMetrics_def same_work_reads [OF assms(1)]
    same_work_derived [OF assms(1)] same_contract_def by (simp add: Let_def)

lemma advisory_cong:
  assumes "same_work db db'" "same_contract s s'"
  shows "withNonBlockingSuggestedFixAdvisory db' s' m = withNonBlockingSuggestedFixAdvisory db s m"
  using assms(2) unfolding fun_eq_iff withNonBlockingSuggestedFixAdvisory_def nonBlockingSuggestedFixAdvisory_def
    same_work_reads [OF assms(1)] same_contract_rules [OF assms(2)] same_contract_def by simp

lemma decide_cong:
  assumes "same_work db db'" "same_contract (di_session di) s'"
    and "terminalDecision (s_status (di_session di)) = None" "terminalDecision (s_status s') = None"
  shows "decide db' (di\<lparr>di_session := s'\<rparr>) = decide db di"
proof -
  note [simp] = same_work_derived [OF assms(1)] same_contract_rules [OF assms(2)] advisory_cong [OF assms(1,2)]
  have [simp]: "s_hitchId s' = s_hitchId (di_session di)" "s_policy s' = s_policy (di_session di)"
    "s_maxReviewCycles s' = s_maxReviewCycles (di_session di)"
    using assms(2) by (simp_all add: same_contract_def)
  have "decideStops db' (di\<lparr>di_session := s'\<rparr>) = decideStops db di"
    unfolding decideStops_def Let_def by (simp add: assms(3,4) cong: option.case_cong if_cong)
  moreover have "decideClose db' (di\<lparr>di_session := s'\<rparr>) = decideClose db di"
    unfolding decideClose_def Let_def by (simp cong: option.case_cong if_cong)
  moreover have "decideFindings db' (di\<lparr>di_session := s'\<rparr>) = decideFindings db di"
    unfolding decideFindings_def Let_def by (simp cong: option.case_cong if_cong)
  moreover have "decideValidation db' (di\<lparr>di_session := s'\<rparr>) = decideValidation db di"
    unfolding decideValidation_def Let_def by (simp cong: option.case_cong if_cong)
  ultimately show ?thesis by (simp only: decide_def)
qed

lemma decide_terminal:
  "terminalDecision (s_status (di_session di)) = Some d \<Longrightarrow> r_decision (decide db di) = d"
  by (simp add: decide_def decideStops_def Let_def)

lemma decide_terminal_only:
  assumes "r_decision (decide db di) \<in> {D_closed, D_cancel}"
  shows "terminalDecision (s_status (di_session di)) = Some (r_decision (decide db di))"
proof (cases "terminalDecision (s_status (di_session di))")
  case None
  have "\<forall>r. decideStops db di = Some r \<longrightarrow> r_decision r \<notin> {D_closed, D_cancel}"
    unfolding decideStops_def Let_def None by (auto split: option.split)
  moreover have "r_decision (decide db di) \<notin> {D_closed, D_cancel}" if "decideStops db di = None"
    using that decide_supported [of db di] decideClose_range [of di db] decideClose_open [of di db]
      decideFindings_range [of db di] decideValidation_range [of db di]
    by (cases "close_open di"; cases "decideClose db di"; cases "decideFindings db di")
      (auto simp: decide_def Let_def)
  ultimately show ?thesis using assms by (cases "decideStops db di") (auto simp: decide_def)
qed (simp add: decide_terminal)

lemma next_status_terminal:
  "terminalDecision st = Some d \<Longrightarrow> next_status st d = st"
  by (cases st) (auto simp: next_status_def)

lemma redecide:
  assumes "same_work db db'" "same_contract s s'"
    and "s_status s' = next_status (s_status s) (r_decision (decide db (decideInput mm td db drifts s)))"
  shows "r_decision (decide db' (decideInput mm td db' drifts s')) = r_decision (decide db (decideInput mm td db drifts s))"
proof (cases "terminalDecision (s_status s)")
  case (Some d)
  then have "r_decision (decide db (decideInput mm td db drifts s)) = d" by (simp add: decide_terminal)
  with Some assms(3) show ?thesis by (simp add: decide_terminal next_status_terminal)
next
  case None
  note old = this
  show ?thesis
  proof (cases "terminalDecision (s_status s')")
    case None
    then show ?thesis
      using decide_cong [OF assms(1), of "decideInput mm td db drifts s" s'] assms(2) old
      by (simp add: decideInput_cong [OF assms(1,2)])
  next
    case (Some d)
    then have "r_decision (decide db (decideInput mm td db drifts s)) = d"
      using old assms(3) unfolding next_status_def
      by (cases "r_decision (decide db (decideInput mm td db drifts s))"; cases "s_status s") auto
    then show ?thesis using Some by (simp add: decide_terminal)
  qed
qed

lemma status_agrees:
  assumes "d = r_decision (decide db di)" "st = s_status (di_session di)"
  shows "(next_status st d = S_closed \<longleftrightarrow> d = D_closed) \<and> (next_status st d = S_cancelled \<longleftrightarrow> d = D_cancel)
    \<and> (next_status st d = S_close_ready \<longleftrightarrow> d = D_close_ready)
    \<and> (next_status st d = S_diverging \<longleftrightarrow> d = D_diverging)
    \<and> (next_status st d = S_budget_exhausted \<longleftrightarrow> d = D_budget_exhausted)
    \<and> (next_status st d = S_escalated \<longleftrightarrow> d = D_escalate)"
proof (cases "terminalDecision st")
  case (Some e)
  then have "d = e" using assms by (simp add: decide_terminal)
  with Some show ?thesis by (cases st) (auto simp: next_status_def)
next
  case None
  then have "d \<noteq> D_closed" "d \<noteq> D_cancel" using decide_terminal_only [of db di] assms by auto
  with None show ?thesis by (cases st; cases d) (simp_all add: next_status_def)
qed

lemma evaluateAndRecord_run:
  assumes "getHitchSession db h = Some s" "\<not> tbl_has dr_decisionId did (db_decisions db)"
  shows "\<exists>rec st db' s'. evaluateConvergenceAndRecordStatus mm td drifts h by cyc att did eid t1 t2 db
      = (Inr (decide db (decideInput mm td db drifts s), rec, st), db')
    \<and> db_decisions db' = db_decisions db @ [rec]
    \<and> dr_decision rec = r_decision (decide db (decideInput mm td db drifts s)) \<and> dr_hitchId rec = h
    \<and> same_work db db' \<and> getHitchSession db' h = Some s' \<and> same_contract s s'
    \<and> s_status s' = next_status (s_status s) (r_decision (decide db (decideInput mm td db drifts s)))"
proof -
  let ?r = "decide db (decideInput mm td db drifts s)"
  have h: "s_hitchId s = h" using assms(1) by (auto simp: getHitchSession_def dest: tbl_get_SomeD)
  define inp where "inp = \<lparr>rc_hitchId = h, rc_cycleId = cyc, rc_attemptId = att,
          rc_decision = r_decision ?r, rc_reason = r_reason ?r, rc_metrics = r_metrics ?r,
          rc_nextAction = Some (r_nextAction ?r),
          rc_createdBy = by, rc_createdAt = None, rc_updateStatus = True, rc_advisory = False\<rparr>"
  define row where "row = decision_row inp did t1"
  define res where "res = \<lparr>r_hitchId = h, r_decision = r_decision ?r, r_reason = r_reason ?r,
      r_metrics = r_metrics ?r, r_nextAction = r_nextAction ?r\<rparr>"
  have row: "dr_hitchId row = h" "dr_decisionId row = did" "dr_decision row = r_decision ?r"
    by (simp_all add: row_def decision_row_def inp_def)
  define db1 where "db1 = with_decision row db"
  have rec: "recordConvergenceDecision row db = (Inr row, db1)"
    using recordConvergenceDecision_run [of db row] assms row by (simp add: db1_def)
  have get1: "getHitchSession db1 (r_hitchId res) = Some (s\<lparr>s_updatedAt := dr_createdAt row\<rparr>)"
    using assms(1) by (simp add: db1_def with_decision_def row res_def)
  obtain st where sync: "syncHitchStatusForConvergence res by t2 eid db1 = (Inr st,
      if next_status (s_status s) (r_decision ?r) = s_status s then db1
      else with_session h (status_row (next_status (s_status s) (r_decision ?r)) (Some (r_reason ?r)) t2) db1)"
    using sync_run [OF get1, of "by" t2 eid] by (auto simp: res_def)
  define db' where "db' = snd (syncHitchStatusForConvergence res by t2 eid db1)"
  have sync': "syncHitchStatusForConvergence res by t2 eid db1 = (Inr st, db')"
    using sync by (simp only: db'_def snd_conv)
  have db': "db' = (if next_status (s_status s) (r_decision ?r) = s_status s then db1
      else with_session h (status_row (next_status (s_status s) (r_decision ?r)) (Some (r_reason ?r)) t2) db1)"
    unfolding db'_def sync snd_conv by (rule refl)
  have run: "evaluateConvergenceAndRecordStatus mm td drifts h by cyc att did eid t1 t2 db = (Inr (?r, row, st), db')"
    unfolding evaluateConvergenceAndRecordStatus_def recordConvergenceDecisionWithStatus_def
    by (simp only: act_bind_def evaluate_run assms(1) option.case prod.case sum.case inp_def [symmetric]
        row_def [symmetric] rec)
      (simp add: inp_def res_def [symmetric] or_else_def sync' act_return_def)
  have log: "db_decisions db' = db_decisions db @ [row]" and work: "same_work db db'"
    unfolding db' by (simp_all add: db1_def with_decision_def with_session_def same_work_def)
  have get1': "getHitchSession db1 h = Some (s\<lparr>s_updatedAt := dr_createdAt row\<rparr>)"
    using get1 by (simp add: res_def)
  have "\<exists>s'. getHitchSession db' h = Some s' \<and> same_contract s s'
      \<and> s_status s' = next_status (s_status s) (r_decision ?r)"
    unfolding db' by (simp add: get1' same_contract_def status_row_def)
  then obtain s' where s': "getHitchSession db' h = Some s'" "same_contract s s'"
      "s_status s' = next_status (s_status s) (r_decision ?r)" by (elim exE conjE)
  show ?thesis
    by (rule exI [of _ row], rule exI [of _ st], rule exI [of _ db'], rule exI [of _ s'])
      (simp only: run log work s' row simp_thms)
qed

text \<open>
  C13: evaluating a hitch and recording the decision always succeeds on an existing session, appends the
  decision to the log, and leaves the stored status in agreement with the decision: closed, cancelled,
  ready to close, diverging, out of budget and escalated exactly when the decision says so. The
  decision is stable: evaluating again right after recording it gives the same decision.
\<close>

theorem decision_recorded_and_stable:
  assumes "getHitchSession db h = Some s" "\<not> tbl_has dr_decisionId did (db_decisions db)"
  shows "\<exists>r rec st db' s' r'.
    evaluateConvergenceAndRecordStatus mm td drifts h by cyc att did eid t1 t2 db = (Inr (r, rec, st), db')
    \<and> db_decisions db' = db_decisions db @ [rec] \<and> dr_decision rec = r_decision r
    \<and> getHitchSession db' h = Some s'
    \<and> (s_status s' = S_closed \<longleftrightarrow> r_decision r = D_closed)
    \<and> (s_status s' = S_cancelled \<longleftrightarrow> r_decision r = D_cancel)
    \<and> (s_status s' = S_close_ready \<longleftrightarrow> r_decision r = D_close_ready)
    \<and> (s_status s' = S_diverging \<longleftrightarrow> r_decision r = D_diverging)
    \<and> (s_status s' = S_budget_exhausted \<longleftrightarrow> r_decision r = D_budget_exhausted)
    \<and> (s_status s' = S_escalated \<longleftrightarrow> r_decision r = D_escalate)
    \<and> evaluate mm td drifts h db' = (Inr r', db') \<and> r_decision r' = r_decision r"
proof -
  let ?r = "decide db (decideInput mm td db drifts s)"
  obtain rec st db' s' where run:
      "evaluateConvergenceAndRecordStatus mm td drifts h by cyc att did eid t1 t2 db = (Inr (?r, rec, st), db')"
      "db_decisions db' = db_decisions db @ [rec]" "dr_decision rec = r_decision ?r"
    and after: "same_work db db'" "getHitchSession db' h = Some s'" "same_contract s s'"
      "s_status s' = next_status (s_status s) (r_decision ?r)"
    using evaluateAndRecord_run [OF assms] by blast
  have "r_decision (decide db' (decideInput mm td db' drifts s')) = r_decision ?r"
    using redecide [OF after(1,3,4)] .
  moreover have "evaluate mm td drifts h db' = (Inr (decide db' (decideInput mm td db' drifts s')), db')"
    by (simp add: evaluate_run after(2))
  moreover have "(s_status s' = S_closed \<longleftrightarrow> r_decision ?r = D_closed)
      \<and> (s_status s' = S_cancelled \<longleftrightarrow> r_decision ?r = D_cancel)
      \<and> (s_status s' = S_close_ready \<longleftrightarrow> r_decision ?r = D_close_ready)
      \<and> (s_status s' = S_diverging \<longleftrightarrow> r_decision ?r = D_diverging)
      \<and> (s_status s' = S_budget_exhausted \<longleftrightarrow> r_decision ?r = D_budget_exhausted)
      \<and> (s_status s' = S_escalated \<longleftrightarrow> r_decision ?r = D_escalate)"
    unfolding after(4)
    by (rule status_agrees [where di = "decideInput mm td db drifts s" and db = db])
      (rule refl, simp only: decideInput_fields)
  ultimately show ?thesis using run after(2) by (intro exI conjI) (assumption | elim conjE)+
qed

theorem decision_recorded_and_stable_witness:
  "\<exists>r rec st db' s'.
    evaluateConvergenceAndRecordStatus (=) (\<lambda>_. RD_none) [] ''h1'' ''op'' None None ''d1'' ''e1'' ''t8'' ''t8''
      (ex_ready_db ''t7'') = (Inr (r, rec, st), db')
    \<and> getHitchSession db' ''h1'' = Some s' \<and> (s_status s' = S_close_ready \<longleftrightarrow> r_decision r = D_close_ready)"
proof -
  have "getHitchSession (ex_ready_db ''t7'') ''h1'' = Some ex_ready"
    "\<not> tbl_has dr_decisionId ''d1'' (db_decisions (ex_ready_db ''t7''))" by code_simp+
  from decision_recorded_and_stable [OF this, of "(=)" "\<lambda>_. RD_none" "[]" "''op''" None None "''e1''" "''t8''" "''t8''"]
  show ?thesis by (elim exE conjE) (intro exI conjI)
qed

section \<open>Every reachable database\<close>

text \<open>
  A step is one call of a repository method or of the status service, whatever its arguments and
  whether it succeeds or throws; the tables of the runs are written by another part of the harness.
\<close>

inductive db_step :: "hitch_db \<Rightarrow> hitch_db \<Rightarrow> bool" where
  "db_step db (snd (createSession ns h t db))"
| "db_step db (snd (updateStatus h st note by t eid db))"
| "db_step db (snd (incrementClosePushAttempts h run t db))"
| "db_step db (snd (reopenSession h reason by e1 e2 e3 t eid db))"
| "db_step db (snd (recoverDivergingSession h reason by ext rv t eid db))"
| "db_step db (snd (adoptPr h url num reason by t eid db))"
| "db_step db (snd (updateSessionConfig uinp t eid db))"
| "db_step db (snd (createAttempt ainp aid t clock db))"
| "db_step db (snd (completeAttempt aid ast op run res err t db))"
| "db_step db (snd (discardAttempt aid t db))"
| "db_step db (snd (startReviewCycle cid h n mode ta srev srun t db))"
| "db_step db (snd (completeReviewCycle cinp t db))"
| "db_step db (snd (recordCloseCheck kid h c kst by ev msg cmode t db))"
| "db_step db (snd (insertEvidence erow db))"
| "db_step db (snd (upsertFinding tok sha inp newId t db))"
| "db_step db (snd (classifyFinding fid sc reason dup t db))"
| "db_step db (snd (classifyAndDeferFinding fid reason bl t db))"
| "db_step db (snd (markFindingFixed fid fnote t db))"
| "db_step db (snd (deferFinding fid dnote bl t db))"
| "db_step db (snd (linkFindingIssue fid url2 t db))"
| "db_step db (snd (resolveSupersededReviewFindings rinp t db))"
| "db_step db (snd (recordConvergenceDecisionWithStatus rcinp did eid t1 t2 db))"
| "db_step db (snd (evaluateConvergenceAndRecordStatus mm td drifts h by cyc att did eid t1 t2 db))"
| "db_step db (snd (evaluateHitchMutationGate mm td drifts h kind sync syncBy t eid db))"
| "db_step db (db\<lparr>db_runs := rs, db_changedFiles := fs\<rparr>)"

definition empty_db :: hitch_db where
  "empty_db = \<lparr>db_sessions = [], db_attempts = [], db_cycles = [], db_findings = [], db_closeChecks = [],
     db_decisions = [], db_events = [], db_evidence = [], db_runs = [], db_changedFiles = []\<rparr>"

lemma status_ops_keep [act_inv_rules]:
  assumes "\<And>h st note t eid by. act_keeps I (updateStatus h st note by t eid)"
    and "\<And>row. act_keeps I (recordConvergenceDecision row)"
  shows "act_keeps I (recordConvergenceDecisionWithStatus rcinp did eid t1 t2)"
    "act_keeps I (evaluateConvergenceAndRecordStatus mm td drifts h by cyc att did eid t1 t2)"
    "act_keeps I (evaluateHitchMutationGate mm td drifts h kind sync syncBy t eid)"
proof -
  have ev: "act_keeps I (evaluate mm td drifts h)" for h
    unfolding evaluate_def by (intro act_inv_rules)
  have sync: "act_keeps I (syncHitchStatusForConvergence r by t eid)" for r "by" t
    unfolding syncHitchStatusForConvergence_def by (intro act_inv_rules assms)
  show rec: "act_keeps I (recordConvergenceDecisionWithStatus rcinp did eid t1 t2)" for rcinp
    unfolding recordConvergenceDecisionWithStatus_def by (intro act_inv_rules assms sync)
  show "act_keeps I (evaluateConvergenceAndRecordStatus mm td drifts h by cyc att did eid t1 t2)"
    unfolding evaluateConvergenceAndRecordStatus_def by (intro act_inv_rules ev rec)
  show "act_keeps I (evaluateHitchMutationGate mm td drifts h kind sync syncBy t eid)"
    unfolding evaluateHitchMutationGate_def by (intro act_inv_rules ev sync)
qed

lemma db_step_schema: "db_step db db' \<Longrightarrow> schema_inv db \<Longrightarrow> schema_inv db'"
  by (induction rule: db_step.induct) (rule act_keeps_snd, (intro act_inv_rules)?, assumption | simp add: schema_inv_def)+

lemma db_step_ledger: "db_step db db' \<Longrightarrow> ledger_inv db \<Longrightarrow> ledger_inv db'"
  by (induction rule: db_step.induct)
    (rule act_keeps_snd, (intro act_inv_rules)?, assumption | simp add: ledger_inv_def ledger_ok_def has_event_def)+

interpretation cp: step_machine "\<lambda>db. db = empty_db" db_step "\<lambda>db. schema_inv db \<and> ledger_inv db"
proof
  fix db db' assume "schema_inv db \<and> ledger_inv db" "db_step db db'"
  then show "schema_inv db' \<and> ledger_inv db'" using db_step_schema db_step_ledger by blast
qed (simp add: empty_db_def schema_inv_def ledger_inv_def canonical_keys_def)

text \<open>
  C17: in every database that any sequence of repository calls reaches from the empty one, ids are
  unique, every row belongs to an existing session, cycle numbers and canonical stable keys are unique
  per hitch, and a closed or cancelled session has its closing time and its entry in the ledger.
\<close>

theorem reachable_db_ok:
  "reach (\<lambda>db. db = empty_db) db_step db \<Longrightarrow> schema_inv db \<and> ledger_inv db"
  by (rule cp.reach_inv)

definition ex_new_session :: create_session_input where
  "ex_new_session = \<lparr>ns_title = ''t'', ns_description = None, ns_projectId = None,
     ns_repoId = None, ns_domain = None, ns_backlogItemId = None, ns_scope = None,
     ns_closeConditions = Some [ex_tests], ns_policy = None, ns_maxIterations = None, ns_maxReviewCycles = None,
     ns_maxReruns = None, ns_maxTotalNewFindings = None, ns_createdBy = ''op'', ns_createdSource = CS_cli\<rparr>"

definition ex_closed_db :: hitch_db where
  "ex_closed_db = snd (updateStatus ''h1'' S_closed (Some ''done'') ''op'' ''t2'' ''e1''
     (snd (createSession ex_new_session ''h1'' ''t1'' empty_db)))"

lemma ex_closed_reach: "reach (\<lambda>db. db = empty_db) db_step ex_closed_db"
proof -
  have "reach (\<lambda>db. db = empty_db) db_step empty_db" by (rule reach_init) (rule refl)
  then have "reach (\<lambda>db. db = empty_db) db_step (snd (createSession ex_new_session ''h1'' ''t1'' empty_db))"
    by (rule reach_step) (rule db_step.intros)
  then show ?thesis unfolding ex_closed_db_def by (rule reach_step) (rule db_step.intros)
qed

theorem reachable_db_ok_witness:
  "reach (\<lambda>db. db = empty_db) db_step ex_closed_db \<and> has_event ex_closed_db ''h1'' Ev_closed"
proof -
  have "\<exists>s \<in> set (db_sessions ex_closed_db). s_status s = S_closed \<and> s_hitchId s = ''h1''" by code_simp
  then show ?thesis
    using reachable_db_ok [OF ex_closed_reach] ex_closed_reach
    unfolding ledger_inv_def ledger_ok_def by auto
qed

section \<open>The audit trail\<close>

text \<open>
  An invariant that looks only at the append-only tables: it holds after every operation as soon as it
  survives appending a row to any of them.
\<close>

locale log_invariant =
  fixes I :: "hitch_db \<Rightarrow> bool"
  assumes log_frame: "db_events db' = db_events db \<Longrightarrow> db_decisions db' = db_decisions db \<Longrightarrow>
      db_evidence db' = db_evidence db \<Longrightarrow> db_closeChecks db' = db_closeChecks db \<Longrightarrow> I db \<Longrightarrow> I db'"
    and log_append: "I db \<Longrightarrow> I (db\<lparr>db_events := db_events db @ [e]\<rparr>)"
      "I db \<Longrightarrow> I (db\<lparr>db_decisions := db_decisions db @ [d]\<rparr>)"
      "I db \<Longrightarrow> I (db\<lparr>db_evidence := db_evidence db @ [v]\<rparr>)"
      "I db \<Longrightarrow> I (db\<lparr>db_closeChecks := db_closeChecks db @ [k]\<rparr>)"
begin

lemma writes_keep [act_inv_rules]:
  "act_keeps I (update_session h f)" "act_keeps I (touchHitchSession h t)" "act_keeps I (insert_session row)"
  "act_keeps I (insert_attempt ra)" "act_keeps I (insert_cycle rc)"
  "act_keeps I (update_finding fid g)" "act_keeps I (insert_finding fr)"
  unfolding update_session_def touchHitchSession_def insert_session_def insert_attempt_def insert_cycle_def
    update_finding_def insert_finding_def
  by (intro act_inv_rules; erule log_frame [rotated -1]; simp add: with_findings_def)+

lemma log_writes_keep [act_inv_rules]:
  "act_keeps I (insertLifecycleEvent eid h ev r d t by)" "act_keeps I (insert_decision rd)"
  "act_keeps I (insert_evidence re)" "act_keeps I (insert_close_check rk)"
  unfolding insertLifecycleEvent_def insert_decision_def insert_evidence_def insert_close_check_def
  by (intro act_inv_rules; erule log_append)+

lemma table_writes_keep [act_inv_rules]:
  "act_keeps I (act_modify (\<lambda>db. db\<lparr>db_attempts := fa db\<rparr>))" "act_keeps I (act_modify (\<lambda>db. db\<lparr>db_cycles := fc db\<rparr>))"
  by (intro act_keeps_modify; erule log_frame [rotated -1]; simp)+

lemma session_ops_keep [act_inv_rules]:
  "act_keeps I (createSession ns h t)" "act_keeps I (updateStatus h st note by t eid)"
  "act_keeps I (incrementClosePushAttempts h run t)" "act_keeps I (reopenSession h reason by e1 e2 e3 t eid)"
  "act_keeps I (recoverDivergingSession h reason by ext rv t eid)"
  "act_keeps I (adoptPr h url num reason by t eid)" "act_keeps I (updateSessionConfig uinp t eid)"
  unfolding createSession_def updateStatus_def incrementClosePushAttempts_def reopenSession_def
    recoverDivergingSession_def adoptPr_def updateSessionConfig_def
  by (intro act_inv_rules)+

lemma row_ops_keep [act_inv_rules]:
  "act_keeps I (createAttempt ainp aid t clock)" "act_keeps I (completeAttempt aid ast op run res err t)"
  "act_keeps I (discardAttempt aid t)" "act_keeps I (startReviewCycle cid h n mode ta srev srun t)"
  "act_keeps I (completeReviewCycle cinp t)" "act_keeps I (recordCloseCheck kid h c kst by ev msg cmode t)"
  "act_keeps I (recordConvergenceDecision row)" "act_keeps I (insertEvidence erow)"
  unfolding createAttempt_def nextIteration_def completeAttempt_def discardAttempt_def startReviewCycle_def
    completeReviewCycle_def recordCloseCheck_def recordConvergenceDecision_def insertEvidence_def
  by (intro act_inv_rules)+

lemma finding_ops_keep [act_inv_rules]:
  "act_keeps I (upsertFinding tok sha inp newId t)" "act_keeps I (classifyFinding fid sc reason dup t)"
  "act_keeps I (markFindingFixed fid fnote t)" "act_keeps I (deferFinding fid dnote bl t)"
  "act_keeps I (linkFindingIssue fid url t)"
  unfolding upsertFinding_def upsertFindingWithin_def reobserveFinding_def insertNewFinding_def
    promoteDuplicateCanonical_def classifyFinding_def markFindingFixed_def deferFinding_def linkFindingIssue_def
  by (intro act_inv_rules)+

lemma composed_ops_keep [act_inv_rules]:
  "act_keeps I (classifyAndDeferFinding fid reason bl t)" "act_keeps I (resolveSupersededReviewFindings rinp t)"
  unfolding classifyAndDeferFinding_def resolveSupersededReviewFindings_def
    resolveSupersededReviewFindingsWithin_def
  by (intro act_inv_rules)+

lemma db_step_keeps: "db_step db db' \<Longrightarrow> I db \<Longrightarrow> I db'"
  by (induction rule: db_step.induct)
    (rule act_keeps_snd, (intro act_inv_rules)?, assumption | erule log_frame [rotated -1]; simp)+

end

definition extends_logs :: "hitch_db \<Rightarrow> hitch_db \<Rightarrow> bool" where
  "extends_logs db db' \<longleftrightarrow> prefix (db_events db) (db_events db') \<and> prefix (db_decisions db) (db_decisions db')
     \<and> prefix (db_evidence db) (db_evidence db') \<and> prefix (db_closeChecks db) (db_closeChecks db')"

interpretation logs: log_invariant "extends_logs db0" for db0
  by unfold_locales (auto simp: extends_logs_def intro: prefix_order.trans)

interpretation trail: step_machine "\<lambda>db. db = db0" db_step "extends_logs db0" for db0
  by unfold_locales (auto simp: extends_logs_def [of db0 db0] intro: logs.db_step_keeps)

text \<open>
  C18: the audit trail is append-only. Whatever calls are made, lifecycle events, convergence decisions,
  evidence rows and recorded close checks are never changed or removed, only appended.
\<close>

theorem audit_trail_append_only:
  "db_step\<^sup>*\<^sup>* db db' \<Longrightarrow>
   prefix (db_events db) (db_events db') \<and> prefix (db_decisions db) (db_decisions db')
   \<and> prefix (db_evidence db) (db_evidence db') \<and> prefix (db_closeChecks db) (db_closeChecks db')"
  using trail.steps_inv [of db db' db] by (simp add: extends_logs_def)

theorem audit_trail_append_only_witness:
  "prefix (db_events empty_db) (db_events ex_closed_db) \<and> db_events ex_closed_db \<noteq> []"
proof -
  have "db_step\<^sup>*\<^sup>* empty_db ex_closed_db"
    unfolding ex_closed_db_def
    by (rule converse_rtranclp_into_rtranclp [OF _ r_into_rtranclp]) (rule db_step.intros)+
  moreover have "db_events ex_closed_db \<noteq> []" by code_simp
  ultimately show ?thesis using audit_trail_append_only by blast
qed

end
