(* ===== verification/Domain_Lock.thy ===== *)
theory Domain_Lock
  imports Harness_Prelude
begin

text \<open>
  The lease-based domain lock of \<open>src/workspace/db-domain-lock.ts\<close>: the tables \<open>domain_locks\<close>,
  \<open>domain_lock_contention\<close> and the lease column of \<open>runs\<close>, the lock handle that \<open>acquireDomainLock\<close> returns
  (a closure over its lock id and a \<open>released\<close> flag, here a record), and the search for a lease error in a
  chain of causes; and the release of expired leases by the database doctor (\<open>src/db/repair.ts\<close>). Times are the milliseconds of a \<open>Date\<close>; the source stores and compares their ISO
  strings, whose order is the order of the times. The lock id comes from an \<open>AUTOINCREMENT\<close> column: the
  state keeps the largest id ever given out.
\<close>

section \<open>Durations\<close>

definition DEFAULT_LEASE_DURATION_MS :: rat where
  "DEFAULT_LEASE_DURATION_MS = 5 * 60 * 1000"

definition DEFAULT_HEARTBEAT_INTERVAL_MS :: rat where
  "DEFAULT_HEARTBEAT_INTERVAL_MS = 60 * 1000"

text \<open>The environment variable: unset, or its value as a number, \<open>None\<close> when that is not finite.\<close>

definition env_duration :: "rat \<Rightarrow> rat option option \<Rightarrow> rat" where
  "env_duration dflt raw = (case raw of Some (Some n) \<Rightarrow> if n > 0 then n else dflt | _ \<Rightarrow> dflt)"

definition leaseDurationMs :: "rat option option \<Rightarrow> rat" where
  "leaseDurationMs = env_duration DEFAULT_LEASE_DURATION_MS"

definition heartbeatIntervalMs :: "rat option option \<Rightarrow> rat" where
  "heartbeatIntervalMs = env_duration DEFAULT_HEARTBEAT_INTERVAL_MS"

text \<open>\<open>new Date(now.getTime() + d)\<close> cuts the fraction of a millisecond off.\<close>

definition date_plus :: "int \<Rightarrow> rat \<Rightarrow> int" where
  "date_plus now d = (let q = of_int now + d in if q < 0 then \<lceil>q\<rceil> else \<lfloor>q\<rfloor>)"

section \<open>Tables, handles and errors\<close>

record domain_lock_row =
  dl_lockId :: nat
  dl_domainKey :: string
  dl_repoId :: string
  dl_domain :: string
  dl_holderRunId :: string
  dl_holderPid :: int
  dl_holderHostname :: string
  dl_acquiredAt :: int
  dl_expiresAt :: int
  dl_heartbeatAt :: int
  dl_releasedAt :: "int option"
  dl_releaseReason :: "string option"
  dl_releasedBy :: "string option"

record contention_row =
  co_domainKey :: string
  co_repoId :: string
  co_domain :: string
  co_holderRunId :: string
  co_contenderPid :: int
  co_contenderHostname :: string
  co_observedAt :: int

record lock_db =
  ld_locks :: "domain_lock_row list"
  ld_seq :: nat
  ld_contention :: "contention_row list"
  ld_runLeases :: "(string \<times> nat option) list"

record acquire_opts =
  ao_domainKey :: string
  ao_repoId :: string
  ao_domain :: string
  ao_runId :: string
  ao_pid :: int
  ao_hostname :: string

record lock_handle =
  lh_lockId :: nat
  lh_opts :: acquire_opts
  lh_released :: bool

datatype lock_error =
    Domain_lock_busy string string int string int
  | Lease_lost string nat
  | Lease_guard_failed string
  | Lock_unique_violation

type_synonym 'a lock_act = "(lock_db, lock_error, 'a) act"

definition lock_active :: "domain_lock_row \<Rightarrow> bool" where
  "lock_active r \<longleftrightarrow> dl_releasedAt r = None"

definition active_lock :: "lock_db \<Rightarrow> string \<Rightarrow> domain_lock_row option" where
  "active_lock db key = find (\<lambda>r. dl_domainKey r = key \<and> lock_active r) (ld_locks db)"

section \<open>Acquire\<close>

text \<open>\<open>recorded\<close> says whether the insert of the telemetry row went through: its failure is swallowed.\<close>

definition recordDomainLockContention ::
  "acquire_opts \<Rightarrow> domain_lock_row \<Rightarrow> int \<Rightarrow> bool \<Rightarrow> unit lock_act" where
  "recordDomainLockContention opts holder observedAt recorded =
     (if recorded
      then act_modify (\<lambda>db. db\<lparr>ld_contention := ld_contention db @
        [\<lparr>co_domainKey = ao_domainKey opts, co_repoId = ao_repoId opts, co_domain = ao_domain opts,
          co_holderRunId = dl_holderRunId holder, co_contenderPid = ao_pid opts,
          co_contenderHostname = ao_hostname opts, co_observedAt = observedAt\<rparr>]\<rparr>)
      else act_return ())"

definition update_locks ::
  "(domain_lock_row \<Rightarrow> bool) \<Rightarrow> (domain_lock_row \<Rightarrow> domain_lock_row) \<Rightarrow> lock_db \<Rightarrow> lock_db" where
  "update_locks P f db = db\<lparr>ld_locks := map (\<lambda>r. if P r then f r else r) (ld_locks db)\<rparr>"

definition insert_lock :: "acquire_opts \<Rightarrow> int \<Rightarrow> int \<Rightarrow> nat lock_act" where
  "insert_lock opts nowISO expiresISO =
     act_bind (act_guard (\<lambda>db. active_lock db (ao_domainKey opts) = None) Lock_unique_violation) (\<lambda>_.
     act_bind (act_modify (\<lambda>db. db\<lparr>ld_seq := Suc (ld_seq db), ld_locks := ld_locks db @
        [\<lparr>dl_lockId = Suc (ld_seq db), dl_domainKey = ao_domainKey opts, dl_repoId = ao_repoId opts,
          dl_domain = ao_domain opts, dl_holderRunId = ao_runId opts, dl_holderPid = ao_pid opts,
          dl_holderHostname = ao_hostname opts, dl_acquiredAt = nowISO, dl_expiresAt = expiresISO,
          dl_heartbeatAt = nowISO, dl_releasedAt = None, dl_releaseReason = None, dl_releasedBy = None\<rparr>]\<rparr>))
      (\<lambda>_. act_get ld_seq))"

definition acquire_tx ::
  "acquire_opts \<Rightarrow> int \<Rightarrow> int \<Rightarrow> bool \<Rightarrow> (domain_lock_row + nat) lock_act" where
  "acquire_tx opts nowISO expiresISO recorded = act_atomically (
     act_bind (act_get (\<lambda>db. active_lock db (ao_domainKey opts))) (\<lambda>existing.
       case existing of
         Some row \<Rightarrow>
           if dl_expiresAt row > nowISO then
             act_bind (recordDomainLockContention opts row nowISO recorded) (\<lambda>_. act_return (Inl row))
           else
             act_bind (act_modify (update_locks (\<lambda>r. dl_lockId r = dl_lockId row)
               (\<lambda>r. r\<lparr>dl_releasedAt := Some nowISO, dl_releaseReason := Some ''expired''\<rparr>))) (\<lambda>_.
             act_bind (insert_lock opts nowISO expiresISO) (\<lambda>lockId. act_return (Inr lockId)))
       | None \<Rightarrow> act_bind (insert_lock opts nowISO expiresISO) (\<lambda>lockId. act_return (Inr lockId))))"

definition acquireDomainLock ::
  "rat option option \<Rightarrow> acquire_opts \<Rightarrow> int \<Rightarrow> bool \<Rightarrow> lock_handle lock_act" where
  "acquireDomainLock env opts now recorded =
     act_bind (acquire_tx opts now (date_plus now (leaseDurationMs env)) recorded) (\<lambda>result.
       case result of
         Inl busy \<Rightarrow> act_throw (Domain_lock_busy (ao_domainKey opts) (dl_holderRunId busy) (dl_holderPid busy)
           (dl_holderHostname busy) (dl_expiresAt busy))
       | Inr lockId \<Rightarrow> act_return \<lparr>lh_lockId = lockId, lh_opts = opts, lh_released = False\<rparr>)"

section \<open>The handle\<close>

definition held_row :: "lock_handle \<Rightarrow> domain_lock_row \<Rightarrow> bool" where
  "held_row h r \<longleftrightarrow> dl_lockId r = lh_lockId h \<and> dl_holderRunId r = ao_runId (lh_opts h) \<and> lock_active r"

definition heartbeat :: "rat option option \<Rightarrow> lock_handle \<Rightarrow> int \<Rightarrow> unit lock_act" where
  "heartbeat env h now =
     (if lh_released h then act_return ()
      else act_bind (act_guard (\<lambda>db. \<exists>r \<in> set (ld_locks db). held_row h r)
             (Lease_lost (ao_domainKey (lh_opts h)) (lh_lockId h))) (\<lambda>_.
           act_modify (update_locks (held_row h)
             (\<lambda>r. r\<lparr>dl_expiresAt := date_plus now (leaseDurationMs env), dl_heartbeatAt := now\<rparr>))))"

definition assertHeld :: "lock_handle \<Rightarrow> int \<Rightarrow> unit lock_act" where
  "assertHeld h now =
     act_guard (\<lambda>db. \<exists>r \<in> set (ld_locks db). held_row h r \<and> dl_expiresAt r > now)
       (Lease_guard_failed (ao_runId (lh_opts h)))"

definition release ::
  "lock_handle \<Rightarrow> string option \<Rightarrow> string option \<Rightarrow> int \<Rightarrow> lock_handle lock_act" where
  "release h reason releasedBy now =
     (if lh_released h then act_return h
      else act_bind (act_modify (update_locks (\<lambda>r. dl_lockId r = lh_lockId h \<and> lock_active r)
             (\<lambda>r. r\<lparr>dl_releasedAt := Some now, dl_releaseReason := Some (or_else reason ''normal''),
                dl_releasedBy := releasedBy\<rparr>))) (\<lambda>_.
           act_return (h\<lparr>lh_released := True\<rparr>)))"

section \<open>Operator and guard\<close>

definition listActiveDomainLocks :: "lock_db \<Rightarrow> domain_lock_row list" where
  "listActiveDomainLocks db = sort_key (\<lambda>r. - dl_acquiredAt r) (filter lock_active (ld_locks db))"

definition findActiveDomainLock :: "lock_db \<Rightarrow> string \<Rightarrow> domain_lock_row option" where
  "findActiveDomainLock db key = active_lock db key"

definition releaseDomainLockByDomain ::
  "string \<Rightarrow> string option \<Rightarrow> bool \<Rightarrow> string option \<Rightarrow> string option \<Rightarrow> int \<Rightarrow> domain_lock_row option lock_act" where
  "releaseDomainLockByDomain domainKey runId force reason releasedBy now =
     act_bind (act_get (\<lambda>db. findActiveDomainLock db domainKey)) (\<lambda>active.
       case active of
         None \<Rightarrow> act_return None
       | Some row \<Rightarrow>
           if runId \<noteq> None \<and> runId \<noteq> Some (dl_holderRunId row) \<and> \<not> force then act_return None
           else act_bind (act_modify (update_locks (\<lambda>r. dl_lockId r = dl_lockId row \<and> lock_active r)
               (\<lambda>r. r\<lparr>dl_releasedAt := Some now,
                  dl_releaseReason := Some (or_else reason (if force then ''force'' else ''normal'')),
                  dl_releasedBy := releasedBy\<rparr>))) (\<lambda>_. act_return (Some row)))"

text \<open>
  The repair of the database doctor: an expired lease that is still open is released. The update checks the expiry again, so that
  a lease renewed since the diagnosis stays. The result tells whether the repair succeeded.
\<close>

definition repairExpiredLock :: "bool \<Rightarrow> int \<Rightarrow> int \<Rightarrow> bool lock_act" where
  "repairExpiredLock dryRun lockId now =
     (if lockId \<le> 0 then act_return False
      else if dryRun then act_return True
      else let hit = (\<lambda>r. int (dl_lockId r) = lockId \<and> lock_active r \<and> dl_expiresAt r < now)
        in act_bind (act_get (\<lambda>db. list_ex hit (ld_locks db))) (\<lambda>changed.
           act_bind (act_modify (update_locks hit (\<lambda>r. r\<lparr>dl_releasedAt := Some now,
               dl_releaseReason := Some ''expired-by-repair'', dl_releasedBy := Some ''doctor-repair''\<rparr>))) (\<lambda>_.
           act_return changed)))"

definition assertActiveLease :: "string \<Rightarrow> int \<Rightarrow> unit lock_act" where
  "assertActiveLease runId now =
     act_bind (act_get (\<lambda>db. map_of (ld_runLeases db) runId)) (\<lambda>row.
       case row of
         None \<Rightarrow> act_return ()
       | Some None \<Rightarrow> act_return ()
       | Some (Some lockId) \<Rightarrow>
           act_guard (\<lambda>db. \<exists>r \<in> set (ld_locks db). dl_lockId r = lockId \<and> dl_holderRunId r = runId
             \<and> lock_active r \<and> dl_expiresAt r > now) (Lease_guard_failed runId))"

section \<open>Lease errors in a chain of causes\<close>

text \<open>
  A thrown value is an object, \<open>null\<close> or \<open>undefined\<close>, or another primitive. Objects live in a heap, because a
  chain of causes may be cyclic; an object that is not an error has a class of its own.
\<close>

datatype err_class = Busy_class | Lost_class | Guard_class | Other_class

datatype thrown = T_obj nat | T_null | T_primitive

record err_object =
  eo_class :: err_class
  eo_cause :: thrown

type_synonym err_heap = "nat \<Rightarrow> err_object"

definition transient :: "err_heap \<Rightarrow> nat \<Rightarrow> bool" where
  "transient heap o1 \<longleftrightarrow> eo_class (heap o1) \<in> {Busy_class, Lost_class, Guard_class}"

fun findTransientLoop :: "err_heap \<Rightarrow> nat \<Rightarrow> nat list \<Rightarrow> thrown \<Rightarrow> nat option" where
  "findTransientLoop heap 0 visited current = None"
| "findTransientLoop heap (Suc depth) visited current =
     (case current of
        T_obj o1 \<Rightarrow>
          if transient heap o1 then Some o1
          else if o1 \<in> set visited then None
          else findTransientLoop heap depth (o1 # visited) (eo_cause (heap o1))
      | _ \<Rightarrow> None)"

definition findTransientLeaseCause :: "err_heap \<Rightarrow> thrown \<Rightarrow> nat option" where
  "findTransientLeaseCause heap err = findTransientLoop heap 16 [] err"

definition isTransientLeaseError :: "err_heap \<Rightarrow> thrown \<Rightarrow> bool" where
  "isTransientLeaseError heap err \<longleftrightarrow> findTransientLeaseCause heap err \<noteq> None"

section \<open>The search follows the chain of causes\<close>

fun cause_chain :: "err_heap \<Rightarrow> thrown \<Rightarrow> nat \<Rightarrow> thrown" where
  "cause_chain heap v 0 = v"
| "cause_chain heap v (Suc k) = (case cause_chain heap v k of T_obj o1 \<Rightarrow> eo_cause (heap o1) | t \<Rightarrow> t)"

definition harmless :: "err_heap \<Rightarrow> thrown \<Rightarrow> nat \<Rightarrow> bool" where
  "harmless heap v k \<longleftrightarrow> (\<exists>p. cause_chain heap v k = T_obj p \<and> \<not> transient heap p)"

definition first_transient :: "err_heap \<Rightarrow> thrown \<Rightarrow> nat \<Rightarrow> nat \<Rightarrow> bool" where
  "first_transient heap v m o1 \<longleftrightarrow> cause_chain heap v m = T_obj o1 \<and> transient heap o1 \<and> (\<forall>j<m. harmless heap v j)"

lemma chain_cong: "cause_chain heap v j = cause_chain heap v k \<Longrightarrow>
    cause_chain heap v (Suc j) = cause_chain heap v (Suc k)"
  by simp

lemma chain_periodic:
  assumes "cause_chain heap v k = cause_chain heap v i" "i < k" "i \<le> m"
  shows "\<exists>j. i \<le> j \<and> j < k \<and> cause_chain heap v m = cause_chain heap v j"
  using assms(3)
proof (induction m rule: dec_induct)
  case base
  then show ?case using assms(2) by auto
next
  case (step m)
  then obtain j where j: "i \<le> j" "j < k" "cause_chain heap v m = cause_chain heap v j" by blast
  from j(3) have next_eq: "cause_chain heap v (Suc m) = cause_chain heap v (Suc j)" by (rule chain_cong)
  show ?case
  proof (cases "Suc j = k")
    case True
    then show ?thesis using next_eq assms(1,2) by auto
  next
    case False
    then show ?thesis using next_eq j(1,2) by (intro exI [of _ "Suc j"]) auto
  qed
qed

lemma findTransientLoop_iff:
  assumes "\<forall>j<k. harmless heap v j" "set visited = {p. \<exists>j<k. cause_chain heap v j = T_obj p}"
  shows "findTransientLoop heap d visited (cause_chain heap v k) = Some o1 \<longleftrightarrow>
    (\<exists>m. k \<le> m \<and> m < k + d \<and> first_transient heap v m o1)"
  using assms
proof (induction d arbitrary: k visited)
  case (Suc d)
  show ?case
  proof (cases "cause_chain heap v k")
    case (T_obj p)
    note at_k = this
    show ?thesis
    proof (cases "transient heap p")
      case True
      then have only: "m = k" if "k \<le> m" "first_transient heap v m q" for m q
        using that at_k unfolding first_transient_def harmless_def
        by (metis le_neq_implies_less thrown.inject)
      have here: "first_transient heap v k q \<longleftrightarrow> p = q" for q
        using True at_k Suc.prems(1) by (auto simp: first_transient_def)
      have "(\<exists>m. k \<le> m \<and> m < k + Suc d \<and> first_transient heap v m o1) \<longleftrightarrow> p = o1"
      proof
        assume "\<exists>m. k \<le> m \<and> m < k + Suc d \<and> first_transient heap v m o1"
        then obtain m where "k \<le> m" "first_transient heap v m o1" by blast
        with only [OF this] here show "p = o1" by simp
      qed (use here in \<open>auto intro: exI [of _ k]\<close>)
      with True at_k show ?thesis by simp
    next
      case False
      show ?thesis
      proof (cases "p \<in> set visited")
        case True
        then obtain i where i: "i < k" "cause_chain heap v i = T_obj p" using Suc.prems(2) by blast
        have "\<not> first_transient heap v m o1" if le: "k \<le> m" for m
        proof
          assume ft: "first_transient heap v m o1"
          obtain j where j: "j < k" "cause_chain heap v m = cause_chain heap v j"
            using chain_periodic [of heap v k i m] i at_k le by auto
          then show False using ft Suc.prems(1) by (auto simp: first_transient_def harmless_def)
        qed
        then show ?thesis using True False at_k by auto
      next
        case False
        have harm: "\<forall>j < Suc k. harmless heap v j"
          using Suc.prems(1) at_k \<open>\<not> transient heap p\<close> by (auto simp: less_Suc_eq harmless_def)
        have vis: "set (p # visited) = {q. \<exists>j < Suc k. cause_chain heap v j = T_obj q}"
          using Suc.prems(2) at_k by (auto simp: less_Suc_eq)
        have "\<not> first_transient heap v k o1"
          using at_k \<open>\<not> transient heap p\<close> by (auto simp: first_transient_def)
        then have "(\<exists>m. k \<le> m \<and> m < k + Suc d \<and> first_transient heap v m o1) \<longleftrightarrow>
            (\<exists>m. Suc k \<le> m \<and> m < Suc k + d \<and> first_transient heap v m o1)"
          by (auto simp: Suc_le_eq) (metis le_neq_implies_less, metis less_imp_le)
        then show ?thesis using Suc.IH [OF harm vis] at_k False \<open>\<not> transient heap p\<close> by simp
      qed
    qed
  next
    case T_null
    then have "\<not> first_transient heap v m o1" if "k \<le> m" for m
      using that by (cases "m = k") (auto simp: first_transient_def harmless_def intro!: exI [of _ k])
    then show ?thesis using T_null by auto
  next
    case T_primitive
    then have "\<not> first_transient heap v m o1" if "k \<le> m" for m
      using that by (cases "m = k") (auto simp: first_transient_def harmless_def intro!: exI [of _ k])
    then show ?thesis using T_primitive by auto
  qed
qed auto

text \<open>
  \<open>findTransientLeaseCause\<close> returns an object exactly when it is the first lease error of the chain of
  causes and at most fifteen causes away from the thrown value; the guard against cyclic chains changes
  nothing of that.
\<close>

theorem findTransientLeaseCause_iff:
  "findTransientLeaseCause heap err = Some o1 \<longleftrightarrow> (\<exists>m. m < 16 \<and> first_transient heap err m o1)"
  using findTransientLoop_iff [of 0 heap err "[]" 16 o1] by (simp add: findTransientLeaseCause_def)

section \<open>The lock table stays well formed\<close>

definition lock_inv :: "lock_db \<Rightarrow> bool" where
  "lock_inv db \<longleftrightarrow> distinct (map dl_lockId (ld_locks db)) \<and> (\<forall>r \<in> set (ld_locks db). dl_lockId r \<le> ld_seq db)
     \<and> distinct (map dl_domainKey (filter lock_active (ld_locks db)))"

text \<open>An update that keeps the identity of a row and does not wake up a released one.\<close>

definition lock_quiet :: "(domain_lock_row \<Rightarrow> domain_lock_row) \<Rightarrow> bool" where
  "lock_quiet f \<longleftrightarrow> (\<forall>r. dl_lockId (f r) = dl_lockId r \<and> dl_domainKey (f r) = dl_domainKey r
     \<and> dl_holderRunId (f r) = dl_holderRunId r \<and> (lock_active (f r) \<longrightarrow> lock_active r))"

lemma lock_quiet_writes [simp]:
  "lock_quiet (\<lambda>r. r\<lparr>dl_releasedAt := Some t, dl_releaseReason := x\<rparr>)"
  "lock_quiet (\<lambda>r. r\<lparr>dl_releasedAt := Some t, dl_releaseReason := x, dl_releasedBy := y\<rparr>)"
  "lock_quiet (\<lambda>r. r\<lparr>dl_expiresAt := u, dl_heartbeatAt := v\<rparr>)"
  by (simp_all add: lock_quiet_def lock_active_def)

lemma distinct_active_map:
  assumes "lock_quiet f" "distinct (map dl_domainKey (filter lock_active rows))"
  shows "distinct (map dl_domainKey (filter lock_active (map (\<lambda>r. if P r then f r else r) rows)))"
  using assms(2)
proof (induction rows)
  case (Cons r rows)
  let ?g = "\<lambda>r. if P r then f r else r"
  have sub: "dl_domainKey ` {q \<in> set (map ?g rows). lock_active q} \<subseteq> dl_domainKey ` {q \<in> set rows. lock_active q}"
    using assms(1) unfolding lock_quiet_def by (auto split: if_splits)
  have keep: "lock_active (?g r) \<longrightarrow> lock_active r" "dl_domainKey (?g r) = dl_domainKey r"
    using assms(1) unfolding lock_quiet_def by auto
  show ?case
  proof (cases "lock_active (?g r)")
    case True
    then have "lock_active r" using keep by blast
    then have "dl_domainKey r \<notin> dl_domainKey ` {q \<in> set rows. lock_active q}" using Cons.prems by auto
    then have "dl_domainKey (?g r) \<notin> dl_domainKey ` {q \<in> set (map ?g rows). lock_active q}"
      using sub keep(2) by auto
    moreover have "distinct (map dl_domainKey (filter lock_active rows))" using Cons.prems by (auto split: if_splits)
    ultimately show ?thesis using Cons.IH True by (simp only: list.map filter.simps if_True distinct.simps) auto
  next
    case False
    moreover have "distinct (map dl_domainKey (filter lock_active rows))" using Cons.prems by (auto split: if_splits)
    ultimately show ?thesis using Cons.IH by (simp only: list.map filter.simps if_False)
  qed
qed simp

lemma lock_inv_update: "lock_quiet f \<Longrightarrow> lock_inv db \<Longrightarrow> lock_inv (update_locks P f db)"
  unfolding lock_inv_def update_locks_def
  by (auto simp: distinct_active_map) (auto simp: lock_quiet_def comp_def if_distrib cong: if_cong)

lemma find_append: "find P (xs @ ys) = (case find P xs of None \<Rightarrow> find P ys | Some x \<Rightarrow> Some x)"
  by (induction xs) auto

lemma active_lock_None: "active_lock db key = None \<longleftrightarrow> (\<forall>r \<in> set (ld_locks db). lock_active r \<longrightarrow> dl_domainKey r \<noteq> key)"
  by (auto simp: active_lock_def find_None_iff)

lemma active_lock_Some:
  assumes "active_lock db key = Some r"
  shows "r \<in> set (ld_locks db)" "lock_active r" "dl_domainKey r = key"
  using assms by (auto simp: active_lock_def find_Some_iff)

lemma active_unique:
  assumes "lock_inv db" "r \<in> set (ld_locks db)" "q \<in> set (ld_locks db)" "lock_active r" "lock_active q"
    "dl_domainKey r = dl_domainKey q"
  shows "r = q"
  using assms unfolding lock_inv_def by (auto simp: distinct_map inj_on_def)

lemma insert_lock_run:
  "insert_lock opts t u db =
     (if active_lock db (ao_domainKey opts) = None
      then (Inr (Suc (ld_seq db)), db\<lparr>ld_seq := Suc (ld_seq db), ld_locks := ld_locks db @
        [\<lparr>dl_lockId = Suc (ld_seq db), dl_domainKey = ao_domainKey opts, dl_repoId = ao_repoId opts,
          dl_domain = ao_domain opts, dl_holderRunId = ao_runId opts, dl_holderPid = ao_pid opts,
          dl_holderHostname = ao_hostname opts, dl_acquiredAt = t, dl_expiresAt = u,
          dl_heartbeatAt = t, dl_releasedAt = None, dl_releaseReason = None, dl_releasedBy = None\<rparr>]\<rparr>)
      else (Inl Lock_unique_violation, db))"
  by (simp add: insert_lock_def act_simps)

lemma lock_inv_insert: "act_keeps lock_inv (insert_lock opts t u)"
proof -
  have "lock_inv db \<Longrightarrow> Suc (ld_seq db) \<notin> dl_lockId ` set (ld_locks db)" for db
    by (auto simp: lock_inv_def)
  then show ?thesis
    by (auto simp: act_keeps_def insert_lock_run lock_inv_def active_lock_None le_Suc_eq lock_active_def)
qed

lemma lock_ops_inv [act_inv_rules]:
  "act_keeps lock_inv (acquireDomainLock env opts now recorded)"
  "act_keeps lock_inv (heartbeat env h now)"
  "act_keeps lock_inv (assertHeld h now)"
  "act_keeps lock_inv (release h reason releasedBy now)"
  "act_keeps lock_inv (releaseDomainLockByDomain key runId force reason releasedBy now)"
  "act_keeps lock_inv (assertActiveLease rid now)"
  "act_keeps lock_inv (repairExpiredLock dry lockId now)"
  unfolding repairExpiredLock_def Let_def acquireDomainLock_def acquire_tx_def recordDomainLockContention_def heartbeat_def assertHeld_def
    release_def releaseDomainLockByDomain_def assertActiveLease_def
  by (intro act_inv_rules lock_inv_insert lock_inv_update lock_quiet_writes; simp add: lock_inv_def)+

section \<open>Acquiring\<close>

lemma expire_frees:
  assumes "lock_inv db" "active_lock db key = Some row"
  shows "active_lock (update_locks (\<lambda>r. dl_lockId r = dl_lockId row)
      (\<lambda>r. r\<lparr>dl_releasedAt := Some t, dl_releaseReason := x\<rparr>) db) key = None"
proof -
  note row = active_lock_Some [OF assms(2)]
  have "r = row" if "r \<in> set (ld_locks db)" "lock_active r" "dl_domainKey r = key" for r
    using active_unique [OF assms(1) that(1) row(1) that(2) row(2)] that(3) row(3) by simp
  then show ?thesis by (auto simp: active_lock_None update_locks_def lock_active_def)
qed

lemma acquire_cases:
  assumes "lock_inv db"
  shows "case active_lock db (ao_domainKey opts) of
    Some row \<Rightarrow> if dl_expiresAt row > now
      then \<exists>db'. acquireDomainLock env opts now recorded db = (Inl (Domain_lock_busy (ao_domainKey opts)
             (dl_holderRunId row) (dl_holderPid row) (dl_holderHostname row) (dl_expiresAt row)), db')
           \<and> ld_locks db' = ld_locks db \<and> ld_seq db' = ld_seq db
      else \<exists>db' r. acquireDomainLock env opts now recorded db =
             (Inr \<lparr>lh_lockId = Suc (ld_seq db), lh_opts = opts, lh_released = False\<rparr>, db')
           \<and> active_lock db' (ao_domainKey opts) = Some r \<and> dl_lockId r = Suc (ld_seq db)
  | None \<Rightarrow> \<exists>db' r. acquireDomainLock env opts now recorded db =
             (Inr \<lparr>lh_lockId = Suc (ld_seq db), lh_opts = opts, lh_released = False\<rparr>, db')
           \<and> active_lock db' (ao_domainKey opts) = Some r \<and> dl_lockId r = Suc (ld_seq db)"
proof (cases "active_lock db (ao_domainKey opts)")
  case None
  moreover from this have "find (\<lambda>r. dl_domainKey r = ao_domainKey opts \<and> lock_active r) (ld_locks db) = None"
    by (simp add: active_lock_def)
  ultimately show ?thesis
    by (simp add: acquireDomainLock_def acquire_tx_def act_bind_def act_simps insert_lock_run)
      (simp add: active_lock_def find_append lock_active_def)
next
  case (Some row)
  note free = expire_frees [OF assms Some, where t = now and x = "Some ''expired''"]
  show ?thesis
  proof (cases "dl_expiresAt row > now")
    case True
    then show ?thesis using Some
      by (simp add: acquireDomainLock_def acquire_tx_def act_bind_def act_simps recordDomainLockContention_def)
  next
    case False
    then show ?thesis using Some free
      by (simp add: acquireDomainLock_def acquire_tx_def act_bind_def act_simps insert_lock_run)
        (simp add: active_lock_def find_append lock_active_def update_locks_def)
  qed
qed

text \<open>
  Acquiring a domain lock fails exactly when a lease of that domain is unreleased and has not expired,
  and then changes only the contention log; otherwise it succeeds, an expired lease is released, and the
  new lease gets a lock id that was never given out before.
\<close>

theorem acquire_complete:
  assumes "lock_inv db"
  shows "case active_lock db (ao_domainKey opts) of
    Some row \<Rightarrow> if dl_expiresAt row > now
      then \<exists>db'. acquireDomainLock env opts now recorded db = (Inl (Domain_lock_busy (ao_domainKey opts)
             (dl_holderRunId row) (dl_holderPid row) (dl_holderHostname row) (dl_expiresAt row)), db')
           \<and> ld_locks db' = ld_locks db \<and> ld_seq db' = ld_seq db
      else \<exists>db' r. acquireDomainLock env opts now recorded db =
             (Inr \<lparr>lh_lockId = Suc (ld_seq db), lh_opts = opts, lh_released = False\<rparr>, db')
           \<and> active_lock db' (ao_domainKey opts) = Some r \<and> dl_lockId r = Suc (ld_seq db)
  | None \<Rightarrow> \<exists>db' r. acquireDomainLock env opts now recorded db =
             (Inr \<lparr>lh_lockId = Suc (ld_seq db), lh_opts = opts, lh_released = False\<rparr>, db')
           \<and> active_lock db' (ao_domainKey opts) = Some r \<and> dl_lockId r = Suc (ld_seq db)"
  by (rule acquire_cases [OF assms])

definition ex_opts :: "string \<Rightarrow> acquire_opts" where
  "ex_opts run = \<lparr>ao_domainKey = ''repo/web'', ao_repoId = ''repo'', ao_domain = ''web'', ao_runId = run,
     ao_pid = 7, ao_hostname = ''host''\<rparr>"

definition no_locks :: lock_db where
  "no_locks = \<lparr>ld_locks = [], ld_seq = 0, ld_contention = [], ld_runLeases = []\<rparr>"

definition ex_locked :: lock_db where
  "ex_locked = snd (acquireDomainLock (Some (Some 100)) (ex_opts ''r1'') 1000 True no_locks)"

theorem acquire_complete_witness:
  "lock_inv ex_locked \<and>
   fst (acquireDomainLock None (ex_opts ''r2'') 1099 True ex_locked) =
     Inl (Domain_lock_busy ''repo/web'' ''r1'' 7 ''host'' 1100) \<and>
   fst (acquireDomainLock None (ex_opts ''r2'') 1100 True ex_locked) =
     Inr \<lparr>lh_lockId = 2, lh_opts = ex_opts ''r2'', lh_released = False\<rparr>"
proof -
  have inv: "lock_inv ex_locked" by code_simp
  have row: "map_option (\<lambda>r. (dl_expiresAt r, dl_holderRunId r, dl_holderPid r, dl_holderHostname r))
      (active_lock ex_locked ''repo/web'') = Some (1100, ''r1'', 7, ''host'')" and seq: "ld_seq ex_locked = 1"
    by code_simp+
  show ?thesis
    using acquire_complete [OF inv, where opts = "ex_opts ''r2''" and now = 1099 and env = None and recorded = True]
      acquire_complete [OF inv, where opts = "ex_opts ''r2''" and now = 1100 and env = None and recorded = True]
      inv row seq
    by (auto simp: ex_opts_def)
qed

section \<open>Mutual exclusion and fencing\<close>

text \<open>
  Any number of processes share the table. A step is an attempt to acquire, a heartbeat or a release through
  a handle some process holds, a release by an operator, a repair by the database doctor, or a run recording its lease.
\<close>

inductive lock_step :: "lock_db \<times> lock_handle list \<Rightarrow> lock_db \<times> lock_handle list \<Rightarrow> bool" where
  acquired: "acquireDomainLock env opts now recorded db = (Inr h, db') \<Longrightarrow> lock_step (db, hs) (db', h # hs)"
| refused: "acquireDomainLock env opts now recorded db = (Inl e, db') \<Longrightarrow> lock_step (db, hs) (db', hs)"
| beat: "h \<in> set hs \<Longrightarrow> lock_step (db, hs) (snd (heartbeat env h now db), hs)"
| released: "h \<in> set hs \<Longrightarrow> release h reason releasedBy now db = (Inr h', db') \<Longrightarrow>
    lock_step (db, hs) (db', map (\<lambda>x. if x = h then h' else x) hs)"
| operator: "lock_step (db, hs) (snd (releaseDomainLockByDomain key runId force reason releasedBy now db), hs)"
| repaired: "lock_step (db, hs) (snd (repairExpiredLock dry lockId now db), hs)"
| recorded_lease: "lock_step (db, hs) (db\<lparr>ld_runLeases := leases\<rparr>, hs)"

inductive_cases lock_stepE: "lock_step (db, hs) s'"

definition handle_ok :: "lock_db \<Rightarrow> lock_handle \<Rightarrow> bool" where
  "handle_ok db h \<longleftrightarrow> (\<exists>r \<in> set (ld_locks db). dl_lockId r = lh_lockId h \<and> dl_domainKey r = ao_domainKey (lh_opts h))"

definition world_inv :: "lock_db \<times> lock_handle list \<Rightarrow> bool" where
  "world_inv s \<longleftrightarrow> lock_inv (fst s) \<and> (\<forall>h \<in> set (snd s). handle_ok (fst s) h)"

text \<open>A lease that is over stays over: its id is used up and its row, if any, is released.\<close>

definition lease_over :: "nat \<Rightarrow> lock_db \<Rightarrow> bool" where
  "lease_over n db \<longleftrightarrow> n \<le> ld_seq db \<and> (\<forall>r \<in> set (ld_locks db). dl_lockId r = n \<longrightarrow> \<not> lock_active r)"

lemma update_locks_over: "lock_quiet f \<Longrightarrow> lease_over n db \<Longrightarrow> lease_over n (update_locks P f db)"
  by (auto simp: lease_over_def update_locks_def lock_quiet_def)

lemma update_locks_handle: "lock_quiet f \<Longrightarrow> handle_ok db h \<Longrightarrow> handle_ok (update_locks P f db) h"
proof -
  assume f: "lock_quiet f" and "handle_ok db h"
  then obtain r where r: "r \<in> set (ld_locks db)" "dl_lockId r = lh_lockId h"
    "dl_domainKey r = ao_domainKey (lh_opts h)" by (auto simp: handle_ok_def)
  let ?r = "if P r then f r else r"
  have "?r \<in> set (ld_locks (update_locks P f db))" using r(1) by (simp add: update_locks_def)
  moreover have "dl_lockId ?r = lh_lockId h" "dl_domainKey ?r = ao_domainKey (lh_opts h)"
    using r(2,3) f by (simp_all add: lock_quiet_def)
  ultimately show ?thesis unfolding handle_ok_def by blast
qed

lemma lock_ops_over [act_inv_rules]:
  "act_keeps (lease_over n) (acquireDomainLock env opts now recorded)"
  "act_keeps (lease_over n) (heartbeat env h now)"
  "act_keeps (lease_over n) (release h reason releasedBy now)"
  "act_keeps (lease_over n) (releaseDomainLockByDomain key runId force reason releasedBy now)"
  "act_keeps (lease_over n) (repairExpiredLock dry lockId now)"
proof -
  have ins: "act_keeps (lease_over n) (insert_lock opts t u)" for opts t u
    by (auto simp: act_keeps_def insert_lock_run lease_over_def)
  show "act_keeps (lease_over n) (acquireDomainLock env opts now recorded)"
    "act_keeps (lease_over n) (heartbeat env h now)"
    "act_keeps (lease_over n) (release h reason releasedBy now)"
    "act_keeps (lease_over n) (releaseDomainLockByDomain key runId force reason releasedBy now)"
    "act_keeps (lease_over n) (repairExpiredLock dry lockId now)"
    unfolding repairExpiredLock_def Let_def acquireDomainLock_def acquire_tx_def recordDomainLockContention_def heartbeat_def
      release_def releaseDomainLockByDomain_def
    by (intro act_inv_rules ins update_locks_over lock_quiet_writes; simp add: lease_over_def)+
qed

lemma lock_ops_handle [act_inv_rules]:
  "act_keeps (\<lambda>db. handle_ok db h') (acquireDomainLock env opts now recorded)"
  "act_keeps (\<lambda>db. handle_ok db h') (heartbeat env h now)"
  "act_keeps (\<lambda>db. handle_ok db h') (release h reason releasedBy now)"
  "act_keeps (\<lambda>db. handle_ok db h') (releaseDomainLockByDomain key runId force reason releasedBy now)"
  "act_keeps (\<lambda>db. handle_ok db h') (repairExpiredLock dry lockId now)"
proof -
  have ins: "act_keeps (\<lambda>db. handle_ok db h') (insert_lock opts t u)" for opts t u
    by (auto simp: act_keeps_def insert_lock_run handle_ok_def)
  show "act_keeps (\<lambda>db. handle_ok db h') (acquireDomainLock env opts now recorded)"
    "act_keeps (\<lambda>db. handle_ok db h') (heartbeat env h now)"
    "act_keeps (\<lambda>db. handle_ok db h') (release h reason releasedBy now)"
    "act_keeps (\<lambda>db. handle_ok db h') (releaseDomainLockByDomain key runId force reason releasedBy now)"
    "act_keeps (\<lambda>db. handle_ok db h') (repairExpiredLock dry lockId now)"
    unfolding repairExpiredLock_def Let_def acquireDomainLock_def acquire_tx_def recordDomainLockContention_def heartbeat_def
      release_def releaseDomainLockByDomain_def
    by (intro act_inv_rules ins update_locks_handle lock_quiet_writes; simp add: handle_ok_def)+
qed

lemma acquired_row:
  assumes "lock_inv db" "acquireDomainLock env opts now recorded db = (Inr h, db')"
  shows "lh_lockId h = Suc (ld_seq db)" "lh_opts h = opts"
    "\<exists>r. active_lock db' (ao_domainKey opts) = Some r \<and> dl_lockId r = lh_lockId h"
  using acquire_cases [OF assms(1), where opts = opts and now = now and env = env and recorded = recorded] assms(2)
  by (auto split: option.splits if_splits)

lemma release_handle: "release h reason releasedBy now db = (Inr h', db') \<Longrightarrow>
    lh_lockId h' = lh_lockId h \<and> lh_opts h' = lh_opts h"
  by (auto simp: release_def act_simps split: if_splits)

lemma handle_ok_same: "lh_lockId h' = lh_lockId h \<Longrightarrow> lh_opts h' = lh_opts h \<Longrightarrow> handle_ok db h' = handle_ok db h"
  by (simp add: handle_ok_def)

lemma lock_step_inv: "lock_step s s' \<Longrightarrow> world_inv s \<Longrightarrow> world_inv s'"
proof (induction rule: lock_step.induct)
  case (acquired env opts now recorded db h db' hs)
  then have inv: "lock_inv db" by (simp add: world_inv_def)
  have "handle_ok db' h"
    using acquired_row [OF inv acquired.hyps] active_lock_Some [of db' "ao_domainKey opts"]
    by (auto simp: handle_ok_def)
  moreover have "lock_inv db'" using act_keepsD [OF lock_ops_inv(1) inv acquired.hyps] .
  moreover have "handle_ok db' x" if "x \<in> set hs" for x
    using act_keepsD [OF lock_ops_handle(1) _ acquired.hyps] acquired.prems that by (auto simp: world_inv_def)
  ultimately show ?case by (simp add: world_inv_def)
next
  case (refused env opts now recorded db e db' hs)
  then show ?case
    using act_keepsD [OF lock_ops_inv(1) _ refused.hyps] act_keepsD [OF lock_ops_handle(1) _ refused.hyps]
    by (auto simp: world_inv_def)
next
  case (beat h hs db env now)
  then show ?case
    using act_keeps_snd [OF lock_ops_inv(2)] act_keeps_snd [OF lock_ops_handle(2)] by (auto simp: world_inv_def)
next
  case (released h hs reason releasedBy now db h' db')
  have "lock_inv db'" using act_keepsD [OF lock_ops_inv(4) _ released.hyps(2)] released.prems by (simp add: world_inv_def)
  moreover have ok: "handle_ok db' x" if "x \<in> set hs" for x
    using act_keepsD [OF lock_ops_handle(3) _ released.hyps(2)] released.prems that by (auto simp: world_inv_def)
  moreover have "handle_ok db' h'"
    using ok [OF released.hyps(1)] release_handle [OF released.hyps(2)] handle_ok_same by blast
  ultimately show ?case by (auto simp: world_inv_def)
next
  case (operator db hs key runId force reason releasedBy now)
  then show ?case
    using act_keeps_snd [OF lock_ops_inv(5)] act_keeps_snd [OF lock_ops_handle(4)] by (auto simp: world_inv_def)
next
  case (repaired db hs dry lockId now)
  then show ?case
    using act_keeps_snd [OF lock_ops_inv(7)] act_keeps_snd [OF lock_ops_handle(5)] by (auto simp: world_inv_def)
next
  case (recorded_lease db hs leases)
  then show ?case by (simp add: world_inv_def lock_inv_def handle_ok_def)
qed

lemma lock_step_over: "lock_step s s' \<Longrightarrow> lease_over n (fst s) \<Longrightarrow> lease_over n (fst s')"
proof (induction rule: lock_step.induct)
  case (recorded_lease db hs leases)
  then show ?case by (simp add: lease_over_def)
qed (auto dest: act_keepsD [OF lock_ops_over(1)] act_keepsD [OF lock_ops_over(3)]
    intro: act_keeps_snd [OF lock_ops_over(2)] act_keeps_snd [OF lock_ops_over(4)] act_keeps_snd [OF lock_ops_over(5)])

interpretation locks: step_machine "\<lambda>s. s = (no_locks, [])" lock_step world_inv
proof
  show "world_inv s" if "s = (no_locks, [])" for s
    using that by (simp add: world_inv_def no_locks_def lock_inv_def)
qed (rule lock_step_inv)

interpretation lease: step_machine "\<lambda>s. lease_over n (fst s)" lock_step "\<lambda>s. lease_over n (fst s)" for n
  by unfold_locales (auto intro: lock_step_over)

text \<open>
  C16: mutual exclusion. In every reachable state, whatever the interleaving of the processes, two handles on
  one domain that both pass \<open>assertHeld\<close> are the same lease.
\<close>

theorem lock_mutual_exclusion:
  assumes "reach (\<lambda>s. s = (no_locks, [])) lock_step (db, hs)"
    and "h1 \<in> set hs" "h2 \<in> set hs" "ao_domainKey (lh_opts h1) = ao_domainKey (lh_opts h2)"
    and "assertHeld h1 t1 db = (Inr (), db)" "assertHeld h2 t2 db = (Inr (), db)"
  shows "lh_lockId h1 = lh_lockId h2"
proof -
  have inv: "world_inv (db, hs)" using assms(1) by (rule locks.reach_inv)
  have row: "\<exists>r \<in> set (ld_locks db). dl_lockId r = lh_lockId h \<and> lock_active r \<and> dl_domainKey r = ao_domainKey (lh_opts h)"
    if held: "assertHeld h t db = (Inr (), db)" and mem: "h \<in> set hs" for h t
  proof -
    obtain r where r: "r \<in> set (ld_locks db)" "held_row h r"
      using held by (auto simp: assertHeld_def act_simps split: if_splits)
    obtain q where q: "q \<in> set (ld_locks db)" "dl_lockId q = lh_lockId h" "dl_domainKey q = ao_domainKey (lh_opts h)"
      using inv mem by (auto simp: world_inv_def handle_ok_def)
    have "r = q" using inv r q by (auto simp: world_inv_def lock_inv_def held_row_def distinct_map inj_on_def)
    then show ?thesis using r q by (auto simp: held_row_def)
  qed
  obtain r1 r2 where "r1 \<in> set (ld_locks db)" "r2 \<in> set (ld_locks db)" "lock_active r1" "lock_active r2"
      "dl_domainKey r1 = dl_domainKey r2" "dl_lockId r1 = lh_lockId h1" "dl_lockId r2 = lh_lockId h2"
    using row [OF assms(5,2)] row [OF assms(6,3)] assms(4) by auto
  then show ?thesis using active_unique [of db r1 r2] inv by (simp add: world_inv_def)
qed

lemma ex_locked_reach:
  "reach (\<lambda>s. s = (no_locks, [])) lock_step
     (ex_locked, [\<lparr>lh_lockId = 1, lh_opts = ex_opts ''r1'', lh_released = False\<rparr>])"
proof -
  have "fst (acquireDomainLock (Some (Some 100)) (ex_opts ''r1'') 1000 True no_locks)
      = Inr \<lparr>lh_lockId = 1, lh_opts = ex_opts ''r1'', lh_released = False\<rparr>" by code_simp
  then have "acquireDomainLock (Some (Some 100)) (ex_opts ''r1'') 1000 True no_locks
      = (Inr \<lparr>lh_lockId = 1, lh_opts = ex_opts ''r1'', lh_released = False\<rparr>, ex_locked)"
    unfolding ex_locked_def by (metis prod.collapse)
  moreover have "reach (\<lambda>s. s = (no_locks, [])) lock_step (no_locks, [])" by (rule reach_init) (rule refl)
  ultimately show ?thesis using reach_step lock_step.acquired by metis
qed

theorem lock_mutual_exclusion_witness:
  "let h = \<lparr>lh_lockId = 1, lh_opts = ex_opts ''r1'', lh_released = False\<rparr>
   in assertHeld h 1050 ex_locked = (Inr (), ex_locked) \<and> lh_lockId h = lh_lockId h"
proof -
  let ?h = "\<lparr>lh_lockId = 1, lh_opts = ex_opts ''r1'', lh_released = False\<rparr>"
  have "assertHeld ?h 1050 ex_locked = (Inr (), ex_locked)" by code_simp
  with lock_mutual_exclusion [OF ex_locked_reach, of ?h ?h 1050 1050] show ?thesis by (simp add: Let_def)
qed

lemma over_refused:
  assumes "lease_over (lh_lockId h) db"
  shows "assertHeld h t db = (Inl (Lease_guard_failed (ao_runId (lh_opts h))), db)"
    and "\<not> lh_released h \<Longrightarrow> heartbeat env h t db = (Inl (Lease_lost (ao_domainKey (lh_opts h)) (lh_lockId h)), db)"
  using assms by (auto simp: assertHeld_def heartbeat_def act_simps lease_over_def held_row_def)

text \<open>
  C15: fencing. When a process acquires the lock of a domain, its token is larger than that of every handle
  given out before, and from then on, in every state that follows, each earlier handle of that domain
  fails \<open>assertHeld\<close> and its heartbeat reports the lease as lost: a process that slept through its lease
  cannot win it back.
\<close>

theorem fencing_token:
  assumes "reach (\<lambda>s. s = (no_locks, [])) lock_step (db, hs)"
    and "acquireDomainLock env opts now recorded db = (Inr h, db')"
    and "old \<in> set hs" "ao_domainKey (lh_opts old) = ao_domainKey opts"
    and "lock_step\<^sup>*\<^sup>* (db', h # hs) (db2, hs2)"
  shows "lh_lockId old < lh_lockId h
    \<and> assertHeld old t db2 = (Inl (Lease_guard_failed (ao_runId (lh_opts old))), db2)
    \<and> (\<not> lh_released old \<longrightarrow>
        heartbeat env2 old t db2 = (Inl (Lease_lost (ao_domainKey opts) (lh_lockId old)), db2))"
proof -
  have inv: "world_inv (db, hs)" using assms(1) by (rule locks.reach_inv)
  then have linv: "lock_inv db" by (simp add: world_inv_def)
  have inv': "world_inv (db', h # hs)" using lock_step_inv [OF lock_step.acquired [OF assms(2)] inv] .
  have new: "lh_lockId h = Suc (ld_seq db)" by (rule acquired_row(1) [OF linv assms(2)])
  obtain q where q: "q \<in> set (ld_locks db)" "dl_lockId q = lh_lockId old"
    using inv assms(3) by (auto simp: world_inv_def handle_ok_def)
  then have less: "lh_lockId old < lh_lockId h" using linv new by (auto simp: lock_inv_def)
  obtain r where "active_lock db' (ao_domainKey opts) = Some r" "dl_lockId r = lh_lockId h"
    using acquired_row(3) [OF linv assms(2)] by blast
  note r = active_lock_Some [OF this(1)] this(2)
  have "lease_over (lh_lockId old) db'"
  proof -
    obtain o' where o': "o' \<in> set (ld_locks db')" "dl_lockId o' = lh_lockId old" "dl_domainKey o' = ao_domainKey opts"
      using inv' assms(3,4) by (auto simp: world_inv_def handle_ok_def)
    have "\<not> lock_active o'"
      using active_unique [of db' r o'] inv' r o' less by (auto simp: world_inv_def)
    moreover have "x = o'" if "x \<in> set (ld_locks db')" "dl_lockId x = lh_lockId old" for x
      using inv' o' that by (auto simp: world_inv_def lock_inv_def distinct_map inj_on_def)
    moreover have "lh_lockId old \<le> ld_seq db'" using inv' o' by (auto simp: world_inv_def lock_inv_def)
    ultimately show ?thesis by (auto simp: lease_over_def)
  qed
  then have "lease_over (lh_lockId old) db2" using lease.steps_inv [OF assms(5)] by simp
  then show ?thesis using less over_refused assms(4) by auto
qed

theorem fencing_token_witness:
  "\<exists>h db'. acquireDomainLock None (ex_opts ''r2'') 1200 True ex_locked = (Inr h, db')
    \<and> assertHeld \<lparr>lh_lockId = 1, lh_opts = ex_opts ''r1'', lh_released = False\<rparr> 1201 db'
       = (Inl (Lease_guard_failed ''r1''), db')"
proof -
  let ?old = "\<lparr>lh_lockId = 1, lh_opts = ex_opts ''r1'', lh_released = False\<rparr>"
  have "case acquireDomainLock None (ex_opts ''r2'') 1200 True ex_locked of (Inr _, _) \<Rightarrow> True | _ \<Rightarrow> False"
    by code_simp
  then obtain h db' where run: "acquireDomainLock None (ex_opts ''r2'') 1200 True ex_locked = (Inr h, db')"
    by (auto split: prod.splits sum.splits)
  from fencing_token [OF ex_locked_reach run, of ?old db' "[h, ?old]" 1201] run
  show ?thesis by (auto simp: ex_opts_def)
qed

end
