(* ===== verification/Operations_Ledger.thy ===== *)
theory Operations_Ledger
  imports Harness_Prelude
begin

text \<open>
  The operations ledger of \<open>src/db/repositories/operations.ts\<close> and the runner of
  \<open>src/operations/operation-runner.ts\<close>, the single entry point of mutating commands. The tables are the first
  fields of an extensible record, so that the work of an operation may change the rest of the state. The
  lemmas say that the ledger stays well formed and that an idempotency key runs its work once: a later
  call with the same key returns the recorded result, or the recorded failure, and runs nothing.
\<close>

section \<open>Rows\<close>

datatype operation_status = Op_pending | Op_running | Op_succeeded | Op_failed | Op_cancelled

record operation_record =
  op_operationId :: string
  op_command :: string
  op_scopeType :: string
  op_scopeId :: string
  op_operationType :: "string option"
  op_targetType :: "string option"
  op_targetId :: "string option"
  op_actor :: "string option"
  op_idempotencyKey :: "string option"
  op_dryRun :: bool
  op_status :: operation_status
  op_inputJson :: "json option"
  op_resultJson :: "json option"
  op_errorCode :: "string option"
  op_errorMessage :: "string option"
  op_createdAt :: timestamp
  op_startedAt :: "timestamp option"
  op_completedAt :: "timestamp option"
  op_metadataJson :: json

record operation_event =
  oe_operationId :: string
  oe_seq :: int
  oe_eventType :: string
  oe_message :: "string option"
  oe_dataJson :: json
  oe_createdAt :: timestamp

record op_db =
  od_operations :: "operation_record list"
  od_events :: "operation_event list"

text \<open>What a thrown value shows to the runner, and the errors of the ledger itself.\<close>

record js_error =
  je_code :: "string option"
  je_name :: "string option"
  je_message :: string

datatype op_failure =
    Work_threw js_error
  | Op_sql_unique string
  | Op_sql_foreign_key string
  | Operation_in_flight string
  | Operation_replayed_failure string operation_status "string option" "string option"

type_synonym ('z, 'a) op_act = "('z op_db_scheme, op_failure, 'a) act"

section \<open>The ledger\<close>

text \<open>\<open>JSON.stringify(x ?? {})\<close>, kept as the value it denotes; \<open>JNull\<close> stands for \<open>null\<close> and \<open>undefined\<close>.\<close>

definition or_empty :: "json \<Rightarrow> json" where
  "or_empty j = (if j = JNull then JObj [] else j)"

definition findOperation :: "'z op_db_scheme \<Rightarrow> string \<Rightarrow> operation_record option" where
  "findOperation s operationId = tbl_get op_operationId operationId (od_operations s)"

definition insert_operation :: "operation_record \<Rightarrow> ('z, unit) op_act" where
  "insert_operation row =
     act_bind (act_guard (\<lambda>s. \<not> tbl_has op_operationId (op_operationId row) (od_operations s))
       (Op_sql_unique ''operations.operation_id'')) (\<lambda>_.
     act_bind (act_guard (\<lambda>s. op_idempotencyKey row = None \<or> op_operationType row = None \<or> op_targetId row = None
         \<or> \<not> list_ex (\<lambda>r. op_operationType r = op_operationType row \<and> op_targetId r = op_targetId row
              \<and> op_idempotencyKey r = op_idempotencyKey row) (od_operations s))
       (Op_sql_unique ''operations.operation_type, operations.target_id, operations.idempotency_key'')) (\<lambda>_.
     act_modify (\<lambda>s. s\<lparr>od_operations := od_operations s @ [row]\<rparr>)))"

definition recordOperation ::
  "string \<Rightarrow> string \<Rightarrow> string \<Rightarrow> string \<Rightarrow> json option \<Rightarrow> timestamp \<Rightarrow> ('z, unit) op_act" where
  "recordOperation operationId command scopeType scopeId result now =
     insert_operation \<lparr>op_operationId = operationId, op_command = command, op_scopeType = scopeType,
       op_scopeId = scopeId, op_operationType = None, op_targetType = None, op_targetId = None, op_actor = None,
       op_idempotencyKey = None, op_dryRun = False, op_status = Op_succeeded, op_inputJson = None,
       op_resultJson = result, op_errorCode = None, op_errorMessage = None, op_createdAt = now,
       op_startedAt = None, op_completedAt = None, op_metadataJson = JObj []\<rparr>"

text \<open>\<open>ORDER BY created_at DESC LIMIT 1\<close>.\<close>

definition findOperationByIdempotency ::
  "'z op_db_scheme \<Rightarrow> string \<Rightarrow> string \<Rightarrow> string \<Rightarrow> operation_record option" where
  "findOperationByIdempotency s operationType targetId idempotencyKey =
     newest (\<lambda>a b. op_createdAt a > op_createdAt b)
       (filter (\<lambda>r. op_operationType r = Some operationType \<and> op_targetId r = Some targetId
          \<and> op_idempotencyKey r = Some idempotencyKey) (od_operations s))"

definition getOperation :: "'z op_db_scheme \<Rightarrow> string \<Rightarrow> operation_record option" where
  "getOperation s operationId = tbl_get op_operationId operationId (od_operations s)"

record list_operations_filter =
  lf_targetType :: "string option"
  lf_targetId :: "string option"
  lf_status :: "operation_status option"
  lf_limit :: "int option"

definition listOperations :: "'z op_db_scheme \<Rightarrow> list_operations_filter \<Rightarrow> operation_record list" where
  "listOperations s f =
     (let lim = max 1 (min 500 (or_else (lf_limit f) 100))
      in take (nat lim) (rev (sort_key op_createdAt (filter (\<lambda>r.
           (lf_targetType f = None \<or> op_targetType r = lf_targetType f)
           \<and> (lf_targetId f = None \<or> op_targetId r = lf_targetId f)
           \<and> (case lf_status f of None \<Rightarrow> True | Some st \<Rightarrow> op_status r = st)) (od_operations s)))))"

record start_operation_input =
  so_operationId :: string
  so_operationType :: string
  so_targetType :: string
  so_targetId :: string
  so_actor :: string
  so_idempotencyKey :: "string option"
  so_dryRun :: bool
  so_input :: json
  so_metadata :: json

definition started_row :: "start_operation_input \<Rightarrow> timestamp \<Rightarrow> operation_record" where
  "started_row inp now =
     \<lparr>op_operationId = so_operationId inp, op_command = so_operationType inp, op_scopeType = so_targetType inp,
      op_scopeId = so_targetId inp, op_operationType = Some (so_operationType inp),
      op_targetType = Some (so_targetType inp), op_targetId = Some (so_targetId inp), op_actor = Some (so_actor inp),
      op_idempotencyKey = so_idempotencyKey inp, op_dryRun = so_dryRun inp, op_status = Op_running,
      op_inputJson = Some (or_empty (so_input inp)), op_resultJson = None, op_errorCode = None,
      op_errorMessage = None, op_createdAt = now, op_startedAt = Some now, op_completedAt = None,
      op_metadataJson = or_empty (so_metadata inp)\<rparr>"

definition startOperation :: "start_operation_input \<Rightarrow> timestamp \<Rightarrow> ('z, operation_record option) op_act" where
  "startOperation inp now =
     act_bind (insert_operation (started_row inp now)) (\<lambda>_.
     act_get (\<lambda>s. getOperation s (so_operationId inp)))"

definition update_operation :: "string \<Rightarrow> (operation_record \<Rightarrow> operation_record) \<Rightarrow> ('z, unit) op_act" where
  "update_operation operationId f =
     act_modify (\<lambda>s. s\<lparr>od_operations := tbl_update op_operationId operationId f (od_operations s)\<rparr>)"

definition succeedOperation :: "string \<Rightarrow> json \<Rightarrow> timestamp \<Rightarrow> ('z, unit) op_act" where
  "succeedOperation operationId result now = update_operation operationId (\<lambda>r.
     r\<lparr>op_status := Op_succeeded, op_resultJson := Some (or_empty result), op_completedAt := Some now\<rparr>)"

definition markOperationPending :: "string \<Rightarrow> json \<Rightarrow> timestamp \<Rightarrow> ('z, unit) op_act" where
  "markOperationPending operationId result now = update_operation operationId (\<lambda>r.
     r\<lparr>op_status := Op_pending, op_resultJson := Some (or_empty result), op_completedAt := Some now\<rparr>)"

definition failOperation :: "string \<Rightarrow> string \<Rightarrow> string \<Rightarrow> timestamp \<Rightarrow> ('z, unit) op_act" where
  "failOperation operationId errorCode errorMessage now = update_operation operationId (\<lambda>r.
     r\<lparr>op_status := Op_failed, op_errorCode := Some errorCode, op_errorMessage := Some errorMessage,
       op_completedAt := Some now\<rparr>)"

definition next_seq :: "'z op_db_scheme \<Rightarrow> string \<Rightarrow> int" where
  "next_seq s operationId =
     max0 (map oe_seq (filter (\<lambda>e. oe_operationId e = operationId) (od_events s))) + 1"

definition appendOperationEvent ::
  "string \<Rightarrow> string \<Rightarrow> string option \<Rightarrow> json \<Rightarrow> timestamp \<Rightarrow> ('z, unit) op_act" where
  "appendOperationEvent operationId eventType message data now =
     act_bind (act_get (\<lambda>s. next_seq s operationId)) (\<lambda>seq.
     act_bind (act_guard (\<lambda>s. tbl_has op_operationId operationId (od_operations s))
       (Op_sql_foreign_key ''operation_events.operation_id'')) (\<lambda>_.
     act_bind (act_guard (\<lambda>s. \<not> list_ex (\<lambda>e. oe_operationId e = operationId \<and> oe_seq e = seq) (od_events s))
       (Op_sql_unique ''operation_events.operation_id, operation_events.seq'')) (\<lambda>_.
     act_modify (\<lambda>s. s\<lparr>od_events := od_events s @ [\<lparr>oe_operationId = operationId, oe_seq = seq,
       oe_eventType = eventType, oe_message = message, oe_dataJson = or_empty data, oe_createdAt = now\<rparr>]\<rparr>))))"

definition listOperationEvents :: "'z op_db_scheme \<Rightarrow> string \<Rightarrow> operation_event list" where
  "listOperationEvents s operationId = sort_key oe_seq (filter (\<lambda>e. oe_operationId e = operationId) (od_events s))"

section \<open>The runner\<close>

record 'z run_operation_options =
  ro_operationType :: string
  ro_targetType :: string
  ro_targetId :: string
  ro_actor :: string
  ro_idempotencyKey :: "string option"
  ro_dryRun :: bool
  ro_input :: json
  ro_metadata :: json
  ro_pendingExternalExecutor :: bool
  ro_beforeStart :: "('z, unit) op_act option"

record operation_run_outcome =
  rr_operation :: "operation_record option"
  rr_result :: "json option"
  rr_replayed :: bool

datatype reservation = Replay operation_run_outcome | Started

definition start_input :: "'z run_operation_options \<Rightarrow> string \<Rightarrow> start_operation_input" where
  "start_input opts operationId =
     \<lparr>so_operationId = operationId, so_operationType = ro_operationType opts,
      so_targetType = ro_targetType opts, so_targetId = ro_targetId opts, so_actor = ro_actor opts,
      so_idempotencyKey = ro_idempotencyKey opts, so_dryRun = ro_dryRun opts, so_input = ro_input opts,
      so_metadata = ro_metadata opts\<rparr>"

text \<open>The transaction that looks the key up and, when it is new, takes it.\<close>

definition begin_operation :: "'z run_operation_options \<Rightarrow> string \<Rightarrow> timestamp \<Rightarrow> ('z, reservation) op_act" where
  "begin_operation opts operationId now =
     act_bind (case ro_beforeStart opts of None \<Rightarrow> act_return () | Some guard \<Rightarrow> guard) (\<lambda>_.
     act_bind (startOperation (start_input opts operationId) now) (\<lambda>_.
     act_bind (appendOperationEvent operationId ''started'' None
        (JObj [(''operationType'', JStr (ro_operationType opts)), (''dryRun'', JBool (ro_dryRun opts))]) now) (\<lambda>_.
     act_return Started)))"

definition reserveOperation :: "'z run_operation_options \<Rightarrow> string \<Rightarrow> timestamp \<Rightarrow> ('z, reservation) op_act" where
  "reserveOperation opts operationId now = act_atomically (
     act_bind (act_get (\<lambda>s. case ro_idempotencyKey opts of None \<Rightarrow> None
       | Some key \<Rightarrow> findOperationByIdempotency s (ro_operationType opts) (ro_targetId opts) key)) (\<lambda>prior.
     case prior of
       Some p \<Rightarrow>
         if op_status p = Op_running then act_throw (Operation_in_flight (op_operationId p))
         else if op_status p = Op_failed \<or> op_status p = Op_cancelled then
           act_throw (Operation_replayed_failure (op_operationId p) (op_status p) (op_errorCode p) (op_errorMessage p))
         else act_return (Replay \<lparr>rr_operation = Some p, rr_result = op_resultJson p, rr_replayed = True\<rparr>)
     | None \<Rightarrow> begin_operation opts operationId now))"

definition failure_code :: "op_failure \<Rightarrow> string" where
  "failure_code e = (case e of
     Work_threw j \<Rightarrow> or_else (je_code j) (or_else (je_name j) ''internal_error'')
   | Op_sql_unique c \<Rightarrow>
       if c = ''operations.operation_id'' then ''SQLITE_CONSTRAINT_PRIMARYKEY'' else ''SQLITE_CONSTRAINT_UNIQUE''
   | Op_sql_foreign_key _ \<Rightarrow> ''SQLITE_CONSTRAINT_FOREIGNKEY''
   | Operation_in_flight _ \<Rightarrow> ''OperationInFlightError''
   | Operation_replayed_failure _ _ _ _ \<Rightarrow> ''OperationReplayedFailureError'')"

text \<open>The messages of the ledger's own errors (\<open>SqliteError\<close> and the two classes) are an argument.\<close>

definition failure_message :: "(op_failure \<Rightarrow> string) \<Rightarrow> op_failure \<Rightarrow> string" where
  "failure_message msg e = (case e of Work_threw j \<Rightarrow> je_message j | _ \<Rightarrow> msg e)"

definition finishOperation :: "'z run_operation_options \<Rightarrow> string \<Rightarrow> json \<Rightarrow> timestamp \<Rightarrow> ('z, operation_run_outcome) op_act" where
  "finishOperation opts operationId result now =
     act_bind (if ro_pendingExternalExecutor opts
       then act_bind (markOperationPending operationId result now)
         (\<lambda>_. appendOperationEvent operationId ''accepted'' None (JObj []) now)
       else act_bind (succeedOperation operationId result now)
         (\<lambda>_. appendOperationEvent operationId ''succeeded'' None (JObj []) now)) (\<lambda>_.
     act_get (\<lambda>s. \<lparr>rr_operation = getOperation s operationId, rr_result = Some result, rr_replayed = False\<rparr>))"

definition abandonOperation :: "(op_failure \<Rightarrow> string) \<Rightarrow> string \<Rightarrow> op_failure \<Rightarrow> timestamp \<Rightarrow> ('z, 'a) op_act" where
  "abandonOperation msg operationId e now =
     act_bind (failOperation operationId (failure_code e) (failure_message msg e) now) (\<lambda>_.
     act_bind (appendOperationEvent operationId ''failed'' (Some (failure_message msg e)) (JObj []) now) (\<lambda>_.
     act_throw e))"

text \<open>\<open>now\<close> is the reading of the clock at the reservation, \<open>later\<close> at the end.\<close>

definition runOperation ::
  "(op_failure \<Rightarrow> string) \<Rightarrow> 'z run_operation_options \<Rightarrow> (string \<Rightarrow> ('z, json) op_act) \<Rightarrow> string \<Rightarrow> timestamp \<Rightarrow> timestamp
     \<Rightarrow> ('z, operation_run_outcome) op_act" where
  "runOperation msg opts work operationId now later =
     act_bind (reserveOperation opts operationId now) (\<lambda>r.
       case r of
         Replay outcome \<Rightarrow> act_return outcome
       | Started \<Rightarrow> (\<lambda>s.
           case act_bind (work operationId) (\<lambda>result. finishOperation opts operationId result later) s of
             (Inr outcome, s') \<Rightarrow> (Inr outcome, s')
           | (Inl e, s') \<Rightarrow> abandonOperation msg operationId e later s'))"

section \<open>The ledger stays well formed\<close>

text \<open>Operation ids are unique, an idempotency key names one operation, and events belong to operations and
  are numbered apart.\<close>

definition same_key :: "operation_record \<Rightarrow> operation_record \<Rightarrow> bool" where
  "same_key a b \<longleftrightarrow> op_idempotencyKey a \<noteq> None \<and> op_operationType a \<noteq> None \<and> op_targetId a \<noteq> None
     \<and> op_operationType b = op_operationType a \<and> op_targetId b = op_targetId a \<and> op_idempotencyKey b = op_idempotencyKey a"

definition op_inv :: "'z op_db_scheme \<Rightarrow> bool" where
  "op_inv s \<longleftrightarrow> distinct (map op_operationId (od_operations s))
     \<and> (\<forall>a \<in> set (od_operations s). \<forall>b \<in> set (od_operations s). same_key a b \<longrightarrow> a = b)
     \<and> (\<forall>e \<in> set (od_events s). tbl_has op_operationId (oe_operationId e) (od_operations s))
     \<and> distinct (map (\<lambda>e. (oe_operationId e, oe_seq e)) (od_events s))"

text \<open>
  The steps of other processes: any call of the ledger that finalises an operation \<open>P\<close> allows, and any change
  of the rest of the state.
\<close>

inductive op_step :: "(string \<Rightarrow> bool) \<Rightarrow> 'z op_db_scheme \<Rightarrow> 'z op_db_scheme \<Rightarrow> bool" for P where
  op_record: "op_step P s (snd (recordOperation i c t j r now s))"
| op_start: "op_step P s (snd (startOperation inp now s))"
| op_succeed: "P i \<Longrightarrow> op_step P s (snd (succeedOperation i res now s))"
| op_mark_pending: "P i \<Longrightarrow> op_step P s (snd (markOperationPending i res now s))"
| op_fail: "P i \<Longrightarrow> op_step P s (snd (failOperation i code m now s))"
| op_append: "op_step P s (snd (appendOperationEvent i ty m d now s))"
| op_rest: "od_operations s' = od_operations s \<Longrightarrow> od_events s' = od_events s \<Longrightarrow> op_step P s s'"

inductive_cases op_stepE: "op_step P s s'"

text \<open>What each call leaves behind.\<close>

lemma insert_operation_run:
  "insert_operation row s =
     (if tbl_has op_operationId (op_operationId row) (od_operations s)
      then (Inl (Op_sql_unique ''operations.operation_id''), s)
      else if list_ex (\<lambda>r. same_key row r) (od_operations s)
      then (Inl (Op_sql_unique ''operations.operation_type, operations.target_id, operations.idempotency_key''), s)
      else (Inr (), s\<lparr>od_operations := od_operations s @ [row]\<rparr>))"
  by (auto simp: insert_operation_def act_simps same_key_def list_ex_iff)

lemma startOperation_run:
  "snd (startOperation inp now s) = snd (insert_operation (started_row inp now) s)"
  "fst (startOperation inp now s) = Inl e \<longleftrightarrow> fst (insert_operation (started_row inp now) s) = Inl e"
  by (auto simp: startOperation_def act_bind_def act_get_def split: prod.splits sum.splits)

lemma next_seq_fresh: "e \<in> set (od_events s) \<Longrightarrow> oe_operationId e = i \<Longrightarrow> oe_seq e < next_seq s i"
  using max0_ge [of "oe_seq e" "map oe_seq (filter (\<lambda>e. oe_operationId e = i) (od_events s))"]
  by (simp add: next_seq_def)

lemma appendOperationEvent_run:
  "appendOperationEvent i ty m d now s =
     (if tbl_has op_operationId i (od_operations s) then
        (Inr (), s\<lparr>od_events := od_events s @ [\<lparr>oe_operationId = i, oe_seq = next_seq s i, oe_eventType = ty,
           oe_message = m, oe_dataJson = or_empty d, oe_createdAt = now\<rparr>]\<rparr>)
      else (Inl (Op_sql_foreign_key ''operation_events.operation_id''), s))"
proof -
  have "\<not> list_ex (\<lambda>e. oe_operationId e = i \<and> oe_seq e = next_seq s i) (od_events s)"
    using next_seq_fresh [of _ s i] by (fastforce simp: list_ex_iff)
  then show ?thesis by (simp add: appendOperationEvent_def act_simps)
qed

lemma op_inv_insert:
  assumes "op_inv s"
  shows "op_inv (snd (insert_operation row s))"
  using assms unfolding insert_operation_run op_inv_def same_key_def
  by (auto simp: list_ex_iff tbl_has_def)

lemma op_inv_update:
  assumes "op_inv s" "\<And>r. op_operationId (f r) = op_operationId r" "\<And>r. op_operationType (f r) = op_operationType r"
    "\<And>r. op_targetId (f r) = op_targetId r" "\<And>r. op_idempotencyKey (f r) = op_idempotencyKey r"
  shows "op_inv (snd (update_operation i f s))"
proof -
  let ?g = "\<lambda>r. if op_operationId r = i then f r else r"
  have key: "same_key (?g a) (?g b) = same_key a b" for a b
    using assms(2-5) by (simp add: same_key_def)
  have ids: "map op_operationId (tbl_update op_operationId i f rows) = map op_operationId rows" for rows
    using assms(2) by (simp add: map_tbl_update_same)
  have "\<forall>a \<in> set (od_operations s). \<forall>b \<in> set (od_operations s). same_key (?g a) (?g b) \<longrightarrow> ?g a = ?g b"
    using assms(1) unfolding op_inv_def key by auto
  then have keys: "\<forall>a \<in> set (tbl_update op_operationId i f (od_operations s)).
      \<forall>b \<in> set (tbl_update op_operationId i f (od_operations s)). same_key a b \<longrightarrow> a = b"
    unfolding tbl_update_def set_map by blast
  have has: "tbl_has op_operationId j (tbl_update op_operationId i f (od_operations s))
      \<longleftrightarrow> tbl_has op_operationId j (od_operations s)" for j
    unfolding tbl_has_def ids ..
  show ?thesis
    using assms(1) keys unfolding op_inv_def update_operation_def act_unfold by (simp add: ids has)
qed

lemma op_inv_append: "op_inv s \<Longrightarrow> op_inv (snd (appendOperationEvent i ty m d now s))"
proof -
  assume inv: "op_inv s"
  have "(i, next_seq s i) \<notin> (\<lambda>e. (oe_operationId e, oe_seq e)) ` set (od_events s)"
    by (auto dest: next_seq_fresh)
  then show ?thesis using inv unfolding appendOperationEvent_run op_inv_def by simp
qed

lemmas finalise_defs = succeedOperation_def markOperationPending_def failOperation_def

lemma op_step_inv: "op_step P s s' \<Longrightarrow> op_inv s \<Longrightarrow> op_inv s'"
  by (erule op_stepE)
    (auto simp: recordOperation_def startOperation_run finalise_defs op_inv_insert op_inv_append
      intro!: op_inv_update, auto simp: op_inv_def)

interpretation ops: step_machine op_inv "op_step P" op_inv for P
  by unfold_locales (auto intro: op_step_inv)

text \<open>A row whose operation is not finalised stays as it is.\<close>

lemma op_step_row:
  "op_step P s s' \<Longrightarrow> \<not> P i \<Longrightarrow> getOperation s i = Some r \<Longrightarrow> getOperation s' i = Some r"
  by (erule op_stepE)
    (auto simp: recordOperation_def startOperation_run finalise_defs insert_operation_run appendOperationEvent_run
      getOperation_def update_operation_def act_unfold tbl_get_append tbl_get_update)

lemma op_steps_row:
  "(op_step P)\<^sup>*\<^sup>* s s' \<Longrightarrow> \<not> P i \<Longrightarrow> getOperation s i = Some r \<Longrightarrow> getOperation s' i = Some r"
  by (induction rule: rtranclp_induct) (auto intro: op_step_row)

section \<open>A key runs its work once\<close>

lemma finished_lookup:
  assumes "op_inv s" "getOperation s i = Some r" "op_operationType r = Some ty" "op_targetId r = Some t"
    "op_idempotencyKey r = Some k"
  shows "findOperationByIdempotency s ty t k = Some r"
proof -
  have mem: "r \<in> set (od_operations s)" using assms(2) by (auto simp: getOperation_def dest: tbl_get_SomeD)
  let ?rows = "filter (\<lambda>r. op_operationType r = Some ty \<and> op_targetId r = Some t \<and> op_idempotencyKey r = Some k)
    (od_operations s)"
  have "x = r" if "x \<in> set ?rows" for x
  proof -
    from that assms(3-5) have "x \<in> set (od_operations s)" "same_key x r" by (auto simp: same_key_def)
    with assms(1) mem show ?thesis unfolding op_inv_def by blast
  qed
  then have single: "newest newer ?rows = Some b \<Longrightarrow> b = r" for newer b by (blast dest: newest_mem)
  have "r \<in> set ?rows" using mem assms(3-5) by simp
  then have "newest newer ?rows \<noteq> None" for newer unfolding newest_None_iff by force
  with single show ?thesis unfolding findOperationByIdempotency_def by blast
qed

lemma startOperation_ok:
  "startOperation inp now s = (Inr r, s') \<Longrightarrow>
   \<not> tbl_has op_operationId (so_operationId inp) (od_operations s) \<and> insert_operation (started_row inp now) s = (Inr (), s')
   \<and> s' = s\<lparr>od_operations := od_operations s @ [started_row inp now]\<rparr>"
  by (auto simp: startOperation_def act_bind_def act_get_def insert_operation_run started_row_def split: if_splits)

lemma begin_operation_ok:
  assumes "begin_operation opts i now s = (Inr x, s1)"
  obtains s0 ev where "(case ro_beforeStart opts of None \<Rightarrow> act_return () | Some g \<Rightarrow> g) s = (Inr (), s0)"
    "\<not> tbl_has op_operationId i (od_operations s0)"
    "op_inv s0 \<longrightarrow> op_inv s1"
    "s1 = s0\<lparr>od_operations := od_operations s0 @ [started_row (start_input opts i) now], od_events := ev\<rparr>"
proof -
  let ?inp = "start_input opts i"
  obtain s0 s2 r where guard: "(case ro_beforeStart opts of None \<Rightarrow> act_return () | Some g \<Rightarrow> g) s = (Inr (), s0)"
    and start: "startOperation ?inp now s0 = (Inr r, s2)"
    and append: "appendOperationEvent i ''started'' None (JObj [(''operationType'', JStr (ro_operationType opts)),
        (''dryRun'', JBool (ro_dryRun opts))]) now s2 = (Inr (), s1)"
    using assms unfolding begin_operation_def
    by (auto simp: act_bind_def act_return_def split: prod.splits sum.splits)
  note ins = startOperation_ok [OF start]
  have "so_operationId ?inp = i" by (simp add: start_input_def)
  moreover have "op_inv s1" if "op_inv s0"
  proof -
    have "op_inv s2" using op_inv_insert [OF that, of "started_row ?inp now"] ins by simp
    from op_inv_append [OF this] append show ?thesis by (metis snd_conv)
  qed
  moreover obtain ev where "s1 = s2\<lparr>od_events := ev\<rparr>"
    using append by (auto simp: appendOperationEvent_run split: if_splits)
  ultimately show thesis using that [OF guard] ins by auto
qed

lemma start_row_fields [simp]:
  "op_operationId (started_row (start_input opts i) now) = i"
  "op_operationType (started_row (start_input opts i) now) = Some (ro_operationType opts)"
  "op_targetId (started_row (start_input opts i) now) = Some (ro_targetId opts)"
  "op_idempotencyKey (started_row (start_input opts i) now) = ro_idempotencyKey opts"
  by (simp_all add: started_row_def start_input_def)

lemma reserve_started:
  assumes "reserveOperation opts i now s = (Inr Started, s1)" "op_inv s"
    "\<And>g. ro_beforeStart opts = Some g \<Longrightarrow> act_keeps op_inv g"
  shows "op_inv s1" "getOperation s1 i = Some (started_row (start_input opts i) now)"
proof -
  have "begin_operation opts i now s = (Inr Started, s1)"
    using assms(1) unfolding reserveOperation_def act_atomically_ok
    by (auto simp: act_simps split: option.splits if_splits)
  from begin_operation_ok [OF this] obtain s0 ev where
    run: "(case ro_beforeStart opts of None \<Rightarrow> act_return () | Some g \<Rightarrow> g) s = (Inr (), s0)"
      "\<not> tbl_has op_operationId i (od_operations s0)" "op_inv s0 \<longrightarrow> op_inv s1"
      "s1 = s0\<lparr>od_operations := od_operations s0 @ [started_row (start_input opts i) now], od_events := ev\<rparr>" .
  have "op_inv s0" using run(1) assms(2,3) by (auto simp: act_simps split: option.splits dest: act_keepsD)
  then show "op_inv s1" using run(3) by blast
  show "getOperation s1 i = Some (started_row (start_input opts i) now)"
    using run(2,4) by (simp add: getOperation_def tbl_get_insert_new)
qed

text \<open>How a started call ends, given that its work leaves the operation's own row alone.\<close>

definition leaves_own_row :: "(string \<Rightarrow> ('z, json) op_act) \<Rightarrow> bool" where
  "leaves_own_row work \<longleftrightarrow> (\<forall>i s. (op_step (\<lambda>j. j \<noteq> i))\<^sup>*\<^sup>* s (snd (work i s)))"

definition finished_row :: "'z run_operation_options \<Rightarrow> (op_failure \<Rightarrow> string) \<Rightarrow> op_failure + json \<Rightarrow> timestamp
    \<Rightarrow> operation_record \<Rightarrow> operation_record" where
  "finished_row opts msg r later row = (case r of
     Inr result \<Rightarrow> row\<lparr>op_status := (if ro_pendingExternalExecutor opts then Op_pending else Op_succeeded),
       op_resultJson := Some (or_empty result), op_completedAt := Some later\<rparr>
   | Inl e \<Rightarrow> row\<lparr>op_status := Op_failed, op_errorCode := Some (failure_code e),
       op_errorMessage := Some (failure_message msg e), op_completedAt := Some later\<rparr>)"

lemma finished_row_fields [simp]:
  "op_operationId (finished_row opts msg r later row) = op_operationId row"
  "op_operationType (finished_row opts msg r later row) = op_operationType row"
  "op_targetId (finished_row opts msg r later row) = op_targetId row"
  "op_idempotencyKey (finished_row opts msg r later row) = op_idempotencyKey row"
  by (auto simp: finished_row_def split: sum.split)

lemma finalise_run:
  assumes "getOperation s i = Some row" "op_inv s"
    "\<And>r. op_operationId (f r) = op_operationId r" "\<And>r. op_operationType (f r) = op_operationType r"
    "\<And>r. op_targetId (f r) = op_targetId r" "\<And>r. op_idempotencyKey (f r) = op_idempotencyKey r"
  shows "\<exists>s'. act_bind (update_operation i f) (\<lambda>_. appendOperationEvent i ty m d now) s = (Inr (), s') \<and> op_inv s'
    \<and> getOperation s' i = Some (f row)"
proof -
  let ?s1 = "snd (update_operation i f s)"
  have inv: "op_inv ?s1" by (rule op_inv_update [OF assms(2-6)])
  have get: "getOperation ?s1 i = Some (f row)"
    using assms(1,3) by (simp add: getOperation_def update_operation_def act_unfold tbl_get_update)
  then have has: "tbl_has op_operationId i (od_operations ?s1)"
    unfolding getOperation_def tbl_has_get by blast
  have "act_bind (update_operation i f) (\<lambda>_. appendOperationEvent i ty m d now) s = appendOperationEvent i ty m d now ?s1"
    by (simp add: update_operation_def act_simps)
  moreover have "appendOperationEvent i ty m d now ?s1 = (Inr (), snd (appendOperationEvent i ty m d now ?s1))"
    using has by (simp add: appendOperationEvent_run)
  moreover have "getOperation (snd (appendOperationEvent i ty m d now ?s1)) i = Some (f row)"
    using get has by (simp add: appendOperationEvent_run getOperation_def)
  ultimately show ?thesis using op_inv_append [OF inv] by metis
qed

lemma started_call_ends:
  assumes "reserveOperation opts i now s = (Inr Started, s1)" "op_inv s"
    "\<And>g. ro_beforeStart opts = Some g \<Longrightarrow> act_keeps op_inv g" "leaves_own_row work"
    "runOperation msg opts work i now later s = (r, s2)"
  shows "op_inv s2 \<and> getOperation s2 i
      = Some (finished_row opts msg (fst (work i s1)) later (started_row (start_input opts i) now))
    \<and> (case fst (work i s1) of Inl e \<Rightarrow> r = Inl e | Inr result \<Rightarrow> (\<exists>o1. r = Inr o1 \<and> rr_result o1 = Some result))"
proof -
  let ?row = "started_row (start_input opts i) now"
  obtain w s1' where work: "work i s1 = (w, s1')" by (cases "work i s1")
  note start = reserve_started [OF assms(1-3)]
  have steps: "(op_step (\<lambda>j. j \<noteq> i))\<^sup>*\<^sup>* s1 s1'" using assms(4) work unfolding leaves_own_row_def by (metis snd_conv)
  have mid: "getOperation s1' i = Some ?row" "op_inv s1'"
    using op_steps_row [OF steps _ start(2)] ops.steps_inv [OF steps start(1)] by auto
  have run: "runOperation msg opts work i now later s =
      (case act_bind (\<lambda>_. (w, s1')) (\<lambda>result. finishOperation opts i result later) s1 of
         (Inr o1, s') \<Rightarrow> (Inr o1, s') | (Inl e, s') \<Rightarrow> abandonOperation msg i e later s')"
    by (simp add: runOperation_def act_bind_def assms(1) work)
  show ?thesis
  proof (cases w)
    case (Inl e)
    obtain s3 where s3: "act_bind (failOperation i (failure_code e) (failure_message msg e) later)
        (\<lambda>_. appendOperationEvent i ''failed'' (Some (failure_message msg e)) (JObj []) later) s1' = (Inr (), s3)"
      "op_inv s3" "getOperation s3 i = Some (finished_row opts msg w later ?row)"
      using finalise_run [OF mid, of "finished_row opts msg w later" "''failed''" "Some (failure_message msg e)" "JObj []" later] Inl
      unfolding failOperation_def finished_row_def by auto
    have "abandonOperation msg i e later s1' = (Inl e, s3)"
      using s3(1) unfolding abandonOperation_def
      by (auto simp: act_bind_def act_throw_def split: prod.splits sum.splits)
    then have "(r, s2) = (Inl e, s3)" using run assms(5) Inl by (simp add: act_bind_def)
    then show ?thesis using s3(2,3) Inl work by simp
  next
    case (Inr result)
    obtain s3 where s3: "(if ro_pendingExternalExecutor opts
        then act_bind (markOperationPending i result later) (\<lambda>_. appendOperationEvent i ''accepted'' None (JObj []) later)
        else act_bind (succeedOperation i result later) (\<lambda>_. appendOperationEvent i ''succeeded'' None (JObj []) later))
          s1' = (Inr (), s3)"
      "op_inv s3" "getOperation s3 i = Some (finished_row opts msg w later ?row)"
      using finalise_run [OF mid, of "finished_row opts msg w later"
        "if ro_pendingExternalExecutor opts then ''accepted'' else ''succeeded''" None "JObj []" later] Inr
      unfolding markOperationPending_def succeedOperation_def finished_row_def by (auto split: if_splits)
    then show ?thesis
      using run assms(5) Inr work by (auto simp: finishOperation_def act_bind_def act_get_def)
  qed
qed

text \<open>
  C37: an idempotency key runs its work once. Once a call has taken a key, its own work, whatever it does
  elsewhere, and any steps of other processes that do not finalise this very operation leave the outcome
  in place: every later call with the same operation type, target and key changes nothing, never runs the
  work it was given, and returns the recorded result, or fails with the recorded failure.
\<close>

theorem idempotent_replay:
  assumes "op_inv s" "ro_idempotencyKey opts = Some k"
    and "reserveOperation opts i now s = (Inr Started, s1)"
    and "\<And>g. ro_beforeStart opts = Some g \<Longrightarrow> act_keeps op_inv g" and "leaves_own_row work"
    and "runOperation msg opts work i now later s = (r, s2)"
    and "(op_step (\<lambda>j. j \<noteq> i))\<^sup>*\<^sup>* s2 s3"
    and "ro_operationType opts' = ro_operationType opts" "ro_targetId opts' = ro_targetId opts"
      "ro_idempotencyKey opts' = Some k"
  shows "\<exists>row. getOperation s3 i = Some row \<and> runOperation msg' opts' work' i' now' later' s3 =
    ((case fst (work i s1) of
        Inr result \<Rightarrow> Inr \<lparr>rr_operation = Some row, rr_result = Some (or_empty result), rr_replayed = True\<rparr>
      | Inl e \<Rightarrow> Inl (Operation_replayed_failure i Op_failed (Some (failure_code e)) (Some (failure_message msg e)))), s3)"
proof -
  let ?row = "finished_row opts msg (fst (work i s1)) later (started_row (start_input opts i) now)"
  note ended = started_call_ends [OF assms(3,1,4-6)]
  have inv: "op_inv s3" using ops.steps_inv [OF assms(7)] ended by blast
  have get: "getOperation s3 i = Some ?row" using op_steps_row [OF assms(7)] ended by blast
  have "findOperationByIdempotency s3 (ro_operationType opts) (ro_targetId opts) k = Some ?row"
    by (rule finished_lookup [OF inv get]) (simp_all add: assms(2))
  then have "runOperation msg' opts' work' i' now' later' s3 =
    ((case fst (work i s1) of
        Inr result \<Rightarrow> Inr \<lparr>rr_operation = Some ?row, rr_result = Some (or_empty result), rr_replayed = True\<rparr>
      | Inl e \<Rightarrow> Inl (Operation_replayed_failure i Op_failed (Some (failure_code e)) (Some (failure_message msg e)))), s3)"
    using assms(8-10)
    by (auto simp: runOperation_def reserveOperation_def act_bind_def act_atomically_def act_get_def act_throw_def
        act_return_def finished_row_def start_row_fields(1) split: sum.splits)
  with get show ?thesis by blast
qed

definition ex_options :: "unit run_operation_options" where
  "ex_options = \<lparr>ro_operationType = ''merge'', ro_targetType = ''pr'', ro_targetId = ''7'', ro_actor = ''cli'',
     ro_idempotencyKey = Some ''k'', ro_dryRun = False, ro_input = JNull, ro_metadata = JNull,
     ro_pendingExternalExecutor = False, ro_beforeStart = None\<rparr>"

definition ex_work :: "string \<Rightarrow> (unit, json) op_act" where
  "ex_work i = act_return (JStr ''merged'')"

definition ex_ledger :: op_db where
  "ex_ledger = \<lparr>od_operations = [], od_events = []\<rparr>"

theorem idempotent_replay_witness:
  "\<exists>row o1 s2. runOperation (\<lambda>_. []) ex_options ex_work ''op-1'' ''t1'' ''t2'' ex_ledger = (Inr o1, s2)
     \<and> rr_result o1 = Some (JStr ''merged'')
     \<and> runOperation (\<lambda>_. []) ex_options (\<lambda>_. act_throw (Op_sql_unique [])) ''op-2'' ''t3'' ''t4'' s2
       = (Inr \<lparr>rr_operation = Some row, rr_result = Some (JStr ''merged''), rr_replayed = True\<rparr>, s2)"
proof -
  let ?run = "runOperation (\<lambda>_. []) ex_options ex_work ''op-1'' ''t1'' ''t2'' ex_ledger"
  have inv: "op_inv ex_ledger" by (simp add: op_inv_def ex_ledger_def)
  have key: "ro_idempotencyKey ex_options = Some ''k''" "ro_beforeStart ex_options = None"
    by (simp_all add: ex_options_def)
  have work: "leaves_own_row ex_work" by (simp add: leaves_own_row_def ex_work_def act_return_def)
  have start: "reserveOperation ex_options ''op-1'' ''t1'' ex_ledger
      = (Inr Started, snd (reserveOperation ex_options ''op-1'' ''t1'' ex_ledger))"
    by (simp add: reserveOperation_def begin_operation_def startOperation_def insert_operation_run
        appendOperationEvent_run findOperationByIdempotency_def newest_def ex_options_def ex_ledger_def
        started_row_def start_input_def tbl_has_def act_simps act_bind_def)
  obtain r s2 where run: "?run = (r, s2)" by (cases ?run)
  have "\<exists>row. getOperation s2 ''op-1'' = Some row \<and>
      runOperation (\<lambda>_. []) ex_options (\<lambda>_. act_throw (Op_sql_unique [])) ''op-2'' ''t3'' ''t4'' s2 =
      ((case fst (ex_work ''op-1'' (snd (reserveOperation ex_options ''op-1'' ''t1'' ex_ledger))) of
          Inr result \<Rightarrow> Inr \<lparr>rr_operation = Some row, rr_result = Some (or_empty result), rr_replayed = True\<rparr>
        | Inl e \<Rightarrow> Inl (Operation_replayed_failure ''op-1'' Op_failed (Some (failure_code e))
            (Some (failure_message (\<lambda>_. []) e)))), s2)"
    by (rule idempotent_replay [OF inv key(1) start _ work run]) (simp_all add: key)
  then obtain row where row: "getOperation s2 ''op-1'' = Some row" and second:
    "runOperation (\<lambda>_. []) ex_options (\<lambda>_. act_throw (Op_sql_unique [])) ''op-2'' ''t3'' ''t4'' s2
      = (Inr \<lparr>rr_operation = Some row, rr_result = Some (JStr ''merged''), rr_replayed = True\<rparr>, s2)"
    by (auto simp: ex_work_def act_return_def or_empty_def)
  have "\<exists>o1. r = Inr o1 \<and> rr_result o1 = Some (JStr ''merged'')"
    using started_call_ends [OF start inv _ work run] key(2) by (simp add: ex_work_def act_return_def)
  then show ?thesis using second run by auto
qed

end
