(* ===== verification/Js_Values.thy ===== *)
theory Js_Values
  imports Harness_Prelude "HOL-Library.Log_Nat"
begin

text \<open>
  Values of JavaScript that the review components compute with: numbers (doubles, with NaN and the
  infinities, and the rounding of a division), the instants that \<open>Date.parse\<close> reads, the collections
  \<open>Set\<close> and \<open>Map\<close> in insertion order, and lines of text.
\<close>

section \<open>Numbers\<close>

text \<open>A double is a finite rational, NaN or an infinity.\<close>

datatype js_number = Fin rat | NaN | PosInf | NegInf

fun num_less :: "js_number \<Rightarrow> js_number \<Rightarrow> bool" where
  "num_less (Fin a) (Fin b) = (a < b)"
| "num_less (Fin _) PosInf = True"
| "num_less NegInf (Fin _) = True"
| "num_less NegInf PosInf = True"
| "num_less _ _ = False"

fun num_le :: "js_number \<Rightarrow> js_number \<Rightarrow> bool" where
  "num_le NaN _ = False"
| "num_le _ NaN = False"
| "num_le a b = (\<not> num_less b a)"

definition is_finite_number :: "js_number \<Rightarrow> bool" where
  "is_finite_number x = (case x of Fin _ \<Rightarrow> True | _ \<Rightarrow> False)"

definition is_integer_number :: "js_number \<Rightarrow> bool" where
  "is_integer_number x = (case x of Fin r \<Rightarrow> of_int \<lfloor>r\<rfloor> = r | _ \<Rightarrow> False)"

definition num_of_nat :: "nat \<Rightarrow> js_number" where
  "num_of_nat n = Fin (of_nat n)"

text \<open>\<open>Math.max\<close> of two arguments.\<close>

definition num_max :: "js_number \<Rightarrow> js_number \<Rightarrow> js_number" where
  "num_max a b = (if a = NaN \<or> b = NaN then NaN else if num_less a b then b else a)"

text \<open>Rounding to the nearest double, ties to the even significand: 53 bits, least exponent
  \<open>-1074\<close>, an infinity from \<open>2^1024\<close> on.\<close>

definition pow2 :: "int \<Rightarrow> rat" where
  "pow2 e = (if 0 \<le> e then 2 ^ nat e else 1 / 2 ^ nat (- e))"

definition log2_floor :: "rat \<Rightarrow> int" where
  "log2_floor x =
     (let (n, d) = quotient_of x; e = bitlen n - bitlen d
      in if pow2 e \<le> x then e else e - 1)"

definition round_even :: "rat \<Rightarrow> int" where
  "round_even x =
     (let f = \<lfloor>x\<rfloor>; d = x - of_int f
      in if d < 1 / 2 then f else if d > 1 / 2 then f + 1 else if even f then f else f + 1)"

definition round_double :: "rat \<Rightarrow> js_number" where
  "round_double x =
     (if x = 0 then Fin 0
      else let e = max (-1074) (log2_floor \<bar>x\<bar> - 52);
               m = round_even (\<bar>x\<bar> / pow2 e);
               r = of_int m * pow2 e
           in if 971 < e \<or> (e = 971 \<and> 2 ^ 53 \<le> m) then (if x < 0 then NegInf else PosInf)
              else Fin (if x < 0 then - r else r))"

text \<open>Division of finite numbers by a finite number other than zero.\<close>

definition num_div :: "rat \<Rightarrow> rat \<Rightarrow> js_number" where
  "num_div a b = round_double (a / b)"

lemma num_le_nat [simp]:
  "num_le (num_of_nat a) (num_of_nat b) \<longleftrightarrow> a \<le> b"
  "num_less (num_of_nat a) (num_of_nat b) \<longleftrightarrow> a < b"
  by (auto simp: num_of_nat_def)

lemma num_le_iff: "num_le a b \<longleftrightarrow> a \<noteq> NaN \<and> b \<noteq> NaN \<and> \<not> num_less b a"
  by (cases a; cases b) auto

lemma num_less_trans: "num_less a b \<Longrightarrow> num_less b c \<Longrightarrow> num_less a c"
  by (cases a; cases b; cases c) auto

lemma num_le_trans: "num_le a b \<Longrightarrow> num_le b c \<Longrightarrow> num_le a c"
  by (cases a; cases b; cases c) auto

section \<open>Instants\<close>

text \<open>
  \<open>Date.parse\<close> on the form that \<open>toISOString\<close> writes, \<open>YYYY-MM-DDThh:mm:ss.sssZ\<close>, in milliseconds since
  the epoch. What the engine makes of every other text is the argument \<open>other\<close>.
\<close>

definition digit_value :: "char \<Rightarrow> nat option" where
  "digit_value c = (let n = of_char c :: nat in if 48 \<le> n \<and> n \<le> 57 then Some (n - 48) else None)"

fun digits_value :: "nat \<Rightarrow> string \<Rightarrow> nat option" where
  "digits_value acc [] = Some acc"
| "digits_value acc (c # cs) =
     (case digit_value c of None \<Rightarrow> None | Some d \<Rightarrow> digits_value (10 * acc + d) cs)"

definition days_from_civil :: "int \<Rightarrow> int \<Rightarrow> int \<Rightarrow> int" where
  "days_from_civil y m d =
     (let y1 = (if m \<le> 2 then y - 1 else y); mp = (m + 9) mod 12
      in 365 * y1 + y1 div 4 - y1 div 100 + y1 div 400 + (153 * mp + 2) div 5 + d - 1 - 719468)"

definition parse_iso :: "string \<Rightarrow> int option" where
  "parse_iso s =
     (let part = (\<lambda>i n. digits_value 0 (take n (drop i s)))
      in if length s = 24 \<and> map ((!) s) [4, 7, 10, 13, 16, 19, 23] = ''--T::.Z'' then
           (case (part 0 4, part 5 2, part 8 2, part 11 2, part 14 2, part 17 2, part 20 3) of
              (Some y, Some m, Some d, Some h, Some mi, Some sec, Some ms) \<Rightarrow>
                if 1 \<le> m \<and> m \<le> 12 \<and> 1 \<le> d \<and> d \<le> 31 \<and> h \<le> 23 \<and> mi \<le> 59 \<and> sec \<le> 59 then
                  Some ((((days_from_civil (int y) (int m) (int d) * 24 + int h) * 60 + int mi) * 60 + int sec) * 1000
                    + int ms)
                else None
            | _ \<Rightarrow> None)
         else None)"

definition date_parse :: "(string \<Rightarrow> js_number) \<Rightarrow> string \<Rightarrow> js_number" where
  "date_parse other s = (case parse_iso s of Some ms \<Rightarrow> Fin (of_int ms) | None \<Rightarrow> other s)"

text \<open>\<open>new Date(ms).toISOString()\<close> for an integral time value in range; years outside 0 to 9999 are written
  with a sign and six digits.\<close>

definition civil_from_days :: "int \<Rightarrow> int \<times> int \<times> int" where
  "civil_from_days day =
     (let z = day + 719468; era = z div 146097; doe = z mod 146097;
          yoe = (doe - doe div 1460 + doe div 36524 - doe div 146096) div 365;
          doy = doe - (365 * yoe + yoe div 4 - yoe div 100);
          mp = (5 * doy + 2) div 153; d = doy - (153 * mp + 2) div 5 + 1;
          m = (if mp < 10 then mp + 3 else mp - 9)
      in (yoe + era * 400 + (if m \<le> 2 then 1 else 0), m, d))"

definition padded :: "nat \<Rightarrow> int \<Rightarrow> string" where
  "padded n i = (let s = js_nat (nat i) in replicate (n - length s) (CHR ''0'') @ s)"

definition year_text :: "int \<Rightarrow> string" where
  "year_text y = (if 0 \<le> y \<and> y \<le> 9999 then padded 4 y
     else (if y < 0 then ''-'' else ''+'') @ padded 6 \<bar>y\<bar>)"

definition to_iso :: "int \<Rightarrow> string" where
  "to_iso ms =
     (let (y, m, d) = civil_from_days (ms div 86400000); t = ms mod 86400000
      in year_text y @ ''-'' @ padded 2 m @ ''-'' @ padded 2 d @ ''T'' @ padded 2 (t div 3600000) @ '':''
         @ padded 2 (t div 60000 mod 60) @ '':'' @ padded 2 (t div 1000 mod 60) @ ''.'' @ padded 3 (t mod 1000) @ ''Z'')"

section \<open>Collections in insertion order\<close>

text \<open>The members of \<open>new Set(xs)\<close>: the first occurrences, in order.\<close>

definition js_set :: "'a list \<Rightarrow> 'a list" where
  "js_set xs = rev (remdups (rev xs))"

text \<open>The entries of the \<open>Map\<close> that collects the elements under each key.\<close>

definition group_by :: "('a \<Rightarrow> 'k) \<Rightarrow> 'a list \<Rightarrow> ('k \<times> 'a list) list" where
  "group_by key xs = map (\<lambda>k. (k, filter (\<lambda>x. key x = k) xs)) (js_set (map key xs))"

lemma set_js_set [simp]: "set (js_set xs) = set xs"
  by (simp add: js_set_def)

lemma distinct_js_set [simp]: "distinct (js_set xs)"
  by (simp add: js_set_def)

lemma js_set_distinct: "distinct xs \<Longrightarrow> js_set xs = xs"
  by (simp add: js_set_def distinct_remdups_id)

lemma length_js_set: "length (js_set xs) = card (set xs)"
  by (simp add: js_set_def length_remdups_card_conv)

lemma group_by_keys: "map fst (group_by key xs) = js_set (map key xs)"
  by (simp add: group_by_def comp_def)

lemma in_group_by: "(k, vs) \<in> set (group_by key xs) \<longleftrightarrow> k \<in> key ` set xs \<and> vs = filter (\<lambda>x. key x = k) xs"
  by (auto simp: group_by_def)

section \<open>Lines\<close>

text \<open>\<open>s.split("\n")\<close>\<close>

fun split_lines :: "string \<Rightarrow> string list" where
  "split_lines [] = [[]]"
| "split_lines (c # cs) =
     (if c = CHR 0x0A then [] # split_lines cs
      else (case split_lines cs of [] \<Rightarrow> [[c]] | l # ls \<Rightarrow> (c # l) # ls))"

definition trim_start :: "string \<Rightarrow> string" where
  "trim_start s = dropWhile is_ws s"

lemma split_lines_not_Nil [simp]: "split_lines s \<noteq> []"
  by (induction s) (auto split: list.splits)

lemma split_lines_no_newline: "l \<in> set (split_lines s) \<Longrightarrow> CHR 0x0A \<notin> set l"
  by (induction s arbitrary: l) (auto split: if_splits list.splits)

text \<open>Splitting and joining again gives the text back.\<close>

lemma js_join_Cons: "xs \<noteq> [] \<Longrightarrow> js_join sep (x # xs) = x @ sep @ js_join sep xs"
  by (cases xs) auto

lemma join_split_lines: "js_join [CHR 0x0A] (split_lines s) = s"
proof (induction s)
  case (Cons c cs)
  obtain l ls where ls: "split_lines cs = l # ls" by (cases "split_lines cs") auto
  with Cons show ?case by (cases ls) (auto simp: js_join_Cons)
qed simp

section \<open>Results\<close>

text \<open>Code that throws: the error, or the value; the first error ends the computation.\<close>

definition res_bind :: "'e + 'a \<Rightarrow> ('a \<Rightarrow> 'e + 'b) \<Rightarrow> 'e + 'b" where
  "res_bind m f = (case m of Inl e \<Rightarrow> Inl e | Inr x \<Rightarrow> f x)"

definition res_guard :: "bool \<Rightarrow> 'e \<Rightarrow> 'e + unit" where
  "res_guard b e = (if b then Inr () else Inl e)"

text \<open>\<open>xs.map((x, index) => ...)\<close> and a field that may be undefined.\<close>

fun res_map :: "(nat \<Rightarrow> 'a \<Rightarrow> 'e + 'b) \<Rightarrow> nat \<Rightarrow> 'a list \<Rightarrow> 'e + 'b list" where
  "res_map f i [] = Inr []"
| "res_map f i (x # xs) = res_bind (f i x) (\<lambda>y. res_bind (res_map f (Suc i) xs) (\<lambda>ys. Inr (y # ys)))"

definition res_opt :: "('a \<Rightarrow> 'e + 'b) \<Rightarrow> 'a option \<Rightarrow> 'e + 'b option" where
  "res_opt f x = (case x of None \<Rightarrow> Inr None | Some v \<Rightarrow> res_bind (f v) (\<lambda>y. Inr (Some y)))"

lemma res_bind_simps [simp]: "res_bind (Inl e) f = Inl e" "res_bind (Inr x) f = f x"
  by (simp_all add: res_bind_def)

lemma res_bind_Inr: "res_bind m f = Inr y \<longleftrightarrow> (\<exists>x. m = Inr x \<and> f x = Inr y)"
  by (cases m) auto

lemma res_guard_Inr [simp]: "res_guard b e = Inr u \<longleftrightarrow> b"
  by (simp add: res_guard_def)

lemma res_guard_True [simp]: "b \<Longrightarrow> res_guard b e = Inr ()"
  by (simp add: res_guard_def)

lemma res_opt_simps [simp]: "res_opt f None = Inr None" "res_opt f (Some v) = res_bind (f v) (\<lambda>y. Inr (Some y))"
  by (simp_all add: res_opt_def)

lemma res_opt_Inr:
  "res_opt f x = Inr y \<longleftrightarrow> (case x of None \<Rightarrow> y = None | Some v \<Rightarrow> \<exists>w. f v = Inr w \<and> y = Some w)"
  by (cases x) (auto simp: res_bind_Inr)

text \<open>A mapped validator that only returns what it was given.\<close>

lemma res_map_id:
  "(\<And>i x y. f i x = Inr y \<Longrightarrow> y = g x) \<Longrightarrow> res_map f i xs = Inr ys \<Longrightarrow> ys = map g xs"
  by (induction xs arbitrary: i ys) (auto simp: res_bind_Inr)

lemma res_map_Inr_iff:
  "res_map f i xs = Inr ys \<longleftrightarrow> length ys = length xs \<and> (\<forall>k < length xs. f (i + k) (xs ! k) = Inr (ys ! k))"
proof (induction xs arbitrary: i ys)
  case (Cons x xs)
  show ?case
  proof (cases ys)
    case (Cons y zs)
    have "(\<forall>k < Suc (length xs). f (i + k) ((x # xs) ! k) = Inr ((y # zs) ! k))
        \<longleftrightarrow> f i x = Inr y \<and> (\<forall>k < length xs. f (Suc i + k) (xs ! k) = Inr (zs ! k))"
      by (auto simp: less_Suc_eq_0_disj)
    then show ?thesis using Cons Cons.IH [of "Suc i" zs] by (auto simp: res_bind_Inr)
  qed (simp add: res_bind_Inr)
qed auto

section \<open>Arithmetic on numbers\<close>

text \<open>Subtraction, rounded; \<open>Math.min\<close> of two arguments.\<close>

fun num_sub :: "js_number \<Rightarrow> js_number \<Rightarrow> js_number" where
  "num_sub (Fin a) (Fin b) = round_double (a - b)"
| "num_sub NaN _ = NaN"
| "num_sub _ NaN = NaN"
| "num_sub PosInf PosInf = NaN"
| "num_sub NegInf NegInf = NaN"
| "num_sub PosInf _ = PosInf"
| "num_sub NegInf _ = NegInf"
| "num_sub (Fin _) PosInf = NegInf"
| "num_sub (Fin _) NegInf = PosInf"

definition num_min :: "js_number \<Rightarrow> js_number \<Rightarrow> js_number" where
  "num_min a b = (if a = NaN \<or> b = NaN then NaN else if num_less b a then b else a)"

end
