(* ===== verification/Review_Rule.thy ===== *)
theory Review_Rule
  imports Js_Values
begin

text \<open>
  Review rules: what a project profile declares, the compiled rule, its semantic invariants, the
  canonical JSON that is stored with a run, and the fail-closed reader of that snapshot
  (\<open>core/review-rule.ts\<close>, \<open>core/review-rule-types.ts\<close>, \<open>core/review-rule-snapshot.ts\<close>). The lemmas say
  exactly which compiled rules survive being stored and read back.
\<close>

section \<open>Rules\<close>

datatype review_mode = Mode_latest_proposal | Mode_consensus

datatype blocking_decision = Blocks_changes_requested | Blocks_rejected

record rule_quorum =
  rq_minParticipants :: "js_number option"
  rq_minParticipationRate :: "js_number option"
  rq_groupSize :: "js_number option"

record rule_requirement =
  rr_group :: string
  rr_minApprovals :: js_number
  rr_blockingDecisions :: "blocking_decision list"
  rr_quorum :: "rule_quorum option"
  rr_reviewerIds :: "string list option"
  rr_lensAxes :: "string list option"
  rr_maxReviewers :: "js_number option"

record rule_refute =
  rf_group :: string
  rf_reviewerIds :: "string list"
  rf_minParticipants :: "js_number option"
  rf_maxReviewers :: "js_number option"

record rule_overrides =
  ov_allowedReviewers :: "string list"
  ov_requireReason :: bool

record rule_stale =
  sp_rejectSuperseded :: bool
  sp_maxAgeHours :: "js_number option"

record review_rule =
  ru_mode :: review_mode
  ru_maxReviewers :: "js_number option"
  ru_refute :: "rule_refute option"
  ru_requirements :: "rule_requirement list"
  ru_overrides :: rule_overrides
  ru_stale :: rule_stale

definition DEFAULT_REVIEW_RULE :: review_rule where
  "DEFAULT_REVIEW_RULE = \<lparr>ru_mode = Mode_latest_proposal, ru_maxReviewers = None, ru_refute = None,
     ru_requirements = [], ru_overrides = \<lparr>ov_allowedReviewers = [], ov_requireReason = True\<rparr>,
     ru_stale = \<lparr>sp_rejectSuperseded = True, sp_maxAgeHours = None\<rparr>\<rparr>"

text \<open>The errors of \<open>ReviewRuleCompileError\<close> and \<open>ReviewRuleSnapshotError\<close>; a path names the field.\<close>

datatype rule_error =
    Not_json | Not_object string | Bad_mode | Not_array string | Empty_list string | Blank string
  | Duplicate_entry string string | Unsafe_reviewer_id string string | Not_positive_int string
  | Not_positive_number string | Bad_rate string | Unsupported_decision string | Not_boolean string
  | Consensus_without_requirements | Requirements_without_consensus | Refute_without_consensus
  | Mixed_frozen | Over_max_reviewers string nat | Reviewer_ids_required string | Lens_axes_required string
  | Too_few_reviewers string nat

section \<open>Semantic invariants\<close>

definition effective_max :: "js_number option \<Rightarrow> review_rule \<Rightarrow> js_number option" where
  "effective_max own rule = coalesce own (ru_maxReviewers rule)"

definition req_path :: "nat \<Rightarrow> string" where
  "req_path index = ''review.requirements.'' @ js_nat index"

definition quorum_min :: "rule_requirement \<Rightarrow> js_number" where
  "quorum_min req = or_else (Option.bind (rr_quorum req) rq_minParticipants) (num_of_nat 1)"

definition requiredReviewersForRequirement :: "rule_requirement \<Rightarrow> js_number" where
  "requiredReviewersForRequirement req = num_max (rr_minApprovals req) (quorum_min req)"

definition exceeds :: "string list \<Rightarrow> js_number option \<Rightarrow> bool" where
  "exceeds ids limit = (case limit of None \<Rightarrow> False | Some m \<Rightarrow> num_less m (num_of_nat (length ids)))"

definition assertRequirement :: "review_rule \<Rightarrow> bool \<Rightarrow> nat \<Rightarrow> rule_requirement \<Rightarrow> rule_error + unit" where
  "assertRequirement rule requireFrozen index req =
     (let path = req_path index;
          multi = (num_less (num_of_nat 1) (rr_minApprovals req) \<or> num_less (num_of_nat 1) (quorum_min req))
      in res_bind (case rr_reviewerIds req of
             None \<Rightarrow> Inr ()
           | Some ids \<Rightarrow> res_guard (\<not> exceeds ids (effective_max (rr_maxReviewers req) rule))
               (Over_max_reviewers (path @ ''.reviewer_ids'') (length ids))) (\<lambda>_.
         res_bind (if requireFrozen \<and> ru_mode rule = Mode_consensus \<and> multi then
             res_bind (res_guard (rr_reviewerIds req \<noteq> None) (Reviewer_ids_required path)) (\<lambda>_.
               res_guard (rr_lensAxes req \<noteq> None) (Lens_axes_required path))
           else Inr ()) (\<lambda>_.
         case rr_reviewerIds req of
           None \<Rightarrow> Inr ()
         | Some ids \<Rightarrow>
             res_guard (\<not> num_less (num_of_nat (length ids)) (requiredReviewersForRequirement req))
               (Too_few_reviewers (path @ ''.reviewer_ids'') (length ids)))))"

definition is_frozen :: "rule_requirement \<Rightarrow> bool" where
  "is_frozen req = (case rr_reviewerIds req of None \<Rightarrow> False | Some ids \<Rightarrow> ids \<noteq> [])"

definition assertRefute :: "review_rule \<Rightarrow> rule_refute \<Rightarrow> rule_error + unit" where
  "assertRefute rule refute =
     res_bind (res_guard (\<not> exceeds (rf_reviewerIds refute) (effective_max (rf_maxReviewers refute) rule))
       (Over_max_reviewers ''review.refute.reviewer_ids'' (length (rf_reviewerIds refute)))) (\<lambda>_.
     res_guard (case rf_minParticipants refute of None \<Rightarrow> True
         | Some m \<Rightarrow> \<not> num_less (num_of_nat (length (rf_reviewerIds refute))) m)
       (Too_few_reviewers ''review.refute.reviewer_ids'' (length (rf_reviewerIds refute))))"

definition assertCompiledReviewRuleInvariants :: "bool \<Rightarrow> review_rule \<Rightarrow> rule_error + unit" where
  "assertCompiledReviewRuleInvariants requireFrozen rule =
     (let reqs = ru_requirements rule; consensus = (ru_mode rule = Mode_consensus);
          frozen = length (filter is_frozen reqs)
      in res_bind (res_guard (\<not> (consensus \<and> reqs = [])) Consensus_without_requirements) (\<lambda>_.
         res_bind (res_guard (\<not> (\<not> consensus \<and> reqs \<noteq> [])) Requirements_without_consensus) (\<lambda>_.
         res_bind (res_guard (\<not> (\<not> consensus \<and> ru_refute rule \<noteq> None)) Refute_without_consensus) (\<lambda>_.
         res_bind (res_guard (\<not> (consensus \<and> reqs \<noteq> [] \<and> 0 < frozen \<and> frozen < length reqs)) Mixed_frozen) (\<lambda>_.
         res_bind (res_map (assertRequirement rule requireFrozen) 0 reqs) (\<lambda>_.
         case ru_refute rule of None \<Rightarrow> Inr () | Some refute \<Rightarrow> assertRefute rule refute))))))"

section \<open>Compiling a profile\<close>

record profile_requirement =
  pr_group :: string
  pr_min_approvals :: js_number
  pr_blocking_decisions :: "blocking_decision list"
  pr_quorum_min_participants :: "js_number option"
  pr_reviewer_ids :: "string list option"
  pr_lens_axes :: "string list option"
  pr_max_reviewers :: "js_number option"

record profile_refute =
  pf_group :: string
  pf_reviewer_ids :: "string list"
  pf_min_participants :: "js_number option"
  pf_max_reviewers :: "js_number option"

text \<open>
  The \<open>review\<close> section of a profile. Its schema fixes the types, so the \<open>typeof\<close> and \<open>Array.isArray\<close> tests
  of the compiler and its test of the decision names hold by typing.
\<close>

record profile_review =
  pv_mode :: "review_mode option"
  pv_max_reviewers :: "js_number option"
  pv_refute :: "profile_refute option"
  pv_requirements :: "profile_requirement list option"
  pv_allowed_reviewers :: "string list option"
  pv_require_reason :: "bool option"
  pv_reject_superseded :: "bool option"
  pv_max_age_hours :: "js_number option"

definition validatePositiveInt :: "string \<Rightarrow> js_number option \<Rightarrow> rule_error + js_number option" where
  "validatePositiveInt path value = res_opt (\<lambda>v.
     res_bind (res_guard (is_integer_number v \<and> \<not> num_less v (num_of_nat 1)) (Not_positive_int path)) (\<lambda>_. Inr v)) value"

definition validateRequiredPositiveInt :: "string \<Rightarrow> js_number option \<Rightarrow> rule_error + js_number" where
  "validateRequiredPositiveInt path value =
     res_bind (validatePositiveInt path value) (\<lambda>v. case v of None \<Rightarrow> Inl (Not_positive_int path) | Some n \<Rightarrow> Inr n)"

definition nonEmpty :: "string \<Rightarrow> string \<Rightarrow> rule_error + string" where
  "nonEmpty path value = res_bind (res_guard (js_trim value \<noteq> []) (Blank path)) (\<lambda>_. Inr value)"

fun check_entries :: "string \<Rightarrow> string list \<Rightarrow> string list \<Rightarrow> rule_error + unit" where
  "check_entries path seen [] = Inr ()"
| "check_entries path seen (v # vs) =
     (if js_trim v = [] then Inl (Blank path)
      else if v \<in> set seen then Inl (Duplicate_entry path v)
      else check_entries path (v # seen) vs)"

definition validateStringList :: "string \<Rightarrow> string list \<Rightarrow> rule_error + string list" where
  "validateStringList path values =
     res_bind (res_guard (values \<noteq> []) (Empty_list path)) (\<lambda>_.
     res_bind (check_entries path [] values) (\<lambda>_. Inr values))"

text \<open>\<open>/^[A-Za-z0-9][A-Za-z0-9._-]{0,127}$/\<close> and no \<open>..\<close>\<close>

definition is_alnum :: "char \<Rightarrow> bool" where
  "is_alnum c = (let n = of_char c :: nat in (48 \<le> n \<and> n \<le> 57) \<or> (65 \<le> n \<and> n \<le> 90) \<or> (97 \<le> n \<and> n \<le> 122))"

fun has_dot_dot :: "string \<Rightarrow> bool" where
  "has_dot_dot (a # b # cs) = ((a = CHR ''.'' \<and> b = CHR ''.'') \<or> has_dot_dot (b # cs))"
| "has_dot_dot _ = False"

definition path_safe_id :: "string \<Rightarrow> bool" where
  "path_safe_id s = (case s of [] \<Rightarrow> False
     | c # cs \<Rightarrow> is_alnum c \<and> length cs \<le> 127
         \<and> list_all (\<lambda>x. is_alnum x \<or> x \<in> set ''._-'') cs \<and> \<not> has_dot_dot s)"

fun assertPathSafeReviewerIds :: "string \<Rightarrow> string list \<Rightarrow> rule_error + unit" where
  "assertPathSafeReviewerIds path [] = Inr ()"
| "assertPathSafeReviewerIds path (v # vs) =
     (if path_safe_id v then assertPathSafeReviewerIds path vs else Inl (Unsafe_reviewer_id path v))"

definition validateReviewerIdList :: "string \<Rightarrow> string list \<Rightarrow> rule_error + string list" where
  "validateReviewerIdList path values =
     res_bind (validateStringList path values) (\<lambda>ids. res_bind (assertPathSafeReviewerIds path ids) (\<lambda>_. Inr ids))"

definition compileRequirement :: "nat \<Rightarrow> profile_requirement \<Rightarrow> rule_error + rule_requirement" where
  "compileRequirement index req =
     (let path = req_path index
      in res_bind (validateRequiredPositiveInt (path @ ''.min_approvals'') (Some (pr_min_approvals req))) (\<lambda>minApprovals.
         res_bind (validatePositiveInt (path @ ''.quorum.min_participants'') (pr_quorum_min_participants req)) (\<lambda>quorumMin.
         res_bind (res_opt (validateStringList (path @ ''.reviewer_ids'')) (pr_reviewer_ids req)) (\<lambda>reviewerIds.
         res_bind (res_opt (validateStringList (path @ ''.lens_axes'')) (pr_lens_axes req)) (\<lambda>lensAxes.
         res_bind (validatePositiveInt (path @ ''.max_reviewers'') (pr_max_reviewers req)) (\<lambda>maxReviewers.
         res_bind (nonEmpty (path @ ''.group'') (pr_group req)) (\<lambda>group.
         Inr \<lparr>rr_group = group, rr_minApprovals = minApprovals, rr_blockingDecisions = pr_blocking_decisions req,
           rr_quorum = map_option (\<lambda>m. \<lparr>rq_minParticipants = Some m, rq_minParticipationRate = None, rq_groupSize = None\<rparr>)
             quorumMin,
           rr_reviewerIds = reviewerIds, rr_lensAxes = lensAxes, rr_maxReviewers = maxReviewers\<rparr>)))))))"

definition compileProfileRefuteRequirement :: "profile_refute \<Rightarrow> rule_error + rule_refute" where
  "compileProfileRefuteRequirement refute =
     res_bind (validatePositiveInt ''review.refute.min_participants'' (pf_min_participants refute)) (\<lambda>minParticipants.
     res_bind (validatePositiveInt ''review.refute.max_reviewers'' (pf_max_reviewers refute)) (\<lambda>maxReviewers.
     res_bind (nonEmpty ''review.refute.group'' (pf_group refute)) (\<lambda>group.
     res_bind (validateReviewerIdList ''review.refute.reviewer_ids'' (pf_reviewer_ids refute)) (\<lambda>ids.
     Inr \<lparr>rf_group = group, rf_reviewerIds = ids, rf_minParticipants = minParticipants, rf_maxReviewers = maxReviewers\<rparr>))))"

definition compileProfileReviewRule :: "profile_review option \<Rightarrow> rule_error + review_rule" where
  "compileProfileReviewRule profile =
     (case profile of
        None \<Rightarrow> Inr DEFAULT_REVIEW_RULE
      | Some review \<Rightarrow>
          res_bind (validatePositiveInt ''review.max_reviewers'' (pv_max_reviewers review)) (\<lambda>maxReviewers.
          res_bind (res_map compileRequirement 0 (or_else (pv_requirements review) [])) (\<lambda>requirements.
          res_bind (res_opt compileProfileRefuteRequirement (pv_refute review)) (\<lambda>refute.
          let rule = \<lparr>ru_mode = or_else (pv_mode review) (ru_mode DEFAULT_REVIEW_RULE),
                ru_maxReviewers = maxReviewers, ru_refute = refute, ru_requirements = requirements,
                ru_overrides = \<lparr>
                  ov_allowedReviewers = or_else (pv_allowed_reviewers review)
                    (ov_allowedReviewers (ru_overrides DEFAULT_REVIEW_RULE)),
                  ov_requireReason = or_else (pv_require_reason review)
                    (ov_requireReason (ru_overrides DEFAULT_REVIEW_RULE))\<rparr>,
                ru_stale = \<lparr>
                  sp_rejectSuperseded = or_else (pv_reject_superseded review)
                    (sp_rejectSuperseded (ru_stale DEFAULT_REVIEW_RULE)),
                  sp_maxAgeHours = pv_max_age_hours review\<rparr>\<rparr>
          in res_bind (assertCompiledReviewRuleInvariants True rule) (\<lambda>_. Inr rule)))))"

text \<open>The hash of a rule is the hash of its canonical text; SHA-256 is the argument \<open>sha\<close>.\<close>

datatype rule_source = Rule_default | Rule_project_profile

definition frozenReviewerIdsForRule :: "review_rule \<Rightarrow> string list" where
  "frozenReviewerIdsForRule rule =
     sort (js_set (concat (map (\<lambda>r. or_else (rr_reviewerIds r) []) (ru_requirements rule))))"

record dispatch_requirement =
  dq_group :: string
  dq_requiredReviewers :: js_number
  dq_reviewerIds :: "string list"

definition dispatchRequirementsForRule :: "review_rule \<Rightarrow> dispatch_requirement list" where
  "dispatchRequirementsForRule rule =
     (if ru_mode rule \<noteq> Mode_consensus then []
      else map (\<lambda>r. \<lparr>dq_group = rr_group r, dq_requiredReviewers = requiredReviewersForRequirement r,
             dq_reviewerIds = sort (or_else (rr_reviewerIds r) [])\<rparr>)
           (filter is_frozen (ru_requirements rule)))"

section \<open>The stored snapshot\<close>

text \<open>
  The canonical JSON of a rule: keys in order, undefined fields left out, and a number that is not
  finite written as null, as \<open>JSON.stringify\<close> does.
\<close>

definition num_json :: "js_number \<Rightarrow> json" where
  "num_json n = (case n of Fin r \<Rightarrow> JNum r | _ \<Rightarrow> JNull)"

definition strings_json :: "string list \<Rightarrow> json" where
  "strings_json xs = JArr (map JStr xs)"

definition opt_entry :: "string \<Rightarrow> ('a \<Rightarrow> json) \<Rightarrow> 'a option \<Rightarrow> json_object" where
  "opt_entry k f x = (case x of None \<Rightarrow> [] | Some v \<Rightarrow> [(k, f v)])"

definition blocking_json :: "blocking_decision \<Rightarrow> json" where
  "blocking_json b = JStr (case b of Blocks_changes_requested \<Rightarrow> ''changes_requested'' | Blocks_rejected \<Rightarrow> ''rejected'')"

definition quorum_json :: "rule_quorum \<Rightarrow> json" where
  "quorum_json q = JObj (opt_entry ''groupSize'' num_json (rq_groupSize q)
     @ opt_entry ''minParticipants'' num_json (rq_minParticipants q)
     @ opt_entry ''minParticipationRate'' num_json (rq_minParticipationRate q))"

definition requirement_json :: "rule_requirement \<Rightarrow> json" where
  "requirement_json r = JObj ([(''blockingDecisions'', JArr (map blocking_json (rr_blockingDecisions r))),
       (''group'', JStr (rr_group r))]
     @ opt_entry ''lensAxes'' strings_json (rr_lensAxes r)
     @ opt_entry ''maxReviewers'' num_json (rr_maxReviewers r)
     @ [(''minApprovals'', num_json (rr_minApprovals r))]
     @ opt_entry ''quorum'' quorum_json (rr_quorum r)
     @ opt_entry ''reviewerIds'' strings_json (rr_reviewerIds r))"

definition refute_json :: "rule_refute \<Rightarrow> json" where
  "refute_json r = JObj ([(''group'', JStr (rf_group r))]
     @ opt_entry ''maxReviewers'' num_json (rf_maxReviewers r)
     @ opt_entry ''minParticipants'' num_json (rf_minParticipants r)
     @ [(''reviewerIds'', strings_json (rf_reviewerIds r))])"

definition canonicaliseRule :: "review_rule \<Rightarrow> json" where
  "canonicaliseRule r = JObj (opt_entry ''maxReviewers'' num_json (ru_maxReviewers r)
     @ [(''mode'', JStr (case ru_mode r of Mode_consensus \<Rightarrow> ''consensus'' | Mode_latest_proposal \<Rightarrow> ''latest-proposal'')),
        (''overrides'', JObj [(''allowedReviewers'', strings_json (ov_allowedReviewers (ru_overrides r))),
           (''requireReason'', JBool (ov_requireReason (ru_overrides r)))])]
     @ opt_entry ''refute'' refute_json (ru_refute r)
     @ [(''requirements'', JArr (map requirement_json (ru_requirements r))),
        (''staleProposal'', JObj (opt_entry ''maxAgeHours'' num_json (sp_maxAgeHours (ru_stale r))
           @ [(''rejectSuperseded'', JBool (sp_rejectSuperseded (ru_stale r)))]))])"

definition ruleSha256 :: "(json \<Rightarrow> string) \<Rightarrow> review_rule \<Rightarrow> string" where
  "ruleSha256 sha rule = sha (canonicaliseRule rule)"

record rule_resolution =
  res_rule :: review_rule
  res_source :: rule_source
  res_ruleSha256 :: string

definition resolveEffectiveRule :: "(json \<Rightarrow> string) \<Rightarrow> profile_review option option \<Rightarrow> rule_error + rule_resolution" where
  "resolveEffectiveRule sha profile =
     (let source = (case profile of Some (Some _) \<Rightarrow> Rule_project_profile | _ \<Rightarrow> Rule_default)
      in res_bind (if source = Rule_project_profile then compileProfileReviewRule (or_else profile None)
                   else Inr DEFAULT_REVIEW_RULE) (\<lambda>rule.
         Inr \<lparr>res_rule = rule, res_source = source, res_ruleSha256 = ruleSha256 sha rule\<rparr>))"

section \<open>Reading a snapshot back\<close>

definition validateSnapshotPositiveInt :: "string \<Rightarrow> json option \<Rightarrow> rule_error + js_number option" where
  "validateSnapshotPositiveInt path value =
     (case value of
        None \<Rightarrow> Inr None
      | Some (JNum r) \<Rightarrow> if of_int \<lfloor>r\<rfloor> = r \<and> 1 \<le> r then Inr (Some (Fin r)) else Inl (Not_positive_int path)
      | Some _ \<Rightarrow> Inl (Not_positive_int path))"

definition validateSnapshotRequiredPositiveInt :: "string \<Rightarrow> json option \<Rightarrow> rule_error + js_number" where
  "validateSnapshotRequiredPositiveInt path value =
     res_bind (validateSnapshotPositiveInt path value) (\<lambda>v. case v of None \<Rightarrow> Inl (Not_positive_int path) | Some n \<Rightarrow> Inr n)"

definition validateSnapshotPositiveNumber :: "string \<Rightarrow> json option \<Rightarrow> rule_error + js_number option" where
  "validateSnapshotPositiveNumber path value =
     (case value of
        None \<Rightarrow> Inr None
      | Some (JNum r) \<Rightarrow> if 0 < r then Inr (Some (Fin r)) else Inl (Not_positive_number path)
      | Some _ \<Rightarrow> Inl (Not_positive_number path))"

fun check_json_entries :: "string \<Rightarrow> string list \<Rightarrow> json list \<Rightarrow> rule_error + string list" where
  "check_json_entries path seen [] = Inr []"
| "check_json_entries path seen (JStr v # vs) =
     (if js_trim v = [] then Inl (Blank path)
      else if v \<in> set seen then Inl (Duplicate_entry path v)
      else res_bind (check_json_entries path (v # seen) vs) (\<lambda>rest. Inr (v # rest)))"
| "check_json_entries path seen (_ # vs) = Inl (Blank path)"

definition validateSnapshotStringList :: "string \<Rightarrow> json option \<Rightarrow> rule_error + string list" where
  "validateSnapshotStringList path value =
     (case value of
        Some (JArr vs) \<Rightarrow> if vs = [] then Inl (Empty_list path) else check_json_entries path [] vs
      | _ \<Rightarrow> Inl (Empty_list path))"

definition validateSnapshotReviewerIds :: "string \<Rightarrow> json option \<Rightarrow> rule_error + string list" where
  "validateSnapshotReviewerIds path value =
     res_bind (validateSnapshotStringList path value) (\<lambda>ids.
     res_bind (assertPathSafeReviewerIds path ids) (\<lambda>_. Inr ids))"

definition validateSnapshotReviewerIdArrayMaybeEmpty :: "string \<Rightarrow> json option \<Rightarrow> rule_error + string list" where
  "validateSnapshotReviewerIdArrayMaybeEmpty path value =
     (case value of
        Some (JArr vs) \<Rightarrow>
          res_bind (check_json_entries path [] vs) (\<lambda>ids.
          res_bind (assertPathSafeReviewerIds path ids) (\<lambda>_. Inr ids))
      | _ \<Rightarrow> Inl (Not_array path))"

fun parse_blocking :: "json \<Rightarrow> blocking_decision option" where
  "parse_blocking (JStr s) = (if s = ''changes_requested'' then Some Blocks_changes_requested
     else if s = ''rejected'' then Some Blocks_rejected else None)"
| "parse_blocking _ = None"

definition validateSnapshotBlockingDecisions :: "string \<Rightarrow> json option \<Rightarrow> rule_error + blocking_decision list" where
  "validateSnapshotBlockingDecisions path value =
     (case value of
        Some (JArr vs) \<Rightarrow>
          res_map (\<lambda>_ v. case parse_blocking v of None \<Rightarrow> Inl (Unsupported_decision path) | Some b \<Rightarrow> Inr b) 0 vs
      | _ \<Rightarrow> Inl (Not_array path))"

definition plain_object :: "string \<Rightarrow> json option \<Rightarrow> rule_error + json_object" where
  "plain_object path value = (case value of Some (JObj ps) \<Rightarrow> Inr ps | _ \<Rightarrow> Inl (Not_object path))"

definition snapshot_group :: "string \<Rightarrow> json option \<Rightarrow> rule_error + string" where
  "snapshot_group path value =
     (case value of Some (JStr g) \<Rightarrow> nonEmpty path g | _ \<Rightarrow> Inl (Blank path))"

definition snapshot_rate :: "string \<Rightarrow> json option \<Rightarrow> rule_error + js_number option" where
  "snapshot_rate path value =
     (case value of
        None \<Rightarrow> Inr None
      | Some (JNum r) \<Rightarrow> if 0 \<le> r \<and> r \<le> 1 then Inr (Some (Fin r)) else Inl (Bad_rate path)
      | Some _ \<Rightarrow> Inl (Bad_rate path))"

definition validateSnapshotQuorum :: "string \<Rightarrow> json \<Rightarrow> rule_error + rule_quorum" where
  "validateSnapshotQuorum path value =
     res_bind (plain_object path (Some value)) (\<lambda>q.
     res_bind (validateSnapshotPositiveInt (path @ ''.minParticipants'') (map_of q ''minParticipants'')) (\<lambda>minParticipants.
     res_bind (validateSnapshotPositiveInt (path @ ''.groupSize'') (map_of q ''groupSize'')) (\<lambda>groupSize.
     res_bind (snapshot_rate (path @ ''.minParticipationRate'') (map_of q ''minParticipationRate'')) (\<lambda>rate.
     Inr \<lparr>rq_minParticipants = minParticipants, rq_minParticipationRate = rate, rq_groupSize = groupSize\<rparr>))))"

definition validateSnapshotRequirement :: "nat \<Rightarrow> json \<Rightarrow> rule_error + rule_requirement" where
  "validateSnapshotRequirement index value =
     (let path = ''requirements.'' @ js_nat index
      in res_bind (plain_object path (Some value)) (\<lambda>req.
         res_bind (snapshot_group (path @ ''.group'') (map_of req ''group'')) (\<lambda>group.
         res_bind (validateSnapshotRequiredPositiveInt (path @ ''.minApprovals'') (map_of req ''minApprovals'')) (\<lambda>minApprovals.
         res_bind (validateSnapshotBlockingDecisions (path @ ''.blockingDecisions'') (map_of req ''blockingDecisions'')) (\<lambda>blocking.
         res_bind (res_opt (validateSnapshotQuorum (path @ ''.quorum'')) (map_of req ''quorum'')) (\<lambda>quorum.
         res_bind (res_opt (\<lambda>v. validateSnapshotReviewerIds (path @ ''.reviewerIds'') (Some v)) (map_of req ''reviewerIds'')) (\<lambda>ids.
         res_bind (res_opt (\<lambda>v. validateSnapshotStringList (path @ ''.lensAxes'') (Some v)) (map_of req ''lensAxes'')) (\<lambda>lenses.
         res_bind (validateSnapshotPositiveInt (path @ ''.maxReviewers'') (map_of req ''maxReviewers'')) (\<lambda>maxReviewers.
         Inr \<lparr>rr_group = group, rr_minApprovals = minApprovals, rr_blockingDecisions = blocking, rr_quorum = quorum,
           rr_reviewerIds = ids, rr_lensAxes = lenses, rr_maxReviewers = maxReviewers\<rparr>)))))))))"

definition validateSnapshotRefute :: "json \<Rightarrow> rule_error + rule_refute" where
  "validateSnapshotRefute value =
     res_bind (plain_object ''refute'' (Some value)) (\<lambda>r.
     res_bind (snapshot_group ''refute.group'' (map_of r ''group'')) (\<lambda>group.
     res_bind (validateSnapshotReviewerIds ''refute.reviewerIds'' (map_of r ''reviewerIds'')) (\<lambda>ids.
     res_bind (validateSnapshotPositiveInt ''refute.minParticipants'' (map_of r ''minParticipants'')) (\<lambda>minParticipants.
     res_bind (validateSnapshotPositiveInt ''refute.maxReviewers'' (map_of r ''maxReviewers'')) (\<lambda>maxReviewers.
     Inr \<lparr>rf_group = group, rf_reviewerIds = ids, rf_minParticipants = minParticipants, rf_maxReviewers = maxReviewers\<rparr>)))))"

definition json_bool :: "string \<Rightarrow> json option \<Rightarrow> rule_error + bool" where
  "json_bool path value = (case value of Some (JBool b) \<Rightarrow> Inr b | _ \<Rightarrow> Inl (Not_boolean path))"

definition validateSnapshotOverrides :: "json option \<Rightarrow> rule_error + rule_overrides" where
  "validateSnapshotOverrides value =
     res_bind (plain_object ''overrides'' value) (\<lambda>o1.
     res_bind (validateSnapshotReviewerIdArrayMaybeEmpty ''overrides.allowedReviewers'' (map_of o1 ''allowedReviewers'')) (\<lambda>ids.
     res_bind (json_bool ''overrides.requireReason'' (map_of o1 ''requireReason'')) (\<lambda>b.
     Inr \<lparr>ov_allowedReviewers = ids, ov_requireReason = b\<rparr>)))"

definition validateSnapshotStaleProposal :: "json option \<Rightarrow> rule_error + rule_stale" where
  "validateSnapshotStaleProposal value =
     res_bind (plain_object ''staleProposal'' value) (\<lambda>o1.
     res_bind (json_bool ''staleProposal.rejectSuperseded'' (map_of o1 ''rejectSuperseded'')) (\<lambda>b.
     res_bind (validateSnapshotPositiveNumber ''staleProposal.maxAgeHours'' (map_of o1 ''maxAgeHours'')) (\<lambda>h.
     Inr \<lparr>sp_rejectSuperseded = b, sp_maxAgeHours = h\<rparr>)))"

text \<open>The argument is what \<open>JSON.parse\<close> returns; \<open>None\<close> when it throws.\<close>

definition snapshot_mode :: "json option \<Rightarrow> rule_error + review_mode" where
  "snapshot_mode value =
     (if value = Some (JStr ''consensus'') then Inr Mode_consensus
      else if value = Some (JStr ''latest-proposal'') then Inr Mode_latest_proposal else Inl Bad_mode)"

definition json_array :: "string \<Rightarrow> json option \<Rightarrow> rule_error + json list" where
  "json_array path value = (case value of Some (JArr vs) \<Rightarrow> Inr vs | _ \<Rightarrow> Inl (Not_array path))"

definition parseReviewRuleSnapshot :: "json option \<Rightarrow> rule_error + review_rule" where
  "parseReviewRuleSnapshot parsed =
     res_bind (case parsed of None \<Rightarrow> Inl Not_json | Some j \<Rightarrow> plain_object ''top-level'' (Some j)) (\<lambda>raw.
     res_bind (snapshot_mode (map_of raw ''mode'')) (\<lambda>mode.
     res_bind (json_array ''requirements'' (map_of raw ''requirements'')) (\<lambda>reqs.
     res_bind (res_map validateSnapshotRequirement 0 reqs) (\<lambda>requirements.
     res_bind (res_opt validateSnapshotRefute (map_of raw ''refute'')) (\<lambda>refute.
     res_bind (validateSnapshotOverrides (map_of raw ''overrides'')) (\<lambda>overrides.
     res_bind (validateSnapshotStaleProposal (map_of raw ''staleProposal'')) (\<lambda>stale.
     res_bind (validateSnapshotPositiveInt ''maxReviewers'' (map_of raw ''maxReviewers'')) (\<lambda>maxReviewers.
     let rule = \<lparr>ru_mode = mode, ru_maxReviewers = maxReviewers, ru_refute = refute, ru_requirements = requirements,
           ru_overrides = overrides, ru_stale = stale\<rparr>
     in res_bind (assertCompiledReviewRuleInvariants False rule) (\<lambda>_. Inr rule)))))))))"

section \<open>What survives the round trip\<close>

text \<open>The structural conditions of the reader, field by field.\<close>

definition pos_int :: "js_number \<Rightarrow> bool" where
  "pos_int n = (case n of Fin r \<Rightarrow> of_int \<lfloor>r\<rfloor> = r \<and> 1 \<le> r | _ \<Rightarrow> False)"

definition entries_ok :: "string list \<Rightarrow> bool" where
  "entries_ok xs \<longleftrightarrow> distinct xs \<and> (\<forall>x \<in> set xs. js_trim x \<noteq> [])"

definition list_ok :: "string list \<Rightarrow> bool" where
  "list_ok xs \<longleftrightarrow> xs \<noteq> [] \<and> entries_ok xs"

definition rate_ok :: "js_number \<Rightarrow> bool" where
  "rate_ok n = (case n of Fin r \<Rightarrow> 0 \<le> r \<and> r \<le> 1 | _ \<Rightarrow> False)"

definition age_ok :: "js_number \<Rightarrow> bool" where
  "age_ok n = (case n of Fin r \<Rightarrow> 0 < r | _ \<Rightarrow> False)"

definition quorum_ok :: "rule_quorum \<Rightarrow> bool" where
  "quorum_ok q \<longleftrightarrow> pred_option pos_int (rq_minParticipants q) \<and> pred_option rate_ok (rq_minParticipationRate q)
     \<and> pred_option pos_int (rq_groupSize q)"

definition requirement_ok :: "rule_requirement \<Rightarrow> bool" where
  "requirement_ok r \<longleftrightarrow> js_trim (rr_group r) \<noteq> [] \<and> pos_int (rr_minApprovals r) \<and> pred_option quorum_ok (rr_quorum r)
     \<and> pred_option list_ok (rr_reviewerIds r) \<and> pred_option list_ok (rr_lensAxes r) \<and> pred_option pos_int (rr_maxReviewers r)"

definition refute_ok :: "rule_refute \<Rightarrow> bool" where
  "refute_ok r \<longleftrightarrow> js_trim (rf_group r) \<noteq> [] \<and> list_ok (rf_reviewerIds r) \<and> list_all path_safe_id (rf_reviewerIds r)
     \<and> pred_option pos_int (rf_minParticipants r) \<and> pred_option pos_int (rf_maxReviewers r)"

definition ids_path_safe :: "rule_requirement \<Rightarrow> bool" where
  "ids_path_safe r = pred_option (list_all path_safe_id) (rr_reviewerIds r)"

definition overrides_ok :: "rule_overrides \<Rightarrow> bool" where
  "overrides_ok o1 \<longleftrightarrow> distinct (ov_allowedReviewers o1) \<and> list_all path_safe_id (ov_allowedReviewers o1)"

lemma map_of_opt_entry [simp]:
  "map_of (opt_entry k f x @ ps) j =
     (if j = k then coalesce (map_option f x) (map_of ps j) else map_of ps j)"
  "map_of (opt_entry k f x) j = (if j = k then map_option f x else None)"
  by (simp_all add: opt_entry_def split: option.split)

lemma coalesce_None [simp]: "coalesce x None = x"
  by (cases x) auto

lemma snapshot_int_json [simp]:
  "validateSnapshotPositiveInt path (map_option num_json n) = Inr m \<longleftrightarrow> m = n \<and> pred_option pos_int n"
  "validateSnapshotPositiveInt path (Some (num_json v)) = Inr m \<longleftrightarrow> m = Some v \<and> pos_int v"
  "validateSnapshotRequiredPositiveInt path (Some (num_json v)) = Inr w \<longleftrightarrow> w = v \<and> pos_int v"
  by (auto simp: validateSnapshotPositiveInt_def validateSnapshotRequiredPositiveInt_def num_json_def pos_int_def
      split: option.splits js_number.splits)

lemma snapshot_rate_json [simp]:
  "snapshot_rate path (map_option num_json n) = Inr m \<longleftrightarrow> m = n \<and> pred_option rate_ok n"
  by (auto simp: snapshot_rate_def num_json_def rate_ok_def split: option.splits js_number.splits)

lemma snapshot_number_json [simp]:
  "validateSnapshotPositiveNumber path (map_option num_json n) = Inr m \<longleftrightarrow> m = n \<and> pred_option age_ok n"
  by (auto simp: validateSnapshotPositiveNumber_def num_json_def age_ok_def split: option.splits js_number.splits)

lemma check_json_strings:
  "check_json_entries path seen (map JStr xs) = Inr ys \<longleftrightarrow> ys = xs \<and> entries_ok xs \<and> set xs \<inter> set seen = {}"
  by (induction xs arbitrary: seen ys) (auto simp: res_bind_Inr entries_ok_def)

lemma check_entries_iff:
  "check_entries path seen xs = Inr u \<longleftrightarrow> entries_ok xs \<and> set xs \<inter> set seen = {}"
  by (induction xs arbitrary: seen) (auto simp: entries_ok_def)

lemma path_safe_iff: "assertPathSafeReviewerIds path xs = Inr u \<longleftrightarrow> list_all path_safe_id xs"
  by (induction xs) auto

lemma snapshot_list_json [simp]:
  "validateSnapshotStringList path (Some (strings_json xs)) = Inr ys \<longleftrightarrow> ys = xs \<and> list_ok xs"
  by (auto simp: validateSnapshotStringList_def strings_json_def check_json_strings list_ok_def)

lemma snapshot_ids_json [simp]:
  "validateSnapshotReviewerIds path (Some (strings_json xs)) = Inr ys \<longleftrightarrow> ys = xs \<and> list_ok xs \<and> list_all path_safe_id xs"
  by (auto simp: validateSnapshotReviewerIds_def res_bind_Inr path_safe_iff)

lemma path_safe_trim: "path_safe_id s \<Longrightarrow> js_trim s \<noteq> []"
proof -
  assume safe: "path_safe_id s"
  then obtain c cs where s: "s = c # cs" "is_alnum c" by (auto simp: path_safe_id_def split: list.splits)
  then have "\<not> is_ws c" by (auto simp: is_ws_def is_alnum_def)
  then have "c \<in> set (dropWhile is_ws (rev s))" using s(1)
    by (metis Un_iff list.set_intros(1) set_append set_rev set_takeWhileD takeWhile_dropWhile_id)
  then have "dropWhile is_ws (rev (dropWhile is_ws (rev s))) \<noteq> []" using \<open>\<not> is_ws c\<close>
    by (metis dropWhile_eq_Nil_conv set_rev)
  then show ?thesis by (simp add: js_trim_def)
qed

lemma snapshot_allowed_json [simp]:
  "validateSnapshotReviewerIdArrayMaybeEmpty path (Some (strings_json xs)) = Inr ys
     \<longleftrightarrow> ys = xs \<and> distinct xs \<and> list_all path_safe_id xs"
  using path_safe_trim
  by (auto simp: validateSnapshotReviewerIdArrayMaybeEmpty_def strings_json_def res_bind_Inr check_json_strings
      path_safe_iff entries_ok_def list_all_iff)

lemma parse_blocking_json [simp]: "parse_blocking (blocking_json b) = Some b"
  by (cases b) (simp_all add: blocking_json_def)

lemma res_map_blocking:
  "res_map (\<lambda>_ v. case parse_blocking v of None \<Rightarrow> Inl e | Some b \<Rightarrow> Inr b) i (map blocking_json bs) = Inr bs"
  by (induction bs arbitrary: i) auto

lemma snapshot_blocking_json [simp]:
  "validateSnapshotBlockingDecisions path (Some (JArr (map blocking_json bs))) = Inr cs \<longleftrightarrow> cs = bs"
  by (auto simp: validateSnapshotBlockingDecisions_def res_map_blocking)

lemma snapshot_group_json [simp]:
  "snapshot_group path (Some (JStr g)) = Inr h \<longleftrightarrow> h = g \<and> js_trim g \<noteq> []"
  by (auto simp: snapshot_group_def nonEmpty_def res_bind_Inr)

lemma snapshot_quorum_json [simp]:
  "validateSnapshotQuorum path (quorum_json q) = Inr q' \<longleftrightarrow> q' = q \<and> quorum_ok q"
  by (cases q) (auto simp: validateSnapshotQuorum_def quorum_json_def plain_object_def res_bind_Inr quorum_ok_def
      simp del: map_of_append)

text \<open>A reader that inverts a printer does so on an optional field.\<close>

lemma res_opt_json:
  assumes "\<And>v w. f (g v) = Inr w \<longleftrightarrow> w = v \<and> P v"
  shows "res_opt f (map_option g x) = Inr y \<longleftrightarrow> y = x \<and> pred_option P x"
  by (cases x) (auto simp: res_bind_Inr assms)

lemma snapshot_opt_json [simp]:
  "res_opt (validateSnapshotQuorum path) (map_option quorum_json q) = Inr q' \<longleftrightarrow> q' = q \<and> pred_option quorum_ok q"
  "res_opt (\<lambda>v. validateSnapshotReviewerIds path (Some v)) (map_option strings_json xs) = Inr ys
     \<longleftrightarrow> ys = xs \<and> pred_option (\<lambda>v. list_ok v \<and> list_all path_safe_id v) xs"
  "res_opt (\<lambda>v. validateSnapshotStringList path (Some v)) (map_option strings_json xs) = Inr ys
     \<longleftrightarrow> ys = xs \<and> pred_option list_ok xs"
  by (rule res_opt_json, simp)+

lemma snapshot_requirement_json [simp]:
  "validateSnapshotRequirement i (requirement_json r) = Inr r' \<longleftrightarrow> r' = r \<and> requirement_ok r \<and> ids_path_safe r"
  by (cases r) (auto simp: validateSnapshotRequirement_def requirement_json_def plain_object_def res_bind_Inr Let_def
      requirement_ok_def ids_path_safe_def pred_option_def simp del: map_of_append)

lemma snapshot_refute_json [simp]:
  "validateSnapshotRefute (refute_json r) = Inr r' \<longleftrightarrow> r' = r \<and> refute_ok r"
  by (cases r) (auto simp: validateSnapshotRefute_def refute_json_def plain_object_def res_bind_Inr
      refute_ok_def simp del: map_of_append)

lemma snapshot_requirements_json:
  "res_map validateSnapshotRequirement i (map requirement_json rs) = Inr ss
     \<longleftrightarrow> ss = rs \<and> list_all requirement_ok rs \<and> list_all ids_path_safe rs"
  by (induction rs arbitrary: i ss) (auto simp: res_bind_Inr)

lemma snapshot_overrides_json [simp]:
  "validateSnapshotOverrides (Some (JObj [(''allowedReviewers'', strings_json ids), (''requireReason'', JBool b)])) = Inr o1
     \<longleftrightarrow> o1 = \<lparr>ov_allowedReviewers = ids, ov_requireReason = b\<rparr> \<and> distinct ids \<and> list_all path_safe_id ids"
  by (auto simp: validateSnapshotOverrides_def plain_object_def json_bool_def res_bind_Inr)

lemma snapshot_stale_json [simp]:
  "validateSnapshotStaleProposal (Some (JObj (opt_entry ''maxAgeHours'' num_json h @ [(''rejectSuperseded'', JBool b)]))) = Inr s
     \<longleftrightarrow> s = \<lparr>sp_rejectSuperseded = b, sp_maxAgeHours = h\<rparr> \<and> pred_option age_ok h"
  by (auto simp: validateSnapshotStaleProposal_def plain_object_def json_bool_def res_bind_Inr simp del: map_of_append)

text \<open>
  The conditions under which a stored rule reads back; \<open>ids_path_safe\<close> and \<open>overrides_ok\<close> are those that
  the compiler does not establish.
\<close>

definition rule_structure_ok :: "review_rule \<Rightarrow> bool" where
  "rule_structure_ok r \<longleftrightarrow> pred_option pos_int (ru_maxReviewers r) \<and> pred_option refute_ok (ru_refute r)
     \<and> list_all requirement_ok (ru_requirements r)"

definition rule_ids_ok :: "review_rule \<Rightarrow> bool" where
  "rule_ids_ok r \<longleftrightarrow> list_all ids_path_safe (ru_requirements r) \<and> overrides_ok (ru_overrides r)
     \<and> pred_option age_ok (sp_maxAgeHours (ru_stale r))"

lemma snapshot_roundtrip:
  "parseReviewRuleSnapshot (Some (canonicaliseRule r)) = Inr r' \<longleftrightarrow>
     r' = r \<and> rule_structure_ok r \<and> rule_ids_ok r \<and> assertCompiledReviewRuleInvariants False r = Inr ()"
proof -
  obtain mode mx refute reqs ids rr sup age where r: "r = \<lparr>ru_mode = mode, ru_maxReviewers = mx, ru_refute = refute,
      ru_requirements = reqs, ru_overrides = \<lparr>ov_allowedReviewers = ids, ov_requireReason = rr\<rparr>,
      ru_stale = \<lparr>sp_rejectSuperseded = sup, sp_maxAgeHours = age\<rparr>\<rparr>"
    by (metis review_rule.surjective rule_overrides.surjective rule_stale.surjective old.unit.exhaust)
  have refute_read: "res_opt validateSnapshotRefute (map_option refute_json x) = Inr y \<longleftrightarrow> y = x \<and> pred_option refute_ok x"
    for x y by (rule res_opt_json) simp
  have mode_read: "snapshot_mode (Some (JStr (case mode of Mode_consensus \<Rightarrow> ''consensus''
      | Mode_latest_proposal \<Rightarrow> ''latest-proposal''))) = Inr mode" for mode
    by (cases mode) (simp_all add: snapshot_mode_def)
  show ?thesis
    unfolding parseReviewRuleSnapshot_def canonicaliseRule_def r
    by (auto simp: res_bind_Inr plain_object_def json_array_def snapshot_requirements_json refute_read mode_read Let_def
        rule_structure_ok_def rule_ids_ok_def overrides_ok_def simp del: map_of_append)
qed

section \<open>What the compiler establishes\<close>

lemma pos_int_iff: "pos_int n \<longleftrightarrow> is_integer_number n \<and> \<not> num_less n (num_of_nat 1)"
  by (auto simp: pos_int_def is_integer_number_def num_of_nat_def split: js_number.splits)

lemma pos_int_ge_1: "pos_int n \<Longrightarrow> num_le (num_of_nat 1) n"
  by (auto simp: pos_int_def num_of_nat_def split: js_number.splits)

lemma compile_int:
  "validatePositiveInt path n = Inr m \<longleftrightarrow> m = n \<and> pred_option pos_int n"
  "validateRequiredPositiveInt path (Some v) = Inr w \<longleftrightarrow> w = v \<and> pos_int v"
  by (auto simp: validatePositiveInt_def validateRequiredPositiveInt_def pos_int_iff res_bind_Inr res_opt_def
      split: option.splits)

lemma compile_list: "validateStringList path xs = Inr ys \<longleftrightarrow> ys = xs \<and> list_ok xs"
  by (auto simp: validateStringList_def res_bind_Inr check_entries_iff list_ok_def)

lemma compile_ids: "validateReviewerIdList path xs = Inr ys \<longleftrightarrow> ys = xs \<and> list_ok xs \<and> list_all path_safe_id xs"
  by (auto simp: validateReviewerIdList_def res_bind_Inr compile_list path_safe_iff)

lemma compile_opt_list: "res_opt (validateStringList path) x = Inr y \<longleftrightarrow> y = x \<and> pred_option list_ok x"
  using res_opt_json [where f = "validateStringList path" and g = "\<lambda>x. x" and P = list_ok, OF compile_list]
  by (simp add: option.map_ident)

lemma compile_requirement: "compileRequirement i p = Inr r \<Longrightarrow> requirement_ok r"
  by (auto simp: compileRequirement_def Let_def res_bind_Inr compile_int compile_opt_list nonEmpty_def requirement_ok_def
      quorum_ok_def pred_option_def)

lemma compile_requirements: "res_map compileRequirement i ps = Inr rs \<Longrightarrow> list_all requirement_ok rs"
  by (induction ps arbitrary: i rs) (auto simp: res_bind_Inr compile_requirement)

lemma compile_refute: "compileProfileRefuteRequirement p = Inr r \<Longrightarrow> refute_ok r"
  by (auto simp: compileProfileRefuteRequirement_def res_bind_Inr compile_int compile_ids nonEmpty_def refute_ok_def)

lemma compile_structure:
  assumes "compileProfileReviewRule p = Inr r"
  shows "rule_structure_ok r \<and> assertCompiledReviewRuleInvariants True r = Inr ()"
proof (cases p)
  case None
  with assms have "r = DEFAULT_REVIEW_RULE" by (simp add: compileProfileReviewRule_def)
  then show ?thesis
    by (simp add: rule_structure_ok_def DEFAULT_REVIEW_RULE_def assertCompiledReviewRuleInvariants_def)
next
  case (Some v)
  from assms obtain mx reqs ref where parts: "validatePositiveInt ''review.max_reviewers'' (pv_max_reviewers v) = Inr mx"
    "res_map compileRequirement 0 (or_else (pv_requirements v) []) = Inr reqs"
    "res_opt compileProfileRefuteRequirement (pv_refute v) = Inr ref"
    and r: "ru_maxReviewers r = mx" "ru_requirements r = reqs" "ru_refute r = ref"
    and inv: "assertCompiledReviewRuleInvariants True r = Inr ()"
    unfolding compileProfileReviewRule_def Some option.case res_bind_Inr Let_def by auto
  have "pred_option refute_ok ref" using parts(3) by (auto simp: res_opt_Inr compile_refute split: option.splits)
  moreover have "list_all requirement_ok reqs" by (rule compile_requirements [OF parts(2)])
  ultimately show ?thesis using parts(1) r inv by (simp add: rule_structure_ok_def compile_int)
qed

text \<open>The authoring boundary is stricter than the reading one.\<close>

lemma assertRequirement_weaken:
  "assertRequirement rule True i req = Inr u \<Longrightarrow> assertRequirement rule False i req = Inr ()"
  by (auto simp: assertRequirement_def Let_def res_bind_Inr split: option.splits if_splits)

lemma invariants_weaken:
  "assertCompiledReviewRuleInvariants True r = Inr u \<Longrightarrow> assertCompiledReviewRuleInvariants False r = Inr ()"
  by (auto simp: assertCompiledReviewRuleInvariants_def Let_def res_bind_Inr res_map_Inr_iff
      intro!: exI [where x = "map (\<lambda>_. ()) (ru_requirements r)"] dest!: assertRequirement_weaken split: option.splits)

text \<open>
  C32: round trip of a compiled rule. A rule compiled from a profile, stored as canonical JSON and read
  back, is the same rule exactly when the reviewer ids of its requirements and overrides are path-safe,
  no override reviewer is listed twice and the age limit, if any, is a positive finite number;
  everything else the reader checks, the compiler has established.
\<close>

theorem compiled_rule_reads_back:
  assumes "compileProfileReviewRule p = Inr r"
  shows "parseReviewRuleSnapshot (Some (canonicaliseRule r)) = Inr r \<longleftrightarrow>
    list_all (\<lambda>q. pred_option (list_all path_safe_id) (rr_reviewerIds q)) (ru_requirements r)
    \<and> distinct (ov_allowedReviewers (ru_overrides r)) \<and> list_all path_safe_id (ov_allowedReviewers (ru_overrides r))
    \<and> pred_option (\<lambda>h. \<exists>x > 0. h = Fin x) (sp_maxAgeHours (ru_stale r))"
proof -
  have "age_ok = (\<lambda>h. \<exists>x > 0. h = Fin x)" by (auto simp: age_ok_def fun_eq_iff split: js_number.splits)
  then show ?thesis
    using compile_structure [OF assms] invariants_weaken [of r]
    by (simp add: snapshot_roundtrip rule_ids_ok_def overrides_ok_def ids_path_safe_def [abs_def])
qed

definition ex_profile :: "string list \<Rightarrow> profile_review" where
  "ex_profile ids = \<lparr>pv_mode = Some Mode_consensus, pv_max_reviewers = None, pv_refute = None,
     pv_requirements = Some [\<lparr>pr_group = ''core'', pr_min_approvals = Fin 2,
       pr_blocking_decisions = [Blocks_rejected, Blocks_changes_requested], pr_quorum_min_participants = None,
       pr_reviewer_ids = Some ids, pr_lens_axes = Some [''security''], pr_max_reviewers = None\<rparr>],
     pv_allowed_reviewers = None, pv_require_reason = None, pv_reject_superseded = None, pv_max_age_hours = Some (Fin 24)\<rparr>"

definition ex_rule :: "string list \<Rightarrow> review_rule" where
  "ex_rule ids = \<lparr>ru_mode = Mode_consensus, ru_maxReviewers = None, ru_refute = None,
     ru_requirements = [\<lparr>rr_group = ''core'', rr_minApprovals = Fin 2,
       rr_blockingDecisions = [Blocks_rejected, Blocks_changes_requested], rr_quorum = None,
       rr_reviewerIds = Some ids, rr_lensAxes = Some [''security''], rr_maxReviewers = None\<rparr>],
     ru_overrides = \<lparr>ov_allowedReviewers = [], ov_requireReason = True\<rparr>,
     ru_stale = \<lparr>sp_rejectSuperseded = True, sp_maxAgeHours = Some (Fin 24)\<rparr>\<rparr>"

lemma ex_rule_compiles:
  "compileProfileReviewRule (Some (ex_profile [''ann'', ''bob''])) = Inr (ex_rule [''ann'', ''bob''])"
  by code_simp

theorem compiled_rule_reads_back_witness:
  "compileProfileReviewRule (Some (ex_profile [''ann'', ''bob''])) = Inr (ex_rule [''ann'', ''bob''])
   \<and> parseReviewRuleSnapshot (Some (canonicaliseRule (ex_rule [''ann'', ''bob'']))) = Inr (ex_rule [''ann'', ''bob''])"
proof -
  have "list_all path_safe_id [''ann'', ''bob'']" by code_simp
  then show ?thesis
    using compiled_rule_reads_back [OF ex_rule_compiles] ex_rule_compiles
    by (simp add: ex_rule_def)
qed

text \<open>
  the compiler accepts rules that the reader of the stored snapshot refuses: reviewer ids of a
  requirement are checked for path safety when a rule is read back, not when it is compiled. A profile
  that names the reviewer \<open>team/ann\<close> compiles, and every run that stores the rule then fails to load it.
\<close>

theorem compiled_rule_unreadable:
  "compileProfileReviewRule (Some (ex_profile [''team/ann'', ''bob''])) = Inr (ex_rule [''team/ann'', ''bob''])
   \<and> parseReviewRuleSnapshot (Some (canonicaliseRule (ex_rule [''team/ann'', ''bob''])))
     = Inl (Unsafe_reviewer_id ''requirements.0.reviewerIds'' ''team/ann'')"
  by code_simp

section \<open>The reader is fail-closed\<close>

lemma snapshot_int_sound: "validateSnapshotPositiveInt path v = Inr m \<Longrightarrow> pred_option pos_int m"
  by (auto simp: validateSnapshotPositiveInt_def pos_int_def split: option.splits json.splits if_splits)

lemma snapshot_required_int_sound: "validateSnapshotRequiredPositiveInt path v = Inr m \<Longrightarrow> pos_int m"
  by (auto simp: validateSnapshotRequiredPositiveInt_def res_bind_Inr dest!: snapshot_int_sound split: option.splits)

lemma check_json_sound: "check_json_entries path seen vs = Inr xs \<Longrightarrow> entries_ok xs \<and> set xs \<inter> set seen = {}"
  by (induction path seen vs arbitrary: xs rule: check_json_entries.induct)
    (fastforce simp: entries_ok_def res_bind_Inr split: if_splits)+

lemma snapshot_list_sound: "validateSnapshotStringList path v = Inr xs \<Longrightarrow> list_ok xs"
proof -
  assume a: "validateSnapshotStringList path v = Inr xs"
  then obtain vs where vs: "vs \<noteq> []" "check_json_entries path [] vs = Inr xs"
    by (auto simp: validateSnapshotStringList_def split: option.splits json.splits if_splits)
  then have "xs \<noteq> []" by (cases "hd vs"; cases vs) (auto simp: res_bind_Inr split: if_splits)
  with check_json_sound [OF vs(2)] show ?thesis by (simp add: list_ok_def)
qed

lemma snapshot_ids_sound: "validateSnapshotReviewerIds path v = Inr xs \<Longrightarrow> list_ok xs \<and> list_all path_safe_id xs"
  by (auto simp: validateSnapshotReviewerIds_def res_bind_Inr path_safe_iff dest: snapshot_list_sound)

lemma snapshot_quorum_sound: "validateSnapshotQuorum path v = Inr q \<Longrightarrow> quorum_ok q"
  by (auto simp: validateSnapshotQuorum_def res_bind_Inr quorum_ok_def dest!: snapshot_int_sound)
    (auto simp: snapshot_rate_def rate_ok_def split: option.splits json.splits if_splits)

lemma res_opt_sound: "res_opt f x = Inr y \<Longrightarrow> (\<And>v w. f v = Inr w \<Longrightarrow> P w) \<Longrightarrow> pred_option P y"
  by (auto simp: res_opt_Inr split: option.splits)

lemma snapshot_group_sound: "snapshot_group path v = Inr g \<Longrightarrow> js_trim g \<noteq> []"
  by (cases "v") (auto simp: snapshot_group_def nonEmpty_def res_bind_Inr split: json.splits)

lemmas snapshot_field_sound = snapshot_group_sound snapshot_required_int_sound snapshot_int_sound
  res_opt_sound [where P = quorum_ok, OF _ snapshot_quorum_sound]
  res_opt_sound [where P = list_ok, OF _ snapshot_list_sound]
  res_opt_sound [where P = "\<lambda>xs. list_ok xs \<and> list_all path_safe_id xs", OF _ snapshot_ids_sound]

lemma snapshot_requirement_sound:
  assumes "validateSnapshotRequirement i v = Inr r"
  shows "requirement_ok r \<and> ids_path_safe r"
proof -
  let ?path = "''requirements.'' @ js_nat i"
  from assms obtain req where fields:
    "snapshot_group (?path @ ''.group'') (map_of req ''group'') = Inr (rr_group r)"
    "validateSnapshotRequiredPositiveInt (?path @ ''.minApprovals'') (map_of req ''minApprovals'') = Inr (rr_minApprovals r)"
    "res_opt (validateSnapshotQuorum (?path @ ''.quorum'')) (map_of req ''quorum'') = Inr (rr_quorum r)"
    "res_opt (\<lambda>v. validateSnapshotReviewerIds (?path @ ''.reviewerIds'') (Some v)) (map_of req ''reviewerIds'') = Inr (rr_reviewerIds r)"
    "res_opt (\<lambda>v. validateSnapshotStringList (?path @ ''.lensAxes'') (Some v)) (map_of req ''lensAxes'') = Inr (rr_lensAxes r)"
    "validateSnapshotPositiveInt (?path @ ''.maxReviewers'') (map_of req ''maxReviewers'') = Inr (rr_maxReviewers r)"
    unfolding validateSnapshotRequirement_def Let_def res_bind_Inr by (elim exE conjE) auto
  have "pred_option (\<lambda>xs. list_ok xs \<and> list_all path_safe_id xs) (rr_reviewerIds r)"
    by (rule snapshot_field_sound(6) [OF fields(4)])
  then have "pred_option list_ok (rr_reviewerIds r)" "ids_path_safe r"
    by (auto simp: ids_path_safe_def pred_option_def)
  then show ?thesis
    using snapshot_field_sound(1) [OF fields(1)] snapshot_field_sound(2) [OF fields(2)]
      snapshot_field_sound(4) [OF fields(3)] snapshot_field_sound(5) [OF fields(5)] snapshot_field_sound(3) [OF fields(6)]
    by (simp add: requirement_ok_def)
qed

lemma snapshot_requirements_sound:
  "res_map validateSnapshotRequirement i vs = Inr rs \<Longrightarrow> list_all requirement_ok rs \<and> list_all ids_path_safe rs"
  by (induction vs arbitrary: i rs) (auto simp: res_bind_Inr dest!: snapshot_requirement_sound)

lemma snapshot_refute_sound: "validateSnapshotRefute v = Inr r \<Longrightarrow> refute_ok r"
  by (auto simp: validateSnapshotRefute_def res_bind_Inr refute_ok_def
      dest!: snapshot_int_sound snapshot_ids_sound snapshot_group_sound)

lemma snapshot_sound:
  assumes "parseReviewRuleSnapshot j = Inr r"
  shows "rule_structure_ok r \<and> list_all ids_path_safe (ru_requirements r)
    \<and> assertCompiledReviewRuleInvariants False r = Inr ()"
proof -
  from assms obtain raw reqs requirements refute mx where
    reqs: "res_map validateSnapshotRequirement 0 reqs = Inr requirements"
    and refute: "res_opt validateSnapshotRefute (map_of raw ''refute'') = Inr refute"
    and mx: "validateSnapshotPositiveInt ''maxReviewers'' (map_of raw ''maxReviewers'') = Inr mx"
    and r: "ru_requirements r = requirements" "ru_refute r = refute" "ru_maxReviewers r = mx"
      "assertCompiledReviewRuleInvariants False r = Inr ()"
    unfolding parseReviewRuleSnapshot_def res_bind_Inr Let_def by auto
  have "pred_option refute_ok refute" using res_opt_sound [OF refute snapshot_refute_sound] by simp
  then show ?thesis
    using snapshot_requirements_sound [OF reqs] snapshot_int_sound [OF mx] r by (simp add: rule_structure_ok_def)
qed

text \<open>What the semantic invariants say of a rule.\<close>

lemma invariants_shape:
  assumes "assertCompiledReviewRuleInvariants b r = Inr u"
  shows "ru_mode r = Mode_consensus \<longleftrightarrow> ru_requirements r \<noteq> []"
    and "ru_refute r \<noteq> None \<longrightarrow> ru_mode r = Mode_consensus"
    and "(\<forall>q \<in> set (ru_requirements r). is_frozen q) \<or> (\<forall>q \<in> set (ru_requirements r). \<not> is_frozen q)"
proof -
  from assms show shape: "ru_mode r = Mode_consensus \<longleftrightarrow> ru_requirements r \<noteq> []"
    by (auto simp: assertCompiledReviewRuleInvariants_def Let_def res_bind_Inr)
  from assms show "ru_refute r \<noteq> None \<longrightarrow> ru_mode r = Mode_consensus"
    by (auto simp: assertCompiledReviewRuleInvariants_def Let_def res_bind_Inr)
  let ?reqs = "ru_requirements r"
  from assms have "\<not> (?reqs \<noteq> [] \<and> 0 < length (filter is_frozen ?reqs) \<and> length (filter is_frozen ?reqs) < length ?reqs)"
    using shape by (auto simp: assertCompiledReviewRuleInvariants_def Let_def res_bind_Inr)
  then have "length (filter is_frozen ?reqs) = 0 \<or> length (filter is_frozen ?reqs) = length ?reqs"
    using length_filter_le [of is_frozen ?reqs] by (cases "?reqs = []") auto
  then show "(\<forall>q \<in> set ?reqs. is_frozen q) \<or> (\<forall>q \<in> set ?reqs. \<not> is_frozen q)"
    by (metis (no_types, lifting) filter_empty_conv filter_id_conv length_0_conv length_filter_less nat_less_le)
qed

lemma invariants_frozen:
  assumes "assertCompiledReviewRuleInvariants b r = Inr u" "q \<in> set (ru_requirements r)" "rr_reviewerIds q = Some ids"
  shows "\<not> num_less (num_of_nat (length ids)) (requiredReviewersForRequirement q)"
proof -
  from assms(1) obtain us where "res_map (assertRequirement r b) 0 (ru_requirements r) = Inr us"
    by (auto simp: assertCompiledReviewRuleInvariants_def Let_def res_bind_Inr)
  then obtain i where "assertRequirement r b i q = Inr ()"
    using assms(2) by (auto simp: res_map_Inr_iff in_set_conv_nth)
  then show ?thesis using assms(3) by (auto simp: assertRequirement_def Let_def res_bind_Inr split: if_splits)
qed

lemma pos_int_quorum_min:
  assumes "requirement_ok q"
  shows "pos_int (quorum_min q)"
proof (cases "Option.bind (rr_quorum q) rq_minParticipants")
  case (Some m)
  then show ?thesis using assms
    by (cases "rr_quorum q") (auto simp: quorum_min_def requirement_ok_def quorum_ok_def)
qed (simp add: quorum_min_def pos_int_def num_of_nat_def)

text \<open>
  C31: the reader of stored rules is fail-closed. Whatever JSON is stored, a rule that it accepts is in
  consensus mode exactly when it has requirements; every requirement asks for at least one approval; its
  requirements all name their reviewers or none does, and a named set is free of duplicates and large
  enough for the approvals and the participation it asks for.
\<close>

theorem snapshot_reader_fail_closed:
  assumes "parseReviewRuleSnapshot j = Inr r"
  shows "(ru_mode r = Mode_consensus \<longleftrightarrow> ru_requirements r \<noteq> [])
    \<and> (\<forall>q \<in> set (ru_requirements r). num_le (num_of_nat 1) (rr_minApprovals q)
        \<and> (case rr_reviewerIds q of None \<Rightarrow> True
           | Some ids \<Rightarrow> distinct ids \<and> num_le (requiredReviewersForRequirement q) (num_of_nat (length ids))))
    \<and> ((\<forall>q \<in> set (ru_requirements r). is_frozen q) \<or> (\<forall>q \<in> set (ru_requirements r). \<not> is_frozen q))"
proof -
  note sound = snapshot_sound [OF assms]
  then have inv: "assertCompiledReviewRuleInvariants False r = Inr ()" by simp
  have "num_le (num_of_nat 1) (rr_minApprovals q)
      \<and> (case rr_reviewerIds q of None \<Rightarrow> True
         | Some ids \<Rightarrow> distinct ids \<and> num_le (requiredReviewersForRequirement q) (num_of_nat (length ids)))"
    if q: "q \<in> set (ru_requirements r)" for q
  proof -
    have ok: "requirement_ok q" using sound q by (auto simp: rule_structure_ok_def list_all_iff)
    then have "pos_int (rr_minApprovals q)" "pos_int (quorum_min q)"
      by (simp_all add: requirement_ok_def pos_int_quorum_min [OF ok])
    then have "requiredReviewersForRequirement q \<noteq> NaN"
      by (auto simp: requiredReviewersForRequirement_def num_max_def pos_int_def split: js_number.splits)
    then show ?thesis
      using ok invariants_frozen [OF inv q]
      by (auto simp: requirement_ok_def pos_int_def list_ok_def entries_ok_def num_le_iff num_of_nat_def
          split: option.splits js_number.splits)
  qed
  then show ?thesis using invariants_shape [OF inv] by simp
qed

theorem snapshot_reader_fail_closed_witness:
  "parseReviewRuleSnapshot (Some (canonicaliseRule (ex_rule [''ann'', ''bob'']))) = Inr (ex_rule [''ann'', ''bob''])
   \<and> list_all (\<lambda>q. num_le (num_of_nat 1) (rr_minApprovals q)) (ru_requirements (ex_rule [''ann'', ''bob'']))"
proof -
  have read: "parseReviewRuleSnapshot (Some (canonicaliseRule (ex_rule [''ann'', ''bob'']))) = Inr (ex_rule [''ann'', ''bob''])"
    by code_simp
  with snapshot_reader_fail_closed [OF read] show ?thesis unfolding list_all_iff by blast
qed

end
