(* ===== verification/Review_Consensus.thy ===== *)
theory Review_Consensus
  imports Review_Rule "HOL-Library.Multiset"
begin

text \<open>
  The consensus over review proposals (\<open>core/review-consensus.ts\<close>): the staleness filter, the votes that
  refute a requested change, quorum, and the verdict per rule. \<open>Date.parse\<close> on texts that are not ISO
  instants and the hash of a required change are arguments. The lemmas characterise approval, show that
  the verdict does not depend on the order of proposals, and that an approval under a rule read from
  storage always rests on approvals of registered reviewers.
\<close>

section \<open>Data\<close>

datatype consensus_status = Cs_pending | Cs_approved | Cs_changes_requested | Cs_rejected

record enriched_proposal =
  ep_proposalId :: int
  ep_reviewerId :: "string option"
  ep_reviewerType :: string
  ep_groupId :: "string option"
  ep_decision :: consensus_status
  ep_requiredChanges :: "string list option"
  ep_reviewedAt :: timestamp
  ep_supersededAt :: "timestamp option"

datatype refute_verdict = V_uphold | V_refute | V_inconclusive

record enriched_refute_vote =
  rv_refuteId :: int
  rv_reviewerId :: string
  rv_groupId :: "string option"
  rv_targetChangeHash :: string
  rv_refuteVerdict :: "refute_verdict option"
  rv_passed :: bool

datatype override_decision = Ov_approved | Ov_changes_requested | Ov_rejected

record consensus_override =
  co_decision :: override_decision
  co_actorReviewerId :: string
  co_reason :: string
  co_createdAt :: timestamp

record requirement_check =
  rk_group :: string
  rk_required :: js_number
  rk_approvals :: nat
  rk_blocked :: bool
  rk_blockingDecision :: "consensus_status option"
  rk_participants :: nat
  rk_quorumMet :: bool

datatype exclude_reason = Excluded_superseded | Excluded_stale_age

record refute_target_check =
  rt_targetChangeHash :: string
  rt_expectedReviewers :: nat
  rt_participants :: nat
  rt_refutes :: nat
  rt_upholds :: nat
  rt_strictMajorityMet :: bool
  rt_duplicateReviewers :: "string list"

record refute_summary =
  rs_group :: string
  rs_reviewerIds :: "string list"
  rs_refutedTargetChangeHashes :: "string list"
  rs_checks :: "refute_target_check list"

datatype decision_path = Path_override | Path_blocking | Path_requirements_met | Path_requirements_pending
  | Path_latest_proposal

record consensus_summary =
  cs_evaluatedAt :: timestamp
  cs_ruleSha256 :: string
  cs_proposals :: "(int \<times> string option \<times> string option \<times> consensus_status) list"
  cs_override :: "consensus_override option"
  cs_requirements :: "requirement_check list"
  cs_refute :: "refute_summary option"
  cs_excluded :: "(int \<times> exclude_reason) list"
  cs_decisionPath :: decision_path

section \<open>Staleness\<close>

definition isOlderThan :: "(string \<Rightarrow> js_number) \<Rightarrow> timestamp \<Rightarrow> js_number \<Rightarrow> js_number \<Rightarrow> bool" where
  "isOlderThan dates reviewedAt evaluatedMs maxAgeHours =
     (if maxAgeHours = NaN \<or> num_less maxAgeHours (Fin 0) then True
      else case (date_parse dates reviewedAt, evaluatedMs) of
        (Fin reviewed, Fin evaluated) \<Rightarrow> num_less maxAgeHours (num_div (evaluated - reviewed) 3600000)
      | _ \<Rightarrow> True)"

definition stale_reason ::
  "(string \<Rightarrow> js_number) \<Rightarrow> rule_stale \<Rightarrow> js_number \<Rightarrow> enriched_proposal \<Rightarrow> exclude_reason option" where
  "stale_reason dates stale evaluatedMs p =
     (if sp_rejectSuperseded stale \<and> ep_supersededAt p \<noteq> None then Some Excluded_superseded
      else case sp_maxAgeHours stale of
        None \<Rightarrow> None
      | Some h \<Rightarrow> if isOlderThan dates (ep_reviewedAt p) evaluatedMs h then Some Excluded_stale_age else None)"

fun filterStaleProposals ::
  "(string \<Rightarrow> js_number) \<Rightarrow> rule_stale \<Rightarrow> js_number \<Rightarrow> enriched_proposal list
     \<Rightarrow> enriched_proposal list \<times> (int \<times> exclude_reason) list" where
  "filterStaleProposals dates stale ms [] = ([], [])"
| "filterStaleProposals dates stale ms (p # ps) =
     (let (active, excluded) = filterStaleProposals dates stale ms ps
      in case stale_reason dates stale ms p of
           Some why \<Rightarrow> (active, (ep_proposalId p, why) # excluded)
         | None \<Rightarrow> (p # active, excluded))"

section \<open>Refuting a requested change\<close>

definition eligible_vote :: "rule_refute \<Rightarrow> enriched_refute_vote \<Rightarrow> bool" where
  "eligible_vote refute v \<longleftrightarrow> rv_passed v \<and> rv_groupId v = Some (rf_group refute)
     \<and> rv_reviewerId v \<in> set (rf_reviewerIds refute)
     \<and> (rv_refuteVerdict v = Some V_uphold \<or> rv_refuteVerdict v = Some V_refute)"

definition target_check :: "rule_refute \<Rightarrow> string \<times> enriched_refute_vote list \<Rightarrow> refute_target_check" where
  "target_check refute entry1 =
     (let (targetHash, targetVotes) = entry1;
          byReviewer = group_by rv_reviewerId targetVotes;
          duplicates = sort (map fst (filter (\<lambda>(_, vs). length vs > 1) byReviewer));
          uniqueVotes = (if duplicates = [] then map (\<lambda>(_, vs). hd vs) byReviewer else []);
          refutes = length (filter (\<lambda>v. rv_refuteVerdict v = Some V_refute) uniqueVotes);
          upholds = length (filter (\<lambda>v. rv_refuteVerdict v = Some V_uphold) uniqueVotes);
          participants = length uniqueVotes;
          expected = length (rf_reviewerIds refute)
      in \<lparr>rt_targetChangeHash = targetHash, rt_expectedReviewers = expected, rt_participants = participants,
          rt_refutes = refutes, rt_upholds = upholds,
          rt_strictMajorityMet = (duplicates = []
            \<and> num_le (or_else (rf_minParticipants refute) (num_of_nat 1)) (num_of_nat participants)
            \<and> expected < 2 * refutes),
          rt_duplicateReviewers = duplicates\<rparr>)"

definition evaluateRefuteSummary :: "review_rule \<Rightarrow> enriched_refute_vote list \<Rightarrow> refute_summary option" where
  "evaluateRefuteSummary rule votes =
     (case ru_refute rule of
        None \<Rightarrow> None
      | Some refute \<Rightarrow>
          (let byTarget = group_by rv_targetChangeHash (filter (eligible_vote refute) votes);
               checks = map (target_check refute) (sort_key fst byTarget)
           in Some \<lparr>rs_group = rf_group refute, rs_reviewerIds = sort (rf_reviewerIds refute),
                rs_refutedTargetChangeHashes = map rt_targetChangeHash (filter rt_strictMajorityMet checks),
                rs_checks = checks\<rparr>))"

definition isChangesRequestRefuted :: "(string \<Rightarrow> string) \<Rightarrow> enriched_proposal \<Rightarrow> string list \<Rightarrow> bool" where
  "isChangesRequestRefuted hash p refuted =
     (case ep_requiredChanges p of
        None \<Rightarrow> False
      | Some changes \<Rightarrow> changes \<noteq> [] \<and> list_all (\<lambda>c. hash c \<in> set refuted) changes)"

section \<open>Quorum\<close>

definition min_participants_met :: "rule_quorum \<Rightarrow> nat \<Rightarrow> bool" where
  "min_participants_met quorum participants =
     (case rq_minParticipants quorum of
        None \<Rightarrow> True
      | Some m \<Rightarrow> is_finite_number m \<and> \<not> num_less m (Fin 0) \<and> \<not> num_less (num_of_nat participants) m)"

definition participation_rate_met :: "rule_quorum \<Rightarrow> nat \<Rightarrow> bool" where
  "participation_rate_met quorum participants =
     (case rq_minParticipationRate quorum of
        None \<Rightarrow> True
      | Some (Fin rate) \<Rightarrow>
          0 \<le> rate \<and> rate \<le> 1
          \<and> (case rq_groupSize quorum of
               Some (Fin groupSize) \<Rightarrow> 0 < groupSize \<and> \<not> num_less (num_div (of_nat participants) groupSize) (Fin rate)
             | _ \<Rightarrow> False)
      | Some _ \<Rightarrow> False)"

definition isQuorumMet :: "rule_quorum option \<Rightarrow> nat \<Rightarrow> bool" where
  "isQuorumMet quorum participants =
     (case quorum of None \<Rightarrow> True | Some q \<Rightarrow> min_participants_met q participants \<and> participation_rate_met q participants)"

section \<open>The verdict\<close>

definition pickLatest :: "enriched_proposal list \<Rightarrow> enriched_proposal option" where
  "pickLatest proposals = newest (\<lambda>p best. ep_reviewedAt p > ep_reviewedAt best) proposals"

definition in_group :: "rule_requirement \<Rightarrow> enriched_proposal \<Rightarrow> bool" where
  "in_group req p \<longleftrightarrow> ep_groupId p = Some (rr_group req) \<and> ep_reviewerId p \<noteq> None"

definition blocks_reject :: "rule_requirement \<Rightarrow> enriched_proposal \<Rightarrow> bool" where
  "blocks_reject req p \<longleftrightarrow> ep_decision p = Cs_rejected \<and> Blocks_rejected \<in> set (rr_blockingDecisions req)"

definition blocks_changes :: "(string \<Rightarrow> string) \<Rightarrow> string list \<Rightarrow> rule_requirement \<Rightarrow> enriched_proposal \<Rightarrow> bool" where
  "blocks_changes hash refuted req p \<longleftrightarrow> ep_decision p = Cs_changes_requested
     \<and> Blocks_changes_requested \<in> set (rr_blockingDecisions req) \<and> \<not> isChangesRequestRefuted hash p refuted"

definition check_requirement ::
  "(string \<Rightarrow> string) \<Rightarrow> string list \<Rightarrow> enriched_proposal list \<Rightarrow> rule_requirement \<Rightarrow> requirement_check" where
  "check_requirement hash refuted proposals req =
     (let inGroup = filter (in_group req) proposals;
          blockedByReject = list_ex (blocks_reject req) inGroup;
          blockedByChanges = list_ex (blocks_changes hash refuted req) inGroup;
          participants = length (js_set (map ep_reviewerId (filter (\<lambda>p. ep_decision p \<noteq> Cs_pending) inGroup)))
      in \<lparr>rk_group = rr_group req, rk_required = rr_minApprovals req,
          rk_approvals = length (filter (\<lambda>p. ep_decision p = Cs_approved) inGroup),
          rk_blocked = (blockedByReject \<or> blockedByChanges),
          rk_blockingDecision = (if blockedByReject then Some Cs_rejected
            else if blockedByChanges then Some Cs_changes_requested else None),
          rk_participants = participants, rk_quorumMet = isQuorumMet (rr_quorum req) participants\<rparr>)"

text \<open>The running \<open>blockingStatus\<close> of the loop over the requirements.\<close>

definition block_step :: "requirement_check \<Rightarrow> consensus_status option \<Rightarrow> consensus_status option" where
  "block_step chk blocking =
     (if rk_blockingDecision chk = Some Cs_rejected then Some Cs_rejected
      else if rk_blockingDecision chk = Some Cs_changes_requested
        \<and> (blocking = None \<or> blocking = Some Cs_changes_requested) then Some Cs_changes_requested
      else blocking)"

definition override_status :: "override_decision \<Rightarrow> consensus_status" where
  "override_status d = (case d of Ov_approved \<Rightarrow> Cs_approved | Ov_changes_requested \<Rightarrow> Cs_changes_requested
     | Ov_rejected \<Rightarrow> Cs_rejected)"

definition evaluateConsensus ::
  "(string \<Rightarrow> js_number) \<Rightarrow> (string \<Rightarrow> string) \<Rightarrow> review_rule \<Rightarrow> string \<Rightarrow> enriched_proposal list
     \<Rightarrow> enriched_refute_vote list \<Rightarrow> consensus_override option \<Rightarrow> timestamp \<Rightarrow> consensus_status \<times> consensus_summary" where
  "evaluateConsensus dates hash rule ruleSha all_proposals votes override evaluatedAt =
     (let (proposals, excluded) = filterStaleProposals dates (ru_stale rule) (date_parse dates evaluatedAt) all_proposals;
          refuteSummary = evaluateRefuteSummary rule votes;
          summary = (\<lambda>checks path. \<lparr>cs_evaluatedAt = evaluatedAt, cs_ruleSha256 = ruleSha,
            cs_proposals = map (\<lambda>p. (ep_proposalId p, ep_reviewerId p, ep_groupId p, ep_decision p)) proposals,
            cs_override = override, cs_requirements = checks, cs_refute = refuteSummary, cs_excluded = excluded,
            cs_decisionPath = path\<rparr>)
      in case override of
           Some o1 \<Rightarrow> (override_status (co_decision o1), summary [] Path_override)
         | None \<Rightarrow>
             if ru_mode rule = Mode_latest_proposal \<or> ru_requirements rule = [] then
               (case pickLatest proposals of None \<Rightarrow> Cs_pending | Some p \<Rightarrow> ep_decision p, summary [] Path_latest_proposal)
             else
               (let refuted = (case refuteSummary of None \<Rightarrow> [] | Some r \<Rightarrow> rs_refutedTargetChangeHashes r);
                    checks = map (check_requirement hash refuted proposals) (ru_requirements rule);
                    blocking = fold block_step checks None
                in case blocking of
                     Some status \<Rightarrow> (status, summary checks Path_blocking)
                   | None \<Rightarrow>
                       if list_all (\<lambda>r. num_le (rk_required r) (num_of_nat (rk_approvals r)) \<and> rk_quorumMet r) checks
                       then (Cs_approved, summary checks Path_requirements_met)
                       else (Cs_pending, summary checks Path_requirements_pending)))"

section \<open>The verdict on multisets\<close>

text \<open>
  A reference for the consensus mode that takes the proposals and votes as multisets: what a
  requirement needs, what blocks it, and when a requested change counts as refuted.
\<close>

definition refuted_by_majority :: "rule_refute \<Rightarrow> enriched_refute_vote multiset \<Rightarrow> string \<Rightarrow> bool" where
  "refuted_by_majority refute votes h \<longleftrightarrow>
     (let vs = filter_mset (\<lambda>v. eligible_vote refute v \<and> rv_targetChangeHash v = h) votes
      in vs \<noteq> {#} \<and> (\<forall>r. count (image_mset rv_reviewerId vs) r \<le> 1)
         \<and> num_le (or_else (rf_minParticipants refute) (num_of_nat 1)) (num_of_nat (size vs))
         \<and> length (rf_reviewerIds refute) < 2 * size (filter_mset (\<lambda>v. rv_refuteVerdict v = Some V_refute) vs))"

definition change_refuted :: "(string \<Rightarrow> string) \<Rightarrow> review_rule \<Rightarrow> enriched_refute_vote multiset \<Rightarrow> enriched_proposal \<Rightarrow> bool" where
  "change_refuted hash rule votes p \<longleftrightarrow>
     (\<exists>refute changes. ru_refute rule = Some refute \<and> ep_requiredChanges p = Some changes \<and> changes \<noteq> []
        \<and> (\<forall>c \<in> set changes. refuted_by_majority refute votes (hash c)))"

definition rejected_in :: "rule_requirement \<Rightarrow> enriched_proposal multiset \<Rightarrow> bool" where
  "rejected_in req ps \<longleftrightarrow> Blocks_rejected \<in> set (rr_blockingDecisions req)
     \<and> (\<exists>p. p \<in># ps \<and> in_group req p \<and> ep_decision p = Cs_rejected)"

definition changes_wanted_in ::
  "(string \<Rightarrow> string) \<Rightarrow> review_rule \<Rightarrow> enriched_refute_vote multiset \<Rightarrow> rule_requirement \<Rightarrow> enriched_proposal multiset \<Rightarrow> bool" where
  "changes_wanted_in hash rule votes req ps \<longleftrightarrow> Blocks_changes_requested \<in> set (rr_blockingDecisions req)
     \<and> (\<exists>p. p \<in># ps \<and> in_group req p \<and> ep_decision p = Cs_changes_requested \<and> \<not> change_refuted hash rule votes p)"

definition enough_approvals :: "rule_requirement \<Rightarrow> enriched_proposal multiset \<Rightarrow> bool" where
  "enough_approvals req ps \<longleftrightarrow>
     num_le (rr_minApprovals req) (num_of_nat (size (filter_mset (\<lambda>p. in_group req p \<and> ep_decision p = Cs_approved) ps)))
     \<and> isQuorumMet (rr_quorum req)
         (card (ep_reviewerId ` {p. p \<in># ps \<and> in_group req p \<and> ep_decision p \<noteq> Cs_pending}))"

definition consensus_verdict ::
  "(string \<Rightarrow> string) \<Rightarrow> review_rule \<Rightarrow> enriched_proposal multiset \<Rightarrow> enriched_refute_vote multiset \<Rightarrow> consensus_status" where
  "consensus_verdict hash rule ps votes =
     (if \<exists>req \<in> set (ru_requirements rule). rejected_in req ps then Cs_rejected
      else if \<exists>req \<in> set (ru_requirements rule). changes_wanted_in hash rule votes req ps then Cs_changes_requested
      else if \<forall>req \<in> set (ru_requirements rule). enough_approvals req ps then Cs_approved
      else Cs_pending)"

definition fresh :: "(string \<Rightarrow> js_number) \<Rightarrow> review_rule \<Rightarrow> timestamp \<Rightarrow> enriched_proposal \<Rightarrow> bool" where
  "fresh dates rule evaluatedAt p \<longleftrightarrow> stale_reason dates (ru_stale rule) (date_parse dates evaluatedAt) p = None"

section \<open>The evaluator computes the reference\<close>

lemma filterStale_active: "fst (filterStaleProposals dates stale ms ps) = filter (\<lambda>p. stale_reason dates stale ms p = None) ps"
  by (induction ps) (auto simp: split_beta split: option.splits)

lemma filterStale_excluded:
  "snd (filterStaleProposals dates stale ms ps) =
     List.map_filter (\<lambda>p. map_option (Pair (ep_proposalId p)) (stale_reason dates stale ms p)) ps"
  by (induction ps) (auto simp: split_beta List.map_filter_simps split: option.splits)

lemma length_filter_key: "length (filter (\<lambda>x. key x = k) xs) = count (mset (map key xs)) k"
  by (induction xs) auto

lemma distinct_map_count: "distinct (map key xs) \<longleftrightarrow> (\<forall>k. count (mset (map key xs)) k \<le> 1)"
proof -
  have "count (mset (map key xs)) a = (if a \<in> set (map key xs) then 1 else 0) \<longleftrightarrow> count (mset (map key xs)) a \<le> 1" for a
  proof (cases "a \<in> set (map key xs)")
    case True
    then have "0 < count (mset (map key xs)) a" by (simp only: count_greater_zero_iff set_mset_mset)
    then show ?thesis using True by (simp only: if_True) linarith
  next
    case False
    then have "count (mset (map key xs)) a = 0" by (simp only: count_eq_zero_iff set_mset_mset not_False_eq_True)
    then show ?thesis using False by simp
  qed
  then show ?thesis unfolding distinct_count_atmost_1 by simp
qed

lemma duplicates_none:
  "filter (\<lambda>(_, vs). length vs > 1) (group_by key xs) = [] \<longleftrightarrow> (\<forall>k. count (mset (map key xs)) k \<le> 1)"
proof -
  have "filter (\<lambda>(_, vs). length vs > 1) (group_by key xs) = []
      \<longleftrightarrow> (\<forall>k \<in> key ` set xs. length (filter (\<lambda>x. key x = k) xs) \<le> 1)"
    by (auto simp: filter_empty_conv group_by_def)
  also have "\<dots> \<longleftrightarrow> (\<forall>k. count (mset (map key xs)) k \<le> 1)"
    unfolding length_filter_key
    by (metis count_eq_zero_iff le0 set_map set_mset_mset)
  finally show ?thesis .
qed

lemma group_by_distinct:
  assumes "distinct (map key xs)"
  shows "map (\<lambda>(_, vs). hd vs) (group_by key xs) = xs"
proof -
  have "filter (\<lambda>y. key y = key x) xs = [x]" if "x \<in> set xs" for x
  proof -
    have "length (filter (\<lambda>y. key y = key x) xs) \<le> 1"
      using assms unfolding length_filter_key distinct_map_count by (rule spec)
    moreover have "x \<in> set (filter (\<lambda>y. key y = key x) xs)" using that by simp
    ultimately show ?thesis by (cases "filter (\<lambda>y. key y = key x) xs") auto
  qed
  then have "map (\<lambda>x. hd (filter (\<lambda>y. key y = key x) xs)) xs = xs" by (intro map_idI) simp
  then show ?thesis using assms by (simp add: group_by_def js_set_distinct comp_def)
qed

lemma target_check_majority:
  "rt_strictMajorityMet (target_check refute (h, vs)) \<longleftrightarrow>
     (\<forall>r. count (image_mset rv_reviewerId (mset vs)) r \<le> 1)
     \<and> num_le (or_else (rf_minParticipants refute) (num_of_nat 1)) (num_of_nat (length vs))
     \<and> length (rf_reviewerIds refute) < 2 * length (filter (\<lambda>v. rv_refuteVerdict v = Some V_refute) vs)"
proof (cases "\<forall>r. count (image_mset rv_reviewerId (mset vs)) r \<le> 1")
  case True
  then have "filter (\<lambda>(_, vs). length vs > 1) (group_by rv_reviewerId vs) = []"
    "map (\<lambda>(_, vs). hd vs) (group_by rv_reviewerId vs) = vs"
    using duplicates_none [of rv_reviewerId vs] group_by_distinct [of rv_reviewerId vs]
      distinct_map_count [of rv_reviewerId vs] by simp_all
  then show ?thesis using True by (simp add: target_check_def) (simp add: Let_def)
next
  case False
  then have "filter (\<lambda>(_, vs). length vs > 1) (group_by rv_reviewerId vs) \<noteq> []"
    using duplicates_none [of rv_reviewerId vs] by simp
  then have "sort (map fst (filter (\<lambda>(_, vs). length vs > 1) (group_by rv_reviewerId vs))) \<noteq> []"
    by (simp only: length_greater_0_conv [symmetric] length_sort length_map)
  then show ?thesis using False by (simp add: target_check_def Let_def)
qed

lemma target_check_hash: "rt_targetChangeHash (target_check refute (h, vs)) = h"
  by (simp add: target_check_def Let_def)

lemma refuted_iff:
  assumes "evaluateRefuteSummary rule votes = Some s"
  shows "h \<in> set (rs_refutedTargetChangeHashes s) \<longleftrightarrow>
    (\<exists>refute. ru_refute rule = Some refute \<and> refuted_by_majority refute (mset votes) h)"
proof -
  from assms obtain refute where refute: "ru_refute rule = Some refute"
    by (auto simp: evaluateRefuteSummary_def split: option.splits)
  let ?vs = "filter (\<lambda>v. eligible_vote refute v \<and> rv_targetChangeHash v = h) votes"
  let ?groups = "group_by rv_targetChangeHash (filter (eligible_vote refute) votes)"
  have vs: "filter (\<lambda>v. rv_targetChangeHash v = k) (filter (eligible_vote refute) votes)
      = filter (\<lambda>v. eligible_vote refute v \<and> rv_targetChangeHash v = k) votes" for k
    by (simp add: conj_commute)
  have "h \<in> set (rs_refutedTargetChangeHashes s) \<longleftrightarrow>
      (\<exists>vs. (h, vs) \<in> set ?groups \<and> rt_strictMajorityMet (target_check refute (h, vs)))"
    using assms refute by (force simp: evaluateRefuteSummary_def Let_def target_check_hash)
  also have "\<dots> \<longleftrightarrow> h \<in> rv_targetChangeHash ` set (filter (eligible_vote refute) votes)
      \<and> rt_strictMajorityMet (target_check refute (h, ?vs))"
    by (auto simp: in_group_by vs simp del: filter_filter) 
  also have "\<dots> \<longleftrightarrow> refuted_by_majority refute (mset votes) h"
    unfolding target_check_majority refuted_by_majority_def Let_def
    by (auto simp: filter_mset_eq_conv filter_empty_conv simp flip: mset_filter)
  finally show ?thesis using refute by simp
qed

definition refuted_hashes :: "review_rule \<Rightarrow> enriched_refute_vote list \<Rightarrow> string list" where
  "refuted_hashes rule votes = (case evaluateRefuteSummary rule votes of None \<Rightarrow> [] | Some r \<Rightarrow> rs_refutedTargetChangeHashes r)"

lemma refuted_hashes_iff:
  "h \<in> set (refuted_hashes rule votes) \<longleftrightarrow> (\<exists>refute. ru_refute rule = Some refute \<and> refuted_by_majority refute (mset votes) h)"
  using refuted_iff [of rule votes _ h]
  by (cases "evaluateRefuteSummary rule votes")
    (auto simp: refuted_hashes_def, auto simp: evaluateRefuteSummary_def Let_def split: option.splits)

lemma change_refuted_iff:
  "isChangesRequestRefuted hash p (refuted_hashes rule votes) \<longleftrightarrow> change_refuted hash rule (mset votes) p"
proof (cases "ru_refute rule")
  case None
  then have "refuted_hashes rule votes = []" by (simp add: refuted_hashes_def evaluateRefuteSummary_def)
  then show ?thesis using None
    by (auto simp: isChangesRequestRefuted_def change_refuted_def list_all_iff split: option.splits)
next
  case (Some refute)
  then show ?thesis
    by (auto simp: isChangesRequestRefuted_def change_refuted_def list_all_iff refuted_hashes_iff split: option.splits)
qed

lemma check_blocking:
  "rk_blockingDecision (check_requirement hash (refuted_hashes rule votes) ps req) =
     (if rejected_in req (mset ps) then Some Cs_rejected
      else if changes_wanted_in hash rule (mset votes) req (mset ps) then Some Cs_changes_requested else None)"
  by (auto simp: check_requirement_def Let_def rejected_in_def changes_wanted_in_def list_ex_iff blocks_reject_def
      blocks_changes_def change_refuted_iff)

lemma check_enough:
  "num_le (rk_required (check_requirement hash refuted ps req)) (num_of_nat (rk_approvals (check_requirement hash refuted ps req)))
     \<and> rk_quorumMet (check_requirement hash refuted ps req) \<longleftrightarrow> enough_approvals req (mset ps)"
proof -
  have "length (filter (\<lambda>p. ep_decision p = Cs_approved) (filter (in_group req) ps))
      = size (filter_mset (\<lambda>p. in_group req p \<and> ep_decision p = Cs_approved) (mset ps))"
    by (simp add: conj_commute flip: mset_filter)
  moreover have "length (js_set (map ep_reviewerId (filter (\<lambda>p. ep_decision p \<noteq> Cs_pending) (filter (in_group req) ps))))
      = card (ep_reviewerId ` {p. p \<in># mset ps \<and> in_group req p \<and> ep_decision p \<noteq> Cs_pending})"
    by (simp add: length_js_set conj_commute conj_left_commute)
  ultimately show ?thesis by (simp add: check_requirement_def Let_def enough_approvals_def)
qed

text \<open>The loop over the requirements: a rejection anywhere wins over a change request anywhere.\<close>

lemma fold_block_step:
  "fold block_step checks acc =
     (if acc = Some Cs_rejected \<or> (\<exists>c \<in> set checks. rk_blockingDecision c = Some Cs_rejected) then Some Cs_rejected
      else if acc \<noteq> None then acc
      else if \<exists>c \<in> set checks. rk_blockingDecision c = Some Cs_changes_requested then Some Cs_changes_requested
      else None)"
  if "acc \<in> {None, Some Cs_rejected, Some Cs_changes_requested}"
  using that by (induction checks arbitrary: acc) (auto simp: block_step_def)

lemma evaluateConsensus_status:
  "fst (evaluateConsensus dates hash rule sha ps votes ov t) =
     (case ov of
        Some o1 \<Rightarrow> override_status (co_decision o1)
      | None \<Rightarrow>
          if ru_mode rule = Mode_latest_proposal \<or> ru_requirements rule = [] then
            (case pickLatest (filter (fresh dates rule t) ps) of None \<Rightarrow> Cs_pending | Some p \<Rightarrow> ep_decision p)
          else consensus_verdict hash rule (mset (filter (fresh dates rule t) ps)) (mset votes))"
proof -
  let ?act = "filter (fresh dates rule t) ps"
  let ?checks = "map (check_requirement hash (refuted_hashes rule votes) ?act) (ru_requirements rule)"
  have act: "fst (filterStaleProposals dates (ru_stale rule) (date_parse dates t) ps) = ?act"
    by (simp add: filterStale_active fresh_def [abs_def])
  have fold_eq: "fold block_step ?checks None =
      (if \<exists>req \<in> set (ru_requirements rule). rejected_in req (mset ?act) then Some Cs_rejected
       else if \<exists>req \<in> set (ru_requirements rule). changes_wanted_in hash rule (mset votes) req (mset ?act)
         then Some Cs_changes_requested else None)"
    by (subst fold_block_step) (auto simp: check_blocking)
  have enough: "list_all (\<lambda>r. num_le (rk_required r) (num_of_nat (rk_approvals r)) \<and> rk_quorumMet r) ?checks
      \<longleftrightarrow> (\<forall>req \<in> set (ru_requirements rule). enough_approvals req (mset ?act))"
    by (simp add: list_all_iff check_enough)
  show ?thesis
    unfolding evaluateConsensus_def Let_def split_beta act fold_eq enough consensus_verdict_def
      refuted_hashes_def [symmetric]
    by (auto split: option.splits)
qed

text \<open>
  The reference for a rule in latest-proposal mode: of the proposals than which none is newer, the first one listed.
\<close>

definition newest_of :: "enriched_proposal list \<Rightarrow> enriched_proposal list" where
  "newest_of ps = filter (\<lambda>p. \<forall>q \<in> set ps. ep_reviewedAt q \<le> ep_reviewedAt p) ps"

definition latest_verdict :: "enriched_proposal list \<Rightarrow> consensus_status" where
  "latest_verdict ps = (case newest_of ps of [] \<Rightarrow> Cs_pending | p # _ \<Rightarrow> ep_decision p)"

lemma newest_of_snoc:
  assumes "newest_of xs = b # bs"
  shows "newest_of (xs @ [x]) = (if ep_reviewedAt x > ep_reviewedAt b then [x]
    else b # bs @ (if ep_reviewedAt x = ep_reviewedAt b then [x] else []))"
proof -
  have b: "b \<in> set xs" "\<forall>q \<in> set xs. ep_reviewedAt q \<le> ep_reviewedAt b"
    using assms unfolding newest_of_def by (auto simp: filter_eq_Cons_iff)
  show ?thesis
  proof (cases "ep_reviewedAt x > ep_reviewedAt b")
    case True
    then have "\<forall>q \<in> set xs. ep_reviewedAt q < ep_reviewedAt x" using b(2) by (meson le_less_trans)
    then show ?thesis using True by (auto simp: newest_of_def filter_empty_conv)
  next
    case False
    have "filter (\<lambda>p. \<forall>q \<in> set (xs @ [x]). ep_reviewedAt q \<le> ep_reviewedAt p) xs = newest_of xs"
      unfolding newest_of_def using False b by (intro filter_cong) (auto intro: order_trans [OF leI])
    then show ?thesis using False b assms by (auto simp: newest_of_def intro: order_antisym)
  qed
qed

lemma pickLatest_first: "pickLatest ps = (case newest_of ps of [] \<Rightarrow> None | p # _ \<Rightarrow> Some p)"
proof (induction ps rule: rev_induct)
  case (snoc x xs)
  have step: "pickLatest (xs @ [x]) = keep_newer (\<lambda>p best. ep_reviewedAt p > ep_reviewedAt best) x (pickLatest xs)"
    by (simp add: pickLatest_def newest_def)
  show ?case
  proof (cases "newest_of xs")
    case Nil
    then have "pickLatest xs = None" using snoc by simp
    then have "xs = []" by (simp add: pickLatest_def newest_None_iff)
    then show ?thesis by (simp add: pickLatest_def newest_def keep_newer_def newest_of_def)
  next
    case (Cons b bs)
    have "pickLatest xs = Some b" using snoc Cons by simp
    then show ?thesis unfolding step newest_of_snoc [OF Cons] by (simp add: keep_newer_def)
  qed
qed (simp add: pickLatest_def newest_def newest_of_def)

lemma picked_verdict: "(case pickLatest ps of None \<Rightarrow> Cs_pending | Some p \<Rightarrow> ep_decision p) = latest_verdict ps"
  by (simp add: pickLatest_first latest_verdict_def split: list.split)

text \<open>
  C30: the evaluator computes the reference verdict. An override decides alone. Without one, a rule in latest-proposal mode
  takes the decision of the first listed among the newest fresh proposals, and is pending without a fresh one; a consensus rule takes the
  verdict on the multisets of fresh proposals and votes: rejected before changes requested before
  approved before pending. So in consensus mode the order in which proposals and votes are listed does not matter; in
  latest-proposal mode it decides between fresh proposals of the same, newest, time.
\<close>

theorem consensus_refines_verdict:
  "fst (evaluateConsensus dates hash rule sha ps votes ov t) =
     (case ov of
        Some o1 \<Rightarrow> override_status (co_decision o1)
      | None \<Rightarrow>
          if ru_mode rule = Mode_latest_proposal \<or> ru_requirements rule = [] then latest_verdict (filter (fresh dates rule t) ps)
          else consensus_verdict hash rule (mset (filter (fresh dates rule t) ps)) (mset votes))"
  by (simp add: evaluateConsensus_status picked_verdict split: option.split)

section \<open>No approval without reviewers\<close>

interpretation latest: strict_weak_order "\<lambda>p best. ep_reviewedAt p > ep_reviewedAt best"
  by unfold_locales auto

lemma pickLatest_latest: "pickLatest ps = Some p \<Longrightarrow> p \<in> set ps \<and> (\<forall>q \<in> set ps. ep_reviewedAt q \<le> ep_reviewedAt p)"
  unfolding pickLatest_def using newest_mem latest.newest_max by fastforce

lemma verdict_approved:
  "consensus_verdict hash rule ps votes = Cs_approved \<longleftrightarrow>
     (\<forall>req \<in> set (ru_requirements rule). \<not> rejected_in req ps \<and> \<not> changes_wanted_in hash rule votes req ps \<and> enough_approvals req ps)"
  by (auto simp: consensus_verdict_def)

lemma enough_has_approval:
  assumes "enough_approvals req ps" "num_le (num_of_nat 1) (rr_minApprovals req)"
  shows "\<exists>p. p \<in># ps \<and> in_group req p \<and> ep_decision p = Cs_approved"
proof -
  let ?ok = "filter_mset (\<lambda>p. in_group req p \<and> ep_decision p = Cs_approved) ps"
  have "num_le (num_of_nat 1) (num_of_nat (size ?ok))"
    by (rule num_le_trans [OF assms(2)]) (use assms(1) in \<open>simp add: enough_approvals_def\<close>)
  then have "0 < size ?ok" by simp
  then obtain p where "p \<in># ?ok" by (metis multiset_nonemptyE size_empty less_irrefl)
  then show ?thesis by auto
qed

text \<open>
  C29: no approval without reviewers. Take any stored rule that reads back, and suppose the evaluator
  approves without an override. In latest-proposal mode the approval is that of a fresh proposal than which
  no fresh one is newer. In consensus mode every requirement has a fresh approval by a registered member of
  its group, no fresh rejection of a group that blocks on rejection, and every fresh change request of a
  group that blocks on change requests has been refuted, each of its required changes by more than half of
  the named refuters.
\<close>

theorem approval_needs_reviewers:
  assumes "parseReviewRuleSnapshot j = Inr rule"
    and "fst (evaluateConsensus dates hash rule sha ps votes None t) = Cs_approved"
  shows "case ru_mode rule of
      Mode_latest_proposal \<Rightarrow> \<exists>p \<in> set ps. fresh dates rule t p \<and> ep_decision p = Cs_approved
        \<and> (\<forall>q \<in> set ps. fresh dates rule t q \<longrightarrow> ep_reviewedAt q \<le> ep_reviewedAt p)
    | Mode_consensus \<Rightarrow> \<forall>req \<in> set (ru_requirements rule).
        (\<exists>p \<in> set ps. fresh dates rule t p \<and> ep_groupId p = Some (rr_group req) \<and> ep_reviewerId p \<noteq> None
           \<and> ep_decision p = Cs_approved)
        \<and> (\<forall>p \<in> set ps. fresh dates rule t p \<and> in_group req p \<and> ep_decision p = Cs_rejected
             \<longrightarrow> Blocks_rejected \<notin> set (rr_blockingDecisions req))
        \<and> (\<forall>p \<in> set ps. fresh dates rule t p \<and> in_group req p \<and> ep_decision p = Cs_changes_requested
             \<and> Blocks_changes_requested \<in> set (rr_blockingDecisions req) \<longrightarrow> change_refuted hash rule (mset votes) p)"
proof (cases "ru_mode rule")
  case Mode_latest_proposal
  then obtain p where p: "pickLatest (filter (fresh dates rule t) ps) = Some p" "ep_decision p = Cs_approved"
    using assms(2) by (auto simp: evaluateConsensus_status split: option.splits)
  show ?thesis
    unfolding Mode_latest_proposal review_mode.case
    by (rule bexI [of _ p]) (use p(2) pickLatest_latest [OF p(1)] in auto)
next
  case Mode_consensus
  note sound = snapshot_sound [OF assms(1)]
  have "ru_requirements rule \<noteq> []" using sound invariants_shape(1) [of False rule] Mode_consensus by simp
  then have ok: "\<not> rejected_in req (mset (filter (fresh dates rule t) ps))"
    "\<not> changes_wanted_in hash rule (mset votes) req (mset (filter (fresh dates rule t) ps))"
    "enough_approvals req (mset (filter (fresh dates rule t) ps))" if "req \<in> set (ru_requirements rule)" for req
    using assms(2) that Mode_consensus by (simp_all add: evaluateConsensus_status verdict_approved)
  have min1: "num_le (num_of_nat 1) (rr_minApprovals req)" if "req \<in> set (ru_requirements rule)" for req
    by (rule pos_int_ge_1) (use sound that in \<open>auto simp: rule_structure_ok_def requirement_ok_def list_all_iff\<close>)
  have approved: "\<exists>p \<in> set ps. fresh dates rule t p \<and> ep_groupId p = Some (rr_group req) \<and> ep_reviewerId p \<noteq> None
      \<and> ep_decision p = Cs_approved" if "req \<in> set (ru_requirements rule)" for req
    using enough_has_approval [OF ok(3) [OF that] min1 [OF that]] by (auto simp: in_group_def)
  show ?thesis
    unfolding Mode_consensus review_mode.case
  proof (intro ballI conjI impI)
    fix req p assume req: "req \<in> set (ru_requirements rule)" and p: "p \<in> set ps"
    show "Blocks_rejected \<notin> set (rr_blockingDecisions req)"
      if "fresh dates rule t p \<and> in_group req p \<and> ep_decision p = Cs_rejected"
      using ok(1) [OF req] that p by (auto simp: rejected_in_def)
    show "change_refuted hash rule (mset votes) p"
      if "fresh dates rule t p \<and> in_group req p \<and> ep_decision p = Cs_changes_requested
        \<and> Blocks_changes_requested \<in> set (rr_blockingDecisions req)"
      using ok(2) [OF req] that p by (auto simp: changes_wanted_in_def)
  qed (rule approved)
qed

definition ex_proposal :: "int \<Rightarrow> string \<Rightarrow> consensus_status \<Rightarrow> enriched_proposal" where
  "ex_proposal n who d = \<lparr>ep_proposalId = n, ep_reviewerId = Some who, ep_reviewerType = ''codex'', ep_groupId = Some ''core'',
     ep_decision = d, ep_requiredChanges = Some [''rename it''], ep_reviewedAt = ''2026-01-01T00:00:00.000Z'',
     ep_supersededAt = None\<rparr>"

theorem approval_needs_reviewers_witness:
  "let rule = ex_rule [''ann'', ''bob'']; ps = [ex_proposal 1 ''ann'' Cs_approved, ex_proposal 2 ''bob'' Cs_approved];
       dates = (\<lambda>_. NaN); t = ''2026-01-01T12:30:00.000Z''
   in parseReviewRuleSnapshot (Some (canonicaliseRule rule)) = Inr rule
      \<and> fst (evaluateConsensus dates (\<lambda>c. c) rule ''sha'' ps [] None t) = Cs_approved
      \<and> (\<exists>p \<in> set ps. fresh dates rule t p \<and> ep_groupId p = Some ''core'' \<and> ep_decision p = Cs_approved)"
proof -
  let ?rule = "ex_rule [''ann'', ''bob'']"
  let ?ps = "[ex_proposal 1 ''ann'' Cs_approved, ex_proposal 2 ''bob'' Cs_approved]"
  let ?t = "''2026-01-01T12:30:00.000Z''"
  have read: "parseReviewRuleSnapshot (Some (canonicaliseRule ?rule)) = Inr ?rule" by code_simp
  have ok: "fst (evaluateConsensus (\<lambda>_. NaN) (\<lambda>c. c) ?rule ''sha'' ?ps [] None ?t) = Cs_approved" by code_simp
  have mode: "ru_mode ?rule = Mode_consensus" by (simp add: ex_rule_def)
  obtain q where q: "q \<in> set (ru_requirements ?rule)" "rr_group q = ''core''" by (simp add: ex_rule_def)
  from approval_needs_reviewers [OF read ok] q(1)
  have "\<exists>p \<in> set ?ps. fresh (\<lambda>_. NaN) ?rule ?t p \<and> ep_groupId p = Some (rr_group q) \<and> ep_reviewerId p \<noteq> None
      \<and> ep_decision p = Cs_approved" unfolding mode review_mode.case by (elim ballE conjE) blast+
  then show ?thesis unfolding Let_def q(2) by (intro conjI read ok) blast
qed

end
