(* ===== verification/Regex_Match.thy ===== *)
theory Regex_Match
  imports Text_Match
begin

text \<open>
  The regular expressions of the sources that are only tested (\<open>re.test(text)\<close>): literals, character
  classes, greedy repetition of a class, sequence, alternation, option, the word boundary and the two
  anchors. A matcher
  returns every place where a match that starts at the given place can end; for a test the order in
  which a backtracking engine would try them does not matter.
\<close>

datatype regex = R_lit string | R_class "char \<Rightarrow> bool" | R_many "char \<Rightarrow> bool" | R_seq regex regex
  | R_alt regex regex | R_opt regex | R_boundary | R_start | R_end

text \<open>A place in a text: the character before it and the rest after it.\<close>

type_synonym place = "char option \<times> string"

fun many_ends :: "(char \<Rightarrow> bool) \<Rightarrow> char option \<Rightarrow> string \<Rightarrow> place list" where
  "many_ends P prev [] = [(prev, [])]"
| "many_ends P prev (c # cs) = (prev, c # cs) # (if P c then many_ends P (Some c) cs else [])"

primrec re_ends :: "regex \<Rightarrow> place \<Rightarrow> place list" where
  "re_ends (R_lit w) x = (if take (length w) (snd x) = w then [(last_char (fst x) w, drop (length w) (snd x))] else [])"
| "re_ends (R_class P) x = (case snd x of [] \<Rightarrow> [] | c # cs \<Rightarrow> if P c then [(Some c, cs)] else [])"
| "re_ends (R_many P) x = many_ends P (fst x) (snd x)"
| "re_ends (R_seq a b) x = concat (map (re_ends b) (re_ends a x))"
| "re_ends (R_alt a b) x = re_ends a x @ re_ends b x"
| "re_ends (R_opt a) x = re_ends a x @ [x]"
| "re_ends R_boundary x = (if word_boundary (fst x) (first_char (snd x)) then [x] else [])"
| "re_ends R_start x = (if fst x = None then [x] else [])"
| "re_ends R_end x = (if snd x = [] then [x] else [])"

fun re_search :: "regex \<Rightarrow> char option \<Rightarrow> string \<Rightarrow> bool" where
  "re_search r prev [] = (re_ends r (prev, []) \<noteq> [])"
| "re_search r prev (c # cs) = (re_ends r (prev, c # cs) \<noteq> [] \<or> re_search r (Some c) cs)"

definition re_test :: "regex \<Rightarrow> string \<Rightarrow> bool" where
  "re_test r text = re_search r None text"

fun re_seq :: "regex list \<Rightarrow> regex" where
  "re_seq [] = R_lit []"
| "re_seq [r] = r"
| "re_seq (r # rs) = R_seq r (re_seq rs)"

text \<open>A class repeated exactly, and at least, \<open>n\<close> times.\<close>

definition re_rep :: "nat \<Rightarrow> (char \<Rightarrow> bool) \<Rightarrow> regex" where
  "re_rep n P = re_seq (replicate n (R_class P))"

definition re_atleast :: "nat \<Rightarrow> (char \<Rightarrow> bool) \<Rightarrow> regex" where
  "re_atleast n P = R_seq (re_rep n P) (R_many P)"

fun re_words :: "string list \<Rightarrow> regex" where
  "re_words [] = R_class (\<lambda>_. False)"
| "re_words [w] = R_lit w"
| "re_words (w # ws) = R_alt (R_lit w) (re_words ws)"

text \<open>A match consumes a prefix of the text: every end is reached by dropping characters.\<close>

lemma many_ends_suffix: "y \<in> set (many_ends P prev s) \<Longrightarrow> \<exists>u. s = u @ snd y \<and> fst y = last_char prev u \<and> list_all P u"
proof (induction P prev s rule: many_ends.induct)
  case (2 P prev c cs)
  from "2.prems" consider "y = (prev, c # cs)" | "P c" "y \<in> set (many_ends P (Some c) cs)" by (auto split: if_splits)
  then show ?case
  proof cases
    case 2
    then obtain u where "cs = u @ snd y" "fst y = last_char (Some c) u" "list_all P u" using "2.IH" by auto
    then show ?thesis using 2 by (intro exI [of _ "c # u"]) (auto simp: last_char_def)
  qed (auto simp: last_char_def)
qed (auto simp: last_char_def)

definition suffix_place :: "place \<Rightarrow> place \<Rightarrow> bool" where
  "suffix_place x y \<longleftrightarrow> (\<exists>u. snd x = u @ snd y \<and> fst y = last_char (fst x) u)"

lemma suffix_place_refl: "suffix_place x x"
  by (auto simp: suffix_place_def last_char_def)

lemma suffix_place_trans: "suffix_place x y \<Longrightarrow> suffix_place y z \<Longrightarrow> suffix_place x z"
  unfolding suffix_place_def
proof (elim exE conjE)
  fix u v assume "snd x = u @ snd y" "fst y = last_char (fst x) u" "snd y = v @ snd z" "fst z = last_char (fst y) v"
  then show "\<exists>w. snd x = w @ snd z \<and> fst z = last_char (fst x) w"
    by (intro exI [of _ "u @ v"]) (simp add: last_char_def)
qed

lemma suffix_place_lit: "take (length w) s = w \<Longrightarrow> suffix_place (prev, s) (last_char prev w, drop (length w) s)"
  using append_take_drop_id [of "length w" s] by (auto simp: suffix_place_def intro!: exI [of _ w])

lemma suffix_place_class: "suffix_place (prev, c # cs) (Some c, cs)"
  by (auto simp: suffix_place_def last_char_def intro!: exI [of _ "[c]"])

lemma re_ends_suffix: "y \<in> set (re_ends r x) \<Longrightarrow> suffix_place x y"
proof (induction r arbitrary: x y)
  case (R_lit w)
  then show ?case using suffix_place_lit [of w "snd x" "fst x"] by (simp split: if_splits)
next
  case (R_class P)
  then obtain c cs where "snd x = c # cs" "y = (Some c, cs)" by (cases "snd x") (auto split: if_splits)
  then show ?case using suffix_place_class [of "fst x" c cs] by (metis prod.collapse)
next
  case (R_many P)
  then show ?case using many_ends_suffix [of y P "fst x" "snd x"] by (auto simp: suffix_place_def)
next
  case (R_seq a b)
  then obtain z where "z \<in> set (re_ends a x)" "y \<in> set (re_ends b z)" by auto
  then show ?case using R_seq.IH suffix_place_trans by blast
qed (auto simp: suffix_place_refl split: if_splits)

end
