(* ===== verification/Review_Store.thy ===== *)
theory Review_Store
  imports Operations_Ledger Review_Consensus Secret_Scan
begin

text \<open>
  The review tables: consensus rows (\<open>src/db/repositories/review-consensus.ts\<close>), human overrides
  (\<open>review-overrides.ts\<close>) and the ledger of external reviews (\<open>external-review-events.ts\<close> with
  \<open>src/core/external-review-ingest.ts\<close>). They extend the record of the operations ledger. A foreign key into a
  table outside this record is an argument, the test that the referenced row exists.
\<close>

section \<open>Rows\<close>

record consensus_row =
  cn_consensusId :: nat
  cn_runId :: string
  cn_ruleSha256 :: string
  cn_status :: consensus_status
  cn_summaryJson :: json
  cn_evaluatedAt :: timestamp
  cn_evaluatedBy :: string
  cn_sourceProposals :: "int list"
  cn_supersededAt :: "timestamp option"

record override_row =
  vr_overrideId :: nat
  vr_runId :: string
  vr_consensusId :: "nat option"
  vr_actorReviewerId :: string
  vr_decision :: override_decision
  vr_reason :: string
  vr_createdAt :: timestamp
  vr_sourceSha256 :: "string option"

datatype external_review_state = Er_approved | Er_changes_requested | Er_commented | Er_dismissed | Er_pending

datatype external_reviewer_type = Rt_codex_app | Rt_copilot | Rt_human | Rt_other

record external_review_event =
  ee_eventId :: string
  ee_hitchId :: "string option"
  ee_runId :: "string option"
  ee_repoId :: "string option"
  ee_prNumber :: int
  ee_author :: string
  ee_reviewerType :: external_reviewer_type
  ee_state :: external_review_state
  ee_githubReviewId :: "string option"
  ee_submittedAt :: "string option"
  ee_summary :: "string option"
  ee_redacted :: bool
  ee_createdAt :: timestamp

text \<open>The counters are the \<open>AUTOINCREMENT\<close> sequences: an id is never used twice.\<close>

record review_db = op_db +
  rd_consensus :: "consensus_row list"
  rd_consensusSeq :: nat
  rd_overrides :: "override_row list"
  rd_overrideSeq :: nat
  rd_externalEvents :: "external_review_event list"

datatype review_error = Review_foreign_key string | Override_reason_required | Event_field_required string
  | Event_unique | Event_not_found string

type_synonym ('z, 'a) review_act = "('z review_db_scheme, review_error, 'a) act"

section \<open>Consensus rows\<close>

text \<open>\<open>JSON.stringify\<close> of a summary, kept as the value it denotes; \<open>NaN\<close> and the infinities become \<open>null\<close>.\<close>

fun number_json :: "js_number \<Rightarrow> json" where
  "number_json (Fin r) = JNum r"
| "number_json _ = JNull"

fun consensus_status_str :: "consensus_status \<Rightarrow> string" where
  "consensus_status_str Cs_pending = ''pending''"
| "consensus_status_str Cs_approved = ''approved''"
| "consensus_status_str Cs_changes_requested = ''changes_requested''"
| "consensus_status_str Cs_rejected = ''rejected''"

definition opt_json :: "string option \<Rightarrow> json" where
  "opt_json x = (case x of None \<Rightarrow> JNull | Some s \<Rightarrow> JStr s)"

definition count_json :: "nat \<Rightarrow> json" where
  "count_json n = JNum (of_nat n)"

definition requirement_json :: "requirement_check \<Rightarrow> json" where
  "requirement_json r = JObj ([(''group'', JStr (rk_group r)), (''required'', number_json (rk_required r)),
     (''approvals'', count_json (rk_approvals r)), (''blocked'', JBool (rk_blocked r))]
     @ (case rk_blockingDecision r of None \<Rightarrow> [] | Some d \<Rightarrow> [(''blockingDecision'', JStr (consensus_status_str d))])
     @ [(''participants'', count_json (rk_participants r)), (''quorumMet'', JBool (rk_quorumMet r))])"

definition refute_json :: "refute_summary \<Rightarrow> json" where
  "refute_json r = JObj [(''group'', JStr (rs_group r)), (''reviewerIds'', JArr (map JStr (rs_reviewerIds r))),
     (''refutedTargetChangeHashes'', JArr (map JStr (rs_refutedTargetChangeHashes r))),
     (''checks'', JArr (map (\<lambda>c. JObj [(''targetChangeHash'', JStr (rt_targetChangeHash c)),
        (''expectedReviewers'', count_json (rt_expectedReviewers c)), (''participants'', count_json (rt_participants c)),
        (''refutes'', count_json (rt_refutes c)), (''upholds'', count_json (rt_upholds c)),
        (''strictMajorityMet'', JBool (rt_strictMajorityMet c)),
        (''duplicateReviewers'', JArr (map JStr (rt_duplicateReviewers c)))]) (rs_checks r)))]"

definition override_decision_str :: "override_decision \<Rightarrow> string" where
  "override_decision_str d = (case d of Ov_approved \<Rightarrow> ''approved'' | Ov_changes_requested \<Rightarrow> ''changes_requested''
     | Ov_rejected \<Rightarrow> ''rejected'')"

definition decision_path_str :: "decision_path \<Rightarrow> string" where
  "decision_path_str p = (case p of Path_override \<Rightarrow> ''override'' | Path_blocking \<Rightarrow> ''blocking''
     | Path_requirements_met \<Rightarrow> ''requirements-met'' | Path_requirements_pending \<Rightarrow> ''requirements-pending''
     | Path_latest_proposal \<Rightarrow> ''no-requirements-latest-proposal'')"

definition REVIEW_CONSENSUS_STATIC_APPROVAL_SEMANTICS :: json where
  "REVIEW_CONSENSUS_STATIC_APPROVAL_SEMANTICS = JObj [(''approvalKind'', JStr ''static_review''),
     (''approvedMeaning'', JStr ''approved means static review passed; review_consensus does not execute tests''),
     (''testsExecutedByConsensus'', JBool False)]"

definition summary_json :: "consensus_summary \<Rightarrow> json" where
  "summary_json s = JObj ([(''evaluatedAt'', JStr (cs_evaluatedAt s)), (''ruleSha256'', JStr (cs_ruleSha256 s)),
     (''semantics'', REVIEW_CONSENSUS_STATIC_APPROVAL_SEMANTICS),
     (''proposals'', JArr (map (\<lambda>(i, r, g, d). JObj [(''proposalId'', JNum (of_int i)), (''reviewerId'', opt_json r),
        (''groupId'', opt_json g), (''decision'', JStr (consensus_status_str d))]) (cs_proposals s))),
     (''override'', (case cs_override s of None \<Rightarrow> JNull
        | Some o1 \<Rightarrow> JObj [(''decision'', JStr (override_decision_str (co_decision o1))),
            (''actorReviewerId'', JStr (co_actorReviewerId o1)), (''reason'', JStr (co_reason o1)),
            (''createdAt'', JStr (co_createdAt o1))])),
     (''requirements'', JArr (map requirement_json (cs_requirements s)))]
     @ (case cs_refute s of None \<Rightarrow> [] | Some r \<Rightarrow> [(''refute'', refute_json r)])
     @ [(''excludedProposals'', JArr (map (\<lambda>(i, r). JObj [(''proposalId'', JNum (of_int i)),
          (''reason'', JStr (case r of Excluded_superseded \<Rightarrow> ''superseded'' | Excluded_stale_age \<Rightarrow> ''stale-age''))])
          (cs_excluded s))),
        (''decisionPath'', JStr (decision_path_str (cs_decisionPath s)))])"

record insert_consensus_input =
  ic_runId :: string
  ic_ruleSha256 :: string
  ic_status :: consensus_status
  ic_summaryJson :: json
  ic_evaluatedAt :: timestamp
  ic_evaluatedBy :: string
  ic_sourceProposalIds :: "int list"

definition is_active :: "string \<Rightarrow> consensus_row \<Rightarrow> bool" where
  "is_active runId r \<longleftrightarrow> cn_runId r = runId \<and> cn_supersededAt r = None"

definition supersede :: "string \<Rightarrow> timestamp \<Rightarrow> consensus_row list \<Rightarrow> consensus_row list" where
  "supersede runId t rows = map (\<lambda>r. if is_active runId r then r\<lparr>cn_supersededAt := Some t\<rparr> else r) rows"

text \<open>The partial unique index cannot fire: the rows it would clash with were superseded just before.\<close>

definition insertActive :: "(string \<Rightarrow> bool) \<Rightarrow> insert_consensus_input \<Rightarrow> ('z, consensus_row) review_act" where
  "insertActive runExists inp = act_atomically (
     act_bind (act_modify (\<lambda>s. s\<lparr>rd_consensus := supersede (ic_runId inp) (ic_evaluatedAt inp) (rd_consensus s)\<rparr>)) (\<lambda>_.
     act_bind (act_guard (\<lambda>_. runExists (ic_runId inp)) (Review_foreign_key ''review_consensus.run_id'')) (\<lambda>_.
     act_bind (act_get (\<lambda>s. \<lparr>cn_consensusId = Suc (rd_consensusSeq s), cn_runId = ic_runId inp,
         cn_ruleSha256 = ic_ruleSha256 inp, cn_status = ic_status inp, cn_summaryJson = ic_summaryJson inp,
         cn_evaluatedAt = ic_evaluatedAt inp, cn_evaluatedBy = ic_evaluatedBy inp,
         cn_sourceProposals = ic_sourceProposalIds inp, cn_supersededAt = None\<rparr>)) (\<lambda>row.
     act_bind (act_modify (\<lambda>s. s\<lparr>rd_consensus := rd_consensus s @ [row], rd_consensusSeq := cn_consensusId row\<rparr>)) (\<lambda>_.
     act_return row)))))"

definition findActive :: "'z review_db_scheme \<Rightarrow> string \<Rightarrow> consensus_row option" where
  "findActive s runId = find (is_active runId) (rd_consensus s)"

definition listHistory :: "'z review_db_scheme \<Rightarrow> string \<Rightarrow> consensus_row list" where
  "listHistory s runId = sort_key (\<lambda>r. (cn_evaluatedAt r, cn_consensusId r))
     (filter (\<lambda>r. cn_runId r = runId) (rd_consensus s))"

section \<open>Overrides\<close>

definition insertOverride ::
  "(string \<Rightarrow> bool) \<Rightarrow> (string \<Rightarrow> bool) \<Rightarrow> string \<Rightarrow> nat option \<Rightarrow> string \<Rightarrow> override_decision \<Rightarrow> string \<Rightarrow> string option
     \<Rightarrow> timestamp \<Rightarrow> ('z, override_row) review_act" where
  "insertOverride runExists reviewerExists runId consensusId actor decision reason sourceSha now =
     (if js_trim reason = [] then act_throw Override_reason_required
      else act_bind (act_guard (\<lambda>s. runExists runId \<and> reviewerExists actor
          \<and> (case consensusId of None \<Rightarrow> True | Some c \<Rightarrow> list_ex (\<lambda>r. cn_consensusId r = c) (rd_consensus s)))
        (Review_foreign_key ''review_overrides'')) (\<lambda>_.
      act_bind (act_get (\<lambda>s. \<lparr>vr_overrideId = Suc (rd_overrideSeq s), vr_runId = runId, vr_consensusId = consensusId,
        vr_actorReviewerId = actor, vr_decision = decision, vr_reason = reason, vr_createdAt = now,
        vr_sourceSha256 = sourceSha\<rparr>)) (\<lambda>row.
      act_bind (act_modify (\<lambda>s. s\<lparr>rd_overrides := rd_overrides s @ [row], rd_overrideSeq := vr_overrideId row\<rparr>)) (\<lambda>_.
      act_return row))))"

definition listForRun :: "'z review_db_scheme \<Rightarrow> string \<Rightarrow> override_row list" where
  "listForRun s runId = sort_key (\<lambda>r. (vr_createdAt r, vr_overrideId r)) (filter (\<lambda>r. vr_runId r = runId) (rd_overrides s))"

text \<open>\<open>ORDER BY created_at DESC, override_id DESC LIMIT 1\<close>.\<close>

definition findLatest :: "'z review_db_scheme \<Rightarrow> string \<Rightarrow> override_row option" where
  "findLatest s runId =
     newest (\<lambda>a b. (vr_createdAt a, vr_overrideId a) > (vr_createdAt b, vr_overrideId b))
       (filter (\<lambda>r. vr_runId r = runId) (rd_overrides s))"

section \<open>External reviews\<close>

record external_review_verdict =
  xv_author :: string
  xv_state :: string
  xv_reviewerType :: "external_reviewer_type option"
  xv_githubReviewId :: "string option"
  xv_submittedAt :: "string option"
  xv_summary :: "string option"
  xv_redacted :: bool

fun external_review_state_str :: "external_review_state \<Rightarrow> string" where
  "external_review_state_str Er_approved = ''approved''"
| "external_review_state_str Er_changes_requested = ''changes_requested''"
| "external_review_state_str Er_commented = ''commented''"
| "external_review_state_str Er_dismissed = ''dismissed''"
| "external_review_state_str Er_pending = ''pending''"

definition EXTERNAL_REVIEW_STATES :: "external_review_state list" where
  "EXTERNAL_REVIEW_STATES = [Er_approved, Er_changes_requested, Er_commented, Er_dismissed, Er_pending]"

definition normalizeExternalReviewState :: "string \<Rightarrow> external_review_state option" where
  "normalizeExternalReviewState state =
     (let normalized = map (\<lambda>c. if c = CHR ''-'' then CHR ''_'' else c) (js_lower (js_trim state))
      in find (\<lambda>st. external_review_state_str st = normalized) EXTERNAL_REVIEW_STATES)"

definition ends_with_bot :: "string \<Rightarrow> bool" where
  "ends_with_bot s \<longleftrightarrow> 5 \<le> length s \<and> drop (length s - 5) s = ''[bot]''"

definition reviewerTypeForExternalReview :: "string \<Rightarrow> external_reviewer_type option \<Rightarrow> external_reviewer_type" where
  "reviewerTypeForExternalReview author explicit =
     (case explicit of Some t \<Rightarrow> t
      | None \<Rightarrow>
          let lower = js_lower author;
              bare = (if ends_with_bot lower then take (length lower - 5) lower else lower)
          in if bare = ''copilot-pull-request-reviewer'' then Rt_copilot
             else if bare = ''chatgpt-codex-connector'' then Rt_codex_app
             else if ends_with_bot lower then Rt_other else Rt_human)"

definition REDACTED_EXTERNAL_REVIEW_SUMMARY :: string where
  "REDACTED_EXTERNAL_REVIEW_SUMMARY = ''[redacted: external review summary withheld (secret-suspect)]''"

definition redactReviewSummary :: "string option \<Rightarrow> string option \<times> bool" where
  "redactReviewSummary body =
     (case body of
        None \<Rightarrow> (None, False)
      | Some b \<Rightarrow> if b = [] then (None, False)
                 else if containsLikelySecret b then (Some REDACTED_EXTERNAL_REVIEW_SUMMARY, True)
                 else (Some b, False))"

text \<open>The identity of a verdict in the ledger; \<open>sha\<close> is the SHA-256 of the serialised value in hexadecimal.\<close>

definition externalReviewEventId ::
  "(json \<Rightarrow> string) \<Rightarrow> string option \<Rightarrow> int \<Rightarrow> string \<Rightarrow> external_review_state \<Rightarrow> string option \<Rightarrow> nat \<Rightarrow> string" where
  "externalReviewEventId sha repoId prNumber author state githubReviewId index =
     ''external-review:'' @ take 32 (sha (JObj [(''repoId'', opt_json repoId), (''prNumber'', JNum (of_int prNumber)),
       (''state'', JStr (external_review_state_str state)),
       (''reviewKey'', case githubReviewId of
          None \<Rightarrow> JObj [(''kind'', JStr ''index''), (''index'', count_json index), (''author'', JStr author)]
        | Some i \<Rightarrow> JObj [(''kind'', JStr ''github_review_id''), (''id'', JStr i)])]))"

definition normalizeExternalReviewVerdict ::
  "external_review_verdict \<Rightarrow> (string \<times> external_review_state \<times> external_reviewer_type \<times> string option \<times> string option
     \<times> string option \<times> bool) option" where
  "normalizeExternalReviewVerdict v =
     (let author = js_trim (xv_author v); state = normalizeExternalReviewState (xv_state v);
          reviewId = (if xv_githubReviewId v = Some [] then None else xv_githubReviewId v);
          (summary, redacted) = redactReviewSummary (xv_summary v)
      in case state of
           None \<Rightarrow> None
         | Some st \<Rightarrow> if author = [] then None
             else Some (author, st, reviewerTypeForExternalReview author (xv_reviewerType v), reviewId,
               xv_submittedAt v, summary, redacted \<or> xv_redacted v))"

definition createdAtForIndex :: "(string \<Rightarrow> js_number) \<Rightarrow> timestamp \<Rightarrow> nat \<Rightarrow> timestamp" where
  "createdAtForIndex dates base index =
     (case date_parse dates base of Fin ms \<Rightarrow> to_iso (\<lfloor>ms\<rfloor> + int index) | _ \<Rightarrow> base)"

definition same_event :: "external_review_event \<Rightarrow> external_review_event \<Rightarrow> bool" where
  "same_event a b \<longleftrightarrow> ee_eventId b = ee_eventId a
     \<or> ee_githubReviewId a \<noteq> None \<and> ee_githubReviewId b = ee_githubReviewId a \<and> ee_state b = ee_state a"

definition findIgnoredDuplicate :: "'z review_db_scheme \<Rightarrow> external_review_event \<Rightarrow> external_review_event option" where
  "findIgnoredDuplicate s e =
     (case find (\<lambda>r. ee_eventId r = ee_eventId e) (rd_externalEvents s) of
        Some r \<Rightarrow> Some r
      | None \<Rightarrow> if ee_githubReviewId e = None then None
          else find (\<lambda>r. ee_githubReviewId r = ee_githubReviewId e \<and> ee_state r = ee_state e) (rd_externalEvents s))"

text \<open>The result is the stored row and whether it was inserted. A unique violation falls back to the row it
  clashed with; a foreign-key violation is thrown on.\<close>

definition appendExternalEvent ::
  "(string \<Rightarrow> bool) \<Rightarrow> external_review_event \<Rightarrow> ('z, external_review_event \<times> bool) review_act" where
  "appendExternalEvent hitchExists e =
     (if ee_eventId e = [] then act_throw (Event_field_required ''eventId'')
      else if ee_author e = [] then act_throw (Event_field_required ''author'')
      else if ee_createdAt e = [] then act_throw (Event_field_required ''createdAt'')
      else (\<lambda>s. if list_ex (same_event e) (rd_externalEvents s) then
          (case findIgnoredDuplicate s e of Some r \<Rightarrow> (Inr (r, False), s) | None \<Rightarrow> (Inl Event_unique, s))
        else if (case ee_hitchId e of None \<Rightarrow> False | Some h \<Rightarrow> \<not> hitchExists h)
          then (Inl (Review_foreign_key ''external_review_events.hitch_id''), s)
        else (Inr (e, True), s\<lparr>rd_externalEvents := rd_externalEvents s @ [e]\<rparr>)))"

record ingest_input =
  xi_hitchId :: "string option"
  xi_runId :: "string option"
  xi_repoId :: "string option"
  xi_prNumber :: int
  xi_createdAt :: timestamp

fun recordExternalReviewEvents ::
  "(string \<Rightarrow> js_number) \<Rightarrow> (json \<Rightarrow> string) \<Rightarrow> (string \<Rightarrow> bool) \<Rightarrow> ingest_input \<Rightarrow> nat \<Rightarrow> external_review_verdict list
     \<Rightarrow> ('z, (external_review_event \<times> bool) list) review_act" where
  "recordExternalReviewEvents dates sha hitchExists inp index [] = act_return []"
| "recordExternalReviewEvents dates sha hitchExists inp index (v # vs) =
     (case normalizeExternalReviewVerdict v of
        None \<Rightarrow> recordExternalReviewEvents dates sha hitchExists inp (Suc index) vs
      | Some (author, st, ty, reviewId, submitted, summary, redacted) \<Rightarrow>
          act_bind (appendExternalEvent hitchExists
            \<lparr>ee_eventId = externalReviewEventId sha (xi_repoId inp) (xi_prNumber inp) author st reviewId index,
             ee_hitchId = xi_hitchId inp, ee_runId = xi_runId inp, ee_repoId = xi_repoId inp,
             ee_prNumber = xi_prNumber inp, ee_author = author, ee_reviewerType = ty, ee_state = st,
             ee_githubReviewId = reviewId, ee_submittedAt = submitted, ee_summary = summary, ee_redacted = redacted,
             ee_createdAt = createdAtForIndex dates (xi_createdAt inp) index\<rparr>) (\<lambda>r.
          act_bind (recordExternalReviewEvents dates sha hitchExists inp (Suc index) vs) (\<lambda>rs.
          act_return (r # rs))))"

definition listForHitch :: "'z review_db_scheme \<Rightarrow> string \<Rightarrow> external_review_event list" where
  "listForHitch s hitchId = sort_key (\<lambda>e. (ee_createdAt e, ee_eventId e))
     (filter (\<lambda>e. ee_hitchId e = Some hitchId) (rd_externalEvents s))"

definition listForPr :: "'z review_db_scheme \<Rightarrow> int \<Rightarrow> string option \<Rightarrow> external_review_event list" where
  "listForPr s prNumber repoId = sort_key (\<lambda>e. (ee_createdAt e, ee_eventId e))
     (filter (\<lambda>e. ee_prNumber e = prNumber \<and> (repoId = None \<or> ee_repoId e = repoId)) (rd_externalEvents s))"

record event_summary =
  es_total :: nat
  es_byState :: "external_review_state \<Rightarrow> nat"
  es_byReviewer :: "external_reviewer_type \<Rightarrow> nat"
  es_lastVerdict :: "external_review_event option"

text \<open>The filter is a hitch, a repository and a pull request, each optional.\<close>

definition summarize ::
  "'z review_db_scheme \<Rightarrow> string option \<Rightarrow> string option \<Rightarrow> int option \<Rightarrow> event_summary" where
  "summarize s hitchId repoId prNumber =
     (let rows = filter (\<lambda>e. (hitchId = None \<or> ee_hitchId e = hitchId) \<and> (repoId = None \<or> ee_repoId e = repoId)
            \<and> (case prNumber of None \<Rightarrow> True | Some n \<Rightarrow> ee_prNumber e = n)) (rd_externalEvents s);
          byState = (\<lambda>st. length (filter (\<lambda>e. ee_state e = st) rows))
      in \<lparr>es_total = sum_list (map byState EXTERNAL_REVIEW_STATES), es_byState = byState,
          es_byReviewer = (\<lambda>t. length (filter (\<lambda>e. ee_reviewerType e = t) rows)),
          es_lastVerdict = newest (\<lambda>a b. (ee_createdAt a, ee_eventId a) > (ee_createdAt b, ee_eventId b)) rows\<rparr>)"

section \<open>The tables stay well formed\<close>

definition review_inv :: "'z review_db_scheme \<Rightarrow> bool" where
  "review_inv s \<longleftrightarrow>
     distinct (map cn_consensusId (rd_consensus s)) \<and> list_all (\<lambda>r. cn_consensusId r \<le> rd_consensusSeq s) (rd_consensus s)
     \<and> distinct (map cn_runId (filter (\<lambda>r. cn_supersededAt r = None) (rd_consensus s)))
     \<and> distinct (map vr_overrideId (rd_overrides s)) \<and> list_all (\<lambda>r. vr_overrideId r \<le> rd_overrideSeq s) (rd_overrides s)
     \<and> pairwise (\<lambda>a b. \<not> same_event a b) (set (rd_externalEvents s)) \<and> distinct (rd_externalEvents s)"

definition consensus_of :: "insert_consensus_input \<Rightarrow> nat \<Rightarrow> consensus_row" where
  "consensus_of inp i = \<lparr>cn_consensusId = i, cn_runId = ic_runId inp, cn_ruleSha256 = ic_ruleSha256 inp,
     cn_status = ic_status inp, cn_summaryJson = ic_summaryJson inp, cn_evaluatedAt = ic_evaluatedAt inp,
     cn_evaluatedBy = ic_evaluatedBy inp, cn_sourceProposals = ic_sourceProposalIds inp, cn_supersededAt = None\<rparr>"

lemma insertActive_run:
  "insertActive runExists inp s =
     (if runExists (ic_runId inp) then
        (Inr (consensus_of inp (Suc (rd_consensusSeq s))),
         s\<lparr>rd_consensus := supersede (ic_runId inp) (ic_evaluatedAt inp) (rd_consensus s)
             @ [consensus_of inp (Suc (rd_consensusSeq s))], rd_consensusSeq := Suc (rd_consensusSeq s)\<rparr>)
      else (Inl (Review_foreign_key ''review_consensus.run_id''), s))"
  by (simp add: insertActive_def act_simps consensus_of_def)

lemma supersede_ids: "map cn_consensusId (supersede run t rows) = map cn_consensusId rows"
  by (induction rows) (auto simp: supersede_def)

lemma supersede_active:
  "filter (\<lambda>r. cn_supersededAt r = None) (supersede run t rows)
     = filter (\<lambda>r. cn_runId r \<noteq> run) (filter (\<lambda>r. cn_supersededAt r = None) rows)"
  by (induction rows) (auto simp: supersede_def is_active_def)

lemma supersede_find:
  "find (is_active run) (supersede run0 t rows) = (if run = run0 then None else find (is_active run) rows)"
  unfolding supersede_def is_active_def [abs_def] by (induction rows) auto

lemma consensus_of_fields [simp]:
  "cn_consensusId (consensus_of inp i) = i" "cn_runId (consensus_of inp i) = ic_runId inp"
  "cn_supersededAt (consensus_of inp i) = None" "is_active run (consensus_of inp i) \<longleftrightarrow> run = ic_runId inp"
  by (auto simp: consensus_of_def is_active_def)

lemma list_all_ids:
  "list_all (\<lambda>r. cn_consensusId r \<le> n) cs \<longleftrightarrow> list_all (\<lambda>i. i \<le> n) (map cn_consensusId cs)"
  "list_all (\<lambda>r. vr_overrideId r \<le> n) os \<longleftrightarrow> list_all (\<lambda>i. i \<le> n) (map vr_overrideId os)"
  by (simp_all add: list_all_iff)

lemma fresh_id: "list_all (\<lambda>i. i \<le> n) ids \<Longrightarrow> Suc n \<notin> set ids \<and> list_all (\<lambda>i. i \<le> Suc n) ids"
  by (auto simp: list_all_iff)

lemma review_inv_insertActive:
  assumes "review_inv s"
  shows "review_inv (snd (insertActive runExists inp s))"
proof -
  note inv = assms [unfolded review_inv_def list_all_ids]
  have "distinct (map cn_runId (filter (\<lambda>r. cn_runId r \<noteq> ic_runId inp) (filter (\<lambda>r. cn_supersededAt r = None) (rd_consensus s))))"
    by (rule distinct_map_filter) (use inv in blast)
  then show ?thesis
    using inv fresh_id [of "rd_consensusSeq s" "map cn_consensusId (rd_consensus s)"]
    unfolding review_inv_def list_all_ids insertActive_run
    by (auto simp: supersede_ids supersede_active simp del: filter_filter)
qed

text \<open>The row just inserted is the active one of its run; the active rows of other runs stay.\<close>

lemma findActive_insert:
  assumes "insertActive runExists inp s = (Inr row, s')"
  shows "findActive s' run = (if run = ic_runId inp then Some row else findActive s run)"
proof -
  have app: "find P (xs @ ys) = (case find P xs of None \<Rightarrow> find P ys | Some x \<Rightarrow> Some x)"
    for P and xs ys :: "consensus_row list" by (induction xs) auto
  show ?thesis
    using assms by (auto simp: insertActive_run findActive_def app supersede_find split: if_splits option.split)
qed

interpretation override_order: strict_weak_order
  "\<lambda>a b. (vr_createdAt a, vr_overrideId a) > (vr_createdAt b, vr_overrideId b)"
  by unfold_locales (auto simp: less_prod_def)

lemma findLatest_is_last:
  assumes "review_inv s"
  shows "findLatest s run = (if listForRun s run = [] then None else Some (last (listForRun s run)))"
proof (cases "filter (\<lambda>r. vr_runId r = run) (rd_overrides s)")
  case Nil
  then show ?thesis by (simp add: findLatest_def listForRun_def newest_def)
next
  case (Cons x xs)
  let ?rows = "filter (\<lambda>r. vr_runId r = run) (rd_overrides s)" and ?k = "\<lambda>r. (vr_createdAt r, vr_overrideId r)"
  obtain b where b: "b \<in> set ?rows" "findLatest s run = Some b"
    using override_order.newest_exists [of ?rows] Cons by (auto simp: findLatest_def)
  have max: "?k y \<le> ?k b" if "y \<in> set ?rows" for y
  proof (rule leI)
    show "\<not> ?k b < ?k y" by (rule override_order.newest_max [OF b(2) [unfolded findLatest_def] that])
  qed
  have ne: "listForRun s run \<noteq> []" using Cons by (simp add: listForRun_def)
  have "last (listForRun s run) \<in> set ?rows" using last_in_set [OF ne] by (simp add: listForRun_def)
  moreover have "?k b \<le> ?k (last (listForRun s run))"
  proof -
    have "sorted (map ?k (listForRun s run))" by (simp add: listForRun_def)
    moreover obtain i where i: "i < length (listForRun s run)" "listForRun s run ! i = b"
      using b(1) by (metis in_set_conv_nth listForRun_def set_sort)
    ultimately show ?thesis
      using sorted_nth_mono [of "map ?k (listForRun s run)" i "length (listForRun s run) - 1"] ne
      by (simp add: last_conv_nth)
  qed
  ultimately have "?k (last (listForRun s run)) = ?k b" using max by (metis order_antisym)
  then have "vr_overrideId (last (listForRun s run)) = vr_overrideId b" by simp
  moreover have "inj_on vr_overrideId (set (rd_overrides s))" using assms by (simp add: review_inv_def distinct_map)
  ultimately have "last (listForRun s run) = b"
    using b(1) \<open>last (listForRun s run) \<in> set ?rows\<close> by (auto dest: inj_onD)
  then show ?thesis using b(2) ne by simp
qed

section \<open>Every call keeps the tables in order\<close>

text \<open>
  The summary of an external review does not look like a secret, unless it is the marker itself. Verdicts come in
  through \<open>recordExternalReviewEvents\<close>, which redacts them; the \<open>append\<close> of the repository below it stores what it is given, so the
  events that are appended directly, those of \<open>direct\<close>, are excepted.
\<close>

definition redacted_event :: "external_review_event \<Rightarrow> bool" where
  "redacted_event e \<longleftrightarrow> (case ee_summary e of None \<Rightarrow> True
     | Some b \<Rightarrow> b = REDACTED_EXTERNAL_REVIEW_SUMMARY \<or> \<not> containsLikelySecret b)"

definition store_ok :: "(external_review_event \<Rightarrow> bool) \<Rightarrow> 'z review_db_scheme \<Rightarrow> bool" where
  "store_ok direct s \<longleftrightarrow> review_inv s \<and> list_all (\<lambda>e. redacted_event e \<or> direct e) (rd_externalEvents s)"

lemma store_ok_insertActive: "act_keeps (store_ok direct) (insertActive runExists inp)"
  unfolding act_keeps_def store_ok_def
  by (simp add: review_inv_insertActive) (simp add: insertActive_run)

lemma store_ok_override:
  "act_keeps (store_ok direct) (insertOverride runExists reviewerExists runId c actor d reason sha now)"
proof -
  have "store_ok direct (s\<lparr>rd_overrides := rd_overrides s @ [row], rd_overrideSeq := vr_overrideId row\<rparr>)"
    if "store_ok direct s" "vr_overrideId row = Suc (rd_overrideSeq s)" for s :: "'a review_db_scheme" and row
    using that fresh_id [of "rd_overrideSeq s" "map vr_overrideId (rd_overrides s)"]
    unfolding store_ok_def review_inv_def list_all_ids by auto
  then show ?thesis unfolding act_keeps_def insertOverride_def by (auto simp: act_simps)
qed

lemma redacted_summary:
  "redactReviewSummary body = (b, r) \<Longrightarrow>
   (case b of None \<Rightarrow> True | Some t \<Rightarrow> t = REDACTED_EXTERNAL_REVIEW_SUMMARY \<or> \<not> containsLikelySecret t)"
  by (auto simp: redactReviewSummary_def split: option.splits if_splits)

lemma same_event_sym: "same_event a b \<Longrightarrow> same_event b a"
  by (auto simp: same_event_def)

lemma store_ok_event:
  assumes "redacted_event e \<or> direct e"
  shows "act_keeps (store_ok direct) (appendExternalEvent hitchExists e)"
proof -
  have "store_ok direct (s\<lparr>rd_externalEvents := rd_externalEvents s @ [e]\<rparr>)"
    if "store_ok direct s" "\<not> list_ex (same_event e) (rd_externalEvents s)" for s :: "'a review_db_scheme"
  proof -
    have new: "\<not> same_event e x" "\<not> same_event x e" if "x \<in> set (rd_externalEvents s)" for x
      using \<open>\<not> list_ex _ _\<close> that same_event_sym by (auto simp: list_ex_iff)
    then have "e \<notin> set (rd_externalEvents s)" by (auto simp: same_event_def)
    then show ?thesis
      using that(1) assms new unfolding store_ok_def review_inv_def
      by (auto simp: pairwise_insert)
  qed
  then show ?thesis
    unfolding act_keeps_def appendExternalEvent_def by (auto simp: act_simps split: option.splits)
qed

lemma store_ok_ingest:
  "act_keeps (store_ok direct) (recordExternalReviewEvents dates sha hitchExists inp i vs)"
proof (induction vs arbitrary: i)
  case (Cons v vs)
  show ?case
  proof (cases "normalizeExternalReviewVerdict v")
    case (Some n)
    obtain author st ty reviewId submitted summary redacted where n: "n = (author, st, ty, reviewId, submitted, summary, redacted)"
      by (cases n) auto
    obtain b where "redactReviewSummary (xv_summary v) = (summary, b)"
      using Some n by (auto simp: normalizeExternalReviewVerdict_def Let_def split: option.splits if_splits prod.splits)
    note ok = redacted_summary [OF this]
    show ?thesis
      using Some n ok by (simp, intro act_inv_rules Cons.IH store_ok_event) (simp add: redacted_event_def)
  qed (simp add: Cons.IH)
qed (simp add: act_inv_rules)

inductive review_step :: "(external_review_event \<Rightarrow> bool) \<Rightarrow> 'z review_db_scheme \<Rightarrow> 'z review_db_scheme \<Rightarrow> bool" where
  rs_consensus: "review_step direct s (snd (insertActive runExists inp s))"
| rs_override: "review_step direct s (snd (insertOverride runExists reviewerExists runId c actor d reason sha now s))"
| rs_external: "review_step direct s (snd (recordExternalReviewEvents dates sha2 hitchExists inp2 i vs s))"
| rs_append: "direct e \<Longrightarrow> review_step direct s (snd (appendExternalEvent hitchExists2 e s))"

definition no_reviews :: "'z review_db_scheme \<Rightarrow> bool" where
  "no_reviews s \<longleftrightarrow> rd_consensus s = [] \<and> rd_overrides s = [] \<and> rd_externalEvents s = []"

lemma review_step_ok: "review_step direct s s' \<Longrightarrow> store_ok direct s \<Longrightarrow> store_ok direct s'"
  by (erule review_step.cases)
    (auto intro: act_keeps_snd store_ok_insertActive store_ok_override store_ok_ingest act_keeps_snd[OF store_ok_event])

lemma no_reviews_ok: "no_reviews s \<Longrightarrow> store_ok direct s"
  by (simp add: no_reviews_def store_ok_def review_inv_def)

interpretation reviews: step_machine no_reviews "review_step direct" "store_ok direct" for direct
  by unfold_locales (auto intro: review_step_ok no_reviews_ok)

text \<open>
  C38: in every state that calls of the review repositories reach from empty tables, each run has at most one active
  consensus row, the ids of consensus rows and of overrides are unique, and no two stored external events have the same event id, or the
  same review id in the same state. A stored event whose body looks like a secret was appended directly
  through the repository: none came in through \<open>recordExternalReviewEvents\<close>.
\<close>

theorem review_tables_ok: "reach no_reviews (review_step direct) s
  \<Longrightarrow> review_inv s \<and> list_all (\<lambda>e. redacted_event e \<or> direct e) (rd_externalEvents s)"
  using reviews.reach_inv [of direct s] by (simp add: store_ok_def)

definition ex_verdict :: "external_review_verdict" where
  "ex_verdict = \<lparr>xv_author = ''ann'', xv_state = ''CHANGES-REQUESTED'', xv_reviewerType = None,
     xv_githubReviewId = Some ''9'', xv_submittedAt = None, xv_summary = Some ''bearer abcdefghijkl'', xv_redacted = False\<rparr>"

definition no_review_rows :: review_db where
  "no_review_rows = \<lparr>od_operations = [], od_events = [], rd_consensus = [], rd_consensusSeq = 0, rd_overrides = [],
     rd_overrideSeq = 0, rd_externalEvents = []\<rparr>"

definition ex_reviews :: review_db where
  "ex_reviews = snd (recordExternalReviewEvents (\<lambda>_. NaN) (\<lambda>_. ''h'') (\<lambda>_. True)
     \<lparr>xi_hitchId = None, xi_runId = None, xi_repoId = None, xi_prNumber = 7, xi_createdAt = ''t''\<rparr> 0 [ex_verdict, ex_verdict]
     no_review_rows)"

theorem review_tables_ok_witness:
  "review_inv ex_reviews \<and> list_all redacted_event (rd_externalEvents ex_reviews)
   \<and> map (\<lambda>e. (ee_state e, ee_summary e)) (rd_externalEvents ex_reviews)
       = [(Er_changes_requested, Some REDACTED_EXTERNAL_REVIEW_SUMMARY)]"
proof -
  have "no_reviews no_review_rows" by (simp add: no_reviews_def no_review_rows_def)
  then have reached: "reach no_reviews (review_step (\<lambda>_. False)) ex_reviews"
    unfolding ex_reviews_def by (blast intro: reach_init reach_step rs_external)
  have "containsLikelySecret ''bearer abcdefghijkl''"
    unfolding containsLikelySecret_def by (rule disjI2, rule disjI2, rule disjI2, rule disjI2, rule disjI1) code_simp
  moreover have "normalizeExternalReviewState ''CHANGES-REQUESTED'' = Some Er_changes_requested" "js_trim ''ann'' = ''ann''"
    by code_simp+
  ultimately have norm: "normalizeExternalReviewVerdict ex_verdict = Some (''ann'', Er_changes_requested,
      reviewerTypeForExternalReview ''ann'' None, Some ''9'', None, Some REDACTED_EXTERNAL_REVIEW_SUMMARY, True)"
    by (simp add: ex_verdict_def normalizeExternalReviewVerdict_def redactReviewSummary_def Let_def)
  have "map (\<lambda>e. (ee_state e, ee_summary e)) (rd_externalEvents ex_reviews)
      = [(Er_changes_requested, Some REDACTED_EXTERNAL_REVIEW_SUMMARY)]"
    by (simp add: ex_reviews_def no_review_rows_def norm appendExternalEvent_def findIgnoredDuplicate_def same_event_def
        createdAtForIndex_def date_parse_def parse_iso_def externalReviewEventId_def act_bind_def act_return_def)
  then show ?thesis using review_tables_ok [OF reached] by simp
qed

end
