(* ===== verification/Orchestrator.thy ===== *)
theory Orchestrator
  imports Control_Plane Domain_Lock Review_Store
begin

text \<open>
  The orchestration loop of \<open>src/hitch/orchestrator.ts\<close>. The runners of an orchestration are an
  interface that the caller supplies (\<open>OrchestratorRunners\<close>): here a record of operations on the world, each
  of which may change the database, fire the abort signal, return or throw. Progress output is left out;
  it does not touch the state.
\<close>

section \<open>The world of a drive\<close>

text \<open>The tables of the operations ledger and of the reviews, those of the hitches, and the abort signal.\<close>

record world = review_db +
  ow_db :: hitch_db
  ow_aborted :: bool

record runner_error =
  re_thrown :: thrown
  re_message :: string

datatype caught = Runner_threw runner_error | Store_threw hitch_error

datatype drive_error = Max_steps_invalid | Drive_aborted | Lease_cause nat | Drive_store_error hitch_error

type_synonym 'a runner = "string \<Rightarrow> (world, runner_error, 'a) act"

datatype classify_result =
    Classify_resolved "hitch_decision_packet option" bool
  | Classify_escalate string hitch_next_action

record close_pr_result =
  cp_prUrl :: string
  cp_draft :: bool
  cp_merged :: bool
  cp_escalateReason :: "string option"
  cp_pushRetryPending :: bool

record orchestrator_runners =
  rn_coder :: "(string \<times> string) runner"
  rn_review :: "(string \<times> string) runner"
  rn_closeCheck :: "(string \<times> nat \<times> nat \<times> nat) runner"
  rn_classify :: "classify_result runner"
  rn_defer :: "nat runner"
  rn_closeAndPr :: "close_pr_result runner"
  rn_salvage :: "(string \<times> string) option runner option"

record orchestration_step =
  os_step :: nat
  os_decision :: hitch_convergence_decision
  os_action :: string
  os_detail :: string

datatype orchestration_outcome = Oc_closed | Oc_cancelled | Oc_escalated | Oc_pr_created | Oc_merged
  | Oc_close_ready | Oc_waiting | Oc_push_retry_pending | Oc_max_steps_exhausted

record orchestration_result =
  or_outcome :: orchestration_outcome
  or_steps :: "orchestration_step list"
  or_finalDecision :: "hitch_convergence_decision option"
  or_escalateReason :: "string option"
  or_prUrl :: "string option"
  or_draft :: "bool option"

text \<open>
  What a drive is given: the runners, the two arguments of the controller that stand for code outside the
  model, the heap of thrown objects, the messages of the store's errors, and the linked phase drifts,
  ids and clock readings of each step.
\<close>

record drive =
  dv_hitchId :: string
  dv_runners :: orchestrator_runners
  dv_createdBy :: string
  dv_stopAtCloseReady :: bool
  dv_globs :: glob_matcher
  dv_transcript :: transcript_decision
  dv_drifts :: "nat \<Rightarrow> spec_drift list"
  dv_heap :: err_heap
  dv_store_message :: "hitch_error \<Rightarrow> string"
  dv_id :: "nat \<Rightarrow> nat \<Rightarrow> string"
  dv_clock :: "nat \<Rightarrow> nat \<Rightarrow> timestamp"

definition on_db :: "'a hitch_act \<Rightarrow> world \<Rightarrow> (hitch_error + 'a) \<times> world" where
  "on_db m w = (case m (ow_db w) of (r, db') \<Rightarrow> (r, w\<lparr>ow_db := db'\<rparr>))"

definition caught_message :: "drive \<Rightarrow> caught \<Rightarrow> string" where
  "caught_message d e = (case e of Runner_threw re \<Rightarrow> re_message re | Store_threw se \<Rightarrow> dv_store_message d se)"

definition caught_lease :: "drive \<Rightarrow> caught \<Rightarrow> nat option" where
  "caught_lease d e = (case e of
     Runner_threw re \<Rightarrow> findTransientLeaseCause (dv_heap d) (re_thrown re) | Store_threw _ \<Rightarrow> None)"

section \<open>One step\<close>

datatype step_result = Step_return orchestration_result | Step_continue | Step_break

text \<open>
  The body of the \<open>try\<close> block: the log of steps, then the result of the step or the exception. A step is
  logged only after its runner returned.
\<close>

type_synonym try_result = "(orchestration_step list \<times> (caught + step_result)) \<times> world"

definition entry :: "nat \<Rightarrow> hitch_convergence_decision \<Rightarrow> string \<Rightarrow> string \<Rightarrow> orchestration_step" where
  "entry i d action detail = \<lparr>os_step = i, os_decision = d, os_action = action, os_detail = detail\<rparr>"

definition result ::
  "orchestration_outcome \<Rightarrow> orchestration_step list \<Rightarrow> hitch_convergence_decision \<Rightarrow> orchestration_result" where
  "result oc steps d = \<lparr>or_outcome = oc, or_steps = steps, or_finalDecision = Some d, or_escalateReason = None,
     or_prUrl = None, or_draft = None\<rparr>"

definition run_simple ::
  "'a runner \<Rightarrow> string \<Rightarrow> nat \<Rightarrow> hitch_convergence_decision \<Rightarrow> string \<Rightarrow> ('a \<Rightarrow> string) \<Rightarrow> orchestration_step list
     \<Rightarrow> world \<Rightarrow> try_result" where
  "run_simple runner h i d action detail steps w =
     (case runner h w of
        (Inl e, w') \<Rightarrow> ((steps, Inl (Runner_threw e)), w')
      | (Inr r, w') \<Rightarrow> ((steps @ [entry i d action (detail r)], Inr Step_continue), w'))"

definition classify_record ::
  "drive \<Rightarrow> hitch_convergence_decision \<Rightarrow> string \<Rightarrow> hitch_metrics \<Rightarrow> hitch_next_action \<Rightarrow> bool \<Rightarrow> bool
     \<Rightarrow> record_convergence_input" where
  "classify_record d decision reason metrics action sync advisory =
     \<lparr>rc_hitchId = dv_hitchId d, rc_cycleId = None, rc_attemptId = None, rc_decision = decision,
      rc_reason = reason, rc_metrics = metrics, rc_nextAction = Some action, rc_createdBy = dv_createdBy d,
      rc_createdAt = None, rc_updateStatus = sync, rc_advisory = advisory\<rparr>"

definition ADVISORY_REASON :: string where
  "ADVISORY_REASON = ''advisory: jury severity vote diverged from the harness mapping (severity unchanged)''"

definition run_classify ::
  "drive \<Rightarrow> nat \<Rightarrow> hitch_convergence_result \<Rightarrow> orchestration_step list \<Rightarrow> world \<Rightarrow> try_result" where
  "run_classify d i conv steps w =
     (case rn_classify (dv_runners d) (dv_hitchId d) w of
        (Inl e, w1) \<Rightarrow> ((steps, Inl (Runner_threw e)), w1)
      | (Inr (Classify_escalate reason action), w1) \<Rightarrow>
          (let steps1 = steps @ [entry i (r_decision conv) ''classify'' ''false'']
           in case on_db (recordConvergenceDecisionWithStatus
                  (classify_record d D_escalate reason (r_metrics conv) action True False)
                  (dv_id d i 2) (dv_id d i 3) (dv_clock d i 2) (dv_clock d i 3)) w1 of
                (Inl e, w2) \<Rightarrow> ((steps1, Inl (Store_threw e)), w2)
              | (Inr _, w2) \<Rightarrow>
                  ((steps1, Inr (Step_return ((result Oc_escalated steps1 (r_decision conv))
                      \<lparr>or_escalateReason := Some reason\<rparr>))), w2))
      | (Inr (Classify_resolved packet capped), w1) \<Rightarrow>
          (let steps1 = steps @ [entry i (r_decision conv) ''classify'' ''true''];
               w2 = (case packet of
                   None \<Rightarrow> w1
                 | Some p \<Rightarrow> snd (on_db (recordConvergenceDecisionWithStatus
                     (classify_record d D_continue ADVISORY_REASON (r_metrics conv)
                       \<lparr>na_kind = A_ask_human, na_findingIds = Some (dp_findingIds p), na_message =
                          ''Review the diverged severity audit; the harness severity mapping is authoritative and unchanged.'',
                        na_decisionPacket = Some p\<rparr> False True)
                     (dv_id d i 2) (dv_id d i 3) (dv_clock d i 2) (dv_clock d i 3)) w1))
           in ((steps1, Inr (if capped then Step_break else Step_continue)), w2)))"

definition run_close ::
  "drive \<Rightarrow> nat \<Rightarrow> hitch_convergence_result \<Rightarrow> orchestration_step list \<Rightarrow> world \<Rightarrow> try_result" where
  "run_close d i conv steps w =
     (if dv_stopAtCloseReady d then
        (let steps1 = steps @ [entry i (r_decision conv) ''close_and_pr'' ''halted before PR (stopAtCloseReady)'']
         in ((steps1, Inr (Step_return (result Oc_close_ready steps1 (r_decision conv)))), w))
      else (case rn_closeAndPr (dv_runners d) (dv_hitchId d) w of
        (Inl e, w1) \<Rightarrow> ((steps, Inl (Runner_threw e)), w1)
      | (Inr pr, w1) \<Rightarrow>
          (case cp_escalateReason pr of
             Some reason \<Rightarrow>
               (let steps1 = steps @ [entry i (r_decision conv) ''escalate'' reason]
                in case on_db (updateStatus (dv_hitchId d) S_escalated (Some reason) (dv_createdBy d)
                       (dv_clock d i 2) (dv_id d i 2)) w1 of
                     (Inl e, w2) \<Rightarrow> ((steps1, Inl (Store_threw e)), w2)
                   | (Inr _, w2) \<Rightarrow>
                       ((steps1, Inr (Step_return ((result Oc_escalated steps1 (r_decision conv))
                          \<lparr>or_escalateReason := Some reason, or_prUrl := Some (cp_prUrl pr),
                           or_draft := Some (cp_draft pr)\<rparr>))), w2))
           | None \<Rightarrow>
               (let steps1 = steps @ [entry i (r_decision conv) ''close_and_pr'' (cp_prUrl pr)]
                in ((steps1, Inr (Step_return ((result
                      (if cp_pushRetryPending pr then Oc_push_retry_pending
                       else if cp_merged pr then Oc_merged else Oc_pr_created) steps1 (r_decision conv))
                      \<lparr>or_prUrl := Some (cp_prUrl pr), or_draft := Some (cp_draft pr)\<rparr>))), w1)))))"

definition try_action ::
  "drive \<Rightarrow> nat \<Rightarrow> hitch_convergence_result \<Rightarrow> orchestrator_action \<Rightarrow> orchestration_step list \<Rightarrow> world \<Rightarrow> try_result" where
  "try_action d i conv action steps w =
     (let h = dv_hitchId d; dec = r_decision conv; rs = dv_runners d
      in case action of
           OA_coder \<Rightarrow> run_simple (rn_coder rs) h i dec ''coder'' snd steps w
         | OA_review \<Rightarrow> run_simple (rn_review rs) h i dec ''review'' snd steps w
         | OA_close_check \<Rightarrow> run_simple (rn_closeCheck rs) h i dec ''close_check''
             (\<lambda>(_, checked, passed, _). js_nat passed @ ''/'' @ js_nat checked @ '' passed'') steps w
         | OA_classify \<Rightarrow> run_classify d i conv steps w
         | OA_defer \<Rightarrow> run_simple (rn_defer rs) h i dec ''defer'' js_nat steps w
         | OA_wait reason \<Rightarrow>
             (let steps1 = steps @ [entry i dec ''wait'' reason]
              in ((steps1, Inr (Step_return (result Oc_waiting steps1 dec))), w))
         | _ \<Rightarrow> run_close d i conv steps w)"

text \<open>The message of an escalation after a failed review names the branch that could be salvaged.\<close>

definition salvage_message :: "drive \<Rightarrow> orchestrator_action \<Rightarrow> string \<Rightarrow> world \<Rightarrow> string \<times> world" where
  "salvage_message d action message w =
     (case rn_salvage (dv_runners d) of
        None \<Rightarrow> (message, w)
      | Some salvage \<Rightarrow>
          if action \<noteq> OA_review then (message, w)
          else (case salvage (dv_hitchId d) w of
              (Inl e, w1) \<Rightarrow> (message @ ''; workspace branch salvage failed: '' @ re_message e, w1)
            | (Inr None, w1) \<Rightarrow> (message, w1)
            | (Inr (Some (branch, sha)), w1) \<Rightarrow>
                (message @ ''; workspace branch pushed: '' @ branch @ '' ('' @ sha @ '')'', w1)))"

definition handle_caught ::
  "drive \<Rightarrow> nat \<Rightarrow> hitch_convergence_decision \<Rightarrow> orchestrator_action \<Rightarrow> orchestration_step list \<Rightarrow> caught \<Rightarrow> world
     \<Rightarrow> (drive_error + orchestration_result) \<times> world" where
  "handle_caught d i dec action steps e w =
     (if ow_aborted w then (Inl Drive_aborted, w)
      else case caught_lease d e of
        Some o1 \<Rightarrow> (Inl (Lease_cause o1), w)
      | None \<Rightarrow>
          (let (message, w1) = salvage_message d action (caught_message d e) w;
               steps1 = steps @ [entry i dec ''escalate'' message]
           in case on_db (updateStatus (dv_hitchId d) S_escalated (Some message) (dv_createdBy d)
                  (dv_clock d i 4) (dv_id d i 4)) w1 of
                (Inl se, w2) \<Rightarrow> (Inl (Drive_store_error se), w2)
              | (Inr _, w2) \<Rightarrow>
                  (Inr ((result Oc_escalated steps1 dec)\<lparr>or_escalateReason := Some message\<rparr>), w2)))"

section \<open>The loop\<close>

definition finish ::
  "orchestration_step list \<Rightarrow> hitch_convergence_decision option \<Rightarrow> world
     \<Rightarrow> (drive_error + orchestration_result) \<times> world" where
  "finish steps final w =
     (if ow_aborted w then (Inl Drive_aborted, w)
      else (Inr \<lparr>or_outcome = Oc_max_steps_exhausted, or_steps = steps, or_finalDecision = final,
              or_escalateReason = None, or_prUrl = None, or_draft = None\<rparr>, w))"

fun orchestrate_loop ::
  "drive \<Rightarrow> nat \<Rightarrow> nat \<Rightarrow> orchestration_step list \<Rightarrow> hitch_convergence_decision option \<Rightarrow> world
     \<Rightarrow> (drive_error + orchestration_result) \<times> world" where
  "orchestrate_loop d 0 i steps final w = finish steps final w"
| "orchestrate_loop d (Suc left) i steps final w =
     (if ow_aborted w then (Inl Drive_aborted, w)
      else case on_db (evaluateConvergenceAndRecordStatus (dv_globs d) (dv_transcript d) (dv_drifts d i)
             (dv_hitchId d) (dv_createdBy d) None None (dv_id d i 0) (dv_id d i 1) (dv_clock d i 0) (dv_clock d i 1)) w of
          (Inl e, w1) \<Rightarrow> (Inl (Drive_store_error e), w1)
        | (Inr (conv, _), w1) \<Rightarrow>
            (let dec = r_decision conv; action = decideOrchestratorAction conv
             in case action of
                  OA_stop oc \<Rightarrow>
                    (let detail = (if oc = Stop_closed then ''closed'' else ''cancelled'');
                         steps1 = steps @ [entry i dec ''stop'' detail]
                     in (Inr (result (if oc = Stop_closed then Oc_closed else Oc_cancelled) steps1 dec), w1))
                | OA_escalate reason \<Rightarrow>
                    (let steps1 = steps @ [entry i dec ''escalate'' reason]
                     in (Inr ((result Oc_escalated steps1 dec)\<lparr>or_escalateReason := Some reason\<rparr>), w1))
                | _ \<Rightarrow>
                    (case try_action d i conv action steps w1 of
                       ((steps2, Inl e), w2) \<Rightarrow> handle_caught d i dec action steps2 e w2
                     | ((steps2, Inr (Step_return r)), w2) \<Rightarrow> (Inr r, w2)
                     | ((steps2, Inr Step_continue), w2) \<Rightarrow> orchestrate_loop d left (Suc i) steps2 (Some dec) w2
                     | ((steps2, Inr Step_break), w2) \<Rightarrow> finish steps2 (Some dec) w2)))"

text \<open>\<open>None\<close> for \<open>maxSteps\<close> is a number that is not an integer.\<close>

definition orchestrate ::
  "drive \<Rightarrow> int option \<Rightarrow> world \<Rightarrow> (drive_error + orchestration_result) \<times> world" where
  "orchestrate d maxSteps w =
     (case maxSteps of
        None \<Rightarrow> (Inl Max_steps_invalid, w)
      | Some n \<Rightarrow> if n < 1 then (Inl Max_steps_invalid, w)
                 else orchestrate_loop d (nat n) 1 [] None w)"

section \<open>Opening a pull request stays deliberate\<close>

definition with_close :: "close_pr_result runner \<Rightarrow> drive \<Rightarrow> drive" where
  "with_close f d = d\<lparr>dv_runners := (dv_runners d)\<lparr>rn_closeAndPr := f\<rparr>\<rparr>"

lemma with_close_fields [simp]:
  "dv_hitchId (with_close f d) = dv_hitchId d" "dv_createdBy (with_close f d) = dv_createdBy d"
  "dv_stopAtCloseReady (with_close f d) = dv_stopAtCloseReady d" "dv_globs (with_close f d) = dv_globs d"
  "dv_transcript (with_close f d) = dv_transcript d" "dv_drifts (with_close f d) = dv_drifts d"
  "dv_heap (with_close f d) = dv_heap d" "dv_store_message (with_close f d) = dv_store_message d"
  "dv_id (with_close f d) = dv_id d" "dv_clock (with_close f d) = dv_clock d"
  "rn_coder (dv_runners (with_close f d)) = rn_coder (dv_runners d)"
  "rn_review (dv_runners (with_close f d)) = rn_review (dv_runners d)"
  "rn_closeCheck (dv_runners (with_close f d)) = rn_closeCheck (dv_runners d)"
  "rn_classify (dv_runners (with_close f d)) = rn_classify (dv_runners d)"
  "rn_defer (dv_runners (with_close f d)) = rn_defer (dv_runners d)"
  "rn_salvage (dv_runners (with_close f d)) = rn_salvage (dv_runners d)"
  by (simp_all add: with_close_def)

lemma with_close_helpers:
  "handle_caught (with_close f d) = handle_caught d" "run_classify (with_close f d) = run_classify d"
proof -
  have msg: "caught_message (with_close f d) = caught_message d" "caught_lease (with_close f d) = caught_lease d"
    "salvage_message (with_close f d) = salvage_message d" "classify_record (with_close f d) = classify_record d"
    by (simp_all only: fun_eq_iff caught_message_def caught_lease_def salvage_message_def classify_record_def
        with_close_fields simp_thms)
  show "handle_caught (with_close f d) = handle_caught d" "run_classify (with_close f d) = run_classify d"
    unfolding fun_eq_iff handle_caught_def run_classify_def msg with_close_fields by simp_all
qed

lemma try_with_close:
  assumes "dv_stopAtCloseReady d"
  shows "try_action (with_close f d) = try_action d"
proof -
  have close: "run_close (with_close f d) = run_close d"
    using assms by (simp add: fun_eq_iff run_close_def)
  show ?thesis
    by (intro ext) (simp only: try_action_def Let_def with_close_fields with_close_helpers close)
qed

lemma loop_with_close:
  "dv_stopAtCloseReady d \<Longrightarrow> orchestrate_loop (with_close f d) n i steps final w = orchestrate_loop d n i steps final w"
proof (induction n arbitrary: i steps final w)
  case (Suc n)
  show ?case
    unfolding orchestrate_loop.simps(2) with_close_fields try_with_close [OF Suc.prems] with_close_helpers
      Suc.IH [OF Suc.prems] by (rule refl)
qed simp

text \<open>
  A drive that is told to stop at \<open>close_ready\<close> never runs the close-and-PR runner: its result and its
  effect do not depend on that runner at all.
\<close>

theorem stop_at_close_ready_opens_no_pr:
  "dv_stopAtCloseReady d \<Longrightarrow>
   orchestrate (d\<lparr>dv_runners := (dv_runners d)\<lparr>rn_closeAndPr := f\<rparr>\<rparr>) maxSteps w = orchestrate d maxSteps w"
  using loop_with_close [of d f] by (simp add: orchestrate_def with_close_def split: option.split)

text \<open>Runners of a drive in which the coder leaves everything as it is and the others throw.\<close>

definition boom :: "'a runner" where
  "boom h = act_throw \<lparr>re_thrown = T_primitive, re_message = ''boom''\<rparr>"

definition ex_runners :: orchestrator_runners where
  "ex_runners = \<lparr>rn_coder = \<lambda>_. act_return (''r1'', ''needs_review''), rn_review = boom, rn_closeCheck = boom,
     rn_classify = boom, rn_defer = boom, rn_closeAndPr = boom, rn_salvage = None\<rparr>"

definition ex_drive :: "bool \<Rightarrow> drive" where
  "ex_drive stop = \<lparr>dv_hitchId = ''h1'', dv_runners = ex_runners, dv_createdBy = ''op'', dv_stopAtCloseReady = stop,
     dv_globs = (=), dv_transcript = (\<lambda>_. RD_none), dv_drifts = (\<lambda>_. []),
     dv_heap = (\<lambda>_. \<lparr>eo_class = Other_class, eo_cause = T_primitive\<rparr>), dv_store_message = (\<lambda>_. ''store''),
     dv_id = (\<lambda>i k. ''id'' @ js_nat i @ ''-'' @ js_nat k), dv_clock = (\<lambda>i k. ''t9'')\<rparr>"

definition ex_world :: "hitch_db \<Rightarrow> world" where
  "ex_world db = \<lparr>od_operations = [], od_events = [], rd_consensus = [], rd_consensusSeq = 0, rd_overrides = [],
     rd_overrideSeq = 0, rd_externalEvents = [], ow_db = db, ow_aborted = False\<rparr>"

theorem stop_at_close_ready_opens_no_pr_witness:
  "\<exists>r w'. orchestrate ((ex_drive True)\<lparr>dv_runners := (dv_runners (ex_drive True))
       \<lparr>rn_closeAndPr := \<lambda>_ w. (Inl \<lparr>re_thrown = T_null, re_message = ''never''\<rparr>, w)\<rparr>\<rparr>) (Some 3)
       (ex_world (ex_ready_db ''t7'')) = (Inr r, w') \<and> or_outcome r = Oc_close_ready"
proof -
  have stop: "dv_stopAtCloseReady (ex_drive True)" by (simp add: ex_drive_def)
  have "case orchestrate (ex_drive True) (Some 3) (ex_world (ex_ready_db ''t7'')) of
      (Inr r, _) \<Rightarrow> or_outcome r = Oc_close_ready | _ \<Rightarrow> False" by code_simp
  then show ?thesis
    unfolding stop_at_close_ready_opens_no_pr [OF stop]
    by (auto split: prod.splits sum.splits)
qed

section \<open>A drive is bounded\<close>

text \<open>What a step adds to the log, and that a step that returns reports the log.\<close>

definition logs_one :: "nat \<Rightarrow> orchestration_step list \<Rightarrow> try_result \<Rightarrow> bool" where
  "logs_one i steps t \<longleftrightarrow> (case t of ((steps2, r), w2) \<Rightarrow>
     (\<exists>xs. steps2 = steps @ xs \<and> length xs \<le> 1 \<and> (\<forall>x \<in> set xs. os_step x = i))
     \<and> (\<forall>res. r = Inr (Step_return res) \<longrightarrow> or_steps res = steps2))"

lemma logs_oneI:
  "logs_one i steps ((steps, Inl e), w)"
  "os_step x = i \<Longrightarrow> logs_one i steps ((steps @ [x], Inl e), w)"
  "os_step x = i \<Longrightarrow> or_steps res = steps @ [x] \<Longrightarrow> logs_one i steps ((steps @ [x], Inr (Step_return res)), w)"
  "os_step x = i \<Longrightarrow> logs_one i steps ((steps @ [x], Inr Step_continue), w)"
  "os_step x = i \<Longrightarrow> logs_one i steps ((steps @ [x], Inr Step_break), w)"
  by (simp_all add: logs_one_def)

lemma log_simps [simp]: "os_step (entry i d a t) = i" "or_steps (result oc steps d) = steps"
  by (simp_all add: entry_def result_def)

lemma run_simple_logs: "logs_one i steps (run_simple runner h i d a f steps w)"
  by (auto simp: run_simple_def intro: logs_oneI split: prod.split sum.split)

lemma run_classify_logs: "logs_one i steps (run_classify d i conv steps w)"
  unfolding run_classify_def Let_def
  by (auto intro!: logs_oneI split: prod.split sum.split classify_result.split)

lemma run_close_logs: "logs_one i steps (run_close d i conv steps w)"
  unfolding run_close_def Let_def
  by (auto intro!: logs_oneI split: prod.split sum.split option.split)

lemma try_logs: "logs_one i steps (try_action d i conv action steps w)"
  unfolding try_action_def Let_def
  by (cases action) (simp_all add: run_simple_logs run_classify_logs run_close_logs logs_oneI)

definition log_within :: "nat \<Rightarrow> nat \<Rightarrow> orchestration_step list \<Rightarrow> bool" where
  "log_within n i steps \<longleftrightarrow> length steps \<le> n \<and> (\<forall>x \<in> set steps. 1 \<le> os_step x \<and> os_step x < i)"

lemma handle_caught_log:
  "handle_caught d i dec action steps e w = (Inr r, w') \<Longrightarrow> \<exists>x. or_steps r = steps @ [x] \<and> os_step x = i"
  by (auto simp: handle_caught_def Let_def split: if_splits option.splits prod.splits sum.splits)

text \<open>The eight ways an iteration can go.\<close>

definition evaluate_step :: "drive \<Rightarrow> nat \<Rightarrow> world \<Rightarrow> (hitch_error + hitch_convergence_result \<times> hitch_decision_record \<times> hitch_session option) \<times> world" where
  "evaluate_step d i w = on_db (evaluateConvergenceAndRecordStatus (dv_globs d) (dv_transcript d) (dv_drifts d i)
     (dv_hitchId d) (dv_createdBy d) None None (dv_id d i 0) (dv_id d i 1) (dv_clock d i 0) (dv_clock d i 1)) w"

definition runs_action :: "orchestrator_action \<Rightarrow> bool" where
  "runs_action a \<longleftrightarrow> (case a of OA_stop _ \<Rightarrow> False | OA_escalate _ \<Rightarrow> False | _ \<Rightarrow> True)"

lemma loop_Suc:
  "orchestrate_loop d (Suc n) i steps final w =
     (if ow_aborted w then (Inl Drive_aborted, w)
      else case evaluate_step d i w of
          (Inl e, w1) \<Rightarrow> (Inl (Drive_store_error e), w1)
        | (Inr (conv, _), w1) \<Rightarrow>
            (if runs_action (decideOrchestratorAction conv) then
               (case try_action d i conv (decideOrchestratorAction conv) steps w1 of
                  ((steps2, Inl e), w2) \<Rightarrow>
                    handle_caught d i (r_decision conv) (decideOrchestratorAction conv) steps2 e w2
                | ((steps2, Inr (Step_return r)), w2) \<Rightarrow> (Inr r, w2)
                | ((steps2, Inr Step_continue), w2) \<Rightarrow> orchestrate_loop d n (Suc i) steps2 (Some (r_decision conv)) w2
                | ((steps2, Inr Step_break), w2) \<Rightarrow> finish steps2 (Some (r_decision conv)) w2)
             else (case decideOrchestratorAction conv of
                 OA_stop oc \<Rightarrow>
                   (Inr (result (if oc = Stop_closed then Oc_closed else Oc_cancelled)
                      (steps @ [entry i (r_decision conv) ''stop'' (if oc = Stop_closed then ''closed'' else ''cancelled'')])
                      (r_decision conv)), w1)
               | OA_escalate reason \<Rightarrow>
                   (Inr ((result Oc_escalated (steps @ [entry i (r_decision conv) ''escalate'' reason]) (r_decision conv))
                      \<lparr>or_escalateReason := Some reason\<rparr>), w1))))"
  unfolding orchestrate_loop.simps(2) evaluate_step_def [symmetric] Let_def runs_action_def
  by (simp split: prod.split sum.split orchestrator_action.split)

lemma loop_SucE:
  assumes "orchestrate_loop d (Suc n) i steps final w = (res, w')"
  obtains (aborted) "res = Inl Drive_aborted" "w' = w"
    | (store) e where "evaluate_step d i w = (Inl e, w')" "res = Inl (Drive_store_error e)"
    | (stop) conv rest oc where "evaluate_step d i w = (Inr (conv, rest), w')" "decideOrchestratorAction conv = OA_stop oc"
        "res = Inr (result (if oc = Stop_closed then Oc_closed else Oc_cancelled)
           (steps @ [entry i (r_decision conv) ''stop'' (if oc = Stop_closed then ''closed'' else ''cancelled'')])
           (r_decision conv))"
    | (escalate) conv rest reason where "evaluate_step d i w = (Inr (conv, rest), w')"
        "decideOrchestratorAction conv = OA_escalate reason"
        "res = Inr ((result Oc_escalated (steps @ [entry i (r_decision conv) ''escalate'' reason]) (r_decision conv))
           \<lparr>or_escalateReason := Some reason\<rparr>)"
    | (caught) conv rest w1 steps2 e w2 where "evaluate_step d i w = (Inr (conv, rest), w1)"
        "try_action d i conv (decideOrchestratorAction conv) steps w1 = ((steps2, Inl e), w2)"
        "handle_caught d i (r_decision conv) (decideOrchestratorAction conv) steps2 e w2 = (res, w')"
    | (returned) conv rest w1 steps2 r where "evaluate_step d i w = (Inr (conv, rest), w1)"
        "runs_action (decideOrchestratorAction conv)"
        "try_action d i conv (decideOrchestratorAction conv) steps w1 = ((steps2, Inr (Step_return r)), w')" "res = Inr r"
    | (continued) conv rest w1 steps2 w2 where "evaluate_step d i w = (Inr (conv, rest), w1)"
        "try_action d i conv (decideOrchestratorAction conv) steps w1 = ((steps2, Inr Step_continue), w2)"
        "orchestrate_loop d n (Suc i) steps2 (Some (r_decision conv)) w2 = (res, w')"
        "runs_action (decideOrchestratorAction conv)"
    | (broke) conv rest w1 steps2 w2 where "evaluate_step d i w = (Inr (conv, rest), w1)"
        "try_action d i conv (decideOrchestratorAction conv) steps w1 = ((steps2, Inr Step_break), w2)"
        "finish steps2 (Some (r_decision conv)) w2 = (res, w')"
        "runs_action (decideOrchestratorAction conv)"
proof (cases "ow_aborted w")
  case True
  then show ?thesis using assms by (intro aborted) auto
next
  case False
  note body = assms [unfolded loop_Suc, simplified False if_False]
  obtain ev w1 where ev: "evaluate_step d i w = (ev, w1)" by (metis prod.collapse)
  show ?thesis
  proof (cases ev)
    case (Inl e)
    then show ?thesis using body ev by (intro store) auto
  next
    case (Inr p)
    obtain conv rest where p: "p = (conv, rest)" by (metis prod.collapse)
    note ev' = ev [unfolded Inr p]
    show ?thesis
    proof (cases "runs_action (decideOrchestratorAction conv)")
      case False
      then consider oc where "decideOrchestratorAction conv = OA_stop oc"
        | reason where "decideOrchestratorAction conv = OA_escalate reason"
        by (auto simp: runs_action_def split: orchestrator_action.splits)
      then show ?thesis using body False ev' by cases (auto intro: stop escalate)
    next
      case True
      obtain steps2 tr w2 where t: "try_action d i conv (decideOrchestratorAction conv) steps w1 = ((steps2, tr), w2)"
        by (metis prod.collapse)
      then show ?thesis
        using body True ev' caught [OF ev'] returned [OF ev' True] continued [OF ev' _ _ True] broke [OF ev' _ _ True]
        by (auto split: sum.splits step_result.splits)
    qed
  qed
qed

lemma try_logsD:
  assumes "try_action d i conv action steps w1 = ((steps2, tr), w2)"
    and "1 \<le> i" "\<forall>x \<in> set steps. 1 \<le> os_step x \<and> os_step x < i"
  shows "length steps2 \<le> Suc (length steps)" "\<forall>x \<in> set steps2. 1 \<le> os_step x \<and> os_step x < Suc i"
    "tr = Inr (Step_return res) \<Longrightarrow> or_steps res = steps2"
  using try_logs [of i steps d conv action w1] assms by (auto simp: logs_one_def less_Suc_eq)

lemma loop_log:
  assumes "orchestrate_loop d n i steps final w = (Inr r, w')" "1 \<le> i"
    and "\<forall>x \<in> set steps. 1 \<le> os_step x \<and> os_step x < i"
  shows "length (or_steps r) \<le> length steps + n + 1 \<and> (\<forall>x \<in> set (or_steps r). 1 \<le> os_step x \<and> os_step x < max i (i + n))"
  using assms
proof (induction n arbitrary: i steps final w)
  case 0
  then show ?case by (auto simp: finish_def split: if_splits)
next
  case (Suc n)
  from Suc.prems(1) show ?case
  proof (cases rule: loop_SucE)
    case (caught conv rest w1 steps2 e w2)
    then show ?thesis
      using handle_caught_log [OF caught(3)] try_logsD(1,2) [OF caught(2) Suc.prems(2,3)] Suc.prems(2) by fastforce
  next
    case (returned conv rest w1 steps2 r')
    then show ?thesis using try_logsD [OF returned(3) Suc.prems(2,3)] by fastforce
  next
    case (continued conv rest w1 steps2 w2)
    then show ?thesis
      using try_logsD(1,2) [OF continued(2) Suc.prems(2,3)] Suc.IH [OF continued(3)] by fastforce
  next
    case (broke conv rest w1 steps2 w2)
    then show ?thesis
      using try_logsD(1,2) [OF broke(2) Suc.prems(2,3)] by (fastforce simp: finish_def split: if_splits)
  qed (use Suc.prems in \<open>fastforce+\<close>)
qed

text \<open>
  C19: a drive is bounded by \<open>maxSteps\<close>: whatever the runners do, a drive that returns was given a positive
  integer, has logged at most one entry per step and one for a final escalation, and every entry has a
  step number between 1 and \<open>maxSteps\<close>.
\<close>

theorem orchestration_bounded:
  assumes "orchestrate d maxSteps w = (Inr r, w')"
  shows "\<exists>n. maxSteps = Some n \<and> 1 \<le> n \<and> int (length (or_steps r)) \<le> n + 1
    \<and> list_all (\<lambda>x. 1 \<le> os_step x \<and> int (os_step x) \<le> n) (or_steps r)"
proof -
  obtain n where n: "maxSteps = Some n" "1 \<le> n" and run: "orchestrate_loop d (nat n) 1 [] None w = (Inr r, w')"
    using assms by (auto simp: orchestrate_def split: option.splits if_splits)
  from loop_log [OF run] have "length (or_steps r) \<le> nat n + 1"
    "\<forall>x \<in> set (or_steps r). 1 \<le> os_step x \<and> os_step x < 1 + nat n" by auto
  then show ?thesis using n by (auto simp: list_all_iff)
qed

theorem orchestration_bounded_witness:
  "\<exists>r w'. orchestrate (ex_drive False) (Some 2) (ex_world (ex_db ex_ready)) = (Inr r, w')
     \<and> int (length (or_steps r)) \<le> 3"
proof -
  have "case orchestrate (ex_drive False) (Some 2) (ex_world (ex_db ex_ready)) of (Inr r, _) \<Rightarrow> True | _ \<Rightarrow> False"
    by code_simp
  then obtain r w' where run: "orchestrate (ex_drive False) (Some 2) (ex_world (ex_db ex_ready)) = (Inr r, w')"
    by (auto split: prod.splits sum.splits)
  with orchestration_bounded [OF run] show ?thesis by auto
qed

section \<open>The outcome tells the truth\<close>

lemma evaluate_needs:
  assumes "evaluateConvergenceAndRecordStatus mm td drifts h by cyc att did eid t1 t2 db = (Inr x, db')"
  shows "(\<exists>s. getHitchSession db h = Some s) \<and> \<not> tbl_has dr_decisionId did (db_decisions db)"
  using assms
  by (auto simp: evaluateConvergenceAndRecordStatus_def recordConvergenceDecisionWithStatus_def
      recordConvergenceDecision_def insert_decision_def decision_row_def act_simps act_bind_def evaluate_run
      split: option.splits if_splits)

lemma evaluate_step_ok:
  assumes "evaluate_step d i w = (Inr (conv, rest), w1)"
  shows "\<exists>db di s'. conv = decide db di \<and> getHitchSession (ow_db w1) (dv_hitchId d) = Some s'
    \<and> s_status s' = next_status (s_status (di_session di)) (r_decision conv)"
proof -
  obtain db' where run: "evaluateConvergenceAndRecordStatus (dv_globs d) (dv_transcript d) (dv_drifts d i)
     (dv_hitchId d) (dv_createdBy d) None None (dv_id d i 0) (dv_id d i 1) (dv_clock d i 0) (dv_clock d i 1) (ow_db w)
      = (Inr (conv, rest), db')" and w1: "ow_db w1 = db'"
    using assms by (auto simp: evaluate_step_def on_db_def split: prod.splits)
  obtain s where s: "getHitchSession (ow_db w) (dv_hitchId d) = Some s"
      "\<not> tbl_has dr_decisionId (dv_id d i 0) (db_decisions (ow_db w))"
    using evaluate_needs [OF run] by blast
  from evaluateAndRecord_run [OF s, of "dv_globs d" "dv_transcript d" "dv_drifts d i" "dv_createdBy d" None None
      "dv_id d i 1" "dv_clock d i 0" "dv_clock d i 1"] run w1
  show ?thesis by (auto intro!: exI [of _ "ow_db w"] exI [of _ "decideInput (dv_globs d) (dv_transcript d) (ow_db w) (dv_drifts d i) s"])
qed

lemma evaluate_step_agrees:
  assumes "evaluate_step d i w = (Inr (conv, rest), w1)"
  shows "\<exists>s'. getHitchSession (ow_db w1) (dv_hitchId d) = Some s'
    \<and> (s_status s' = S_closed \<longleftrightarrow> r_decision conv = D_closed) \<and> (s_status s' = S_cancelled \<longleftrightarrow> r_decision conv = D_cancel)
    \<and> (s_status s' = S_close_ready \<longleftrightarrow> r_decision conv = D_close_ready)
    \<and> (s_status s' = S_diverging \<longleftrightarrow> r_decision conv = D_diverging)
    \<and> (s_status s' = S_budget_exhausted \<longleftrightarrow> r_decision conv = D_budget_exhausted)
    \<and> (s_status s' = S_escalated \<longleftrightarrow> r_decision conv = D_escalate)"
proof -
  obtain db di s' where "conv = decide db di" and get: "getHitchSession (ow_db w1) (dv_hitchId d) = Some s'"
    and st: "s_status s' = next_status (s_status (di_session di)) (r_decision conv)"
    using evaluate_step_ok [OF assms] by blast
  then show ?thesis using status_agrees [of "r_decision conv" db di "s_status (di_session di)"] by simp
qed

lemma evaluate_step_action:
  assumes "evaluate_step d i w = (Inr (conv, rest), w1)"
  shows "decideOrchestratorAction conv = OA_escalate reason \<longleftrightarrow>
      r_decision conv \<in> {D_diverging, D_budget_exhausted, D_escalate} \<and> reason = decision_str (r_decision conv)"
    and "decideOrchestratorAction conv = OA_stop Stop_closed \<longleftrightarrow> r_decision conv = D_closed"
    and "decideOrchestratorAction conv = OA_stop Stop_cancelled \<longleftrightarrow> r_decision conv = D_cancel"
    and "decideOrchestratorAction conv = OA_close_and_pr \<longleftrightarrow> r_decision conv = D_close_ready"
    and "decideOrchestratorAction conv = OA_wait msg \<Longrightarrow> r_decision conv = D_continue"
proof -
  obtain db di where "conv = decide db di" using evaluate_step_ok [OF assms] by blast
  then have "supported conv" using decide_supported by simp
  then show "decideOrchestratorAction conv = OA_escalate reason \<longleftrightarrow>
      r_decision conv \<in> {D_diverging, D_budget_exhausted, D_escalate} \<and> reason = decision_str (r_decision conv)"
    "decideOrchestratorAction conv = OA_stop Stop_closed \<longleftrightarrow> r_decision conv = D_closed"
    "decideOrchestratorAction conv = OA_stop Stop_cancelled \<longleftrightarrow> r_decision conv = D_cancel"
    "decideOrchestratorAction conv = OA_close_and_pr \<longleftrightarrow> r_decision conv = D_close_ready"
    "decideOrchestratorAction conv = OA_wait msg \<Longrightarrow> r_decision conv = D_continue"
    unfolding decideOrchestratorAction_def supported_def Let_def
    by (cases "r_decision conv"; auto split: if_splits)+
qed

text \<open>
  What the outcome of a drive promises about the hitch afterwards. A pull request, a merge and a pending push are what the
  runner of the close reported, for a hitch that was stored \<open>close_ready\<close> when it was called; the database is as that runner left it.
\<close>

definition close_reported :: "drive \<Rightarrow> orchestration_result \<Rightarrow> hitch_db \<Rightarrow> bool" where
  "close_reported d r db \<longleftrightarrow> (\<exists>w1 pr w2 s. rn_closeAndPr (dv_runners d) (dv_hitchId d) w1 = (Inr pr, w2) \<and> db = ow_db w2
     \<and> getHitchSession (ow_db w1) (dv_hitchId d) = Some s \<and> s_status s = S_close_ready
     \<and> cp_escalateReason pr = None \<and> or_prUrl r = Some (cp_prUrl pr) \<and> or_draft r = Some (cp_draft pr)
     \<and> or_outcome r = (if cp_pushRetryPending pr then Oc_push_retry_pending else if cp_merged pr then Oc_merged else Oc_pr_created))"

text \<open>The decisions behind which a drive goes on, and those that end or hold it.\<close>

definition settling :: "hitch_convergence_decision set" where
  "settling = {D_closed, D_cancel, D_close_ready, D_diverging, D_budget_exhausted, D_escalate}"

definition outcome_true :: "drive \<Rightarrow> orchestration_result \<Rightarrow> hitch_db \<Rightarrow> bool" where
  "outcome_true d r db =
     (let status_in = (\<lambda>S. \<exists>s. getHitchSession db (dv_hitchId d) = Some s \<and> s_status s \<in> S)
      in case or_outcome r of
           Oc_closed \<Rightarrow> status_in {S_closed}
         | Oc_cancelled \<Rightarrow> status_in {S_cancelled}
         | Oc_escalated \<Rightarrow> status_in {S_escalated, S_diverging, S_budget_exhausted, S_closed, S_cancelled}
         | Oc_close_ready \<Rightarrow> status_in {S_close_ready}
         | Oc_waiting \<Rightarrow> or_finalDecision r = Some D_continue
             \<and> status_in (- {S_closed, S_cancelled, S_close_ready, S_diverging, S_budget_exhausted, S_escalated})
         | Oc_max_steps_exhausted \<Rightarrow> (\<exists>dec. or_finalDecision r = Some dec \<and> dec \<notin> settling)
         | _ \<Rightarrow> or_finalDecision r = Some D_close_ready \<and> close_reported d r db)"

lemma updateStatus_escalated:
  assumes "on_db (updateStatus h S_escalated note by t eid) w = (Inr x, w')"
  shows "\<exists>s. getHitchSession (ow_db w') h = Some s \<and> s_status s = S_escalated"
  using assms by (auto simp: on_db_def updateStatus_run status_row_def split: option.splits prod.splits)

lemma record_status:
  assumes "recordConvergenceDecisionWithStatus inp did eid t1 t2 db = (Inr x, db')" "rc_updateStatus inp"
  shows "\<exists>st s'. getHitchSession db' (rc_hitchId inp) = Some s' \<and> s_status s' = next_status st (rc_decision inp)"
proof -
  let ?row = "decision_row inp did t1"
  obtain s where s: "getHitchSession db (rc_hitchId inp) = Some s" "\<not> tbl_has dr_decisionId did (db_decisions db)"
    using assms(1) by (auto simp: recordConvergenceDecisionWithStatus_def recordConvergenceDecision_def
        insert_decision_def decision_row_def act_simps act_bind_def session_exists_iff split: if_splits)
  have row: "dr_hitchId ?row = rc_hitchId inp" "dr_decisionId ?row = did" by (simp_all add: decision_row_def)
  let ?s1 = "s\<lparr>s_updatedAt := dr_createdAt ?row\<rparr>"
  let ?r = "\<lparr>r_hitchId = rc_hitchId inp, r_decision = rc_decision inp, r_reason = rc_reason inp,
           r_metrics = rc_metrics inp,
           r_nextAction = or_else (rc_nextAction inp) (next_action A_ask_human None (rc_reason inp))\<rparr>"
  have rec: "recordConvergenceDecision ?row db = (Inr ?row, with_decision ?row db)"
    using recordConvergenceDecision_run [of db ?row s] s row by simp
  have get1: "getHitchSession (with_decision ?row db) (r_hitchId ?r) = Some ?s1"
    using s(1) by (simp add: with_decision_def row)
  obtain res where sync: "syncHitchStatusForConvergence ?r (rc_createdBy inp) (or_else (rc_createdAt inp) t2) eid
      (with_decision ?row db) = (Inr res, db')"
    using assms rec sync_run [OF get1, of "rc_createdBy inp" "or_else (rc_createdAt inp) t2" eid]
    by (auto simp: recordConvergenceDecisionWithStatus_def act_bind_def act_return_def split: prod.splits sum.splits)
  from sync sync_run [OF get1, of "rc_createdBy inp" "or_else (rc_createdAt inp) t2" eid] get1
  show ?thesis by (intro exI [of _ "s_status s"]) (auto simp: status_row_def split: if_splits)
qed

lemma escalate_status: "next_status st D_escalate \<in> {S_escalated, S_closed, S_cancelled}"
  by (auto simp: next_status_def)

lemma outcome_trueI:
  "getHitchSession db (dv_hitchId d) = Some s \<Longrightarrow> s_status s \<in> {S_escalated, S_diverging, S_budget_exhausted, S_closed, S_cancelled} \<Longrightarrow>
   or_outcome r = Oc_escalated \<Longrightarrow> outcome_true d r db"
  by (simp add: outcome_true_def)

lemma result_fields_or [simp]:
  "or_outcome (result oc steps d) = oc" "or_finalDecision (result oc steps d) = Some d"
  by (simp_all add: result_def)

lemma run_classify_true:
  assumes "run_classify d i conv steps w1 = ((steps2, Inr (Step_return r)), w')"
  shows "outcome_true d r (ow_db w')"
proof -
  obtain reason action w0 x where rec: "on_db (recordConvergenceDecisionWithStatus
        (classify_record d D_escalate reason (r_metrics conv) action True False)
        (dv_id d i 2) (dv_id d i 3) (dv_clock d i 2) (dv_clock d i 3)) w0 = (Inr x, w')"
      and out: "or_outcome r = Oc_escalated"
    using assms unfolding run_classify_def Let_def
    by (auto split: prod.splits sum.splits classify_result.splits if_splits)
  then obtain st s' where "getHitchSession (ow_db w') (dv_hitchId d) = Some s'"
      "s_status s' = next_status st D_escalate"
    using record_status [of "classify_record d D_escalate reason (r_metrics conv) action True False"]
    by (fastforce simp: on_db_def classify_record_def split: prod.splits)
  then show ?thesis using escalate_status [of st] out by (auto intro: outcome_trueI)
qed

lemma run_close_true:
  assumes "run_close d i conv steps w1 = ((steps2, Inr (Step_return r)), w')" "r_decision conv = D_close_ready"
    and "\<exists>s. getHitchSession (ow_db w1) (dv_hitchId d) = Some s \<and> s_status s = S_close_ready"
  shows "outcome_true d r (ow_db w')"
proof (cases "dv_stopAtCloseReady d")
  case True
  then show ?thesis using assms by (auto simp: run_close_def Let_def outcome_true_def)
next
  case False
  then obtain pr w2 where pr: "rn_closeAndPr (dv_runners d) (dv_hitchId d) w1 = (Inr pr, w2)"
    using assms(1) by (auto simp: run_close_def split: prod.splits sum.splits)
  show ?thesis
  proof (cases "cp_escalateReason pr")
    case None
    then have r: "w' = w2" "or_finalDecision r = Some D_close_ready" "or_prUrl r = Some (cp_prUrl pr)" "or_draft r = Some (cp_draft pr)"
        "or_outcome r = (if cp_pushRetryPending pr then Oc_push_retry_pending else if cp_merged pr then Oc_merged else Oc_pr_created)"
      using assms(1,2) False pr by (auto simp: run_close_def Let_def)
    then have "close_reported d r (ow_db w')" using None pr assms(3) unfolding close_reported_def by blast
    then show ?thesis using r by (auto simp: outcome_true_def Let_def split: if_splits)
  next
    case (Some reason)
    then obtain x where up: "on_db (updateStatus (dv_hitchId d) S_escalated (Some reason) (dv_createdBy d)
        (dv_clock d i 2) (dv_id d i 2)) w2 = (Inr x, w')" and out: "or_outcome r = Oc_escalated"
      using assms(1) False pr by (auto simp: run_close_def Let_def split: prod.splits sum.splits)
    from updateStatus_escalated [OF up] out show ?thesis by (auto intro: outcome_trueI)
  qed
qed

lemma run_simple_no_return: "run_simple runner h i dec a f steps w1 \<noteq> ((steps2, Inr (Step_return r)), w')"
  by (auto simp: run_simple_def split: prod.splits sum.splits)

lemma try_return_true:
  assumes "evaluate_step d i w = (Inr (conv, rest), w1)" "runs_action (decideOrchestratorAction conv)"
    and "try_action d i conv (decideOrchestratorAction conv) steps w1 = ((steps2, Inr (Step_return r)), w')"
  shows "outcome_true d r (ow_db w')"
proof -
  show ?thesis
  proof (cases "decideOrchestratorAction conv")
    case (OA_wait msg)
    then have "r_decision conv = D_continue" using evaluate_step_action(5) [OF assms(1)] by blast
    then show ?thesis using assms(3) OA_wait evaluate_step_agrees [OF assms(1)]
      by (auto simp: try_action_def Let_def outcome_true_def)
  next
    case OA_classify
    then show ?thesis using assms(3) run_classify_true by (auto simp: try_action_def Let_def)
  next
    case OA_close_and_pr
    then have "r_decision conv = D_close_ready" using evaluate_step_action(4) [OF assms(1)] by blast
    then show ?thesis
      using assms(3) OA_close_and_pr run_close_true evaluate_step_agrees [OF assms(1)]
      by (auto simp: try_action_def Let_def)
  qed (use assms(2,3) in \<open>auto simp: try_action_def Let_def runs_action_def run_simple_no_return\<close>)
qed

text \<open>A drive goes on, or runs out of steps, only behind a decision that settles nothing.\<close>

lemma run_close_ends: "run_close d i conv steps w = ((steps2, Inr x), w') \<Longrightarrow> \<exists>r. x = Step_return r"
  by (auto simp: run_close_def Let_def split: if_splits prod.splits sum.splits option.splits)

lemma goes_on:
  assumes "evaluate_step d i w = (Inr (conv, rest), w1)" "runs_action (decideOrchestratorAction conv)"
    and "try_action d i conv (decideOrchestratorAction conv) steps w1 = ((steps2, Inr x), w')" "x \<in> {Step_continue, Step_break}"
  shows "r_decision conv \<notin> settling"
proof -
  have "decideOrchestratorAction conv \<noteq> OA_close_and_pr"
    using assms(3,4) run_close_ends by (fastforce simp: try_action_def Let_def)
  moreover have "decideOrchestratorAction conv \<noteq> OA_escalate reason" "decideOrchestratorAction conv \<noteq> OA_stop oc" for reason oc
    using assms(2) by (auto simp: runs_action_def)
  ultimately show ?thesis
    using evaluate_step_action(1-4) [OF assms(1)] by (auto simp: settling_def)
qed

lemma loop_true:
  "orchestrate_loop d n i steps final w = (Inr r, w') \<Longrightarrow> (n = 0 \<Longrightarrow> \<exists>dec. final = Some dec \<and> dec \<notin> settling)
     \<Longrightarrow> outcome_true d r (ow_db w')"
proof (induction n arbitrary: i steps final w)
  case 0
  then show ?case by (auto simp: finish_def outcome_true_def split: if_splits)
next
  case (Suc n)
  from Suc.prems(1) show ?case
  proof (cases rule: loop_SucE)
    case (stop conv rest oc)
    then show ?thesis
      using evaluate_step_agrees [OF stop(1)] evaluate_step_action(2,3) [OF stop(1)]
      by (cases oc) (auto simp: outcome_true_def)
  next
    case (escalate conv rest reason)
    then show ?thesis
      using evaluate_step_agrees [OF escalate(1)] evaluate_step_action(1) [OF escalate(1)]
      by (auto simp: outcome_true_def)
  next
    case (caught conv rest w1 steps2 e w2)
    then obtain message w3 x where "on_db (updateStatus (dv_hitchId d) S_escalated (Some message) (dv_createdBy d)
        (dv_clock d i 4) (dv_id d i 4)) w3 = (Inr x, w')" and out: "or_outcome r = Oc_escalated"
      by (auto simp: handle_caught_def Let_def split: if_splits option.splits prod.splits sum.splits)
    from updateStatus_escalated [OF this(1)] out show ?thesis by (auto intro: outcome_trueI)
  next
    case (returned conv rest w1 steps2 r')
    then show ?thesis using try_return_true [OF returned(1-3)] by simp
  next
    case (continued conv rest w1 steps2 w2)
    then show ?thesis using Suc.IH [OF continued(3)] goes_on [OF continued(1,4,2)] by simp
  next
    case (broke conv rest w1 steps2 w2)
    then have "r_decision conv \<notin> settling" using goes_on [OF broke(1,4,2)] by simp
    then show ?thesis using broke(3) by (auto simp: finish_def outcome_true_def split: if_splits)
  qed simp_all
qed

text \<open>
  C14: the outcome of a drive is true of the hitch that it leaves, whatever the runners did. \<open>closed\<close>, \<open>cancelled\<close> and \<open>close_ready\<close> are the
  stored status; with \<open>escalated\<close> the stored status is escalated, diverging or out of budget, or closed or cancelled by
  someone else meanwhile; with \<open>waiting\<close> it is none of these and the last decision is to continue. A pull request, a merge or a pending push is what the
  runner of the close reported, with its URL, when it was called on a hitch stored \<open>close_ready\<close>, and the database is as
  the runner left it: of the status it then stores nothing is said here. A drive that ran out of steps had last decided on more work.
\<close>

theorem orchestration_outcome_true:
  assumes "orchestrate d maxSteps w = (Inr r, w')"
  shows "outcome_true d r (ow_db w')"
  using assms by (auto simp: orchestrate_def split: option.splits if_splits intro: loop_true)

theorem orchestration_outcome_true_witness:
  "\<exists>r w' s. orchestrate (ex_drive False) (Some 2) (ex_world (ex_ready_db ''t7'')) = (Inr r, w')
     \<and> or_outcome r = Oc_escalated \<and> getHitchSession (ow_db w') ''h1'' = Some s
     \<and> s_status s \<in> {S_escalated, S_diverging, S_budget_exhausted, S_closed, S_cancelled}"
proof -
  have "case orchestrate (ex_drive False) (Some 2) (ex_world (ex_ready_db ''t7'')) of
      (Inr r, _) \<Rightarrow> or_outcome r = Oc_escalated | _ \<Rightarrow> False" by code_simp
  then obtain r w' where run: "orchestrate (ex_drive False) (Some 2) (ex_world (ex_ready_db ''t7'')) = (Inr r, w')"
    and out: "or_outcome r = Oc_escalated"
    by (auto split: prod.splits sum.splits)
  have "dv_hitchId (ex_drive False) = ''h1''" by (simp add: ex_drive_def)
  with orchestration_outcome_true [OF run] out run show ?thesis by (auto simp: outcome_true_def)
qed

end
