(* ===== verification/Close_Push.thy ===== *)
theory Close_Push
  imports Control_Plane Domain_Lock Text_Match Js_Values
begin

text \<open>
  The push that opens the closing pull request: the classifier of a failed \<open>git push\<close>
  (\<open>core/push-failure-classifier.ts\<close>) and the bounded retry (\<open>hitch/close-push-retry.ts\<close>). The lemmas say that a
  server's text cannot pass for a transient failure and that retries of one run are bounded.
\<close>

section \<open>Classifying a failed push\<close>

datatype push_failure_class = Push_transient | Push_permanent

definition PERMANENT_SIGNATURES :: "string list" where
  "PERMANENT_SIGNATURES = [''! [remote rejected]'', ''pre-receive hook declined'', ''protected branch'', ''gh006'',
     ''push declined due to repository rule'', ''permission denied'', ''authentication failed'', ''could not read username'',
     ''403 forbidden'', ''repository not found'', ''does not appear to be a git repository'', ''no such remote'',
     ''non-fast-forward'', ''fetch first'', ''! [rejected]'', ''stale info'', ''ssl certificate problem'',
     ''certificate verify failed'', ''certificate verification failed'', ''server certificate verification failed'',
     ''unable to get local issuer certificate'', ''self-signed certificate'', ''self signed certificate'',
     ''certificate has expired'']"

definition TRANSIENT_SIGNATURES :: "string list" where
  "TRANSIENT_SIGNATURES = [''could not resolve host'', ''connection timed out'', ''timed out'', ''connection reset'',
     ''failed to connect'', ''couldn'' @ [CHR 0x27] @ ''t connect to server'', ''the remote end hung up'', ''rpc failed'',
     ''early eof'', ''unexpected disconnect'', ''gnutls_handshake() failed'', ''kex_exchange_identification'',
     ''decryption failed or bad record mac'', ''http 500'', ''http 502'', ''http 503'', ''http 504'', ''http/1.1 500'',
     ''http/1.1 502'', ''http/1.1 503'', ''http/1.1 504'', ''500 internal server error'', ''502 bad gateway'',
     ''503 service unavailable'', ''504 gateway'', ''429 too many requests'', ''rate limit'', ''returned error: 500'',
     ''returned error: 502'', ''returned error: 503'', ''returned error: 504'', ''returned error: 429'', ''cannot lock ref'',
     ''unable to update local ref'', ''failed to lock'', ''index.lock'']"

definition is_remote_line :: "string \<Rightarrow> bool" where
  "is_remote_line l = js_starts_with (trim_start l) ''remote:''"

definition classifyPushFailure :: "string \<Rightarrow> push_failure_class" where
  "classifyPushFailure text =
     (let full = js_lower text;
          clientText = js_join [CHR 0x0A] (filter (\<lambda>l. \<not> is_remote_line l) (split_lines full))
      in if list_ex (js_includes full) PERMANENT_SIGNATURES then Push_permanent
         else if list_ex (js_includes clientText) TRANSIENT_SIGNATURES then Push_transient
         else Push_permanent)"

lemma js_includes_sublist: "js_includes s sub \<longleftrightarrow> sublist sub s"
  by (simp add: js_includes_iff sublist_def)

text \<open>A signature without a newline lies within one line of a joined text.\<close>

lemma includes_join:
  assumes "sub \<noteq> []" "CHR 0x0A \<notin> set sub"
  shows "js_includes (js_join [CHR 0x0A] ls) sub \<longleftrightarrow> list_ex (\<lambda>l. js_includes l sub) ls"
proof (induction ls)
  case Nil
  then show ?case using assms by (simp add: js_includes_sublist)
next
  case (Cons l ls)
  show ?case
  proof (cases "ls = []")
    case False
    have "sublist sub (l @ CHR 0x0A # r) \<longleftrightarrow> sublist sub l \<or> sublist sub r" for r
    proof
      assume "sublist sub (l @ CHR 0x0A # r)"
      then consider "sublist sub l" | "sublist sub (CHR 0x0A # r)"
        | xs ys where "sub = xs @ ys" "suffix xs l" "prefix ys (CHR 0x0A # r)"
        by (auto simp: sublist_append)
      then show "sublist sub l \<or> sublist sub r"
      proof cases
        case 2
        then show ?thesis using assms by (auto simp: sublist_Cons_right prefix_Cons)
      next
        case 3
        then have "ys = []" using assms(2) by (cases ys) auto
        then show ?thesis using 3 by (simp add: suffix_imp_sublist)
      qed simp
    qed (auto simp: sublist_append sublist_Cons_right)
    then show ?thesis using Cons.IH False by (simp add: js_join_Cons js_includes_sublist)
  qed simp
qed

lemma transient_signature_shape: "list_all (\<lambda>s. s \<noteq> [] \<and> CHR 0x0A \<notin> set s) TRANSIENT_SIGNATURES"
  by code_simp

text \<open>
  A failed push counts as transient exactly when no permanent signature occurs anywhere in its output
  and some line that is not a \<open>remote:\<close> line carries a transient signature. So a server, whose text
  arrives in \<open>remote:\<close> lines, can make a failure permanent but never transient, and output that matches
  nothing is permanent.
\<close>

theorem classifyPushFailure_transient_iff:
  "classifyPushFailure text = Push_transient \<longleftrightarrow>
     \<not> list_ex (js_includes (js_lower text)) PERMANENT_SIGNATURES
     \<and> list_ex (\<lambda>l. \<not> is_remote_line l \<and> list_ex (js_includes l) TRANSIENT_SIGNATURES) (split_lines (js_lower text))"
proof -
  let ?ls = "filter (\<lambda>l. \<not> is_remote_line l) (split_lines (js_lower text))"
  have "list_ex (js_includes (js_join [CHR 0x0A] ?ls)) TRANSIENT_SIGNATURES
      \<longleftrightarrow> (\<exists>s \<in> set TRANSIENT_SIGNATURES. \<exists>l \<in> set ?ls. js_includes l s)"
    using includes_join [of _ ?ls] transient_signature_shape by (auto simp: list_ex_iff list_all_iff)
  then show ?thesis by (auto simp: classifyPushFailure_def Let_def list_ex_iff)
qed

section \<open>The bounded retry\<close>

definition MAX_CLOSE_PUSH_ATTEMPTS :: int where
  "MAX_CLOSE_PUSH_ATTEMPTS = 5"

datatype close_push_outcome = Recheck string | Escalate string | Rethrow

text \<open>A caught error: the thrown value, its message, and \<open>stderr\<close> and \<open>stdout\<close> when it is a \<open>PrPushError\<close>.
  The two characters outside ASCII in the messages below are written as their UTF-8 bytes.\<close>

record push_error =
  pe_thrown :: thrown
  pe_message :: string
  pe_push :: "(string \<times> string) option"

definition classifyAndRecordClosePushFailure ::
  "err_heap \<Rightarrow> string \<Rightarrow> string \<Rightarrow> push_error \<Rightarrow> bool \<Rightarrow> timestamp \<Rightarrow> close_push_outcome hitch_act" where
  "classifyAndRecordClosePushFailure heap hitchId runId err signalAborted now =
     (if signalAborted then act_return Rethrow
      else if findTransientLeaseCause heap (pe_thrown err) \<noteq> None then act_return Rethrow
      else case pe_push err of
        None \<Rightarrow> act_return Rethrow
      | Some (stderr, stdout) \<Rightarrow>
          if classifyPushFailure (stderr @ [CHR 0x0A] @ stdout) \<noteq> Push_transient then
            act_return (Escalate (''close PR push failed (permanent): '' @ pe_message err))
          else act_bind (incrementClosePushAttempts hitchId runId now) (\<lambda>attempts.
            if attempts > MAX_CLOSE_PUSH_ATTEMPTS then
              act_return (Escalate (''close PR push failed transiently '' @ js_int (attempts - 1)
                @ [CHR 0xC3, CHR 0x97] @ '' then exhausted the '' @ js_int MAX_CLOSE_PUSH_ATTEMPTS @ ''-retry budget; escalating: '' @ pe_message err))
            else act_return (Recheck (''close PR push failed transiently (attempt '' @ js_int attempts @ ''/''
                @ js_int MAX_CLOSE_PUSH_ATTEMPTS @ '') '' @ [CHR 0xE2, CHR 0x80, CHR 0x94]
                @ '' re-run hitch orchestrate to retry''))))"

text \<open>The attempts that a hitch has used for a run.\<close>

definition attempts_used :: "hitch_db \<Rightarrow> string \<Rightarrow> string \<Rightarrow> int" where
  "attempts_used db h run =
     (case getHitchSession db h of
        None \<Rightarrow> 0
      | Some s \<Rightarrow> if s_closePushRunId s = Some run then s_closePushAttempts s else 0)"

definition is_recheck :: "close_push_outcome \<Rightarrow> bool" where
  "is_recheck o1 = (case o1 of Recheck _ \<Rightarrow> True | _ \<Rightarrow> False)"

text \<open>A sequence of failed pushes of one run: the error, the abort flag and the time of each.\<close>

fun push_failures ::
  "err_heap \<Rightarrow> string \<Rightarrow> string \<Rightarrow> (push_error \<times> bool \<times> timestamp) list \<Rightarrow> hitch_db
     \<Rightarrow> (hitch_error + close_push_outcome) list \<times> hitch_db" where
  "push_failures heap h run [] db = ([], db)"
| "push_failures heap h run ((e, aborted, t) # rest) db =
     (let (r, db1) = classifyAndRecordClosePushFailure heap h run e aborted t db;
          (rs, db2) = push_failures heap h run rest db1
      in (r # rs, db2))"

lemma increment_run:
  "incrementClosePushAttempts h run t db =
     (case getHitchSession db h of
        None \<Rightarrow> (Inl (Hitch_not_found h), db)
      | Some s \<Rightarrow>
          (let n = attempts_used db h run + 1
           in (Inr n, with_session h (\<lambda>s. s\<lparr>s_closePushAttempts := n, s_closePushRunId := Some run, s_updatedAt := t\<rparr>) db)))"
  by (simp add: incrementClosePushAttempts_def act_simps attempts_used_def Let_def split: option.split)

lemma attempts_used_increment:
  "getHitchSession db h = Some s \<Longrightarrow>
   attempts_used (with_session h (\<lambda>s. s\<lparr>s_closePushAttempts := n, s_closePushRunId := Some run, s_updatedAt := t\<rparr>) db) h run = n"
  by (simp add: attempts_used_def)

text \<open>A failed push is rechecked only within the budget, and what it used is counted.\<close>

lemma close_push_cases:
  assumes "classifyAndRecordClosePushFailure heap h run e aborted t db = (r, db')"
  shows "if (case r of Inr o1 \<Rightarrow> is_recheck o1 | Inl _ \<Rightarrow> False)
    then attempts_used db' h run = attempts_used db h run + 1 \<and> attempts_used db' h run \<le> 5
    else attempts_used db h run \<le> attempts_used db' h run"
  using assms
  by (auto simp: classifyAndRecordClosePushFailure_def act_simps act_bind_def increment_run Let_def is_recheck_def
      MAX_CLOSE_PUSH_ATTEMPTS_def attempts_used_increment split: if_splits option.splits prod.splits)

text \<open>
  C35: retries are bounded per run. Whatever consecutive failed pushes of one run of a hitch look like and whenever
  they happen, at most five of them, less those already used, end in another try; every other one
  escalates, is thrown on, or fails. A failed push of another run, or reopening the session, resets the counter and
  starts a new sequence.
\<close>

theorem close_push_retries_bounded:
  "push_failures heap h run failures db = (rs, db') \<Longrightarrow>
   int (length (filter (\<lambda>r. case r of Inr o1 \<Rightarrow> is_recheck o1 | Inl _ \<Rightarrow> False) rs)) \<le> max 0 (5 - attempts_used db h run)"
proof (induction failures arbitrary: db rs)
  case (Cons f failures)
  obtain e aborted t where f: "f = (e, aborted, t)" by (cases f)
  obtain r db1 where one: "classifyAndRecordClosePushFailure heap h run e aborted t db = (r, db1)"
    by (cases "classifyAndRecordClosePushFailure heap h run e aborted t db")
  obtain rs1 where rest: "push_failures heap h run failures db1 = (rs1, db')" "rs = r # rs1"
    using Cons.prems one by (auto simp: f split: prod.splits)
  show ?case using Cons.IH [OF rest(1)] close_push_cases [OF one] rest(2) by (auto split: if_splits)
qed simp

definition ex_push_error :: push_error where
  "ex_push_error = \<lparr>pe_thrown = T_primitive, pe_message = ''push failed'',
     pe_push = Some (''early EOF'', [])\<rparr>"

definition ex_failures :: "(hitch_error + close_push_outcome) list \<times> hitch_db" where
  "ex_failures = push_failures (\<lambda>_. \<lparr>eo_class = Other_class, eo_cause = T_primitive\<rparr>) ''h1'' ''r1''
      (replicate 2 (ex_push_error, False, ''t9'')) (ex_ready_db ''t7'')"

theorem close_push_retries_bounded_witness:
  "length (filter (\<lambda>r. case r of Inr o1 \<Rightarrow> is_recheck o1 | Inl _ \<Rightarrow> False) (fst ex_failures)) = 2
   \<and> int (length (filter (\<lambda>r. case r of Inr o1 \<Rightarrow> is_recheck o1 | Inl _ \<Rightarrow> False) (fst ex_failures)))
         \<le> max 0 (5 - attempts_used (ex_ready_db ''t7'') ''h1'' ''r1'')"
proof -
  have "length (filter (\<lambda>r. case r of Inr o1 \<Rightarrow> is_recheck o1 | Inl _ \<Rightarrow> False) (fst ex_failures)) = 2" by code_simp
  then show ?thesis
    using close_push_retries_bounded [OF prod.collapse [symmetric]] unfolding ex_failures_def by blast
qed

end
