(* ===== verification/Merge_Gate.thy ===== *)
theory Merge_Gate
  imports Regex_Match Facet_Coverage Review_Consensus
begin

text \<open>
  What stands between an approved hitch and an automatic merge: the merge gate (\<open>core/merge-gate.ts\<close>), the
  sensitivity tiers of the changed paths with the operator's override file (\<open>core/automerge-tiers.ts\<close>,
  \<open>core/automerge-tiers-config.ts\<close>), and the detector of weakened tests. The glob matcher is an argument.
\<close>

section \<open>The gate\<close>

record merge_gate_consensus =
  gc_status :: consensus_status
  gc_quorumSatisfied :: bool

record merge_gate_input =
  gi_autoMergeEnabled :: bool
  gi_closeReady :: bool
  gi_consensus :: "merge_gate_consensus option"
  gi_humanApproved :: bool
  gi_ciGreen :: bool
  gi_tierEligible :: bool

datatype merge_blocker = Auto_merge_disabled | Not_close_ready | Consensus_not_approved | Quorum_not_satisfied
  | Ci_not_green | Tier_not_auto_eligible

record merge_gate_result =
  gr_canMerge :: bool
  gr_blockers :: "merge_blocker list"
  gr_hardBlocked :: bool

definition HARD_BLOCKERS :: "merge_blocker list" where
  "HARD_BLOCKERS = [Not_close_ready, Consensus_not_approved, Quorum_not_satisfied]"

text \<open>The argument is the value of \<open>summary.requirements\<close> in the stored summary; \<open>None\<close> is undefined.\<close>

definition quorumSatisfiedFromRequirements :: "json option \<Rightarrow> bool" where
  "quorumSatisfiedFromRequirements requirements =
     (case requirements of
        Some (JArr rs) \<Rightarrow> list_all (\<lambda>r. case r of JObj ps \<Rightarrow> map_of ps ''quorumMet'' = Some (JBool True) | _ \<Rightarrow> False) rs
      | _ \<Rightarrow> False)"

definition approval_blockers :: "merge_gate_input \<Rightarrow> merge_blocker list" where
  "approval_blockers i =
     (if gi_humanApproved i then []
      else case gi_consensus i of
        None \<Rightarrow> [Consensus_not_approved]
      | Some c \<Rightarrow> if gc_status c \<noteq> Cs_approved then [Consensus_not_approved]
                 else if \<not> gc_quorumSatisfied c then [Quorum_not_satisfied] else [])"

definition evaluateMergeGate :: "merge_gate_input \<Rightarrow> merge_gate_result" where
  "evaluateMergeGate i =
     (if \<not> gi_autoMergeEnabled i then
        \<lparr>gr_canMerge = False, gr_blockers = [Auto_merge_disabled], gr_hardBlocked = False\<rparr>
      else let blockers = (if gi_closeReady i then [] else [Not_close_ready]) @ approval_blockers i
             @ (if gi_ciGreen i then [] else [Ci_not_green])
             @ (if gi_tierEligible i then [] else [Tier_not_auto_eligible])
        in \<lparr>gr_canMerge = (blockers = []), gr_blockers = blockers,
            gr_hardBlocked = list_ex (\<lambda>b. b \<in> set HARD_BLOCKERS) blockers\<rparr>)"

section \<open>Tiers\<close>

record sensitivity_rule =
  sr_glob :: string
  sr_tier :: nat

definition DEFAULT_AUTO_MERGE_SENSITIVITY_MAP :: "sensitivity_rule list" where
  "DEFAULT_AUTO_MERGE_SENSITIVITY_MAP = map (\<lambda>(g, t). \<lparr>sr_glob = g, sr_tier = t\<rparr>)
     [(''src/policy/**'', 2), (''src/codex/**'', 2), (''src/core/merge-gate.ts'', 2), (''src/hitch/**'', 2),
      (''src/core/reviewer-agent*.ts'', 2), (''src/db/repositories/review-*.ts'', 2), (''src/db/migrations*'', 2),
      (''.github/**'', 2), (''policies/**'', 2), (''docs/**'', 0), (''tests/**'', 0)]"

definition raise_tier :: "glob_matcher \<Rightarrow> string \<Rightarrow> sensitivity_rule \<Rightarrow> nat option \<Rightarrow> nat option" where
  "raise_tier mm path rule tier =
     (if mm path (sr_glob rule) \<and> (case tier of None \<Rightarrow> True | Some t \<Rightarrow> sr_tier rule > t)
      then Some (sr_tier rule) else tier)"

definition tierForPath :: "glob_matcher \<Rightarrow> string \<Rightarrow> sensitivity_rule list \<Rightarrow> nat" where
  "tierForPath mm path rules =
     or_else (fold (raise_tier mm path) rules None) 1"

definition computeAutoMergeTier :: "glob_matcher \<Rightarrow> string list \<Rightarrow> sensitivity_rule list \<Rightarrow> nat" where
  "computeAutoMergeTier mm changedPaths rules =
     fold (\<lambda>path maxTier. let tier = tierForPath mm path rules in if tier > maxTier then tier else maxTier)
       changedPaths (if changedPaths = [] then 1 else 0)"

text \<open>
  The operator's file \<open>policies/automerge-tiers.yaml\<close>: absent, unreadable, of a shape its schema refuses, or
  a list of rules. Reading and parsing it is outside the model.
\<close>

datatype tiers_file = File_absent | File_unreadable | File_invalid | File_rules "sensitivity_rule list"

datatype tiers_error = Tiers_unreadable | Tiers_invalid

definition loadAutoMergeSensitivityMap :: "tiers_file \<Rightarrow> tiers_error + sensitivity_rule list" where
  "loadAutoMergeSensitivityMap f =
     (case f of
        File_absent \<Rightarrow> Inr DEFAULT_AUTO_MERGE_SENSITIVITY_MAP
      | File_unreadable \<Rightarrow> Inl Tiers_unreadable
      | File_invalid \<Rightarrow> Inl Tiers_invalid
      | File_rules rules \<Rightarrow> Inr (DEFAULT_AUTO_MERGE_SENSITIVITY_MAP @ rules))"

section \<open>Weakened tests\<close>

definition TEST_SKIP_MARKER :: regex where
  "TEST_SKIP_MARKER =
     R_alt (re_seq [R_boundary, R_lit ''x'', re_words [''it'', ''describe'', ''test'', ''context''], R_many is_ws, R_lit ''('' ])
     (R_alt (re_seq [R_boundary, re_words [''it'', ''test'', ''describe'', ''context''], R_lit ''.'',
          re_words [''skip'', ''only'', ''todo''], R_boundary])
        (re_seq [R_lit ''.'', re_words [''skip'', ''only'', ''todo''], R_many is_ws, R_lit ''('' ]))"

definition TEST_DEFINITION :: regex where
  "TEST_DEFINITION =
     re_seq [R_boundary, R_opt (R_lit ''x''), re_words [''it'', ''test'', ''describe'', ''context''],
       R_opt (R_seq (R_lit ''.'') (re_words [''skip'', ''only'', ''todo'', ''each'', ''concurrent'', ''failing''])),
       R_many is_ws, R_class (\<lambda>c. c = CHR ''('' \<or> c = CHR 0x60)]"

text \<open>
  \<open>line.match(/^diff --git a\/\S+ b\/(\S+)/)\<close>: since a blank must follow the first \<open>\S+\<close>, it is the
  whole run of non-blanks.
\<close>

definition diff_target :: "string \<Rightarrow> string option" where
  "diff_target line =
     (if js_starts_with line ''diff --git a/'' then
        (let s = drop 13 line; old = takeWhile (\<lambda>c. \<not> is_ws c) s; s1 = dropWhile (\<lambda>c. \<not> is_ws c) s
         in if old \<noteq> [] \<and> js_starts_with s1 '' b/'' then
              (let new = takeWhile (\<lambda>c. \<not> is_ws c) (drop 3 s1) in if new = [] then None else Some new)
            else None)
      else None)"

definition is_diff_header :: "string \<Rightarrow> bool" where
  "is_diff_header line = js_starts_with line ''diff --git ''"

definition is_test_header :: "string \<Rightarrow> bool" where
  "is_test_header line = (case diff_target line of None \<Rightarrow> False | Some f \<Rightarrow> js_starts_with f ''tests/'')"

fun weakening_loop :: "bool \<Rightarrow> nat \<Rightarrow> nat \<Rightarrow> string list \<Rightarrow> bool" where
  "weakening_loop isTest added removed [] = (isTest \<and> removed > added)"
| "weakening_loop isTest added removed (line # ls) =
     (if is_diff_header line then
        (if isTest \<and> removed > added then True else weakening_loop (is_test_header line) 0 0 ls)
      else if \<not> isTest then weakening_loop isTest added removed ls
      else if js_starts_with line ''deleted file mode'' then True
      else if js_starts_with line ''+++'' \<or> js_starts_with line ''---'' then weakening_loop isTest added removed ls
      else if js_starts_with line ''+'' then
        (if re_test TEST_SKIP_MARKER line then True
         else weakening_loop isTest (if re_test TEST_DEFINITION line then added + 1 else added) removed ls)
      else if js_starts_with line ''-'' then
        weakening_loop isTest added (if re_test TEST_DEFINITION line then removed + 1 else removed) ls
      else weakening_loop isTest added removed ls)"

definition detectsTestWeakening :: "string \<Rightarrow> bool" where
  "detectsTestWeakening patch = weakening_loop False 0 0 (split_lines patch)"

section \<open>What the gate lets through\<close>

text \<open>
  C33: the gate merges exactly when auto-merge is on, the hitch is ready to close, a human approved or the
  consensus is approved with its quorum, CI is green and the change is of the automatic tier; and it asks
  for a human exactly when it is on and the readiness or the approval is missing.
\<close>

theorem merge_gate_iff:
  "(gr_canMerge (evaluateMergeGate i) \<longleftrightarrow>
      gi_autoMergeEnabled i \<and> gi_closeReady i
      \<and> (gi_humanApproved i \<or> gi_consensus i = Some \<lparr>gc_status = Cs_approved, gc_quorumSatisfied = True\<rparr>)
      \<and> gi_ciGreen i \<and> gi_tierEligible i)
   \<and> (gr_hardBlocked (evaluateMergeGate i) \<longleftrightarrow>
      gi_autoMergeEnabled i \<and> \<not> (gi_closeReady i
        \<and> (gi_humanApproved i \<or> gi_consensus i = Some \<lparr>gc_status = Cs_approved, gc_quorumSatisfied = True\<rparr>)))"
proof -
  have consensus: "approval_blockers i = [] \<longleftrightarrow>
      gi_humanApproved i \<or> gi_consensus i = Some \<lparr>gc_status = Cs_approved, gc_quorumSatisfied = True\<rparr>"
    by (cases "gi_consensus i") (auto simp: approval_blockers_def)
  have "list_all (\<lambda>b. b \<in> set HARD_BLOCKERS) (approval_blockers i)"
    by (auto simp: approval_blockers_def HARD_BLOCKERS_def split: option.split)
  then have "list_ex (\<lambda>b. b \<in> set HARD_BLOCKERS) (approval_blockers i) \<longleftrightarrow> approval_blockers i \<noteq> []"
    by (cases "approval_blockers i") auto
  moreover have "Not_close_ready \<in> set HARD_BLOCKERS" "Ci_not_green \<notin> set HARD_BLOCKERS"
    "Tier_not_auto_eligible \<notin> set HARD_BLOCKERS" by (simp_all add: HARD_BLOCKERS_def)
  ultimately show ?thesis using consensus by (simp add: evaluateMergeGate_def Let_def)
qed

section \<open>What an operator's file can change\<close>

definition matching_tiers :: "glob_matcher \<Rightarrow> string \<Rightarrow> sensitivity_rule list \<Rightarrow> nat list" where
  "matching_tiers mm path rules = map sr_tier (filter (\<lambda>r. mm path (sr_glob r)) rules)"

lemma tier_fold_Some: "fold (raise_tier mm path) rules (Some t) = Some (fold max (matching_tiers mm path rules) t)"
  by (induction rules arbitrary: t) (auto simp: raise_tier_def matching_tiers_def max_def)

lemma tier_fold_None:
  "fold (raise_tier mm path) rules None =
     (case matching_tiers mm path rules of [] \<Rightarrow> None | t # ts \<Rightarrow> Some (fold max ts t))"
proof (induction rules)
  case (Cons r rules)
  then show ?case
    by (cases "mm path (sr_glob r)") (simp_all add: raise_tier_def [of mm path r] tier_fold_Some matching_tiers_def)
qed (simp add: matching_tiers_def)

text \<open>The tier of a path is the greatest tier of the rules that match it, 1 when none does.\<close>

lemma tierForPath_Max:
  "tierForPath mm path rules = (let ts = matching_tiers mm path rules in if ts = [] then 1 else Max (set ts))"
  unfolding tierForPath_def tier_fold_None
proof (cases "matching_tiers mm path rules")
  case (Cons t ts)
  have "Max (set (t # ts)) = fold max ts t" by (rule Max.set_eq_fold)
  then show "or_else (case matching_tiers mm path rules of [] \<Rightarrow> None | t # ts \<Rightarrow> Some (fold max ts t)) 1
      = (let ts = matching_tiers mm path rules in if ts = [] then 1 else Max (set ts))"
    unfolding Cons Let_def by (simp only: list.case or_else_simps list.distinct if_False)
qed simp

lemma matching_tiers_append [simp]:
  "matching_tiers mm path (xs @ ys) = matching_tiers mm path xs @ matching_tiers mm path ys"
  by (simp add: matching_tiers_def)

lemma Max_zero: "ts \<noteq> [] \<Longrightarrow> Max (set ts) = (0::nat) \<longleftrightarrow> list_all (\<lambda>t. t = 0) ts"
  using Max_eq_iff [of "set ts" 0] by (cases ts) (auto simp: list_all_iff)

text \<open>
  C34: what the operator's override file can loosen. Adding its rules to the defaults lowers the tier of a
  path exactly when no default rule matches the path, at least one rule of the file does, and all of those
  are of tier 0: such a path goes from tier 1, which is never merged automatically, to tier 0. Where a
  default rule matches, the file can only raise the tier.
\<close>

theorem operator_rules_lower_tier_iff:
  "tierForPath mm path (DEFAULT_AUTO_MERGE_SENSITIVITY_MAP @ rules)
     < tierForPath mm path DEFAULT_AUTO_MERGE_SENSITIVITY_MAP \<longleftrightarrow>
   filter (\<lambda>r. mm path (sr_glob r)) DEFAULT_AUTO_MERGE_SENSITIVITY_MAP = []
   \<and> filter (\<lambda>r. mm path (sr_glob r)) rules \<noteq> []
   \<and> list_all (\<lambda>r. sr_tier r = 0) (filter (\<lambda>r. mm path (sr_glob r)) rules)"
proof (cases "matching_tiers mm path DEFAULT_AUTO_MERGE_SENSITIVITY_MAP = []")
  case True
  then have none: "filter (\<lambda>r. mm path (sr_glob r)) DEFAULT_AUTO_MERGE_SENSITIVITY_MAP = []"
    by (simp add: matching_tiers_def)
  show ?thesis
  proof (cases "matching_tiers mm path rules = []")
    case False
    then show ?thesis
      using True none Max_zero [OF False]
      by (simp add: tierForPath_Max Let_def matching_tiers_def list_all_iff)
  qed (simp add: True none tierForPath_Max Let_def, simp add: matching_tiers_def)
next
  case False
  then have "Max (set (matching_tiers mm path DEFAULT_AUTO_MERGE_SENSITIVITY_MAP))
      \<le> Max (set (matching_tiers mm path (DEFAULT_AUTO_MERGE_SENSITIVITY_MAP @ rules)))"
    by (intro Max_mono) simp_all
  then have "\<not> tierForPath mm path (DEFAULT_AUTO_MERGE_SENSITIVITY_MAP @ rules)
      < tierForPath mm path DEFAULT_AUTO_MERGE_SENSITIVITY_MAP"
    unfolding tierForPath_Max Let_def using False by (simp only: matching_tiers_append append_is_Nil_conv simp_thms if_False not_less)
  moreover have "filter (\<lambda>r. mm path (sr_glob r)) DEFAULT_AUTO_MERGE_SENSITIVITY_MAP \<noteq> []"
    using False by (simp add: matching_tiers_def)
  ultimately show ?thesis by (simp only: simp_thms)
qed

section \<open>Weakened tests, file by file\<close>

text \<open>The sections of a diff: each header with the lines up to the next one.\<close>

fun diff_sections :: "string list \<Rightarrow> (string \<times> string list) list" where
  "diff_sections [] = []"
| "diff_sections (l # ls) =
     (if is_diff_header l then (l, takeWhile (\<lambda>x. \<not> is_diff_header x) ls) # diff_sections ls else diff_sections ls)"

definition added_line :: "string \<Rightarrow> bool" where
  "added_line l \<longleftrightarrow> js_starts_with l ''+'' \<and> \<not> js_starts_with l ''+++''"

definition removed_line :: "string \<Rightarrow> bool" where
  "removed_line l \<longleftrightarrow> js_starts_with l ''-'' \<and> \<not> js_starts_with l ''---''"

definition defines_tests :: "(string \<Rightarrow> bool) \<Rightarrow> string list \<Rightarrow> nat" where
  "defines_tests P body = length (filter (\<lambda>l. P l \<and> re_test TEST_DEFINITION l) body)"

definition body_weakens :: "nat \<Rightarrow> nat \<Rightarrow> string list \<Rightarrow> bool" where
  "body_weakens added removed body \<longleftrightarrow>
     list_ex (\<lambda>l. js_starts_with l ''deleted file mode'' \<or> (added_line l \<and> re_test TEST_SKIP_MARKER l)) body
     \<or> added + defines_tests added_line body < removed + defines_tests removed_line body"

definition section_weakens :: "string \<times> string list \<Rightarrow> bool" where
  "section_weakens s \<longleftrightarrow> is_test_header (fst s) \<and> body_weakens 0 0 (snd s)"

lemma starts_cases:
  "js_starts_with l ''deleted file mode'' \<Longrightarrow> \<not> js_starts_with l ''+'' \<and> \<not> js_starts_with l ''-''"
  "js_starts_with l ''+'' \<Longrightarrow> \<not> js_starts_with l ''-''"
  "js_starts_with l ''+++'' \<Longrightarrow> js_starts_with l ''+''"
  "js_starts_with l ''---'' \<Longrightarrow> js_starts_with l ''-''"
  by (cases l; auto simp: js_starts_with_def)+

lemma body_weakens_Nil: "body_weakens a r [] \<longleftrightarrow> a < r"
  by (simp add: body_weakens_def defines_tests_def)

lemma body_weakens_Cons:
  "body_weakens a r (l # ls) \<longleftrightarrow>
     js_starts_with l ''deleted file mode'' \<or> (added_line l \<and> re_test TEST_SKIP_MARKER l)
     \<or> body_weakens (if added_line l \<and> re_test TEST_DEFINITION l then a + 1 else a)
         (if removed_line l \<and> re_test TEST_DEFINITION l then r + 1 else r) ls"
  by (auto simp: body_weakens_def defines_tests_def)

lemma loop_sections:
  "weakening_loop isTest a r ls \<longleftrightarrow>
     (isTest \<and> body_weakens a r (takeWhile (\<lambda>x. \<not> is_diff_header x) ls)) \<or> list_ex section_weakens (diff_sections ls)"
proof (induction ls arbitrary: isTest a r)
  case (Cons l ls)
  show ?case
  proof (cases "is_diff_header l")
    case True
    then show ?thesis by (auto simp: Cons.IH body_weakens_Nil section_weakens_def)
  next
    case False
    then show ?thesis
      using starts_cases [of l]
      by (auto simp: Cons.IH body_weakens_Cons added_line_def removed_line_def)
  qed
qed (simp add: body_weakens_Nil)

text \<open>
  The detector agrees with a definition per file: a patch weakens the tests exactly when some file
  section under \<open>tests/\<close> deletes the file, adds a skipping marker, or removes more test definitions than it
  adds. In particular cases added in one file never make up for cases removed in another.
\<close>

theorem detectsTestWeakening_per_file:
  "detectsTestWeakening patch \<longleftrightarrow> list_ex section_weakens (diff_sections (split_lines patch))"
  by (simp add: detectsTestWeakening_def loop_sections)

text \<open>
  A header whose path contains a blank does not match \<open>a\/\S+ b\/(\S+)\<close>, so its section is never taken for a
  test file: deleting such a test goes unnoticed, while its path is of the automatic tier.
\<close>

definition blank_name_patch :: string where
  "blank_name_patch = js_join [CHR 0x0A] [''diff --git a/tests/my spec.ts b/tests/my spec.ts'', ''deleted file mode 100644'']"

lemma deleted_test_with_blank_missed:
  "\<not> detectsTestWeakening blank_name_patch
   \<and> computeAutoMergeTier (\<lambda>p g. g = ''tests/**'' \<and> js_starts_with p ''tests/'') [''tests/my spec.ts'']
       DEFAULT_AUTO_MERGE_SENSITIVITY_MAP = 0"
  by code_simp

end
