(* ===== verification/Close_Runner.thy ===== *)
theory Close_Runner
  imports Orchestrator Close_Push Merge_Gate
begin

text \<open>
  The last step of a hitch: the runner \<open>closeAndPr\<close> of \<open>src/hitch/orchestrator-runners.ts\<close> and the auto-merge
  of \<open>src/hitch/orchestrator-runners-automerge.ts\<close>. It opens the pull request, ingests external reviews, asks
  the merge gate, merges and closes. The publisher's \<open>createPullRequest\<close>, GitHub's check status, the merger,
  the fetch of external reviews and the Copilot review are arguments: each may change the world in any way,
  as another process may, and may throw. The lemmas say when the merger can be called at all.
\<close>

section \<open>The title of the pull request\<close>

definition MAX_SUBJECT_LEN :: nat where
  "MAX_SUBJECT_LEN = 120"

definition is_control :: "char \<Rightarrow> bool" where
  "is_control c \<longleftrightarrow> char_code c \<le> 31 \<or> char_code c = 127"

text \<open>\<open>raw.split(/\r?\n/, 1)[0]\<close>\<close>

definition first_line :: "string \<Rightarrow> string" where
  "first_line raw =
     (let l = takeWhile (\<lambda>c. c \<noteq> CHR 0x0A) raw
      in if length l < length raw \<and> l \<noteq> [] \<and> last l = CHR 0x0D then butlast l else l)"

text \<open>\<open>s.replace(/[\u0000-\u001F\u007F]+/g, " ")\<close>\<close>

fun blank_controls :: "string \<Rightarrow> string" where
  "blank_controls [] = []"
| "blank_controls (c # cs) =
     (if is_control c
      then (case cs of d # _ \<Rightarrow> if is_control d then blank_controls cs else CHR '' '' # blank_controls cs
            | [] \<Rightarrow> [CHR '' ''])
      else c # blank_controls cs)"

definition sanitizeTitle :: "string \<Rightarrow> string" where
  "sanitizeTitle raw =
     (let cleaned = js_trim (blank_controls (first_line raw))
      in if length cleaned > MAX_SUBJECT_LEN then trim_end (take MAX_SUBJECT_LEN cleaned) else cleaned)"

definition CONVENTIONAL_RE :: regex where
  "CONVENTIONAL_RE = re_seq [R_start,
     re_words [''feat'', ''fix'', ''refactor'', ''test'', ''docs'', ''chore'', ''perf'', ''ci'', ''build'', ''style'', ''revert''],
     R_opt (re_seq [R_lit ''('', re_atleast 1 (\<lambda>c. c \<noteq> CHR '')''), R_lit '')'']), R_opt (R_lit ''!''), R_lit '': '']"

definition conventionalPrTitle :: "string \<Rightarrow> string \<Rightarrow> string option \<Rightarrow> string" where
  "conventionalPrTitle hitchTitle runId defaultType =
     (let title = sanitizeTitle hitchTitle;
          subject = (if re_test CONVENTIONAL_RE title then title
            else or_else defaultType ''fix'' @ '': '' @ (if title = [] then runId else title))
      in subject @ '' ('' @ runId @ '')'')"

section \<open>What the runner is given\<close>

datatype merge_method = Merge_squash | Merge_merge | Merge_rebase

record merge_request =
  mr_repoDir :: string
  mr_prNumber :: int
  mr_method :: merge_method
  mr_expectedHeadSha :: string

record pr_request =
  pq_runId :: string
  pq_base :: string
  pq_title :: string
  pq_draft :: bool

record created_pr =
  pr_url :: string
  pr_number :: int
  pr_draft :: bool
  pr_headSha :: "string option"

datatype close_error =
    Publisher_missing
  | Hitch_has_adopted_pr string
  | Hitch_not_close_ready string hitch_convergence_decision
  | No_recorded_run string
  | Run_context_missing string
  | Close_store hitch_error
  | Close_ledger op_failure
  | Close_tiers tiers_error
  | Close_threw runner_error
  | Close_push push_error

type_synonym 'a close_act = "(world, close_error, 'a) act"

record review_await =
  ra_timeoutMs :: js_number
  ra_intervalMs :: js_number
  ra_sleep :: "js_number \<Rightarrow> (world, runner_error, unit) act"
  ra_now :: "world \<Rightarrow> int \<times> world"

record auto_merge =
  am_merger :: "merge_request \<Rightarrow> (world, runner_error, json) act"
  am_ciStatus :: "int \<Rightarrow> string \<Rightarrow> (world, runner_error, bool) act"
  am_method :: "merge_method option"
  am_reviewVerdicts :: "(int \<Rightarrow> (world, runner_error, external_review_verdict list) act) option"
  am_reviewAwait :: "review_await option"

datatype copilot_outcome = Copilot_failed string | Copilot_done json

text \<open>
  The dependencies of the runner except the auto-merge, which is an argument of its own, and, as in a drive, what stands for code and data outside the model: the
  glob matcher, the transcript reader, the linked phase drifts, the tokenizer and the hashes, the policy file,
  and the readings of the clock and the random ids of this call.
\<close>

record close_deps =
  cd_createdBy :: string
  cd_createPr :: "(pr_request \<Rightarrow> (world, push_error, created_pr) act) option"
  cd_copilot :: "(int \<Rightarrow> (world, runner_error, copilot_outcome) act) option"
  cd_resolveRunContext :: "(hitch_session \<Rightarrow> string \<times> string) option"
  cd_repoPath :: "string option"
  cd_baseBranch :: "string option"
  cd_tiers :: tiers_file
  cd_globs :: glob_matcher
  cd_transcript :: transcript_decision
  cd_drifts :: "spec_drift list"
  cd_tok :: tokenizer
  cd_sha :: "string \<Rightarrow> string"
  cd_json_sha :: "json \<Rightarrow> string"
  cd_dates :: "string \<Rightarrow> js_number"
  cd_heap :: err_heap
  cd_clock :: "nat \<Rightarrow> timestamp"
  cd_nowMs :: int
  cd_id :: "nat \<Rightarrow> string"

definition on_store :: "'a hitch_act \<Rightarrow> 'a close_act" where
  "on_store m w = (case on_db m w of (Inl e, w') \<Rightarrow> (Inl (Close_store e), w') | (Inr x, w') \<Rightarrow> (Inr x, w'))"

definition lift_error :: "('e \<Rightarrow> 'd) \<Rightarrow> ('s, 'e, 'a) act \<Rightarrow> ('s, 'd, 'a) act" where
  "lift_error f m s = (case m s of (Inl e, s') \<Rightarrow> (Inl (f e), s') | (Inr x, s') \<Rightarrow> (Inr x, s'))"

definition ledger :: "(world, op_failure, 'a) act \<Rightarrow> 'a close_act" where
  "ledger m = lift_error Close_ledger m"

text \<open>The context: repository path and base branch.\<close>

definition resolveRunContext :: "close_deps \<Rightarrow> hitch_session \<Rightarrow> close_error + string \<times> string" where
  "resolveRunContext deps session =
     (case cd_resolveRunContext deps of
        Some f \<Rightarrow> Inr (f session)
      | None \<Rightarrow>
          if s_repoId session = None \<or> s_domain session = None then Inl (Run_context_missing (s_hitchId session))
          else case cd_repoPath deps of
            None \<Rightarrow> Inl (Run_context_missing (s_hitchId session))
          | Some p \<Rightarrow> Inr (p, or_else (cd_baseBranch deps) ''main''))"

definition latestCodingRunOrNull :: "hitch_db \<Rightarrow> string \<Rightarrow> (string \<times> int) option" where
  "latestCodingRunOrNull db hitchId =
     map_option (\<lambda>a. (or_else (a_runId a) [], a_iteration a))
       (find (\<lambda>a. is_coding a \<and> a_runId a \<noteq> None \<and> a_runId a \<noteq> Some []) (rev (listAttempts db hitchId)))"

definition latestRunId :: "hitch_db \<Rightarrow> string \<Rightarrow> close_error + string" where
  "latestRunId db hitchId =
     (case latestCodingRunOrNull db hitchId of None \<Rightarrow> Inl (No_recorded_run hitchId) | Some (r, _) \<Rightarrow> Inr r)"

definition close_ready_now :: "close_deps \<Rightarrow> string \<Rightarrow> bool close_act" where
  "close_ready_now deps hitchId =
     act_bind (on_store (evaluate (cd_globs deps) (cd_transcript deps) (cd_drifts deps) hitchId)) (\<lambda>r.
     act_return (r_decision r = D_close_ready))"

section \<open>The facts of the gate\<close>

definition gatherApproval :: "world \<Rightarrow> string \<Rightarrow> merge_gate_consensus option \<times> bool" where
  "gatherApproval w runId =
     (map_option (\<lambda>active. \<lparr>gc_status = cn_status active,
          gc_quorumSatisfied = quorumSatisfiedFromRequirements
            (Option.bind (json_props (cn_summaryJson active)) (\<lambda>ps. map_of ps ''requirements''))\<rparr>) (findActive w runId),
      map_option vr_decision (findLatest w runId) = Some Ov_approved)"

definition runWeakensTests :: "hitch_db \<Rightarrow> string \<Rightarrow> bool" where
  "runWeakensTests db runId =
     (case Option.bind (tbl_get rn_runId runId (db_runs db)) rn_meta of
        Some (JObj meta) \<Rightarrow>
          (case Option.bind (map_of meta ''reviewed'') json_props of
             Some reviewed \<Rightarrow> map_of reviewed ''weakensTests'' = Some (JBool True)
           | None \<Rightarrow> False)
      | _ \<Rightarrow> False)"

definition effectiveAutoMergeTier :: "glob_matcher \<Rightarrow> tiers_file \<Rightarrow> hitch_db \<Rightarrow> string \<Rightarrow> tiers_error + nat" where
  "effectiveAutoMergeTier mm tiers db runId =
     (case loadAutoMergeSensitivityMap tiers of
        Inl e \<Rightarrow> Inl e
      | Inr rules \<Rightarrow>
          let base = computeAutoMergeTier mm (changedPathsForRun db runId) rules
          in Inr (if base = 0 \<and> runWeakensTests db runId then 1 else base))"

definition current_tier :: "close_deps \<Rightarrow> string \<Rightarrow> nat close_act" where
  "current_tier deps runId w =
     (case effectiveAutoMergeTier (cd_globs deps) (cd_tiers deps) (ow_db w) runId of
        Inl e \<Rightarrow> (Inl (Close_tiers e), w) | Inr t \<Rightarrow> (Inr t, w))"

definition gate_now :: "string \<Rightarrow> bool \<Rightarrow> bool \<Rightarrow> bool \<Rightarrow> world \<Rightarrow> merge_gate_result" where
  "gate_now runId closeReady ciGreen tierEligible w =
     (case gatherApproval w runId of (consensus, humanApproved) \<Rightarrow>
        evaluateMergeGate \<lparr>gi_autoMergeEnabled = True, gi_closeReady = closeReady, gi_consensus = consensus,
          gi_humanApproved = humanApproved, gi_ciGreen = ciGreen, gi_tierEligible = tierEligible\<rparr>)"

fun merge_blocker_str :: "merge_blocker \<Rightarrow> string" where
  "merge_blocker_str Auto_merge_disabled = ''auto_merge_disabled''"
| "merge_blocker_str Not_close_ready = ''not_close_ready''"
| "merge_blocker_str Consensus_not_approved = ''consensus_not_approved''"
| "merge_blocker_str Quorum_not_satisfied = ''quorum_not_satisfied''"
| "merge_blocker_str Ci_not_green = ''ci_not_green''"
| "merge_blocker_str Tier_not_auto_eligible = ''tier_not_auto_eligible''"

definition blockers_text :: "merge_gate_result \<Rightarrow> string" where
  "blockers_text gate = js_join '', '' (map merge_blocker_str (gr_blockers gate))"

section \<open>External reviews\<close>

definition blockingExternalReviewVerdicts :: "external_review_verdict list \<Rightarrow> external_review_verdict list" where
  "blockingExternalReviewVerdicts verdicts =
     filter (\<lambda>v. normalizeExternalReviewState (xv_state v) = Some Er_changes_requested) verdicts"

text \<open>A failed fetch yields no verdicts.\<close>

definition fetchExternalReviewVerdicts ::
  "(int \<Rightarrow> (world, runner_error, external_review_verdict list) act) \<Rightarrow> int \<Rightarrow> world \<Rightarrow> external_review_verdict list \<times> world" where
  "fetchExternalReviewVerdicts fetch prNumber w =
     (case fetch prNumber w of (Inl _, w') \<Rightarrow> ([], w') | (Inr vs, w') \<Rightarrow> (vs, w'))"

text \<open>Recording is best effort: an error is only warned about, and what was written before it stays.\<close>

definition recordFetchedExternalReviewEvents ::
  "close_deps \<Rightarrow> string \<Rightarrow> string \<Rightarrow> int \<Rightarrow> external_review_verdict list \<Rightarrow> timestamp \<Rightarrow> world \<Rightarrow> world" where
  "recordFetchedExternalReviewEvents deps hitchId runId prNumber verdicts createdAt w =
     (if verdicts = [] then w
      else case getHitchSession (ow_db w) hitchId of
        None \<Rightarrow> w
      | Some session \<Rightarrow> snd (recordExternalReviewEvents (cd_dates deps) (cd_json_sha deps)
          (\<lambda>h. session_exists h (ow_db w))
          \<lparr>xi_hitchId = Some hitchId, xi_runId = Some runId, xi_repoId = s_repoId session, xi_prNumber = prNumber,
           xi_createdAt = createdAt\<rparr> 0 verdicts w))"

definition nextCreatedAt :: "close_deps \<Rightarrow> nat \<Rightarrow> timestamp" where
  "nextCreatedAt deps fetchSequence = to_iso (cd_nowMs deps + int fetchSequence * 10000)"

text \<open>One fetch with its record: the blocking verdicts.\<close>

definition fetch_once ::
  "close_deps \<Rightarrow> (int \<Rightarrow> (world, runner_error, external_review_verdict list) act) \<Rightarrow> string \<Rightarrow> string \<Rightarrow> int \<Rightarrow> nat
     \<Rightarrow> world \<Rightarrow> external_review_verdict list \<times> world" where
  "fetch_once deps fetch hitchId runId prNumber fetchSequence w =
     (let (verdicts, w1) = fetchExternalReviewVerdicts fetch prNumber w;
          w2 = recordFetchedExternalReviewEvents deps hitchId runId prNumber verdicts (nextCreatedAt deps fetchSequence) w1
      in (blockingExternalReviewVerdicts verdicts, w2))"

text \<open>The bounded wait. The clock need not move on, so the loop may not end: \<open>None\<close>.\<close>

partial_function (option) await_reviews ::
  "close_deps \<Rightarrow> review_await \<Rightarrow> (int \<Rightarrow> (world, runner_error, external_review_verdict list) act) \<Rightarrow> string \<Rightarrow> string \<Rightarrow> int
     \<Rightarrow> int \<Rightarrow> nat \<Rightarrow> world \<Rightarrow> ((close_error + external_review_verdict list) \<times> world) option" where
  "await_reviews deps ra fetch hitchId runId prNumber start fetchSequence w =
     (case ra_now ra w of (t1, w1) \<Rightarrow>
       if \<not> num_less (Fin (of_int (t1 - start))) (ra_timeoutMs ra) then Some (Inr [], w1)
       else case ra_now ra w1 of (t2, w2) \<Rightarrow>
         (case ra_sleep ra (num_min (ra_intervalMs ra) (num_sub (ra_timeoutMs ra) (Fin (of_int (t2 - start))))) w2 of
            (Inl e, w3) \<Rightarrow> Some (Inl (Close_threw e), w3)
          | (Inr _, w3) \<Rightarrow>
              (case fetch_once deps fetch hitchId runId prNumber fetchSequence w3 of (blocking, w4) \<Rightarrow>
                 if blocking \<noteq> [] then Some (Inr blocking, w4)
                 else await_reviews deps ra fetch hitchId runId prNumber start (Suc fetchSequence) w4)))"

definition external_review_key :: "int \<Rightarrow> string \<Rightarrow> string" where
  "external_review_key prNumber author = ''external-review:'' @ js_int prNumber @ '':'' @ author"

definition external_review_finding :: "string \<Rightarrow> int \<Rightarrow> external_review_verdict \<Rightarrow> upsert_finding_input" where
  "external_review_finding hitchId prNumber v =
     \<lparr>ui_findingId = None, ui_hitchId = hitchId, ui_stableKey = Some (external_review_key prNumber (xv_author v)),
      ui_duplicateOf = None, ui_source = Src_review,
      ui_sourceRef = Some (''external_review:'' @ js_int prNumber @ '':'' @ xv_author v), ui_sourceAttemptId = None,
      ui_sourceCycleId = None, ui_severity = P1, ui_category = ''external-review-changes-requested'',
      ui_scopeStatus = Some Unknown_scope, ui_lifecycleStatus = None,
      ui_summary = ''External reviewer '' @ xv_author v @ '' requested changes on PR #'' @ js_int prNumber,
      ui_detail = None, ui_filePath = None, ui_symbol = None, ui_suggestedFix = None,
      ui_classificationReason = Some ''external review verdict ingested as advisory; classify before acting''\<rparr>"

fun report_blocking ::
  "close_deps \<Rightarrow> string \<Rightarrow> int \<Rightarrow> string list \<Rightarrow> nat \<Rightarrow> external_review_verdict list \<Rightarrow> unit hitch_act" where
  "report_blocking deps hitchId prNumber seen i [] = act_return ()"
| "report_blocking deps hitchId prNumber seen i (v # vs) =
     (if external_review_key prNumber (xv_author v) \<in> set seen
      then report_blocking deps hitchId prNumber seen (Suc i) vs
      else act_bind (upsertFinding (cd_tok deps) (cd_sha deps) (external_review_finding hitchId prNumber v)
            (cd_id deps (10 + i)) (cd_clock deps (10 + i))) (\<lambda>_.
        report_blocking deps hitchId prNumber seen (Suc i) vs))"

definition seen_keys :: "hitch_db \<Rightarrow> string \<Rightarrow> string list" where
  "seen_keys db hitchId = map f_stableKey (listFindings db (no_filter hitchId) (Some 10000) None)"

definition ingest_blocking :: "close_deps \<Rightarrow> string \<Rightarrow> int \<Rightarrow> external_review_verdict list \<Rightarrow> unit close_act" where
  "ingest_blocking deps hitchId prNumber blocking =
     (if blocking = [] then act_return ()
      else on_store (act_bind (act_get (\<lambda>db. seen_keys db hitchId)) (\<lambda>seen.
        report_blocking deps hitchId prNumber seen 0 blocking)))"

definition ingestExternalReviewVerdicts ::
  "close_deps \<Rightarrow> auto_merge \<Rightarrow> string \<Rightarrow> string \<Rightarrow> int \<Rightarrow> world \<Rightarrow> ((close_error + unit) \<times> world) option" where
  "ingestExternalReviewVerdicts deps am hitchId runId prNumber w =
     (case am_reviewVerdicts am of
        None \<Rightarrow> Some (Inr (), w)
      | Some fetch \<Rightarrow>
          (case fetch_once deps fetch hitchId runId prNumber 0 w of (blocking, w1) \<Rightarrow>
             (case (if blocking = [] then am_reviewAwait am else None) of
                None \<Rightarrow> Some (ingest_blocking deps hitchId prNumber blocking w1)
              | Some ra \<Rightarrow>
                  (case ra_now ra w1 of (start, w2) \<Rightarrow>
                     (case await_reviews deps ra fetch hitchId runId prNumber start 1 w2 of
                        None \<Rightarrow> None
                      | Some (Inl e, w3) \<Rightarrow> Some (Inl e, w3)
                      | Some (Inr late, w3) \<Rightarrow> Some (ingest_blocking deps hitchId prNumber late w3))))))"

section \<open>The merge\<close>

record auto_merge_outcome =
  ao_merged :: bool
  ao_escalateReason :: "string option"
  ao_recheckable :: bool

fun merge_method_str :: "merge_method \<Rightarrow> string" where
  "merge_method_str Merge_squash = ''squash''"
| "merge_method_str Merge_merge = ''merge''"
| "merge_method_str Merge_rebase = ''rebase''"

definition gate_json :: "merge_gate_result \<Rightarrow> json" where
  "gate_json g = JObj [(''canMerge'', JBool (gr_canMerge g)),
     (''blockers'', JArr (map (JStr \<circ> merge_blocker_str) (gr_blockers g))), (''hardBlocked'', JBool (gr_hardBlocked g))]"

definition merge_operation ::
  "close_deps \<Rightarrow> string \<Rightarrow> string \<Rightarrow> merge_request \<Rightarrow> bool \<Rightarrow> nat \<Rightarrow> merge_gate_result \<Rightarrow> start_operation_input" where
  "merge_operation deps hitchId runId req ciGreen tier gate =
     \<lparr>so_operationId = cd_id deps 0, so_operationType = ''merge'', so_targetType = ''pr'',
      so_targetId = js_int (mr_prNumber req), so_actor = cd_createdBy deps, so_idempotencyKey = None, so_dryRun = False,
      so_input = JObj [(''hitchId'', JStr hitchId), (''runId'', JStr runId), (''prNumber'', JNum (of_int (mr_prNumber req))),
        (''method'', JStr (merge_method_str (mr_method req))), (''expectedHeadSha'', JStr (mr_expectedHeadSha req)),
        (''ciGreen'', JBool ciGreen), (''tier'', JNum (of_nat tier)), (''gate'', gate_json gate)],
      so_metadata = JNull\<rparr>"

definition merged_outcome :: auto_merge_outcome where
  "merged_outcome = \<lparr>ao_merged = True, ao_escalateReason = None, ao_recheckable = False\<rparr>"

text \<open>The audited call of the merger.\<close>

definition do_merge ::
  "close_deps \<Rightarrow> auto_merge \<Rightarrow> string \<Rightarrow> string \<Rightarrow> merge_request \<Rightarrow> bool \<Rightarrow> nat \<Rightarrow> merge_gate_result \<Rightarrow> auto_merge_outcome close_act" where
  "do_merge deps am hitchId runId req ciGreen tier gate =
     act_bind (ledger (startOperation (merge_operation deps hitchId runId req ciGreen tier gate) (cd_clock deps 0))) (\<lambda>_. (\<lambda>w.
       case am_merger am req w of
         (Inr answer, w1) \<Rightarrow>
           act_bind (ledger (succeedOperation (cd_id deps 0) answer (cd_clock deps 1))) (\<lambda>_. act_return merged_outcome) w1
       | (Inl e, w1) \<Rightarrow>
           act_bind (ledger (failOperation (cd_id deps 0) ''merge_failed'' (re_message e) (cd_clock deps 1)))
             (\<lambda>_. act_throw (Close_threw e)) w1))"

definition decide_merge ::
  "close_deps \<Rightarrow> auto_merge \<Rightarrow> string \<Rightarrow> string \<Rightarrow> string \<Rightarrow> int \<Rightarrow> string \<Rightarrow> auto_merge_outcome close_act" where
  "decide_merge deps am hitchId runId repoPath prNumber sha =
     act_bind (current_tier deps runId) (\<lambda>tier.
     act_bind (if tier = 0 then lift_error Close_threw (am_ciStatus am prNumber sha) else act_return True) (\<lambda>ciGreen.
     act_bind (close_ready_now deps hitchId) (\<lambda>closeReady.
     act_bind (act_get (gate_now runId closeReady ciGreen (tier = 0))) (\<lambda>gate.
       if gr_canMerge gate then
         do_merge deps am hitchId runId \<lparr>mr_repoDir = repoPath, mr_prNumber = prNumber,
           mr_method = or_else (am_method am) Merge_squash, mr_expectedHeadSha = sha\<rparr> ciGreen tier gate
       else if gr_hardBlocked gate then
         act_return \<lparr>ao_merged = False,
           ao_escalateReason = Some (''auto-merge gate hard-blocked: '' @ blockers_text gate), ao_recheckable = False\<rparr>
       else act_return \<lparr>ao_merged = False, ao_escalateReason = None,
           ao_recheckable = (Ci_not_green \<in> set (gr_blockers gate))\<rparr>))))"

definition runAutoMerge ::
  "close_deps \<Rightarrow> auto_merge \<Rightarrow> string \<Rightarrow> string \<Rightarrow> string \<Rightarrow> int \<Rightarrow> string option \<Rightarrow> world
     \<Rightarrow> ((close_error + auto_merge_outcome) \<times> world) option" where
  "runAutoMerge deps am hitchId runId repoPath prNumber reviewedHeadSha w =
     (case reviewedHeadSha of
        None \<Rightarrow> Some (Inr \<lparr>ao_merged = False, ao_escalateReason =
          Some (''auto-merge: reviewed head commit for PR #'' @ js_int prNumber @ '' is unknown''), ao_recheckable = False\<rparr>, w)
      | Some sha \<Rightarrow>
          (case ingestExternalReviewVerdicts deps am hitchId runId prNumber w of
             None \<Rightarrow> None
           | Some (Inl e, w1) \<Rightarrow> Some (Inl e, w1)
           | Some (Inr _, w1) \<Rightarrow> Some (decide_merge deps am hitchId runId repoPath prNumber sha w1)))"

section \<open>Opening the pull request and closing\<close>

definition close_result :: "string \<Rightarrow> bool \<Rightarrow> bool \<Rightarrow> string option \<Rightarrow> bool \<Rightarrow> close_pr_result" where
  "close_result url draft merged reason retry = \<lparr>cp_prUrl = url, cp_draft = draft, cp_merged = merged,
     cp_escalateReason = reason, cp_pushRetryPending = retry\<rparr>"

text \<open>What is read before anything is changed: the run, the repository path, the base branch and the title.\<close>

definition close_context :: "close_deps \<Rightarrow> string \<Rightarrow> (string \<times> string \<times> string \<times> string) close_act" where
  "close_context deps hitchId =
     act_bind (on_store (requireHitchSession hitchId)) (\<lambda>session.
     act_bind (act_get (\<lambda>w. hasAdoptedPr (ow_db w) hitchId)) (\<lambda>adopted.
     if adopted then act_throw (Hitch_has_adopted_pr hitchId)
     else act_bind (on_store (evaluate (cd_globs deps) (cd_transcript deps) (cd_drifts deps) hitchId)) (\<lambda>r.
       if r_decision r \<noteq> D_close_ready then act_throw (Hitch_not_close_ready hitchId (r_decision r))
       else (\<lambda>w. case resolveRunContext deps session of
           Inl e \<Rightarrow> (Inl e, w)
         | Inr (repoPath, base) \<Rightarrow>
             (case latestRunId (ow_db w) hitchId of
                Inl e \<Rightarrow> (Inl e, w)
              | Inr run \<Rightarrow> (Inr (run, repoPath, base, conventionalPrTitle (s_title session) run None), w))))))"

definition preflight :: "close_deps \<Rightarrow> string \<Rightarrow> string \<Rightarrow> merge_gate_result close_act" where
  "preflight deps hitchId runId =
     act_bind (close_ready_now deps hitchId) (\<lambda>closeReady.
     act_bind (current_tier deps runId) (\<lambda>tier.
     act_get (gate_now runId closeReady True (tier = 0))))"

text \<open>A failed \<open>createPullRequest\<close>.\<close>

definition push_failed :: "close_deps \<Rightarrow> string \<Rightarrow> string \<Rightarrow> push_error \<Rightarrow> close_pr_result close_act" where
  "push_failed deps hitchId runId e w =
     act_bind (on_store (classifyAndRecordClosePushFailure (cd_heap deps) hitchId runId e (ow_aborted w) (cd_clock deps 2))) (\<lambda>d. (\<lambda>w1.
       case d of
         Rethrow \<Rightarrow> (Inl (Close_push e), w1)
       | Escalate reason \<Rightarrow>
           if ow_aborted w1 then (Inl (Close_push e), w1)
           else (Inr (close_result [] False False (Some reason) False), w1)
       | Recheck summary \<Rightarrow>
           if ow_aborted w1 then (Inl (Close_push e), w1)
           else act_bind (on_store (updateStatus hitchId S_close_ready (Some summary) (cd_createdBy deps) (cd_clock deps 3)
               (cd_id deps 3))) (\<lambda>_. act_return (close_result [] False False None True)) w1)) w"

text \<open>The Copilot review only leaves an audit row; whatever goes wrong is swallowed.\<close>

definition copilot_operation :: "close_deps \<Rightarrow> string \<Rightarrow> int \<Rightarrow> start_operation_input" where
  "copilot_operation deps hitchId prNumber =
     \<lparr>so_operationId = cd_id deps 4, so_operationType = ''copilot-review'', so_targetType = ''pr'',
      so_targetId = js_int prNumber, so_actor = cd_createdBy deps, so_idempotencyKey = None, so_dryRun = False,
      so_input = JObj [(''hitchId'', JStr hitchId), (''prNumber'', JNum (of_int prNumber))], so_metadata = JNull\<rparr>"

definition copilot_review :: "close_deps \<Rightarrow> string \<Rightarrow> int \<Rightarrow> world \<Rightarrow> world" where
  "copilot_review deps hitchId prNumber w =
     (case cd_copilot deps of
        None \<Rightarrow> w
      | Some review \<Rightarrow>
          (case review prNumber w of
             (Inl _, w1) \<Rightarrow> w1
           | (Inr outcome, w1) \<Rightarrow>
               snd (act_bind (startOperation (copilot_operation deps hitchId prNumber) (cd_clock deps 4)) (\<lambda>_.
                 case outcome of
                   Copilot_failed detail \<Rightarrow> failOperation (cd_id deps 4) ''copilot_review_failed'' detail (cd_clock deps 5)
                 | Copilot_done r \<Rightarrow> succeedOperation (cd_id deps 4) r (cd_clock deps 5)) w1)))"

definition finish_close ::
  "close_deps \<Rightarrow> string \<Rightarrow> hitch_status \<Rightarrow> string \<Rightarrow> close_pr_result \<Rightarrow> close_pr_result close_act" where
  "finish_close deps hitchId status summary r =
     act_bind (on_store (updateStatus hitchId status (Some summary) (cd_createdBy deps) (cd_clock deps 6) (cd_id deps 6)))
       (\<lambda>_. act_return r)"

definition after_merge :: "close_deps \<Rightarrow> string \<Rightarrow> created_pr \<Rightarrow> auto_merge_outcome \<Rightarrow> close_pr_result close_act" where
  "after_merge deps hitchId pr outcome =
     (case ao_escalateReason outcome of
        Some reason \<Rightarrow> act_return (close_result (pr_url pr) (pr_draft pr) False (Some reason) False)
      | None \<Rightarrow>
          finish_close deps hitchId
            (if ao_merged outcome then S_closed else if ao_recheckable outcome then S_close_ready else S_closed)
            (if ao_merged outcome then ''hitch converged; PR merged''
             else if ao_recheckable outcome then
               ''PR open; awaiting CI '' @ [CHR 0xE2, CHR 0x80, CHR 0x94] @ '' re-run orchestrate to merge''
             else ''hitch converged; PR opened'')
            (close_result (pr_url pr) (pr_draft pr) (ao_merged outcome) None False))"

definition publish_and_close ::
  "close_deps \<Rightarrow> auto_merge option \<Rightarrow> (pr_request \<Rightarrow> (world, push_error, created_pr) act) \<Rightarrow> string \<Rightarrow> string \<Rightarrow> string \<Rightarrow> string \<Rightarrow> string \<Rightarrow> world
     \<Rightarrow> ((close_error + close_pr_result) \<times> world) option" where
  "publish_and_close deps auto createPr hitchId runId repoPath base title w =
     (case createPr \<lparr>pq_runId = runId, pq_base = base, pq_title = title, pq_draft = Option.is_none auto\<rparr> w of
        (Inl e, w1) \<Rightarrow> Some (push_failed deps hitchId runId e w1)
      | (Inr pr, w1) \<Rightarrow>
          (let w2 = copilot_review deps hitchId (pr_number pr) w1
           in case auto of
                None \<Rightarrow> Some (finish_close deps hitchId S_closed ''hitch converged; PR opened''
                  (close_result (pr_url pr) (pr_draft pr) False None False) w2)
              | Some am \<Rightarrow>
                  (case runAutoMerge deps am hitchId runId repoPath (pr_number pr) (pr_headSha pr) w2 of
                     None \<Rightarrow> None
                   | Some (Inl e, w3) \<Rightarrow> Some (Inl e, w3)
                   | Some (Inr outcome, w3) \<Rightarrow> Some (after_merge deps hitchId pr outcome w3))))"

definition closeAndPr :: "close_deps \<Rightarrow> auto_merge option \<Rightarrow> string \<Rightarrow> world \<Rightarrow> ((close_error + close_pr_result) \<times> world) option" where
  "closeAndPr deps auto hitchId w =
     (case cd_createPr deps of
        None \<Rightarrow> Some (Inl Publisher_missing, w)
      | Some createPr \<Rightarrow>
          (case close_context deps hitchId w of
             (Inl e, w1) \<Rightarrow> Some (Inl e, w1)
           | (Inr (runId, repoPath, base, title), w1) \<Rightarrow>
               (case (if Option.is_none auto then (Inr None, w1)
                      else act_bind (preflight deps hitchId runId) (\<lambda>g. act_return (Some g)) w1) of
                  (Inl e, w2) \<Rightarrow> Some (Inl e, w2)
                | (Inr gate, w2) \<Rightarrow>
                    if (case gate of None \<Rightarrow> False | Some g \<Rightarrow> gr_hardBlocked g) then
                      Some (Inr (close_result [] False False
                        (Some (''auto-merge preflight hard-blocked: '' @ (case gate of None \<Rightarrow> [] | Some g \<Rightarrow> blockers_text g)))
                        False), w2)
                    else publish_and_close deps auto createPr hitchId runId repoPath base title w2)))"

section \<open>When the merger can be called\<close>

text \<open>
  The gate in the world the merger sees: the tier of the run was 0, the checks of the pinned commit were green,
  after that the hitch was ready to close and the run approved, and the audit row is written.
\<close>

definition ready_to_close :: "close_deps \<Rightarrow> string \<Rightarrow> hitch_db \<Rightarrow> bool" where
  "ready_to_close deps h db \<longleftrightarrow>
     (\<exists>r. evaluate (cd_globs deps) (cd_transcript deps) (cd_drifts deps) h db = (Inr r, db) \<and> r_decision r = D_close_ready)"

definition run_approved :: "world \<Rightarrow> string \<Rightarrow> bool" where
  "run_approved w run \<longleftrightarrow> snd (gatherApproval w run)
     \<or> fst (gatherApproval w run) = Some \<lparr>gc_status = Cs_approved, gc_quorumSatisfied = True\<rparr>"

definition gate_open :: "close_deps \<Rightarrow> auto_merge \<Rightarrow> string \<Rightarrow> string \<Rightarrow> merge_request \<Rightarrow> world \<Rightarrow> bool" where
  "gate_open deps am h run req w \<longleftrightarrow> (\<exists>w1 w2 gate.
     effectiveAutoMergeTier (cd_globs deps) (cd_tiers deps) (ow_db w1) run = Inr 0
     \<and> am_ciStatus am (mr_prNumber req) (mr_expectedHeadSha req) w1 = (Inr True, w2)
     \<and> ready_to_close deps h (ow_db w2) \<and> run_approved w2 run
     \<and> w = snd (startOperation (merge_operation deps h run req True 0 gate) (cd_clock deps 0) w2))"

text \<open>The pull request the merger is asked about is the one just published for the reviewed run.\<close>

definition merge_allowed ::
  "close_deps \<Rightarrow> auto_merge \<Rightarrow> string \<Rightarrow> world \<Rightarrow> merge_request \<Rightarrow> world \<Rightarrow> bool" where
  "merge_allowed deps am h w0 req w \<longleftrightarrow> (\<exists>createPr run base title pr w1.
     \<not> hasAdoptedPr (ow_db w0) h \<and> ready_to_close deps h (ow_db w0) \<and> run_approved w0 run
     \<and> latestRunId (ow_db w0) h = Inr run \<and> cd_createPr deps = Some createPr
     \<and> createPr \<lparr>pq_runId = run, pq_base = base, pq_title = title, pq_draft = False\<rparr> w0 = (Inr pr, w1)
     \<and> mr_prNumber req = pr_number pr \<and> pr_headSha pr = Some (mr_expectedHeadSha req)
     \<and> gate_open deps am h run req w)"

lemma on_db_evaluate:
  "on_store (evaluate mm td drifts h) w = (case evaluate mm td drifts h (ow_db w) of
     (Inl e, _) \<Rightarrow> (Inl (Close_store e), w) | (Inr r, _) \<Rightarrow> (Inr r, w))"
  by (auto simp: on_store_def on_db_def evaluate_run split: option.split)

lemma close_ready_now_run:
  "close_ready_now deps h w = (r, w') \<Longrightarrow> w' = w \<and> (r = Inr True \<longrightarrow> ready_to_close deps h (ow_db w))"
  by (auto simp: close_ready_now_def act_bind_def act_return_def on_db_evaluate ready_to_close_def evaluate_run
      split: option.splits)

lemma current_tier_run:
  "current_tier deps run w = (r, w') \<Longrightarrow>
   w' = w \<and> (\<forall>t. r = Inr t \<longrightarrow> effectiveAutoMergeTier (cd_globs deps) (cd_tiers deps) (ow_db w) run = Inr t)"
  by (auto simp: current_tier_def split: sum.splits)

lemma gate_now_canMerge:
  "gr_canMerge (gate_now run cr ci tier w) \<longleftrightarrow> cr \<and> ci \<and> tier \<and> run_approved w run"
  by (cases "gatherApproval w run")
    (auto simp: gate_now_def run_approved_def evaluateMergeGate_def approval_blockers_def split: option.splits)

lemma gate_now_hardBlocked: "\<not> gr_hardBlocked (gate_now run cr ci tier w) \<Longrightarrow> cr \<and> run_approved w run"
  by (cases "gatherApproval w run")
    (auto simp: gate_now_def run_approved_def evaluateMergeGate_def approval_blockers_def HARD_BLOCKERS_def
      split: option.splits if_splits)

text \<open>Two mergers that agree wherever the gate is open make no difference.\<close>

lemma do_merge_agree:
  assumes "\<And>w'. w' = snd (startOperation (merge_operation deps h run req ci tier gate) (cd_clock deps 0) w) \<Longrightarrow>
      m1 req w' = m2 req w'"
  shows "do_merge deps (am\<lparr>am_merger := m1\<rparr>) h run req ci tier gate w = do_merge deps (am\<lparr>am_merger := m2\<rparr>) h run req ci tier gate w"
  using assms by (auto simp: do_merge_def act_bind_def ledger_def lift_error_def split: prod.splits sum.splits)

lemma decide_merge_agree:
  assumes "\<And>req w'. gate_open deps am h run req w' \<Longrightarrow> mr_prNumber req = n \<Longrightarrow> mr_expectedHeadSha req = sha \<Longrightarrow>
      m1 req w' = m2 req w'"
  shows "decide_merge deps (am\<lparr>am_merger := m1\<rparr>) h run path n sha w = decide_merge deps (am\<lparr>am_merger := m2\<rparr>) h run path n sha w"
proof -
  let ?req = "\<lparr>mr_repoDir = path, mr_prNumber = n, mr_method = or_else (am_method am) Merge_squash, mr_expectedHeadSha = sha\<rparr>"
  have step: "do_merge deps (am\<lparr>am_merger := m1\<rparr>) h run ?req ci tier gate w2
      = do_merge deps (am\<lparr>am_merger := m2\<rparr>) h run ?req ci tier gate w2"
    if tier: "current_tier deps run w = (Inr tier, w1)"
      and ci: "(if tier = 0 then lift_error Close_threw (am_ciStatus am n sha) else act_return True) w1 = (Inr ci, w2)"
      and cr: "close_ready_now deps h w2 = (Inr cr, w3)" and gate: "gate = gate_now run cr ci (tier = 0) w3" "gr_canMerge gate"
    for tier ci cr gate w1 w2 w3
  proof (rule do_merge_agree)
    fix w' assume w': "w' = snd (startOperation (merge_operation deps h run ?req ci tier gate) (cd_clock deps 0) w2)"
    have open_facts: "cr" "ci" "tier = 0" "run_approved w3 run" using gate by (auto simp: gate_now_canMerge)
    note close_ready_now_run [OF cr] current_tier_run [OF tier]
    moreover have "am_ciStatus am n sha w1 = (Inr True, w2)"
      using ci open_facts by (auto simp: lift_error_def split: prod.splits sum.splits)
    ultimately have "gate_open deps am h run ?req w'"
      unfolding gate_open_def using open_facts w' by (intro exI [of _ w1] exI [of _ w2] exI [of _ gate]) auto
    then show "m1 ?req w' = m2 ?req w'" by (rule assms) simp_all
  qed
  show ?thesis
    unfolding decide_merge_def act_bind_def act_get_def
    using step close_ready_now_run by (fastforce split: prod.split sum.split)
qed

lemma ingest_merger [simp]:
  "ingestExternalReviewVerdicts deps (am\<lparr>am_merger := m\<rparr>) h run n w = ingestExternalReviewVerdicts deps am h run n w"
  by (simp add: ingestExternalReviewVerdicts_def split: option.split prod.split)

lemma runAutoMerge_agree:
  assumes "\<And>req w' s. sha = Some s \<Longrightarrow> gate_open deps am h run req w' \<Longrightarrow> mr_prNumber req = n \<Longrightarrow>
      mr_expectedHeadSha req = s \<Longrightarrow> m1 req w' = m2 req w'"
  shows "runAutoMerge deps (am\<lparr>am_merger := m1\<rparr>) h run path n sha w = runAutoMerge deps (am\<lparr>am_merger := m2\<rparr>) h run path n sha w"
proof (cases sha)
  case (Some s)
  have "decide_merge deps (am\<lparr>am_merger := m1\<rparr>) h run path n s w1 = decide_merge deps (am\<lparr>am_merger := m2\<rparr>) h run path n s w1" for w1
    by (rule decide_merge_agree) (rule assms [OF Some])
  then show ?thesis by (simp add: runAutoMerge_def Some split: option.split prod.split sum.split)
qed (simp add: runAutoMerge_def)

lemma close_context_run:
  assumes "close_context deps h w = (Inr (run, path, base, title), w1)"
  shows "w1 = w \<and> \<not> hasAdoptedPr (ow_db w) h \<and> ready_to_close deps h (ow_db w) \<and> latestRunId (ow_db w) h = Inr run"
  using assms
  by (auto simp: close_context_def act_bind_def act_get_def act_throw_def on_db_evaluate on_store_def on_db_def
      requireHitchSession_run ready_to_close_def evaluate_run split: option.splits if_splits sum.splits)

lemma preflight_run:
  assumes "preflight deps h run w = (Inr g, w1)"
  shows "w1 = w \<and> (\<not> gr_hardBlocked g \<longrightarrow> run_approved w run)"
proof -
  obtain cr w2 where cr: "close_ready_now deps h w = (Inr cr, w2)"
    using assms by (auto simp: preflight_def act_bind_def split: prod.splits sum.splits)
  obtain t w3 where t: "current_tier deps run w2 = (Inr t, w3)"
    using assms cr by (auto simp: preflight_def act_bind_def split: prod.splits sum.splits)
  have "w2 = w" "w3 = w" using close_ready_now_run [OF cr] current_tier_run [OF t] by auto
  then have "w1 = w" "g = gate_now run cr True (t = 0) w"
    using assms cr t by (auto simp: preflight_def act_bind_def act_get_def)
  then show ?thesis using gate_now_hardBlocked by blast
qed

lemma closeAndPr_agree:
  assumes "\<And>req w'. merge_allowed deps am h w req w' \<Longrightarrow> m1 req w' = m2 req w'"
  shows "closeAndPr deps (Some (am\<lparr>am_merger := m1\<rparr>)) h w = closeAndPr deps (Some (am\<lparr>am_merger := m2\<rparr>)) h w"
proof -
  have publish: "publish_and_close deps (Some (am\<lparr>am_merger := m1\<rparr>)) createPr h run path base title w
      = publish_and_close deps (Some (am\<lparr>am_merger := m2\<rparr>)) createPr h run path base title w"
    if pr: "cd_createPr deps = Some createPr" and ctx: "close_context deps h w = (Inr (run, path, base, title), w1)"
      and approved: "run_approved w run" for createPr run path base title w1
  proof (cases "createPr \<lparr>pq_runId = run, pq_base = base, pq_title = title, pq_draft = False\<rparr> w")
    case (Pair r w2)
    show ?thesis
    proof (cases r)
      case (Inr p)
      have "runAutoMerge deps (am\<lparr>am_merger := m1\<rparr>) h run path (pr_number p) (pr_headSha p) w3
          = runAutoMerge deps (am\<lparr>am_merger := m2\<rparr>) h run path (pr_number p) (pr_headSha p) w3" for w3
      proof (rule runAutoMerge_agree)
        fix req w' s
        assume "pr_headSha p = Some s" "gate_open deps am h run req w'" "mr_prNumber req = pr_number p"
          "mr_expectedHeadSha req = s"
        then have "merge_allowed deps am h w req w'"
          unfolding merge_allowed_def using close_context_run [OF ctx] approved pr Pair Inr by blast
        then show "m1 req w' = m2 req w'" by (rule assms)
      qed
      then show ?thesis using Pair Inr by (simp add: publish_and_close_def Let_def)
    qed (use Pair in \<open>simp add: publish_and_close_def\<close>)
  qed
  show ?thesis
  proof (cases "cd_createPr deps")
    case (Some createPr)
    show ?thesis
    proof (cases "close_context deps h w")
      case (Pair r w1)
      show ?thesis
      proof (cases r)
        case (Inr x)
        obtain run path base title where x: "x = (run, path, base, title)" by (cases x)
        note ctx = Pair [unfolded Inr x]
        have w1: "w1 = w" using close_context_run [OF ctx] by simp
        show ?thesis
        proof (cases "preflight deps h run w")
          case (Pair g w2)
          show ?thesis
          proof (cases g)
            case (Inl e)
            then show ?thesis using Some ctx w1 Pair by (simp add: closeAndPr_def act_bind_def)
          next
            case (Inr gate)
            note pre = preflight_run [OF Pair [unfolded Inr]]
            show ?thesis
            proof (cases "gr_hardBlocked gate")
              case False
              then show ?thesis
                using Some ctx w1 Pair Inr pre publish [OF Some ctx]
                by (simp add: closeAndPr_def act_bind_def act_return_def)
            qed (use Some ctx w1 Pair Inr in \<open>simp add: closeAndPr_def act_bind_def act_return_def\<close>)
          qed
        qed
      qed (use Some Pair in \<open>simp add: closeAndPr_def\<close>)
    qed
  qed (simp add: closeAndPr_def)
qed

text \<open>
  C20: the merger is called only through the gate, and only for the reviewed commit. Whatever other processes
  do in between, closing behaves the same under any two mergers that agree where merging is allowed: the
  hitch has no adopted pull request and was ready to close and approved before the pull request was opened; the
  request names that pull request and the commit published for the approved run; the run's tier was 0, the
  checks of that commit were green, and then the hitch was ready to close and the run approved again; and
  the audit row of the merge is already written.
\<close>

theorem merge_only_through_gate:
  assumes "\<And>req w'. merge_allowed deps am h w req w' \<Longrightarrow> m1 req w' = m2 req w'"
  shows "closeAndPr deps (Some (am\<lparr>am_merger := m1\<rparr>)) h w = closeAndPr deps (Some (am\<lparr>am_merger := m2\<rparr>)) h w"
  by (rule closeAndPr_agree) (rule assms)

definition ex_merger :: "merge_request \<Rightarrow> (world, runner_error, json) act" where
  "ex_merger req = act_return (JStr (mr_expectedHeadSha req))"

text \<open>A merger that refuses every commit but \<open>abc\<close>.\<close>

definition ex_picky :: "merge_request \<Rightarrow> (world, runner_error, json) act" where
  "ex_picky req = (if mr_expectedHeadSha req = ''abc'' then ex_merger req
     else act_throw \<lparr>re_thrown = T_primitive, re_message = ''refused''\<rparr>)"

definition ex_auto :: auto_merge where
  "ex_auto = \<lparr>am_merger = ex_merger, am_ciStatus = (\<lambda>_ _. act_return True), am_method = None,
     am_reviewVerdicts = None, am_reviewAwait = None\<rparr>"

definition ex_create :: "pr_request \<Rightarrow> (world, push_error, created_pr) act" where
  "ex_create q = act_return \<lparr>pr_url = ''u'', pr_number = 7, pr_draft = pq_draft q, pr_headSha = Some ''abc''\<rparr>"

definition ex_deps :: close_deps where
  "ex_deps = \<lparr>cd_createdBy = ''op'', cd_createPr = Some ex_create, cd_copilot = None,
     cd_resolveRunContext = Some (\<lambda>_. (''/repo'', ''main'')), cd_repoPath = None, cd_baseBranch = None, cd_tiers = File_absent,
     cd_globs = (\<lambda>_ g. g = ''docs/**''), cd_transcript = (\<lambda>_. RD_none), cd_drifts = [], cd_tok = ex_tok, cd_sha = (\<lambda>s. s),
     cd_json_sha = (\<lambda>_. []), cd_dates = (\<lambda>_. NaN), cd_heap = (\<lambda>_. \<lparr>eo_class = Other_class, eo_cause = T_primitive\<rparr>),
     cd_clock = (\<lambda>_. ''t9''), cd_nowMs = 0, cd_id = (\<lambda>i. ''id'' @ js_nat i)\<rparr>"

definition ex_approved :: world where
  "ex_approved = (ex_world ((ex_ready_db ''t7'')\<lparr>db_changedFiles := [\<lparr>rf_runId = ''r1'', rf_path = ''docs/a.md'',
       rf_allowed = True, rf_ignored = False\<rparr>]\<rparr>))\<lparr>rd_overrides := [\<lparr>vr_overrideId = 1, vr_runId = ''r1'',
       vr_consensusId = None, vr_actorReviewerId = ''ann'', vr_decision = Ov_approved, vr_reason = ''ok'',
       vr_createdAt = ''t8'', vr_sourceSha256 = None\<rparr>]\<rparr>"

lemma ex_gate:
  "close_ready_now ex_deps ''h1'' ex_approved = (Inr True, ex_approved)"
  "current_tier ex_deps ''r1'' ex_approved = (Inr 0, ex_approved)"
  "close_context ex_deps ''h1'' ex_approved = (Inr (''r1'', ''/repo'', ''main'', ''fix: t (r1)''), ex_approved)"
  "run_approved ex_approved ''r1''"
proof -
  have "fst (close_ready_now ex_deps ''h1'' ex_approved) = Inr True" "fst (current_tier ex_deps ''r1'' ex_approved) = Inr 0"
    by code_simp+
  then show ready: "close_ready_now ex_deps ''h1'' ex_approved = (Inr True, ex_approved)"
    and "current_tier ex_deps ''r1'' ex_approved = (Inr 0, ex_approved)"
    using close_ready_now_run [of ex_deps "''h1''" ex_approved] current_tier_run [of ex_deps "''r1''" ex_approved]
    by (metis prod.collapse)+
  have "latestRunId (ow_db ex_approved) ''h1'' = Inr ''r1''" "\<not> hasAdoptedPr (ow_db ex_approved) ''h1''"
    "conventionalPrTitle ''t'' ''r1'' None = ''fix: t (r1)''" "getHitchSession (ow_db ex_approved) ''h1'' = Some ex_ready"
    "s_title ex_ready = ''t''" "resolveRunContext ex_deps ex_ready = Inr (''/repo'', ''main'')" by code_simp+
  moreover obtain r where "evaluate (cd_globs ex_deps) (cd_transcript ex_deps) (cd_drifts ex_deps) ''h1'' (ow_db ex_approved)
      = (Inr r, ow_db ex_approved)" "r_decision r = D_close_ready"
    using close_ready_now_run [OF ready] by (auto simp: ready_to_close_def)
  ultimately show "close_context ex_deps ''h1'' ex_approved = (Inr (''r1'', ''/repo'', ''main'', ''fix: t (r1)''), ex_approved)"
    by (simp add: close_context_def act_bind_def act_get_def on_db_evaluate on_store_def on_db_def requireHitchSession_run)
  show "run_approved ex_approved ''r1''" by code_simp
qed

lemma ex_merged:
  "\<exists>w'. closeAndPr ex_deps (Some ex_auto) ''h1'' ex_approved = Some (Inr (close_result ''u'' False True None False), w')
    \<and> map s_status (db_sessions (ow_db w')) = [S_closed] \<and> map op_status (od_operations w') = [Op_succeeded]"
proof -
  let ?req = "\<lparr>mr_repoDir = ''/repo'', mr_prNumber = 7, mr_method = Merge_squash, mr_expectedHeadSha = ''abc''\<rparr>"
  let ?gate = "gate_now ''r1'' True True True ex_approved"
  have gate: "gr_canMerge ?gate" "\<not> gr_hardBlocked ?gate"
    using ex_gate(4) gate_now_canMerge [of "''r1''" True True True ex_approved]
    by (auto simp: gate_now_def evaluateMergeGate_def Let_def split: prod.splits)
  let ?pr = "\<lparr>pr_url = ''u'', pr_number = 7, pr_draft = False, pr_headSha = Some ''abc''\<rparr>"
  have run: "closeAndPr ex_deps (Some ex_auto) ''h1'' ex_approved =
      (case do_merge ex_deps ex_auto ''h1'' ''r1'' ?req True 0 ?gate ex_approved of
         (Inl e, w3) \<Rightarrow> Some (Inl e, w3)
       | (Inr outcome, w3) \<Rightarrow> Some (after_merge ex_deps ''h1'' ?pr outcome w3))"
    using gate
    by (simp add: closeAndPr_def ex_gate preflight_def publish_and_close_def runAutoMerge_def
        ingestExternalReviewVerdicts_def decide_merge_def copilot_review_def act_bind_def act_return_def act_get_def
        lift_error_def ex_create_def ex_auto_def ex_deps_def [THEN arg_cong, of cd_createPr]
        ex_deps_def [THEN arg_cong, of cd_copilot] split: prod.split sum.split)
  have "case do_merge ex_deps ex_auto ''h1'' ''r1'' ?req True 0 ?gate ex_approved of
      (Inr outcome, w3) \<Rightarrow> outcome = merged_outcome \<and> (case after_merge ex_deps ''h1'' ?pr merged_outcome w3 of
         (Inr r, w') \<Rightarrow> r = close_result ''u'' False True None False
           \<and> map s_status (db_sessions (ow_db w')) = [S_closed] \<and> map op_status (od_operations w') = [Op_succeeded]
       | _ \<Rightarrow> False)
    | _ \<Rightarrow> False"
    by code_simp
  then show ?thesis unfolding run by (auto split: prod.splits sum.splits)
qed

theorem merge_only_through_gate_witness:
  "closeAndPr ex_deps (Some (ex_auto\<lparr>am_merger := ex_picky\<rparr>)) ''h1'' ex_approved
     = closeAndPr ex_deps (Some (ex_auto\<lparr>am_merger := ex_merger\<rparr>)) ''h1'' ex_approved
   \<and> (\<exists>w'. closeAndPr ex_deps (Some (ex_auto\<lparr>am_merger := ex_merger\<rparr>)) ''h1'' ex_approved
        = Some (Inr (close_result ''u'' False True None False), w')
      \<and> map s_status (db_sessions (ow_db w')) = [S_closed] \<and> map op_status (od_operations w') = [Op_succeeded])"
proof
  have "mr_expectedHeadSha req = ''abc''" if "merge_allowed ex_deps ex_auto ''h1'' ex_approved req w'" for req w'
    using that by (auto simp: merge_allowed_def ex_deps_def ex_create_def act_return_def)
  then have "ex_picky req w' = ex_merger req w'" if "merge_allowed ex_deps ex_auto ''h1'' ex_approved req w'" for req w'
    using that by (simp add: ex_picky_def)
  then show "closeAndPr ex_deps (Some (ex_auto\<lparr>am_merger := ex_picky\<rparr>)) ''h1'' ex_approved
     = closeAndPr ex_deps (Some (ex_auto\<lparr>am_merger := ex_merger\<rparr>)) ''h1'' ex_approved"
    by (rule merge_only_through_gate)
  have "ex_auto\<lparr>am_merger := ex_merger\<rparr> = ex_auto" by (simp add: ex_auto_def)
  then show "\<exists>w'. closeAndPr ex_deps (Some (ex_auto\<lparr>am_merger := ex_merger\<rparr>)) ''h1'' ex_approved
        = Some (Inr (close_result ''u'' False True None False), w')
      \<and> map s_status (db_sessions (ow_db w')) = [S_closed] \<and> map op_status (od_operations w') = [Op_succeeded]"
    using ex_merged by simp
qed

section \<open>What a close reports is true\<close>

definition hitch_has :: "hitch_db \<Rightarrow> string \<Rightarrow> hitch_status \<Rightarrow> bool" where
  "hitch_has db h st \<longleftrightarrow> (\<exists>s. getHitchSession db h = Some s \<and> s_status s = st)"

lemma status_stored: "on_store (updateStatus h st note by t eid) w = (Inr x, w') \<Longrightarrow> hitch_has (ow_db w') h st"
  by (auto simp: on_store_def on_db_def updateStatus_run status_row_def hitch_has_def
      split: option.splits prod.splits if_splits)

lemma finish_close_ok: "finish_close deps h st summary r w = (Inr r', w') \<Longrightarrow> r' = r \<and> hitch_has (ow_db w') h st"
  by (auto simp: finish_close_def act_bind_Inr act_return_def dest: status_stored)

lemma do_merge_ok:
  assumes "do_merge deps am h run req ci tier gate w = (Inr out, w')"
  shows "out = merged_outcome \<and> (\<exists>w1 w2 answer. w1 = snd (startOperation (merge_operation deps h run req ci tier gate) (cd_clock deps 0) w)
    \<and> am_merger am req w1 = (Inr answer, w2))"
proof -
  obtain w1 x where start: "ledger (startOperation (merge_operation deps h run req ci tier gate) (cd_clock deps 0)) w = (Inr x, w1)"
    and rest: "(case am_merger am req w1 of
         (Inr answer, w2) \<Rightarrow> act_bind (ledger (succeedOperation (cd_id deps 0) answer (cd_clock deps 1))) (\<lambda>_. act_return merged_outcome) w2
       | (Inl e, w2) \<Rightarrow> act_bind (ledger (failOperation (cd_id deps 0) ''merge_failed'' (re_message e) (cd_clock deps 1)))
             (\<lambda>_. act_throw (Close_threw e)) w2) = (Inr out, w')"
    using assms unfolding do_merge_def act_bind_Inr by blast
  have "w1 = snd (startOperation (merge_operation deps h run req ci tier gate) (cd_clock deps 0) w)"
    using start by (auto simp: ledger_def lift_error_def split: prod.splits sum.splits)
  then show ?thesis
    using rest by (auto simp: act_bind_Inr act_return_def act_throw_def split: prod.splits sum.splits)
qed

lemma decide_merge_ok:
  assumes "decide_merge deps am h run path n sha w = (Inr out, w')" "ao_merged out"
  shows "ao_escalateReason out = None \<and> (\<exists>req w1 w2 answer. gate_open deps am h run req w1 \<and> mr_prNumber req = n
    \<and> mr_expectedHeadSha req = sha \<and> am_merger am req w1 = (Inr answer, w2))"
proof -
  let ?req = "\<lparr>mr_repoDir = path, mr_prNumber = n, mr_method = or_else (am_method am) Merge_squash, mr_expectedHeadSha = sha\<rparr>"
  obtain tier w1 ci w2 cr w3 where tier: "current_tier deps run w = (Inr tier, w1)"
    and ci: "(if tier = 0 then lift_error Close_threw (am_ciStatus am n sha) else act_return True) w1 = (Inr ci, w2)"
    and cr: "close_ready_now deps h w2 = (Inr cr, w3)"
    and rest: "(if gr_canMerge (gate_now run cr ci (tier = 0) w3)
        then do_merge deps am h run ?req ci tier (gate_now run cr ci (tier = 0) w3)
        else if gr_hardBlocked (gate_now run cr ci (tier = 0) w3)
        then act_return \<lparr>ao_merged = False, ao_escalateReason = Some (''auto-merge gate hard-blocked: ''
           @ blockers_text (gate_now run cr ci (tier = 0) w3)), ao_recheckable = False\<rparr>
        else act_return \<lparr>ao_merged = False, ao_escalateReason = None,
           ao_recheckable = (Ci_not_green \<in> set (gr_blockers (gate_now run cr ci (tier = 0) w3)))\<rparr>) w3 = (Inr out, w')"
    using assms(1) unfolding decide_merge_def act_bind_Inr act_get_def by auto
  let ?gate = "gate_now run cr ci (tier = 0) w3"
  have can: "gr_canMerge ?gate" and merge: "do_merge deps am h run ?req ci tier ?gate w3 = (Inr out, w')"
    using rest assms(2) by (auto simp: act_return_def split: if_splits)
  have facts: "cr" "ci" "tier = 0" "run_approved w3 run" using can by (auto simp: gate_now_canMerge)
  note eqs = close_ready_now_run [OF cr] current_tier_run [OF tier]
  have "am_ciStatus am n sha w1 = (Inr True, w2)"
    using ci facts by (auto simp: lift_error_def split: prod.splits sum.splits)
  then have "gate_open deps am h run ?req (snd (startOperation (merge_operation deps h run ?req ci tier ?gate) (cd_clock deps 0) w3))"
    unfolding gate_open_def using facts eqs by (intro exI [of _ w1] exI [of _ w2] exI [of _ ?gate]) auto
  then show ?thesis using do_merge_ok [OF merge]
    by (auto simp: merged_outcome_def intro!: exI [of _ ?req])
qed

text \<open>Where a result without a reason to escalate comes from.\<close>

lemma push_failed_ok:
  assumes "push_failed deps h run e w = (Inr r, w')"
  shows "\<not> cp_merged r \<and> (cp_escalateReason r = None \<longrightarrow> cp_pushRetryPending r \<and> hitch_has (ow_db w') h S_close_ready)"
proof -
  obtain d w1 where "(case d of
         Rethrow \<Rightarrow> (Inl (Close_push e), w1)
       | Escalate reason \<Rightarrow> if ow_aborted w1 then (Inl (Close_push e), w1)
           else (Inr (close_result [] False False (Some reason) False), w1)
       | Recheck summary \<Rightarrow> if ow_aborted w1 then (Inl (Close_push e), w1)
           else act_bind (on_store (updateStatus h S_close_ready (Some summary) (cd_createdBy deps) (cd_clock deps 3)
               (cd_id deps 3))) (\<lambda>_. act_return (close_result [] False False None True)) w1) = (Inr r, w')"
    using assms unfolding push_failed_def act_bind_Inr by blast
  then show ?thesis
    by (cases d)
      (auto simp: act_bind_Inr act_return_def close_result_def split: if_splits dest: status_stored)
qed

lemma after_merge_ok:
  assumes "after_merge deps h pr out w = (Inr r, w')"
  shows "cp_escalateReason r = None \<longrightarrow> cp_prUrl r = pr_url pr \<and> \<not> cp_pushRetryPending r \<and> cp_merged r = ao_merged out
    \<and> hitch_has (ow_db w') h (if \<not> ao_merged out \<and> ao_recheckable out then S_close_ready else S_closed)"
    "cp_escalateReason r \<noteq> None \<longrightarrow> \<not> cp_merged r"
  using assms
  by (auto simp: after_merge_def close_result_def act_return_def split: option.splits if_splits dest!: finish_close_ok)

definition close_true :: "close_deps \<Rightarrow> auto_merge option \<Rightarrow> string \<Rightarrow> world \<Rightarrow> close_pr_result \<Rightarrow> world \<Rightarrow> bool" where
  "close_true deps auto h w r w' \<longleftrightarrow>
     (case cp_escalateReason r of
        Some _ \<Rightarrow> \<not> cp_merged r
      | None \<Rightarrow>
          if cp_pushRetryPending r then \<not> cp_merged r \<and> hitch_has (ow_db w') h S_close_ready
          else (\<exists>createPr q pr w1. cd_createPr deps = Some createPr \<and> createPr q w = (Inr pr, w1)
                 \<and> latestRunId (ow_db w) h = Inr (pq_runId q) \<and> cp_prUrl r = pr_url pr)
             \<and> (hitch_has (ow_db w') h S_closed \<or> \<not> cp_merged r \<and> hitch_has (ow_db w') h S_close_ready)
             \<and> (if cp_merged r then (\<exists>am req w1 w2 answer. auto = Some am \<and> merge_allowed deps am h w req w1
                  \<and> am_merger am req w1 = (Inr answer, w2)) else True))"

lemma closeAndPr_ok:
  assumes "closeAndPr deps auto h w = Some (Inr r, w')"
  obtains (blocked) reason where "cp_escalateReason r = Some reason" "\<not> cp_merged r"
  | (published) createPr run path base title where "cd_createPr deps = Some createPr"
      "close_context deps h w = (Inr (run, path, base, title), w)" "auto \<noteq> None \<longrightarrow> run_approved w run"
      "publish_and_close deps auto createPr h run path base title w = Some (Inr r, w')"
proof -
  obtain createPr where pr: "cd_createPr deps = Some createPr"
    using assms by (auto simp: closeAndPr_def split: option.splits)
  obtain run path base title where ctx: "close_context deps h w = (Inr (run, path, base, title), w)"
  proof (cases "close_context deps h w")
    case (Pair x w1)
    then obtain run path base title where "x = Inr (run, path, base, title)"
      using assms pr by (cases x) (auto simp: closeAndPr_def)
    then show thesis using that Pair close_context_run [of deps h w] by metis
  qed
  show thesis
  proof (cases auto)
    case None
    then show thesis using assms pr ctx published by (simp add: closeAndPr_def)
  next
    case (Some am)
    show thesis
    proof (cases "preflight deps h run w")
      case (Pair g w2)
      then obtain gate where g: "g = Inr gate"
        using assms pr ctx Some by (cases g) (auto simp: closeAndPr_def act_bind_def)
      note pre = preflight_run [OF Pair [unfolded g]]
      show thesis
      proof (cases "gr_hardBlocked gate")
        case True
        then have "cp_escalateReason r = Some (''auto-merge preflight hard-blocked: '' @ blockers_text gate)" "\<not> cp_merged r"
          using assms pr ctx Some Pair g by (auto simp: closeAndPr_def act_bind_def act_return_def close_result_def)
        then show thesis by (rule blocked)
      next
        case False
        then have "publish_and_close deps auto createPr h run path base title w = Some (Inr r, w')"
          using assms pr ctx Some Pair g pre by (simp add: closeAndPr_def act_bind_def act_return_def)
        then show thesis using published pr ctx pre False by blast
      qed
    qed
  qed
qed

lemma publish_ok:
  assumes pr: "cd_createPr deps = Some createPr" and ctx: "close_context deps h w = (Inr (run, path, base, title), w)"
    and approved: "auto \<noteq> None \<longrightarrow> run_approved w run"
    and run: "publish_and_close deps auto createPr h run path base title w = Some (Inr r, w')"
  shows "close_true deps auto h w r w'"
proof -
  let ?q = "\<lparr>pq_runId = run, pq_base = base, pq_title = title, pq_draft = Option.is_none auto\<rparr>"
  note facts = close_context_run [OF ctx]
  show ?thesis
  proof (cases "createPr ?q w")
    case (Pair x w1)
    show ?thesis
    proof (cases x)
      case (Inl e)
      then have "push_failed deps h run e w1 = (Inr r, w')" using run Pair by (simp add: publish_and_close_def)
      from push_failed_ok [OF this] show ?thesis by (auto simp: close_true_def split: option.split)
    next
      case (Inr p)
      let ?w2 = "copilot_review deps h (pr_number p) w1"
      have made: "\<exists>createPr q pr w1. cd_createPr deps = Some createPr \<and> createPr q w = (Inr pr, w1)
          \<and> latestRunId (ow_db w) h = Inr (pq_runId q) \<and> pr_url p = pr_url pr"
        using pr Pair Inr facts by (intro exI [of _ createPr] exI [of _ ?q] exI [of _ p]) auto
      show ?thesis
      proof (cases auto)
        case None
        then have "finish_close deps h S_closed ''hitch converged; PR opened''
            (close_result (pr_url p) (pr_draft p) False None False) ?w2 = (Inr r, w')"
          using run Pair Inr by (simp add: publish_and_close_def Let_def)
        from finish_close_ok [OF this] made show ?thesis by (auto simp: close_true_def close_result_def)
      next
        case (Some am)
        obtain out w3 where auto: "runAutoMerge deps am h run path (pr_number p) (pr_headSha p) ?w2 = Some (Inr out, w3)"
          and after: "after_merge deps h p out w3 = (Inr r, w')"
          using run Pair Inr Some by (auto simp: publish_and_close_def Let_def split: option.splits prod.splits sum.splits)
        have allowed: "\<exists>req w1 w2 answer. merge_allowed deps am h w req w1 \<and> am_merger am req w1 = (Inr answer, w2)"
          if merged: "ao_merged out"
        proof -
          obtain sha w4 where sha: "pr_headSha p = Some sha"
            and decided: "decide_merge deps am h run path (pr_number p) sha w4 = (Inr out, w3)"
            using auto merged by (auto simp: runAutoMerge_def split: option.splits prod.splits sum.splits)
          from decide_merge_ok [OF decided merged] obtain req w5 w6 answer where
            req: "gate_open deps am h run req w5" "mr_prNumber req = pr_number p" "mr_expectedHeadSha req = sha"
              "am_merger am req w5 = (Inr answer, w6)" by blast
          then have "merge_allowed deps am h w req w5"
            unfolding merge_allowed_def using facts approved Some pr sha Pair Inr by auto
          with req(4) show ?thesis by blast
        qed
        show ?thesis
          using after_merge_ok [OF after] made allowed Some
          by (cases "cp_escalateReason r") (auto simp: close_true_def split: if_splits)
      qed
    qed
  qed
qed

text \<open>
  C28: what closing reports is true. A result without a reason to escalate means that the pull request it names
  was published for the run of the latest coding attempt and that the hitch is closed, or left ready to close
  when only the checks are missing; a reported merge means that the merger answered an allowed request; and
  a failed push never closes the hitch.
\<close>

theorem close_reports_truth:
  "closeAndPr deps auto h w = Some (Inr r, w') \<Longrightarrow> close_true deps auto h w r w'"
proof (erule closeAndPr_ok)
  fix reason assume "cp_escalateReason r = Some reason" "\<not> cp_merged r"
  then show ?thesis by (simp add: close_true_def)
qed (rule publish_ok)

theorem close_reports_truth_witness:
  "\<exists>w'. close_true ex_deps (Some ex_auto) ''h1'' ex_approved (close_result ''u'' False True None False) w'"
  using ex_merged close_reports_truth [of ex_deps "Some ex_auto" "''h1''" ex_approved] by blast

end
