(* ===== verification/Await_Merge.thy ===== *)
theory Await_Merge
  imports Orchestrator Js_Values
begin

text \<open>
  The loop that polls a hitch until its pull request is merged (\<open>hitch/await-merge.ts\<close>). The poll, the sleep
  and the clock are arguments on an arbitrary world. The loop has no bound of its own, so it is a partial
  function: \<open>None\<close> is a loop that never returns. The main lemma is that it does return, within a number of polls
  given by the budget, on any clock that does not run backwards and moves on during a sleep.
\<close>

section \<open>One step\<close>

datatype await_step = Aw_merged "string option" | Aw_awaiting "string option" | Aw_escalated "string option"
  | Aw_push_retry_pending | Aw_not_awaiting string

datatype await_outcome = Ao_merged nat "string option" | Ao_escalated nat "string option" | Ao_timeout nat
  | Ao_push_retry_pending nat | Ao_not_awaiting nat string

record close_step_result =
  sr_prUrl :: "string option"
  sr_merged :: bool
  sr_escalateReason :: "string option"
  sr_pushRetryPending :: bool

definition awaitStepFromCloseResult :: "close_step_result \<Rightarrow> await_step" where
  "awaitStepFromCloseResult r =
     (case sr_escalateReason r of
        Some reason \<Rightarrow> Aw_escalated (Some reason)
      | None \<Rightarrow> if sr_merged r then Aw_merged (sr_prUrl r)
               else if sr_pushRetryPending r then Aw_push_retry_pending
               else Aw_awaiting (sr_prUrl r))"

section \<open>The loop\<close>

text \<open>
  The clock reads integer milliseconds, as \<open>Date.now\<close> does. A poll may throw \<open>'e\<close>.
\<close>

record ('w, 'e) await_deps =
  ad_pollOnce :: "js_number \<Rightarrow> 'w \<Rightarrow> ('e + await_step) \<times> 'w"
  ad_sleep :: "js_number \<Rightarrow> 'w \<Rightarrow> 'w"
  ad_now :: "'w \<Rightarrow> int \<times> 'w"

record await_opts =
  ao_pollIntervalMs :: js_number
  ao_maxWaitMs :: js_number

datatype 'e await_error = Bad_poll_interval | Bad_max_wait | Poll_threw 'e

text \<open>One turn of the loop: the result it returns, or the world in which the next turn starts.\<close>

definition await_turn ::
  "('w, 'e) await_deps \<Rightarrow> await_opts \<Rightarrow> int \<Rightarrow> nat \<Rightarrow> 'w \<Rightarrow> (('e await_error + await_outcome) \<times> 'w) + 'w" where
  "await_turn deps opts start polls w =
     (let (t1, w1) = ad_now deps w;
          remaining = num_sub (ao_maxWaitMs opts) (Fin (of_int (t1 - start)))
      in if polls > 0 \<and> num_le remaining (Fin 0) then Inl (Inr (Ao_timeout polls), w1)
         else (let (r, w2) = ad_pollOnce deps (num_max (Fin 0) remaining) w1
           in case r of
                Inl e \<Rightarrow> Inl (Inl (Poll_threw e), w2)
              | Inr (Aw_merged url) \<Rightarrow> Inl (Inr (Ao_merged (Suc polls) url), w2)
              | Inr (Aw_escalated reason) \<Rightarrow> Inl (Inr (Ao_escalated (Suc polls) reason), w2)
              | Inr (Aw_not_awaiting d) \<Rightarrow> Inl (Inr (Ao_not_awaiting (Suc polls) d), w2)
              | Inr Aw_push_retry_pending \<Rightarrow> Inl (Inr (Ao_push_retry_pending (Suc polls)), w2)
              | Inr (Aw_awaiting _) \<Rightarrow>
                  (let (t2, w3) = ad_now deps w2; elapsed = Fin (of_int (t2 - start))
                   in if num_le (ao_maxWaitMs opts) elapsed then Inl (Inr (Ao_timeout (Suc polls)), w3)
                      else Inr (ad_sleep deps (num_min (ao_pollIntervalMs opts) (num_sub (ao_maxWaitMs opts) elapsed)) w3))))"

lemma case_sum_mono [partial_function_mono]:
  "(\<And>y. mono_option (\<lambda>f. g y f)) \<Longrightarrow> (\<And>y. mono_option (\<lambda>f. h y f)) \<Longrightarrow>
   mono_option (\<lambda>f. case x of Inl y \<Rightarrow> g y f | Inr y \<Rightarrow> h y f)"
  by (cases x) auto

partial_function (option) await_loop ::
  "('w, 'e) await_deps \<Rightarrow> await_opts \<Rightarrow> int \<Rightarrow> nat \<Rightarrow> 'w \<Rightarrow> (('e await_error + await_outcome) \<times> 'w) option" where
  "await_loop deps opts start polls w =
     (case await_turn deps opts start polls w of
        Inl result1 \<Rightarrow> Some result1
      | Inr w' \<Rightarrow> await_loop deps opts start (Suc polls) w')"

declare await_loop.simps [code]

definition awaitHitchMerge ::
  "('w, 'e) await_deps \<Rightarrow> await_opts \<Rightarrow> 'w \<Rightarrow> (('e await_error + await_outcome) \<times> 'w) option" where
  "awaitHitchMerge deps opts w =
     (if \<not> num_less (Fin 0) (ao_pollIntervalMs opts) then Some (Inl Bad_poll_interval, w)
      else if \<not> num_le (Fin 0) (ao_maxWaitMs opts) then Some (Inl Bad_max_wait, w)
      else let (start, w1) = ad_now deps w in await_loop deps opts start 0 w1)"

definition polls_of :: "await_outcome \<Rightarrow> nat" where
  "polls_of o1 = (case o1 of Ao_merged n _ \<Rightarrow> n | Ao_escalated n _ \<Rightarrow> n | Ao_timeout n \<Rightarrow> n
     | Ao_push_retry_pending n \<Rightarrow> n | Ao_not_awaiting n _ \<Rightarrow> n)"

section \<open>Waiting ends\<close>

text \<open>
  A clock that a world \<open>time\<close> accounts for: readings do not run backwards, nothing turns the time back, and a
  sleep takes at least a millisecond (the least delay of \<open>setTimeout\<close>).
\<close>

definition clock_ok :: "('w, 'e) await_deps \<Rightarrow> ('w \<Rightarrow> int) \<Rightarrow> bool" where
  "clock_ok deps time \<longleftrightarrow>
     (\<forall>w. time w \<le> fst (ad_now deps w) \<and> fst (ad_now deps w) \<le> time (snd (ad_now deps w)))
     \<and> (\<forall>ms w. time w \<le> time (snd (ad_pollOnce deps ms w)))
     \<and> (\<forall>ms w. time w + 1 \<le> time (ad_sleep deps ms w))"

lemma turn_final:
  "await_turn deps opts start polls w = Inl (r, w') \<Longrightarrow> (case r of Inr o1 \<Rightarrow> polls_of o1 \<le> Suc polls | Inl e \<Rightarrow> \<exists>x. e = Poll_threw x)"
  by (auto simp: await_turn_def Let_def polls_of_def split: prod.splits sum.splits if_splits await_step.splits)

lemma turn_goes_on:
  assumes "clock_ok deps time" "ao_maxWaitMs opts = Fin m" "await_turn deps opts start polls w = Inr w'"
  shows "time w - start < \<lceil>m\<rceil> \<and> time w + 1 \<le> time w'"
proof -
  obtain t1 w1 where now1: "ad_now deps w = (t1, w1)" by (cases "ad_now deps w")
  obtain r w2 where poll: "ad_pollOnce deps (num_max (Fin 0) (num_sub (ao_maxWaitMs opts) (Fin (of_int (t1 - start))))) w1 = (r, w2)"
    by (meson surj_pair)
  obtain t2 w3 where now2: "ad_now deps w2 = (t2, w3)" by (cases "ad_now deps w2")
  from assms(3) obtain ms where w': "w' = ad_sleep deps ms w3" and on: "\<not> num_le (Fin m) (Fin (of_int (t2 - start)))"
    unfolding await_turn_def Let_def now1 prod.case poll now2
    by (auto simp: assms(2) now2 split: sum.splits if_splits await_step.splits prod.splits)
  have times: "time w \<le> t1" "t1 \<le> time w1" "time w1 \<le> time w2" "time w2 \<le> t2" "t2 \<le> time w3" "time w3 + 1 \<le> time w'"
    using assms(1) now1 now2 poll w' unfolding clock_ok_def by (metis fst_conv snd_conv)+
  have "of_int (t2 - start) < m" using on by simp
  then have "t2 - start < \<lceil>m\<rceil>" by (simp add: less_ceiling_iff)
  with times show ?thesis by linarith
qed

lemma await_loop_returns:
  assumes "clock_ok deps time" "ao_maxWaitMs opts = Fin m"
  shows "\<lceil>m\<rceil> - (time w - start) \<le> int k \<Longrightarrow>
    \<exists>r w'. await_loop deps opts start polls w = Some (r, w')
      \<and> (case r of Inr o1 \<Rightarrow> polls_of o1 \<le> Suc (polls + k) | Inl e \<Rightarrow> \<exists>x. e = Poll_threw x)"
proof (induction k arbitrary: polls w)
  case 0
  show ?case
  proof (cases "await_turn deps opts start polls w")
    case (Inl x)
    then have "await_loop deps opts start polls w = Some x" by (simp add: await_loop.simps)
    then show ?thesis using turn_final [of deps opts start polls w "fst x" "snd x"] Inl by (cases x) (auto split: sum.splits)
  next
    case (Inr w')
    then show ?thesis using turn_goes_on [OF assms Inr] 0 by simp
  qed
next
  case (Suc k)
  show ?case
  proof (cases "await_turn deps opts start polls w")
    case (Inl x)
    then have "await_loop deps opts start polls w = Some x" by (simp add: await_loop.simps)
    then show ?thesis using turn_final [of deps opts start polls w "fst x" "snd x"] Inl by (cases x) (auto split: sum.splits)
  next
    case (Inr w')
    have "\<lceil>m\<rceil> - (time w' - start) \<le> int k" using turn_goes_on [OF assms Inr] Suc.prems by linarith
    from Suc.IH [OF this, of "Suc polls"] show ?thesis
      using Inr unfolding add_Suc add_Suc_right by (subst await_loop.simps) simp
  qed
qed

text \<open>
  C36: waiting for the merge ends. With a positive poll interval and a finite budget, on every clock that does
  not run backwards and moves on by at least a millisecond during a sleep, the loop returns, whatever the
  polls answer or throw, and after at most one poll per millisecond of the budget and one more.
\<close>

theorem await_merge_returns:
  assumes "clock_ok deps time" "num_less (Fin 0) (ao_pollIntervalMs opts)" "ao_maxWaitMs opts = Fin m" "0 \<le> m"
  shows "\<exists>r w'. awaitHitchMerge deps opts w = Some (r, w')
    \<and> (case r of Inr o1 \<Rightarrow> int (polls_of o1) \<le> \<lceil>m\<rceil> + 1 | Inl e \<Rightarrow> \<exists>x. e = Poll_threw x)"
proof -
  obtain start w1 where now: "ad_now deps w = (start, w1)" by (cases "ad_now deps w")
  have "start \<le> time w1" using assms(1) now unfolding clock_ok_def by (metis fst_conv snd_conv)
  moreover have "0 \<le> \<lceil>m\<rceil>" using assms(4) by (simp add: zero_le_ceiling) 
  ultimately have "\<lceil>m\<rceil> - (time w1 - start) \<le> int (nat \<lceil>m\<rceil>)" by simp
  from await_loop_returns [OF assms(1,3) this, of 0] obtain r w' where
    run: "await_loop deps opts start 0 w1 = Some (r, w')"
      "case r of Inr o1 \<Rightarrow> polls_of o1 \<le> Suc (0 + nat \<lceil>m\<rceil>) | Inl e \<Rightarrow> \<exists>x. e = Poll_threw x" by blast
  have "awaitHitchMerge deps opts w = Some (r, w')"
    using assms(2-4) now run(1) by (simp add: awaitHitchMerge_def)
  moreover have "case r of Inr o1 \<Rightarrow> int (polls_of o1) \<le> \<lceil>m\<rceil> + 1 | Inl e \<Rightarrow> \<exists>x. e = Poll_threw x"
    using run(2) \<open>0 \<le> \<lceil>m\<rceil>\<close> by (cases r) (simp_all, linarith)
  ultimately show ?thesis by blast
qed

text \<open>A clock that counts milliseconds, on which no poll ever sees the merge.\<close>

definition ex_deps :: "(int, unit) await_deps" where
  "ex_deps = \<lparr>ad_pollOnce = \<lambda>_ w. (Inr (Aw_awaiting None), w + 4), ad_sleep = \<lambda>_ w. w + 10, ad_now = \<lambda>w. (w, w)\<rparr>"

definition ex_await :: await_opts where
  "ex_await = \<lparr>ao_pollIntervalMs = Fin 10, ao_maxWaitMs = Fin 30\<rparr>"

theorem await_merge_returns_witness:
  "clock_ok ex_deps (\<lambda>w. w)
   \<and> awaitHitchMerge ex_deps ex_await 100 = Some (Inr (Ao_timeout 3), 132)
   \<and> (\<exists>r w'. awaitHitchMerge ex_deps ex_await 100 = Some (r, w')
        \<and> (case r of Inr o1 \<Rightarrow> int (polls_of o1) \<le> \<lceil>30 :: rat\<rceil> + 1 | Inl e \<Rightarrow> \<exists>x. e = Poll_threw x))"
proof -
  have clock: "clock_ok ex_deps (\<lambda>w. w)" by (simp add: clock_ok_def ex_deps_def)
  have opts: "num_less (Fin 0) (ao_pollIntervalMs ex_await)" "ao_maxWaitMs ex_await = Fin 30" by (simp_all add: ex_await_def)
  have "awaitHitchMerge ex_deps ex_await 100 = Some (Inr (Ao_timeout 3), 132)" by code_simp
  then show ?thesis using await_merge_returns [OF clock opts, of 100] clock by simp
qed

end
