(* ===== verification/Path_Policy.thy ===== *)
theory Path_Policy
  imports Facet_Coverage Js_Values Text_Match
begin

text \<open>
  What an agent may change, after \<open>src/policy\<close>: the YAML policies of the harness and of a repository as
  the schemas of \<open>schema.ts\<close> hand them over, their resolution for one domain (\<open>resolver.ts\<close>), the
  validation of changed paths (\<open>path-policy-validator.ts\<close>), the filter of untracked files
  (\<open>untracked-filter.ts\<close>) and the change budget (\<open>diff-budget-validator.ts\<close>), with the budget override of
  \<open>workflow-runner-diff.ts\<close>. The glob matcher is the parameter \<open>mm path glob\<close>.
\<close>

section \<open>Policies\<close>

datatype sandbox_mode = Sandbox_read_only | Sandbox_workspace_write | Sandbox_danger_full_access
datatype agent_backend = Backend_codex | Backend_claude
datatype workspace_isolation = Iso_worktree | Iso_clone

record codex_defaults =
  cx_sandbox :: sandbox_mode
  cx_approval :: "string option"
  cx_timeoutMs :: "nat option"
  cx_model :: "string option"
  cx_backend :: "agent_backend option"
  cx_claudeModel :: "string option"

definition DEFAULT_MAX_DELETED_LINES :: nat where "DEFAULT_MAX_DELETED_LINES = 800"
definition DEFAULT_MAX_TOTAL_CHANGED_LINES :: nat where "DEFAULT_MAX_TOTAL_CHANGED_LINES = 5000"
definition DEFAULT_MAX_DELETED_FILES :: nat where "DEFAULT_MAX_DELETED_FILES = 20"
definition DEFAULT_MAX_CHANGED_FILES :: nat where "DEFAULT_MAX_CHANGED_FILES = 40"

record change_budget_config =
  bc_maxDeletedLines :: "nat option"
  bc_maxTotalChangedLines :: "nat option"
  bc_maxDeletedFiles :: "nat option"
  bc_maxChangedFiles :: "nat option"
  bc_enforce :: "bool option"

record change_budget =
  cb_maxDeletedLines :: nat
  cb_maxTotalChangedLines :: nat
  cb_maxDeletedFiles :: nat
  cb_maxChangedFiles :: nat
  cb_enforce :: bool

definition DEFAULT_CHANGE_BUDGET :: change_budget where
  "DEFAULT_CHANGE_BUDGET = \<lparr>cb_maxDeletedLines = DEFAULT_MAX_DELETED_LINES,
     cb_maxTotalChangedLines = DEFAULT_MAX_TOTAL_CHANGED_LINES, cb_maxDeletedFiles = DEFAULT_MAX_DELETED_FILES,
     cb_maxChangedFiles = DEFAULT_MAX_CHANGED_FILES, cb_enforce = True\<rparr>"

text \<open>\<open>limits\<close> has its timeout from the schema, with 30000 as the default there.\<close>

record policy_limits =
  pl_gitTimeoutMs :: nat
  pl_changeBudget :: "change_budget_config option"

record global_policy =
  gp_codex :: "codex_defaults option"
  gp_limits :: "policy_limits option"
  gp_workspace :: "workspace_isolation option"
  gp_alwaysDenyWrite :: "string list"
  gp_ignoreUntracked :: "string list"

record structured_command =
  sc_id :: string
  sc_cmd :: string
  sc_args :: "string list"
  sc_timeoutMs :: "nat option"
  sc_env :: "(string \<times> string) list option"

datatype command_entry = Cmd_text string | Cmd_struct structured_command

record command_defaults_config =
  cd_timeoutMs :: "nat option"
  cd_envAllowlist :: "string list option"

record domain_commands =
  dc_allow :: "command_entry list"
  dc_defaults :: "command_defaults_config option"

record domain_policy =
  dp_read :: "string list"
  dp_write :: "string list"
  dp_denyWrite :: "string list"
  dp_commands :: "domain_commands option"
  dp_changeBudget :: "change_budget_config option"

record repo_policy =
  rp_repoId :: string
  rp_read :: "string list"
  rp_domains :: "(string \<times> domain_policy) list"

record resolved_command =
  rc_id :: string
  rc_cmd :: string
  rc_args :: "string list"
  rc_shell :: bool
  rc_timeoutMs :: "nat option"
  rc_env :: "(string \<times> string) list option"

record command_defaults =
  rd_timeoutMs :: nat
  rd_envAllowlist :: "string list option"

record resolved_codex =
  rx_sandbox :: sandbox_mode
  rx_approval :: "string option"
  rx_timeoutMs :: nat
  rx_model :: "string option"
  rx_backend :: "agent_backend option"
  rx_claudeModel :: "string option"

record resolved_policy =
  po_repoId :: string
  po_domain :: string
  po_read :: "string list"
  po_write :: "string list"
  po_denyWrite :: "string list"
  po_allowedCommands :: "resolved_command list"
  po_commandDefaults :: command_defaults
  po_ignoreUntracked :: "string list"
  po_codex :: resolved_codex
  po_gitTimeoutMs :: nat
  po_changeBudget :: change_budget
  po_isolation :: workspace_isolation

definition DEFAULT_CODEX_TIMEOUT_MS :: nat where "DEFAULT_CODEX_TIMEOUT_MS = 15 * 60 * 1000"
definition DEFAULT_GIT_TIMEOUT_MS :: nat where "DEFAULT_GIT_TIMEOUT_MS = 30 * 1000"
definition DEFAULT_COMMAND_TIMEOUT_MS :: nat where "DEFAULT_COMMAND_TIMEOUT_MS = 5 * 60 * 1000"

section \<open>Resolution\<close>

definition resolve_command :: "nat \<Rightarrow> command_entry \<Rightarrow> resolved_command" where
  "resolve_command i e =
     (case e of
        Cmd_text s \<Rightarrow> \<lparr>rc_id = ''cmd-'' @ js_nat i, rc_cmd = s, rc_args = [], rc_shell = True, rc_timeoutMs = None,
          rc_env = None\<rparr>
      | Cmd_struct c \<Rightarrow> \<lparr>rc_id = sc_id c, rc_cmd = sc_cmd c, rc_args = sc_args c, rc_shell = False,
          rc_timeoutMs = sc_timeoutMs c, rc_env = sc_env c\<rparr>)"

definition resolveCommands :: "command_entry list \<Rightarrow> resolved_command list" where
  "resolveCommands es = map (\<lambda>(i, e). resolve_command i e) (List.enumerate 0 es)"

text \<open>A key of the domain's budget overrides the global one.\<close>

definition resolveChangeBudget :: "change_budget_config option \<Rightarrow> change_budget_config option \<Rightarrow> change_budget" where
  "resolveChangeBudget globalBudget domainBudget =
     (let pick = (\<lambda>f :: change_budget_config \<Rightarrow> nat option. coalesce (Option.bind domainBudget f) (Option.bind globalBudget f))
      in \<lparr>cb_maxDeletedLines = or_else (pick bc_maxDeletedLines) (cb_maxDeletedLines DEFAULT_CHANGE_BUDGET),
          cb_maxTotalChangedLines = or_else (pick bc_maxTotalChangedLines) (cb_maxTotalChangedLines DEFAULT_CHANGE_BUDGET),
          cb_maxDeletedFiles = or_else (pick bc_maxDeletedFiles) (cb_maxDeletedFiles DEFAULT_CHANGE_BUDGET),
          cb_maxChangedFiles = or_else (pick bc_maxChangedFiles) (cb_maxChangedFiles DEFAULT_CHANGE_BUDGET),
          cb_enforce = or_else (coalesce (Option.bind domainBudget bc_enforce) (Option.bind globalBudget bc_enforce))
            (cb_enforce DEFAULT_CHANGE_BUDGET)\<rparr>)"

datatype policy_error = Domain_not_found string string | Duplicate_command_id string string | Not_iterable

text \<open>
  \<open>repo.domains[domain]\<close> is a plain property access, so a name that every object inherits finds a function or
  an object without the fields of a policy; spreading its missing \<open>read\<close> throws.
\<close>

definition OBJECT_PROTOTYPE_KEYS :: "string list" where
  "OBJECT_PROTOTYPE_KEYS = [''constructor'', ''toString'', ''toLocaleString'', ''valueOf'', ''hasOwnProperty'',
     ''isPrototypeOf'', ''propertyIsEnumerable'', ''__proto__'', ''__defineGetter__'', ''__defineSetter__'',
     ''__lookupGetter__'', ''__lookupSetter__'']"

fun first_repeated :: "string list \<Rightarrow> string list \<Rightarrow> string option" where
  "first_repeated seen [] = None"
| "first_repeated seen (x # xs) = (if x \<in> set seen then Some x else first_repeated (x # seen) xs)"

definition resolve_codex :: "global_policy \<Rightarrow> resolved_codex" where
  "resolve_codex global =
     (let c = gp_codex global
      in \<lparr>rx_sandbox = or_else (map_option cx_sandbox c) Sandbox_workspace_write,
          rx_approval = Option.bind c cx_approval,
          rx_timeoutMs = or_else (Option.bind c cx_timeoutMs) DEFAULT_CODEX_TIMEOUT_MS,
          rx_model = Option.bind c cx_model, rx_backend = Option.bind c cx_backend,
          rx_claudeModel = Option.bind c cx_claudeModel\<rparr>)"

definition resolvePolicy :: "global_policy \<Rightarrow> repo_policy \<Rightarrow> string \<Rightarrow> policy_error + resolved_policy" where
  "resolvePolicy global repo domain =
     (case map_of (rp_domains repo) domain of
        None \<Rightarrow> if domain \<in> set OBJECT_PROTOTYPE_KEYS then Inl Not_iterable
          else Inl (Domain_not_found domain (rp_repoId repo))
      | Some d \<Rightarrow>
          (let defaults = Option.bind (dp_commands d) dc_defaults;
               cmds = resolveCommands (case dp_commands d of None \<Rightarrow> [] | Some c \<Rightarrow> dc_allow c)
           in case first_repeated [] (map rc_id cmds) of
                Some i \<Rightarrow> Inl (Duplicate_command_id i domain)
              | None \<Rightarrow> Inr
                  \<lparr>po_repoId = rp_repoId repo, po_domain = domain, po_read = js_set (rp_read repo @ dp_read d),
                   po_write = js_set (dp_write d),
                   po_denyWrite = js_set (gp_alwaysDenyWrite global @ dp_denyWrite d),
                   po_allowedCommands = cmds,
                   po_commandDefaults = \<lparr>rd_timeoutMs = or_else (Option.bind defaults cd_timeoutMs) DEFAULT_COMMAND_TIMEOUT_MS,
                     rd_envAllowlist = map_option js_set (Option.bind defaults cd_envAllowlist)\<rparr>,
                   po_ignoreUntracked = js_set (gp_ignoreUntracked global),
                   po_codex = resolve_codex global,
                   po_gitTimeoutMs = or_else (map_option pl_gitTimeoutMs (gp_limits global)) DEFAULT_GIT_TIMEOUT_MS,
                   po_changeBudget = resolveChangeBudget (Option.bind (gp_limits global) pl_changeBudget) (dp_changeBudget d),
                   po_isolation = or_else (gp_workspace global) Iso_worktree\<rparr>))"

section \<open>Changed paths\<close>

datatype violation_reason = V_deny_write | V_not_in_write_scope | V_unsafe_path

record violation =
  vi_path :: string
  vi_reason :: violation_reason

text \<open>\<open>s.split(sep)\<close> for a single character.\<close>

fun js_split :: "char \<Rightarrow> string \<Rightarrow> string list" where
  "js_split sep [] = [[]]"
| "js_split sep (c # cs) =
     (if c = sep then [] # js_split sep cs
      else (case js_split sep cs of [] \<Rightarrow> [[c]] | l # ls \<Rightarrow> (c # l) # ls))"

definition is_letter :: "char \<Rightarrow> bool" where
  "is_letter c \<longleftrightarrow> (97 \<le> char_code (to_lower_char c) \<and> char_code (to_lower_char c) \<le> 122)"

definition isUnsafePath :: "string \<Rightarrow> bool" where
  "isUnsafePath p \<longleftrightarrow>
     p = [] \<or> CHR 0x00 \<in> set p \<or> js_starts_with p ''/''
     \<or> (case p of c # d # _ \<Rightarrow> is_letter c \<and> d = CHR '':'' | _ \<Rightarrow> False)
     \<or> CHR 0x5C \<in> set p \<or> ''..'' \<in> set (js_split (CHR ''/'') p)"

definition path_violation :: "glob_matcher \<Rightarrow> resolved_policy \<Rightarrow> string \<Rightarrow> violation_reason option" where
  "path_violation mm policy p =
     (if isUnsafePath p then Some V_unsafe_path
      else if list_ex (mm p) (po_denyWrite policy) then Some V_deny_write
      else if \<not> list_ex (mm p) (po_write policy) then Some V_not_in_write_scope
      else None)"

text \<open>The result is \<open>(allowed, violations)\<close>.\<close>

definition validateChangedPaths :: "glob_matcher \<Rightarrow> resolved_policy \<Rightarrow> string list \<Rightarrow> bool \<times> violation list" where
  "validateChangedPaths mm policy changedPaths =
     (let violations = List.map_filter (\<lambda>p. map_option (\<lambda>r. \<lparr>vi_path = p, vi_reason = r\<rparr>) (path_violation mm policy p))
        changedPaths
      in (violations = [], violations))"

definition partitionUntracked :: "glob_matcher \<Rightarrow> string list \<Rightarrow> string list \<Rightarrow> string list \<times> string list" where
  "partitionUntracked mm paths ignoreGlobs =
     (if ignoreGlobs = [] then (paths, [])
      else (filter (\<lambda>p. \<not> list_ex (mm p) ignoreGlobs) paths, filter (\<lambda>p. list_ex (mm p) ignoreGlobs) paths))"

section \<open>The change budget\<close>

text \<open>Counts of lines are exact integers: below \<open>2^53\<close> doubles are.\<close>

record diff_stat =
  ds_filesChanged :: nat
  ds_insertions :: nat
  ds_deletions :: nat
  ds_deletedFiles :: nat

datatype budget_metric = M_deleted_lines | M_total_changed_lines | M_deleted_files | M_changed_files

record budget_breach =
  bb_metric :: budget_metric
  bb_actual :: nat
  bb_limit :: nat

datatype budget_status = Within | Exceeded | Exceeded_but_allowed

definition normalizeDiffBudget :: "change_budget_config \<Rightarrow> change_budget" where
  "normalizeDiffBudget input =
     \<lparr>cb_maxDeletedLines = or_else (bc_maxDeletedLines input) (cb_maxDeletedLines DEFAULT_CHANGE_BUDGET),
      cb_maxTotalChangedLines = or_else (bc_maxTotalChangedLines input) (cb_maxTotalChangedLines DEFAULT_CHANGE_BUDGET),
      cb_maxDeletedFiles = or_else (bc_maxDeletedFiles input) (cb_maxDeletedFiles DEFAULT_CHANGE_BUDGET),
      cb_maxChangedFiles = or_else (bc_maxChangedFiles input) (cb_maxChangedFiles DEFAULT_CHANGE_BUDGET),
      cb_enforce = or_else (bc_enforce input) (cb_enforce DEFAULT_CHANGE_BUDGET)\<rparr>"

text \<open>A resolved budget is an input with every field present.\<close>

definition budget_input :: "change_budget \<Rightarrow> change_budget_config" where
  "budget_input b = \<lparr>bc_maxDeletedLines = Some (cb_maxDeletedLines b),
     bc_maxTotalChangedLines = Some (cb_maxTotalChangedLines b), bc_maxDeletedFiles = Some (cb_maxDeletedFiles b),
     bc_maxChangedFiles = Some (cb_maxChangedFiles b), bc_enforce = Some (cb_enforce b)\<rparr>"

definition breach_if :: "budget_metric \<Rightarrow> nat \<Rightarrow> nat \<Rightarrow> budget_breach list" where
  "breach_if m actual limit = (if limit < actual then [\<lparr>bb_metric = m, bb_actual = actual, bb_limit = limit\<rparr>] else [])"

definition validateDiffBudget :: "change_budget_config \<Rightarrow> diff_stat \<Rightarrow> budget_status \<times> budget_breach list" where
  "validateDiffBudget budgetInput stat =
     (let budget = normalizeDiffBudget budgetInput;
          breaches = breach_if M_deleted_lines (ds_deletions stat) (cb_maxDeletedLines budget)
            @ breach_if M_total_changed_lines (ds_insertions stat + ds_deletions stat) (cb_maxTotalChangedLines budget)
            @ breach_if M_deleted_files (ds_deletedFiles stat) (cb_maxDeletedFiles budget)
            @ breach_if M_changed_files (ds_filesChanged stat) (cb_maxChangedFiles budget)
      in (if breaches = [] then Within else if cb_enforce budget then Exceeded else Exceeded_but_allowed, breaches))"

record budget_override =
  bo_maxDeletedLines :: "nat option"
  bo_maxTotalChangedLines :: "nat option"
  bo_maxDeletedFiles :: "nat option"
  bo_maxChangedFiles :: "nat option"

definition raised :: "nat \<Rightarrow> nat option \<Rightarrow> nat" where
  "raised limit override = (case override of None \<Rightarrow> limit | Some n \<Rightarrow> max limit n)"

definition applyChangeBudgetOverride :: "change_budget \<Rightarrow> budget_override option \<Rightarrow> change_budget" where
  "applyChangeBudgetOverride base override =
     (case override of
        None \<Rightarrow> base
      | Some v \<Rightarrow>
          if \<not> cb_enforce base then base
          else base\<lparr>cb_maxDeletedLines := raised (cb_maxDeletedLines base) (bo_maxDeletedLines v),
            cb_maxTotalChangedLines := raised (cb_maxTotalChangedLines base) (bo_maxTotalChangedLines v),
            cb_maxDeletedFiles := raised (cb_maxDeletedFiles base) (bo_maxDeletedFiles v),
            cb_maxChangedFiles := raised (cb_maxChangedFiles base) (bo_maxChangedFiles v)\<rparr>)"

section \<open>What the validation says\<close>

text \<open>What a path must satisfy, over the policies as they are written.\<close>

definition write_allowed :: "glob_matcher \<Rightarrow> global_policy \<Rightarrow> domain_policy \<Rightarrow> string \<Rightarrow> bool" where
  "write_allowed mm global d p \<longleftrightarrow> \<not> isUnsafePath p \<and> (\<exists>g \<in> set (dp_write d). mm p g)
     \<and> (\<forall>g \<in> set (gp_alwaysDenyWrite global) \<union> set (dp_denyWrite d). \<not> mm p g)"

lemma resolvePolicy_Inr:
  assumes "resolvePolicy global repo domain = Inr policy"
  obtains d where "map_of (rp_domains repo) domain = Some d" "po_write policy = js_set (dp_write d)"
    "po_denyWrite policy = js_set (gp_alwaysDenyWrite global @ dp_denyWrite d)"
  using assms by (auto simp: resolvePolicy_def Let_def split: option.splits if_splits)

lemma path_violation_None:
  assumes "resolvePolicy global repo domain = Inr policy" "map_of (rp_domains repo) domain = Some d"
  shows "path_violation mm policy p = None \<longleftrightarrow> write_allowed mm global d p"
  using assms by (elim resolvePolicy_Inr) (auto simp: path_violation_def write_allowed_def list_ex_iff)

lemma map_filter_Nil: "List.map_filter f xs = [] \<longleftrightarrow> (\<forall>x \<in> set xs. f x = None)"
  by (induction xs) (auto simp: List.map_filter_simps split: option.splits)

lemma validateChangedPaths_allowed:
  "fst (validateChangedPaths mm policy ps) \<longleftrightarrow> list_all (\<lambda>p. path_violation mm policy p = None) ps"
  by (simp add: validateChangedPaths_def map_filter_Nil list_all_iff)

lemma violated_paths:
  "vi_path ` set (snd (validateChangedPaths mm policy ps)) = {p \<in> set ps. path_violation mm policy p \<noteq> None}"
proof -
  have "vi_path ` set (List.map_filter (\<lambda>p. map_option (\<lambda>r. \<lparr>vi_path = p, vi_reason = r\<rparr>) (f p)) ps)
      = {p \<in> set ps. f p \<noteq> None}" for f
    by (induction ps) (auto simp: List.map_filter_simps split: option.splits)
  then show ?thesis by (simp add: validateChangedPaths_def Let_def)
qed

end
