(* ===== verification/Git_Diff.thy ===== *)
theory Git_Diff
  imports Path_Policy
begin

text \<open>
  What a run changed, after \<open>src/git/diff.ts\<close> and the diff half of \<open>src/core/workflow-runner-diff.ts\<close>: the git
  commands that are issued and the parsing of what they print, the base commit, the line count of untracked
  files, and the validation of the collected surface. Git and the file system are arguments that may change
  the world they work on: \<open>tl_git cwd args\<close> runs \<open>git\<close> (a failure to spawn is an error), \<open>tl_probe worktree path\<close>
  gives the chunks that reading the file yields, \<open>None\<close> for what is not a regular file.
\<close>

section \<open>Running git\<close>

record git_result =
  gr_stdout :: string
  gr_stderr :: string
  gr_exitCode :: int
  gr_timedOut :: bool

record 'w tools =
  tl_git :: "string \<Rightarrow> string list \<Rightarrow> ('w, string, git_result) act"
  tl_probe :: "string \<Rightarrow> string \<Rightarrow> ('w, string, string list option) act"

definition gitCliOrThrow :: "'w tools \<Rightarrow> string \<Rightarrow> nat \<Rightarrow> string list \<Rightarrow> ('w, string, string) act" where
  "gitCliOrThrow tools cwd timeoutMs args =
     act_bind (tl_git tools cwd args) (\<lambda>r.
       if gr_timedOut r then
         act_throw (''git '' @ js_join '' '' args @ '' timed out after '' @ js_nat timeoutMs @ ''ms'')
       else if gr_exitCode r \<noteq> 0 then
         act_throw (''git '' @ js_join '' '' args @ '' failed ('' @ js_int (gr_exitCode r) @ ''): '' @ js_trim (gr_stderr r))
       else act_return (gr_stdout r))"

definition DIFF_BASE_ARGS :: "string list" where
  "DIFF_BASE_ARGS = [''diff'', ''--no-ext-diff'', ''--no-textconv'', ''--no-renames'']"

definition parseNullSeparated :: "string \<Rightarrow> string list" where
  "parseNullSeparated s = (if s = [] then [] else filter (\<lambda>p. p \<noteq> []) (js_split (CHR 0x00) s))"

section \<open>The numstat output\<close>

record num_stat_row =
  ns_path :: string
  ns_insertions :: nat
  ns_deletions :: nat

text \<open>\<open>Number.parseInt(s, 10)\<close> for results below \<open>2^53\<close>; \<open>None\<close> is NaN.\<close>

definition digit_prefix :: "string \<Rightarrow> string" where
  "digit_prefix s = takeWhile (\<lambda>c. digit_value c \<noteq> None) s"

definition parse_digits :: "string \<Rightarrow> int option" where
  "parse_digits s = (if digit_prefix s = [] then None else map_option int (digits_value 0 (digit_prefix s)))"

definition js_parse_int :: "string \<Rightarrow> int option" where
  "js_parse_int s =
     (case trim_start s of
        [] \<Rightarrow> None
      | c # cs \<Rightarrow> if c = CHR ''-'' then map_option uminus (parse_digits cs)
          else if c = CHR ''+'' then parse_digits cs
          else parse_digits (c # cs))"

definition parseNumStatCount :: "string \<Rightarrow> string + nat" where
  "parseNumStatCount raw =
     (if raw = ''-'' then Inr 0
      else case js_parse_int raw of
        Some n \<Rightarrow> if n < 0 then Inl (''git diff --numstat parse error: invalid count \"'' @ raw @ ''\"'') else Inr (nat n)
      | None \<Rightarrow> Inl (''git diff --numstat parse error: invalid count \"'' @ raw @ ''\"''))"

text \<open>The text before and behind the first tab.\<close>

definition cut_tab :: "string \<Rightarrow> (string \<times> string) option" where
  "cut_tab s = (if CHR 0x09 \<in> set s
     then Some (takeWhile (\<lambda>c. c \<noteq> CHR 0x09) s, drop (Suc (length (takeWhile (\<lambda>c. c \<noteq> CHR 0x09) s))) s) else None)"

definition split_row :: "string \<Rightarrow> (string \<times> string \<times> string) option" where
  "split_row row = (case cut_tab row of None \<Rightarrow> None
     | Some (a, rest) \<Rightarrow> (case cut_tab rest of None \<Rightarrow> None | Some (d, path) \<Rightarrow> Some (a, d, path)))"

definition numstat_row :: "string \<Rightarrow> string \<Rightarrow> string \<Rightarrow> string + num_stat_row" where
  "numstat_row a d path =
     res_bind (parseNumStatCount a) (\<lambda>added.
     res_bind (parseNumStatCount d) (\<lambda>deleted.
     if path = [] then Inl ''git diff --numstat parse error: missing path''
     else Inr \<lparr>ns_path = path, ns_insertions = added, ns_deletions = deleted\<rparr>))"

text \<open>A malformed rename row is reported behind bad counts, as in the source.\<close>

fun numstat_fields :: "string list \<Rightarrow> string + num_stat_row list" where
  "numstat_fields [] = Inr []"
| "numstat_fields (row # rest) =
     (if row = [] then numstat_fields rest
      else case split_row row of
        None \<Rightarrow> Inl (''git diff --numstat parse error: malformed row \"'' @ row @ ''\"'')
      | Some (a, d, path) \<Rightarrow>
          if path \<noteq> [] then
            res_bind (numstat_row a d path) (\<lambda>r. res_bind (numstat_fields rest) (\<lambda>rs. Inr (r # rs)))
          else (case rest of
              old # new # rest' \<Rightarrow>
                res_bind (numstat_row a d new) (\<lambda>r. res_bind (numstat_fields rest') (\<lambda>rs. Inr (r # rs)))
            | _ \<Rightarrow> res_bind (parseNumStatCount a) (\<lambda>_. res_bind (parseNumStatCount d) (\<lambda>_.
                Inl ''git diff --numstat parse error: malformed rename row''))))"

definition parseNumStatRows :: "string \<Rightarrow> string + num_stat_row list" where
  "parseNumStatRows numstat = (if numstat = [] then Inr [] else numstat_fields (js_split (CHR 0x00) numstat))"

text \<open>\<open>byPath.set\<close> with the larger counts.\<close>

fun put_row :: "num_stat_row \<Rightarrow> num_stat_row list \<Rightarrow> num_stat_row list" where
  "put_row row [] = [row]"
| "put_row row (r # rs) =
     (if ns_path r = ns_path row
      then \<lparr>ns_path = ns_path row, ns_insertions = max (ns_insertions r) (ns_insertions row),
            ns_deletions = max (ns_deletions r) (ns_deletions row)\<rparr> # rs
      else r # put_row row rs)"

definition combineNumStat :: "string list \<Rightarrow> string list \<Rightarrow> string + diff_stat" where
  "combineNumStat numstats deletedFileLists =
     res_bind (res_map (\<lambda>_. parseNumStatRows) 0 numstats) (\<lambda>parsed.
       let byPath = fold put_row (concat parsed) [];
           deletedFiles = js_set (concat (map parseNullSeparated deletedFileLists))
       in Inr \<lparr>ds_filesChanged = length byPath, ds_insertions = sum_list (map ns_insertions byPath),
            ds_deletions = sum_list (map ns_deletions byPath), ds_deletedFiles = length deletedFiles\<rparr>)"

section \<open>Collecting the diff\<close>

record diff_result =
  df_trackedChangedPaths :: "string list"
  df_stagedChangedPaths :: "string list"
  df_untrackedPaths :: "string list"
  df_stat :: diff_stat
  df_patch :: string

definition act_of_res :: "'e + 'a \<Rightarrow> ('w, 'e, 'a) act" where
  "act_of_res r w = (r, w)"

definition collectDiff :: "'w tools \<Rightarrow> string \<Rightarrow> string \<Rightarrow> nat \<Rightarrow> ('w, string, diff_result) act" where
  "collectDiff tools repoPath baseSha timeoutMs =
     (let git = gitCliOrThrow tools repoPath timeoutMs
      in act_bind (git (DIFF_BASE_ARGS @ [''--name-only'', ''-z'', baseSha])) (\<lambda>tracked.
         act_bind (git (DIFF_BASE_ARGS @ [''--cached'', ''--name-only'', ''-z'', baseSha])) (\<lambda>staged.
         act_bind (git (DIFF_BASE_ARGS @ [''--numstat'', ''-z'', baseSha])) (\<lambda>numstat.
         act_bind (git (DIFF_BASE_ARGS @ [''--cached'', ''--numstat'', ''-z'', baseSha])) (\<lambda>stagedNumstat.
         act_bind (git (DIFF_BASE_ARGS @ [''--diff-filter=D'', ''--name-only'', ''-z'', baseSha])) (\<lambda>deletedFiles.
         act_bind (git (DIFF_BASE_ARGS @ [''--cached'', ''--diff-filter=D'', ''--name-only'', ''-z'', baseSha])) (\<lambda>stagedDeletedFiles.
         act_bind (git [''ls-files'', ''--others'', ''-z'']) (\<lambda>untracked.
         act_bind (git (DIFF_BASE_ARGS @ [baseSha])) (\<lambda>patch.
         act_bind (act_of_res (combineNumStat [numstat, stagedNumstat] [deletedFiles, stagedDeletedFiles])) (\<lambda>stat.
         act_return \<lparr>df_trackedChangedPaths = parseNullSeparated tracked, df_stagedChangedPaths = parseNullSeparated staged,
           df_untrackedPaths = parseNullSeparated untracked, df_stat = stat, df_patch = patch\<rparr>))))))))))"

definition collectTrackedPatchForPaths ::
  "'w tools \<Rightarrow> string \<Rightarrow> string \<Rightarrow> nat \<Rightarrow> string list \<Rightarrow> ('w, string, string) act" where
  "collectTrackedPatchForPaths tools repoPath baseSha timeoutMs paths =
     (if paths = [] then act_return []
      else gitCliOrThrow tools repoPath timeoutMs ([''--literal-pathspecs''] @ DIFF_BASE_ARGS @ [baseSha, ''--''] @ paths))"

section \<open>The base commit\<close>

definition is_hex :: "char \<Rightarrow> bool" where
  "is_hex c \<longleftrightarrow> digit_value c \<noteq> None \<or> (97 \<le> char_code c \<and> char_code c \<le> 102)"

definition FULL_SHA_RE :: "string \<Rightarrow> bool" where
  "FULL_SHA_RE s \<longleftrightarrow> length s = 40 \<and> list_all is_hex s"

definition PSEUDO_REFS :: "string list" where
  "PSEUDO_REFS = [''@'', ''HEAD'', ''FETCH_HEAD'', ''ORIG_HEAD'', ''MERGE_HEAD'', ''CHERRY_PICK_HEAD'', ''REVERT_HEAD'',
     ''BISECT_HEAD'']"

definition isSafeRefName :: "string \<Rightarrow> bool" where
  "isSafeRefName s \<longleftrightarrow> s \<noteq> [] \<and> length s \<le> 255 \<and> hd s \<notin> {CHR ''-'', CHR ''/''} \<and> last s \<noteq> CHR ''/''
     \<and> \<not> js_includes s ''..'' \<and> \<not> js_includes s [CHR ''@'', CHR 0x7B] \<and> s \<notin> set PSEUDO_REFS
     \<and> list_all (\<lambda>c. 32 < char_code c \<and> c \<notin> {CHR ''~'', CHR ''^'', CHR '':'', CHR ''?'', CHR ''*'', CHR ''['', CHR 0x5C, CHR 0x7F}) s"

definition revParseCommit :: "'w tools \<Rightarrow> string \<Rightarrow> string \<Rightarrow> ('w, string, string option) act" where
  "revParseCommit tools cwd ref =
     act_bind (tl_git tools cwd [''rev-parse'', ''--verify'', ''--quiet'', ''--end-of-options'', ref @ ''^{commit}'']) (\<lambda>r.
       if gr_timedOut r then act_throw (''git rev-parse of \"'' @ ref @ ''\" timed out'')
       else act_return (if gr_exitCode r = 0 \<and> FULL_SHA_RE (js_trim (gr_stdout r)) then Some (js_trim (gr_stdout r)) else None))"

fun first_commit :: "'w tools \<Rightarrow> string \<Rightarrow> string list \<Rightarrow> string \<Rightarrow> ('w, string, string) act" where
  "first_commit tools cwd [] msg = act_throw msg"
| "first_commit tools cwd (ref # refs) msg =
     act_bind (revParseCommit tools cwd ref) (\<lambda>found.
       case found of Some s \<Rightarrow> act_return s | None \<Rightarrow> first_commit tools cwd refs msg)"

text \<open>A failure to spawn the fetch counts as a fetch that failed.\<close>

definition fetch_base :: "'w tools \<Rightarrow> string \<Rightarrow> string \<Rightarrow> 'w \<Rightarrow> bool \<times> 'w" where
  "fetch_base tools cwd baseBranch w =
     (case tl_git tools cwd [''fetch'', ''--no-tags'', ''origin'',
        ''+refs/heads/'' @ baseBranch @ '':refs/remotes/origin/'' @ baseBranch] w of
        (Inl _, w') \<Rightarrow> (False, w') | (Inr r, w') \<Rightarrow> (gr_exitCode r = 0 \<and> \<not> gr_timedOut r, w'))"

definition resolveBaseSha :: "'w tools \<Rightarrow> string \<Rightarrow> string \<Rightarrow> bool \<Rightarrow> ('w, string, string) act" where
  "resolveBaseSha tools repoPath baseBranch fetchRemote w =
     (if FULL_SHA_RE baseBranch then
        first_commit tools repoPath [baseBranch] (''cannot resolve base commit \"'' @ baseBranch @ ''\" in '' @ repoPath) w
      else if \<not> isSafeRefName baseBranch then
        (Inl (''invalid base branch \"'' @ baseBranch @ ''\": expected a branch name or 40-hex SHA (no rev-expression / refspec syntax)''), w)
      else
        (let (fetchOk, w1) = (if fetchRemote then fetch_base tools repoPath baseBranch w else (False, w));
             localRef = ''refs/heads/'' @ baseBranch;
             candidates = (if fetchOk then [''refs/remotes/origin/'' @ baseBranch, localRef] else [localRef])
         in first_commit tools repoPath candidates
              (''cannot resolve base branch \"'' @ baseBranch @ ''\" in '' @ repoPath @ '': no ''
               @ (if fetchOk then [] else ''fresh '') @ ''origin/'' @ baseBranch @ '' or local '' @ baseBranch
               @ '' (refusing to silently fall back to a different base)'') w1))"

section \<open>Lines of untracked files\<close>

text \<open>The fatal streaming UTF-8 decoder: bytes still needed, and the bounds of the next one.\<close>

fun utf8_ok :: "nat \<Rightarrow> nat \<Rightarrow> nat \<Rightarrow> string \<Rightarrow> bool" where
  "utf8_ok needed lo hi [] = True"
| "utf8_ok needed lo hi (c # cs) =
     (let b = char_code c in
      if needed = 0 then
        (if b \<le> 0x7F then utf8_ok 0 0x80 0xBF cs
         else if 0xC2 \<le> b \<and> b \<le> 0xDF then utf8_ok 1 0x80 0xBF cs
         else if 0xE0 \<le> b \<and> b \<le> 0xEF then
           utf8_ok 2 (if b = 0xE0 then 0xA0 else 0x80) (if b = 0xED then 0x9F else 0xBF) cs
         else if 0xF0 \<le> b \<and> b \<le> 0xF4 then
           utf8_ok 3 (if b = 0xF0 then 0x90 else 0x80) (if b = 0xF4 then 0x8F else 0xBF) cs
         else False)
      else lo \<le> b \<and> b \<le> hi \<and> utf8_ok (needed - 1) 0x80 0xBF cs)"

definition SAMPLE_BYTES :: nat where "SAMPLE_BYTES = 8192"

definition looksBinary :: "string \<Rightarrow> bool" where
  "looksBinary buf \<longleftrightarrow> CHR 0x00 \<in> set (take SAMPLE_BYTES buf) \<or> \<not> utf8_ok 0 0x80 0xBF (take SAMPLE_BYTES buf)"

fun count_chunks :: "string list \<Rightarrow> bool \<Rightarrow> bool \<Rightarrow> nat \<Rightarrow> string \<Rightarrow> nat" where
  "count_chunks [] sawAnyByte lastByteWasNewline newlineCount sample =
     (if \<not> sawAnyByte then 0 else newlineCount + (if lastByteWasNewline then 0 else 1))"
| "count_chunks (buf # bufs) sawAnyByte lastByteWasNewline newlineCount sample =
     (if buf = [] then count_chunks bufs sawAnyByte lastByteWasNewline newlineCount sample
      else (let short = length sample < SAMPLE_BYTES;
                sample' = (if short then sample @ take (SAMPLE_BYTES - length sample) buf else sample)
            in if short \<and> looksBinary sample' then 0
               else count_chunks bufs True (last buf = CHR 0x0A) (newlineCount + count_list buf (CHR 0x0A)) sample'))"

definition countTextLinesStreaming :: "string list \<Rightarrow> nat" where
  "countTextLinesStreaming chunks = count_chunks chunks False False 0 []"

fun untracked_lines :: "'w tools \<Rightarrow> string \<Rightarrow> string list \<Rightarrow> ('w, string, nat) act" where
  "untracked_lines tools worktreePath [] = act_return 0"
| "untracked_lines tools worktreePath (p # ps) =
     act_bind (tl_probe tools worktreePath p) (\<lambda>chunks.
     act_bind (untracked_lines tools worktreePath ps) (\<lambda>n.
     act_return ((case chunks of None \<Rightarrow> 0 | Some cs \<Rightarrow> countTextLinesStreaming cs) + n)))"

definition statWithAllowedUntracked ::
  "'w tools \<Rightarrow> string \<Rightarrow> diff_stat \<Rightarrow> string list \<Rightarrow> ('w, string, diff_stat) act" where
  "statWithAllowedUntracked tools worktreePath trackedStat untrackedAllowed =
     (if untrackedAllowed = [] then act_return trackedStat
      else act_bind (untracked_lines tools worktreePath untrackedAllowed) (\<lambda>n.
        act_return (trackedStat\<lparr>ds_filesChanged := ds_filesChanged trackedStat + length untrackedAllowed,
          ds_insertions := ds_insertions trackedStat + n\<rparr>)))"

section \<open>Diff and validation\<close>

record diff_outcome =
  do_error :: "string option"
  do_trackedChangedPaths :: "string list"
  do_stagedChangedPaths :: "string list"
  do_untrackedAll :: "string list"
  do_stat :: "diff_stat option"
  do_patch :: string

definition do_ok :: "diff_outcome \<Rightarrow> bool" where
  "do_ok d \<longleftrightarrow> do_error d = None"

definition attemptDiff :: "'w tools \<Rightarrow> string \<Rightarrow> string \<Rightarrow> nat \<Rightarrow> 'w \<Rightarrow> diff_outcome \<times> 'w" where
  "attemptDiff tools worktreePath baseSha gitTimeoutMs w =
     (case collectDiff tools worktreePath baseSha gitTimeoutMs w of
        (Inl e, w') \<Rightarrow> (\<lparr>do_error = Some e, do_trackedChangedPaths = [], do_stagedChangedPaths = [], do_untrackedAll = [],
           do_stat = None, do_patch = []\<rparr>, w')
      | (Inr d, w') \<Rightarrow> (\<lparr>do_error = None, do_trackedChangedPaths = df_trackedChangedPaths d,
           do_stagedChangedPaths = df_stagedChangedPaths d, do_untrackedAll = df_untrackedPaths d,
           do_stat = Some (df_stat d), do_patch = df_patch d\<rparr>, w'))"

datatype safety_status = Safety_allowed | Safety_denied | Safety_skipped

text \<open>The measured durations are left out.\<close>

record diff_and_validate =
  dv_diff :: diff_outcome
  dv_untrackedKept :: "string list"
  dv_untrackedIgnored :: "string list"
  dv_violations :: "violation list"
  dv_safetyStatus :: safety_status
  dv_budgetStat :: "diff_stat option"

definition uniquePaths :: "string list \<Rightarrow> string list" where
  "uniquePaths paths = js_set paths"

definition diffAndValidate ::
  "glob_matcher \<Rightarrow> 'w tools \<Rightarrow> string \<Rightarrow> string \<Rightarrow> nat \<Rightarrow> resolved_policy \<Rightarrow> ('w, string, diff_and_validate) act" where
  "diffAndValidate mm tools worktreePath baseSha gitTimeoutMs policy w =
     (let (diff, w1) = attemptDiff tools worktreePath baseSha gitTimeoutMs w;
          (kept, ignored) = partitionUntracked mm (do_untrackedAll diff) (po_ignoreUntracked policy)
      in if \<not> do_ok diff then
           (Inr \<lparr>dv_diff = diff, dv_untrackedKept = kept, dv_untrackedIgnored = ignored, dv_violations = [],
             dv_safetyStatus = Safety_skipped, dv_budgetStat = None\<rparr>, w1)
         else case do_stat diff of
           None \<Rightarrow> (Inl ''diff collection succeeded without a diff stat'', w1)
         | Some stat \<Rightarrow>
             (let (allowed, violations) = validateChangedPaths mm policy
                (uniquePaths (do_trackedChangedPaths diff @ do_stagedChangedPaths diff @ kept))
              in act_bind (statWithAllowedUntracked tools worktreePath stat
                   (filter (\<lambda>p. p \<notin> vi_path ` set violations) kept)) (\<lambda>budgetStat.
                 act_return \<lparr>dv_diff = diff, dv_untrackedKept = kept, dv_untrackedIgnored = ignored,
                   dv_violations = violations, dv_safetyStatus = (if allowed then Safety_allowed else Safety_denied),
                   dv_budgetStat = Some budgetStat\<rparr>) w1))"

section \<open>The line count does not depend on the chunks\<close>

definition text_lines :: "string \<Rightarrow> nat" where
  "text_lines b = (if b = [] \<or> looksBinary b then 0 else count_list b (CHR 0x0A) + (if last b = CHR 0x0A then 0 else 1))"

lemma utf8_ok_prefix: "utf8_ok n lo hi (s @ t) \<Longrightarrow> utf8_ok n lo hi s"
  by (induction n lo hi s rule: utf8_ok.induct) (auto simp: Let_def split: if_splits)

lemma looksBinary_prefix: "looksBinary s \<Longrightarrow> looksBinary (s @ t)"
  unfolding looksBinary_def take_append using utf8_ok_prefix by auto

lemma looksBinary_take: "looksBinary (take SAMPLE_BYTES s) = looksBinary s"
  by (simp add: looksBinary_def)

lemma count_chunks_step:
  assumes "buf \<noteq> []"
  shows "count_chunks (buf # bufs) saw l n (take SAMPLE_BYTES pre) =
    (if length (take SAMPLE_BYTES pre) < SAMPLE_BYTES \<and> looksBinary (pre @ buf) then 0
     else count_chunks bufs True (last buf = CHR 0x0A) (n + count_list buf (CHR 0x0A)) (take SAMPLE_BYTES (pre @ buf)))"
proof -
  have sample: "(if length (take SAMPLE_BYTES pre) < SAMPLE_BYTES
      then take SAMPLE_BYTES pre @ take (SAMPLE_BYTES - length (take SAMPLE_BYTES pre)) buf else take SAMPLE_BYTES pre)
    = take SAMPLE_BYTES (pre @ buf)" by auto
  show ?thesis unfolding count_chunks.simps Let_def sample looksBinary_take using assms by simp
qed

lemma count_chunks_spec:
  assumes "\<not> looksBinary pre"
  shows "count_chunks bufs (pre \<noteq> []) (pre \<noteq> [] \<and> last pre = CHR 0x0A) (count_list pre (CHR 0x0A)) (take SAMPLE_BYTES pre)
    = text_lines (pre @ concat bufs)"
  using assms
proof (induction bufs arbitrary: pre)
  case (Cons buf bufs)
  show ?case
  proof (cases "buf = []")
    case False
    have full: "take SAMPLE_BYTES (pre @ buf) = take SAMPLE_BYTES pre" if "\<not> length (take SAMPLE_BYTES pre) < SAMPLE_BYTES"
      using that by auto
    note step = count_chunks_step [OF False, of bufs "pre \<noteq> []" "pre \<noteq> [] \<and> last pre = CHR 0x0A" "count_list pre (CHR 0x0A)" pre]
    show ?thesis
    proof (cases "looksBinary (pre @ buf)")
      case True
      then have "length (take SAMPLE_BYTES pre) < SAMPLE_BYTES"
        using full Cons.prems looksBinary_take by metis
      moreover have "looksBinary (pre @ concat (buf # bufs))" using looksBinary_prefix [OF True] by simp
      ultimately show ?thesis unfolding step using True by (simp add: text_lines_def del: length_take)
    next
      case ok: False
      have "count_chunks (buf # bufs) (pre \<noteq> []) (pre \<noteq> [] \<and> last pre = CHR 0x0A) (count_list pre (CHR 0x0A)) (take SAMPLE_BYTES pre)
        = text_lines ((pre @ buf) @ concat bufs)"
        unfolding step using Cons.IH [OF ok] False ok by (simp add: count_list_append del: take_append)
      then show ?thesis by simp
    qed
  qed (use Cons in simp)
qed (simp add: text_lines_def)

text \<open>
  C27: counting the lines of an untracked file while streaming it gives the count over the whole file,
  however the file was cut into chunks, the detection of binary files by their first 8192 bytes included.
\<close>

theorem countTextLinesStreaming_whole: "countTextLinesStreaming chunks = text_lines (concat chunks)"
  using count_chunks_spec [of "[]" chunks] by (simp add: countTextLinesStreaming_def looksBinary_def)

section \<open>What is validated\<close>

text \<open>An allowed diff: nothing outside the write scope is tracked, staged or kept untracked.\<close>

lemma js_set_list_all [simp]: "list_all P (js_set xs) = list_all P xs"
  by (simp add: list_all_iff)

lemma diffAndValidate_ok:
  assumes "diffAndValidate mm tools wt base ms policy w = (Inr dv, w')"
  obtains d w1 where "attemptDiff tools wt base ms w = (d, w1)" "dv_diff dv = d"
    "(dv_untrackedKept dv, dv_untrackedIgnored dv) = partitionUntracked mm (do_untrackedAll d) (po_ignoreUntracked policy)"
    "dv_safetyStatus dv = (if \<not> do_ok d then Safety_skipped
       else if list_all (\<lambda>p. path_violation mm policy p = None)
         (do_trackedChangedPaths d @ do_stagedChangedPaths d @ dv_untrackedKept dv) then Safety_allowed else Safety_denied)"
    "vi_path ` set (dv_violations dv) = (if do_ok d then {p \<in> set (do_trackedChangedPaths d @ do_stagedChangedPaths d
       @ dv_untrackedKept dv). path_violation mm policy p \<noteq> None} else {})"
proof -
  obtain d w1 where d: "attemptDiff tools wt base ms w = (d, w1)" by (cases "attemptDiff tools wt base ms w")
  obtain kept ignored where part: "partitionUntracked mm (do_untrackedAll d) (po_ignoreUntracked policy) = (kept, ignored)"
    by (cases "partitionUntracked mm (do_untrackedAll d) (po_ignoreUntracked policy)")
  show ?thesis
  proof (cases "do_ok d")
    case False
    then show ?thesis using assms d part that [of d w1] by (auto simp: diffAndValidate_def)
  next
    case True
    let ?ps = "do_trackedChangedPaths d @ do_stagedChangedPaths d @ kept"
    obtain al vs where v: "validateChangedPaths mm policy (uniquePaths ?ps) = (al, vs)"
      by (cases "validateChangedPaths mm policy (uniquePaths ?ps)")
    have al: "al \<longleftrightarrow> list_all (\<lambda>p. path_violation mm policy p = None) ?ps"
      using validateChangedPaths_allowed [of mm policy "uniquePaths ?ps"] v by (simp add: uniquePaths_def)
    have vs: "vi_path ` set vs = {p \<in> set ?ps. path_violation mm policy p \<noteq> None}"
      using violated_paths [of mm policy "uniquePaths ?ps"] v by (simp add: uniquePaths_def)
    show ?thesis
      using assms d part v True al vs that [of d w1]
      by (auto simp: diffAndValidate_def act_bind_def act_return_def split: option.splits prod.splits sum.splits)
  qed
qed

end
