(* ===== verification/Work_Tree.thy ===== *)
theory Work_Tree
  imports Git_Diff "HOL-Library.Sublist"
begin

text \<open>
  The work trees of runs: a file system with symbolic links as \<open>node:fs\<close> shows it, the carrying over of a
  parent run's changes into a fresh work tree (\<open>materializeParentWork\<close> and its helpers in
  \<open>src/core/workflow-runner-diff.ts\<close>), and the fingerprint of reviewed files
  (\<open>src/core/reviewed-fingerprint.ts\<close>).
\<close>

section \<open>A file system\<close>

text \<open>
  A path is absolute and split into its segments. The table holds what exists; a directory is read in the
  order of the names. Permissions are left out.
\<close>

type_synonym path = "string list"

datatype node = N_file string bool | N_link string | N_dir | N_other

type_synonym fs = "(path \<times> node) list"

datatype errno = ENOENT | ENOTDIR | EEXIST | ELOOP | EINVAL

definition look :: "fs \<Rightarrow> path \<Rightarrow> node option" where
  "look fs p = (if p = [] then Some N_dir else map_of fs p)"

definition put :: "path \<Rightarrow> node \<Rightarrow> fs \<Rightarrow> fs" where
  "put p n fs = (if p \<in> fst ` set fs then map (\<lambda>(q, m). if q = p then (q, n) else (q, m)) fs else fs @ [(p, n)])"

definition cut :: "path \<Rightarrow> fs \<Rightarrow> fs" where
  "cut p fs = filter (\<lambda>(q, _). \<not> prefix p q) fs"

definition MAX_LINKS :: nat where "MAX_LINKS = 40"

text \<open>
  Resolution of a path from a real directory; a symbolic link at the end is followed on request. A missing last
  segment is not an error here.
\<close>

function (sequential) walk :: "fs \<Rightarrow> nat \<Rightarrow> bool \<Rightarrow> path \<Rightarrow> string list \<Rightarrow> errno + path" where
  "walk fs links follow cur [] = Inr cur"
| "walk fs links follow cur (s # ss) =
     (if s = [] \<or> s = ''.'' then walk fs links follow cur ss
      else if s = ''..'' then walk fs links follow (butlast cur) ss
      else (case look fs (cur @ [s]) of
          None \<Rightarrow> if ss = [] then Inr (cur @ [s]) else Inl ENOENT
        | Some (N_link t) \<Rightarrow>
            if ss = [] \<and> \<not> follow then Inr (cur @ [s])
            else if links = 0 then Inl ELOOP
            else walk fs (links - 1) follow (if js_starts_with t ''/'' then [] else cur) (js_split (CHR ''/'') t @ ss)
        | Some N_dir \<Rightarrow> walk fs links follow (cur @ [s]) ss
        | Some _ \<Rightarrow> if ss = [] then Inr (cur @ [s]) else Inl ENOTDIR))"
  by pat_completeness auto
termination
  by (relation "measures [\<lambda>(fs, links, follow, cur, ss). links, \<lambda>(fs, links, follow, cur, ss). length ss]") auto

declare walk.simps [simp del]

definition lstat :: "fs \<Rightarrow> path \<Rightarrow> errno + node" where
  "lstat fs p = res_bind (walk fs MAX_LINKS False [] p) (\<lambda>q. case look fs q of None \<Rightarrow> Inl ENOENT | Some n \<Rightarrow> Inr n)"

type_synonym 'a fs_act = "(fs, errno, 'a) act"

definition real_path :: "bool \<Rightarrow> path \<Rightarrow> path fs_act" where
  "real_path follow p fs = (walk fs MAX_LINKS follow [] p, fs)"

text \<open>\<open>mkdir(p, {recursive: true})\<close>, segment by segment.\<close>

fun mkdirs :: "path \<Rightarrow> string list \<Rightarrow> unit fs_act" where
  "mkdirs done [] fs = (Inr (), fs)"
| "mkdirs done (s # ss) fs =
     (let p = done @ [s]
      in case walk fs MAX_LINKS True [] p of
           Inl e \<Rightarrow> (Inl e, fs)
         | Inr q \<Rightarrow>
             (case look fs q of
                Some N_dir \<Rightarrow> mkdirs p ss fs
              | None \<Rightarrow> (if walk fs MAX_LINKS False [] p = Inr q then mkdirs p ss (put q N_dir fs) else (Inl EEXIST, fs))
              | Some _ \<Rightarrow> (Inl (if ss = [] then EEXIST else ENOTDIR), fs)))"

definition mkdir_p :: "path \<Rightarrow> unit fs_act" where
  "mkdir_p p = mkdirs [] p"

text \<open>\<open>rm(p, {recursive: true, force: true})\<close>\<close>

definition rm_rf :: "path \<Rightarrow> unit fs_act" where
  "rm_rf p fs = (case walk fs MAX_LINKS False [] p of
     Inl ENOENT \<Rightarrow> (Inr (), fs) | Inl e \<Rightarrow> (Inl e, fs) | Inr q \<Rightarrow> (Inr (), cut q fs))"

definition symlink :: "string \<Rightarrow> path \<Rightarrow> unit fs_act" where
  "symlink target p = act_bind (real_path False p) (\<lambda>q.
     act_bind (act_guard (\<lambda>fs. look fs q = None) EEXIST) (\<lambda>_. act_modify (put q (N_link target))))"

definition readlink :: "path \<Rightarrow> string fs_act" where
  "readlink p = act_bind (real_path False p) (\<lambda>q.
     act_bind (act_get (\<lambda>fs. look fs q)) (\<lambda>n.
     case n of Some (N_link t) \<Rightarrow> act_return t | None \<Rightarrow> act_throw ENOENT | _ \<Rightarrow> act_throw EINVAL))"

definition copyFile :: "path \<Rightarrow> path \<Rightarrow> unit fs_act" where
  "copyFile src dst = act_bind (real_path True src) (\<lambda>sp.
     act_bind (act_get (\<lambda>fs. look fs sp)) (\<lambda>n.
     case n of
       Some (N_file content exec) \<Rightarrow>
         act_bind (real_path True dst) (\<lambda>q.
         act_bind (act_guard (\<lambda>fs. look fs q \<noteq> Some N_dir) EINVAL) (\<lambda>_. act_modify (put q (N_file content exec))))
     | None \<Rightarrow> act_throw ENOENT
     | _ \<Rightarrow> act_throw EINVAL))"

text \<open>
  \<open>cp(src, dst, {recursive: true})\<close> of a directory to a place where nothing is: it copies the entries below it;
  relative link targets are made absolute (\<open>verbatimSymlinks\<close> is off), sockets and the like are refused.
\<close>

definition slash_path :: "path \<Rightarrow> string" where
  "slash_path p = concat (map (\<lambda>s. CHR ''/'' # s) p)"

fun normal :: "path \<Rightarrow> string list \<Rightarrow> path" where
  "normal cur [] = cur"
| "normal cur (s # ss) = normal (if s = [] \<or> s = ''.'' then cur else if s = ''..'' then butlast cur else cur @ [s]) ss"

definition absolute_target :: "path \<Rightarrow> string \<Rightarrow> string" where
  "absolute_target src target =
     (if js_starts_with target ''/'' then target else slash_path (normal (butlast src) (js_split (CHR ''/'') target)))"

fun copy_entries :: "path \<Rightarrow> path \<Rightarrow> path \<Rightarrow> (path \<times> node) list \<Rightarrow> unit fs_act" where
  "copy_entries src sp dst [] fs = (Inr (), fs)"
| "copy_entries src sp dst ((q, n) # es) fs =
     (let r = drop (length sp) q
      in case n of
           N_other \<Rightarrow> (Inl EINVAL, fs)
         | N_link t \<Rightarrow> copy_entries src sp dst es (put (dst @ r) (N_link (absolute_target (src @ r) t)) fs)
         | _ \<Rightarrow> copy_entries src sp dst es (put (dst @ r) n fs))"

definition cp_tree :: "path \<Rightarrow> path \<Rightarrow> unit fs_act" where
  "cp_tree src dst = act_bind (real_path False src) (\<lambda>sp.
     act_bind (real_path False dst) (\<lambda>q.
     act_bind (act_get (\<lambda>fs. look fs sp)) (\<lambda>n.
     if n \<noteq> Some N_dir then act_throw ENOENT
     else if prefix sp q then act_throw EINVAL
     else act_bind (act_get (\<lambda>fs. (sp, N_dir) # sort_key fst (filter (\<lambda>(p, _). strict_prefix sp p) fs))) (\<lambda>es.
       copy_entries src sp q es))))"

section \<open>Carrying the parent's work over\<close>

text \<open>A failure carries what a handler looks at: the code, or \<open>None\<close> for an error of the harness itself.\<close>

type_synonym fs_error = "errno option"

definition io :: "'a fs_act \<Rightarrow> (fs, fs_error, 'a) act" where
  "io m fs = (case m fs of (Inl e, fs') \<Rightarrow> (Inl (Some e), fs') | (Inr x, fs') \<Rightarrow> (Inr x, fs'))"

text \<open>\<open>path.join\<close> of a directory with a relative path, and \<open>path.relative\<close>.\<close>

definition path_join :: "path \<Rightarrow> string \<Rightarrow> path" where
  "path_join dir rel = normal dir (js_split (CHR ''/'') rel)"

definition path_relative :: "path \<Rightarrow> path \<Rightarrow> string list" where
  "path_relative from to =
     (let common = longest_common_prefix from to
      in replicate (length from - length common) ''..'' @ drop (length common) to)"

definition isInsideOrEqual :: "path \<Rightarrow> path \<Rightarrow> bool" where
  "isInsideOrEqual base candidate \<longleftrightarrow>
     (case path_relative base candidate of [] \<Rightarrow> True | s # _ \<Rightarrow> \<not> js_starts_with s ''..'')"

fun no_link_above :: "path \<Rightarrow> string list \<Rightarrow> (fs, fs_error, unit) act" where
  "no_link_above current [] fs = (Inr (), fs)"
| "no_link_above current (part # parts) fs =
     (case lstat fs (current @ [part]) of
        Inl ENOENT \<Rightarrow> (Inr (), fs)
      | Inl ENOTDIR \<Rightarrow> (Inr (), fs)
      | Inl e \<Rightarrow> (Inl (Some e), fs)
      | Inr (N_link _) \<Rightarrow> (Inl None, fs)
      | Inr N_dir \<Rightarrow> no_link_above (current @ [part]) parts fs
      | Inr _ \<Rightarrow> (Inr (), fs))"

definition assertNoDestinationSymlinkAncestor :: "path \<Rightarrow> path \<Rightarrow> (fs, fs_error, unit) act" where
  "assertNoDestinationSymlinkAncestor base dst =
     (if \<not> isInsideOrEqual base dst then act_throw None
      else if \<not> isInsideOrEqual base (butlast dst) then act_throw None
      else no_link_above base (path_relative base (butlast dst)))"

definition materializeEntry :: "path \<Rightarrow> path \<Rightarrow> path \<Rightarrow> (fs, fs_error, unit) act" where
  "materializeEntry src dst child =
     act_bind (act_get (\<lambda>fs. lstat fs src)) (\<lambda>info.
     let check = assertNoDestinationSymlinkAncestor child dst
     in case info of
          Inl e \<Rightarrow>
            if e = ENOENT \<or> e = ENOTDIR then act_bind check (\<lambda>_. io (rm_rf dst))
            else act_throw (Some e)
        | Inr n \<Rightarrow>
            act_bind check (\<lambda>_.
            act_bind (io (mkdir_p (butlast dst))) (\<lambda>_.
            act_bind check (\<lambda>_.
            act_bind (io (rm_rf dst)) (\<lambda>_.
            act_bind check (\<lambda>_.
            case n of
              N_link _ \<Rightarrow> act_bind (io (readlink src)) (\<lambda>t. io (symlink t dst))
            | N_dir \<Rightarrow> io (cp_tree src dst)
            | _ \<Rightarrow> io (copyFile src dst)))))))"

fun materialize_all :: "path \<Rightarrow> path \<Rightarrow> string list \<Rightarrow> (fs, fs_error, unit) act" where
  "materialize_all parent child [] = act_return ()"
| "materialize_all parent child (rel # rels) =
     act_bind (materializeEntry (path_join parent rel) (path_join child rel) child) (\<lambda>_. materialize_all parent child rels)"

text \<open>The world of the commands: the file system, and whatever else git changes.\<close>

record fs_world =
  fw_fs :: fs

definition on_fs :: "(fs, 'e, 'a) act \<Rightarrow> ('z fs_world_scheme, 'e, 'a) act" where
  "on_fs m w = (case m (fw_fs w) of (r, fs') \<Rightarrow> (r, w\<lparr>fw_fs := fs'\<rparr>))"

definition runResetStep :: "'w tools \<Rightarrow> string \<Rightarrow> nat \<Rightarrow> string list \<Rightarrow> ('w, string, unit) act" where
  "runResetStep tools cwd timeoutMs args w =
     (case tl_git tools cwd args w of
        (Inl e, w') \<Rightarrow> (Inl (''worktree reset step `git '' @ js_join '' '' args @ ''` errored: '' @ e), w')
      | (Inr r, w') \<Rightarrow>
          if gr_timedOut r then
            (Inl (''worktree reset step `git '' @ js_join '' '' args @ ''` timed out after '' @ js_nat timeoutMs @ ''ms''), w')
          else if gr_exitCode r \<noteq> 0 then
            (Inl (''worktree reset step `git '' @ js_join '' '' args @ ''` failed ('' @ js_int (gr_exitCode r) @ ''): ''
              @ js_trim (gr_stderr r)), w')
          else (Inr (), w'))"

definition resetWorktreeToBase :: "'w tools \<Rightarrow> string \<Rightarrow> string \<Rightarrow> nat \<Rightarrow> ('w, string, unit) act" where
  "resetWorktreeToBase tools worktreePath baseSha gitTimeoutMs =
     act_bind (runResetStep tools worktreePath gitTimeoutMs [''reset'', ''--hard'', baseSha]) (\<lambda>_.
     runResetStep tools worktreePath gitTimeoutMs [''clean'', ''-ffdx''])"

definition normalizeWorktreeIndexToBase :: "'w tools \<Rightarrow> string \<Rightarrow> string \<Rightarrow> nat \<Rightarrow> ('w, string, unit) act" where
  "normalizeWorktreeIndexToBase tools worktreePath baseSha gitTimeoutMs =
     runResetStep tools worktreePath gitTimeoutMs [''reset'', ''--mixed'', baseSha]"

datatype skip_reason = Parent_run_missing | Parent_work_unavailable | Base_advanced | Parent_work_unmaterializable
  | Parent_not_validated

datatype materialize_outcome = Materialized "string list" | Skipped skip_reason

text \<open>The error is the message of a \<open>WorktreeResetError\<close>.\<close>

definition materializeParentWork ::
  "glob_matcher \<Rightarrow> 'z fs_world_scheme tools \<Rightarrow> path \<Rightarrow> path \<Rightarrow> string \<Rightarrow> resolved_policy \<Rightarrow> nat
     \<Rightarrow> ('z fs_world_scheme, string, materialize_outcome) act" where
  "materializeParentWork mm tools parent child baseSha policy gitTimeoutMs w =
     (case collectDiff tools (slash_path parent) baseSha gitTimeoutMs w of
        (Inl _, w1) \<Rightarrow> (Inr (Skipped Parent_work_unavailable), w1)
      | (Inr diff, w1) \<Rightarrow>
          (let kept = fst (partitionUntracked mm (df_untrackedPaths diff) (po_ignoreUntracked policy));
               surface = js_set (df_trackedChangedPaths diff @ kept)
           in if surface = [] then (Inr (Skipped Parent_work_unavailable), w1)
              else case on_fs (materialize_all parent child surface) w1 of
                (Inr _, w2) \<Rightarrow> (Inr (Materialized surface), w2)
              | (Inl _, w2) \<Rightarrow>
                  act_bind (resetWorktreeToBase tools (slash_path child) baseSha gitTimeoutMs) (\<lambda>_.
                    act_return (Skipped Parent_work_unmaterializable)) w2))"

section \<open>Well-formed file systems\<close>

definition fs_ok :: "fs \<Rightarrow> bool" where
  "fs_ok fs \<longleftrightarrow> distinct (map fst fs) \<and> (\<forall>p s. look fs (p @ [s]) \<noteq> None \<longrightarrow> look fs p = Some N_dir)"

definition plain :: "string \<Rightarrow> bool" where
  "plain s \<longleftrightarrow> s \<noteq> [] \<and> s \<noteq> ''.'' \<and> s \<noteq> ''..''"

text \<open>The work tree is a real directory, and not the top of the file system.\<close>

definition rooted :: "path \<Rightarrow> fs \<Rightarrow> bool" where
  "rooted child fs \<longleftrightarrow> fs_ok fs \<and> child \<noteq> [] \<and> list_all plain child \<and> look fs child = Some N_dir"

lemma look_Nil [simp]: "look fs [] = Some N_dir"
  by (simp add: look_def)

lemma map_of_replace:
  "map_of (map (\<lambda>(q, m). if q = p then (q, n) else (q, m)) xs) q = (if q = p \<and> p \<in> fst ` set xs then Some n else map_of xs q)"
proof (induction xs)
  case (Cons x xs)
  then show ?case by (cases x; cases "q = p"; cases "fst x = p") auto
qed simp

lemma map_of_put: "map_of (put p n fs) q = (if q = p then Some n else map_of fs q)"
proof (cases "p \<in> fst ` set fs")
  case False
  then have "map_of fs p = None" by (simp add: map_of_eq_None_iff)
  then show ?thesis using False by (cases "map_of fs q") (auto simp add: put_def map_add_def)
qed (simp add: put_def map_of_replace)

lemma look_put: "look (put p n fs) q = (if q = [] then Some N_dir else if q = p then Some n else look fs q)"
  by (simp add: look_def map_of_put)

lemma look_cut: "look (cut p fs) q = (if q \<noteq> [] \<and> prefix p q then None else look fs q)"
proof -
  have "map_of (filter (\<lambda>(q, _). \<not> prefix p q) xs) q = (if prefix p q then None else map_of xs q)" for xs
    by (induction xs) auto
  from this [of fs] show ?thesis by (simp add: look_def cut_def)
qed

lemma distinct_put: "distinct (map fst fs) \<Longrightarrow> distinct (map fst (put p n fs))"
proof -
  have "map fst (map (\<lambda>(q, m). if q = p then (q, n) else (q, m)) xs) = map fst xs" for xs
    by (induction xs) auto
  from this [of fs] show "distinct (map fst fs) \<Longrightarrow> ?thesis"
    by (cases "p \<in> fst ` set fs") (simp_all only: put_def if_True if_False, auto)
qed

lemma distinct_cut: "distinct (map fst fs) \<Longrightarrow> distinct (map fst (cut p fs))"
  unfolding cut_def by (rule distinct_map_filter)

lemma dir_above: "fs_ok fs \<Longrightarrow> look fs (p @ q) \<noteq> None \<Longrightarrow> q \<noteq> [] \<Longrightarrow> look fs p = Some N_dir"
proof (induction q rule: rev_induct)
  case (snoc s q)
  then have "look fs (p @ q) = Some N_dir" unfolding fs_ok_def by (metis append_assoc)
  then show ?case using snoc by (cases "q = []") auto
qed simp

lemma nothing_below: "fs_ok fs \<Longrightarrow> look fs p = None \<Longrightarrow> look fs (p @ q) = None"
  using dir_above [of fs p q] by (cases "q = []"; cases "look fs (p @ q)") auto

lemma fs_ok_cut: "fs_ok fs \<Longrightarrow> fs_ok (cut p fs)"
  unfolding fs_ok_def
proof (intro conjI allI impI)
  fix q s assume fs: "distinct (map fst fs) \<and> (\<forall>p s. look fs (p @ [s]) \<noteq> None \<longrightarrow> look fs p = Some N_dir)"
    and some: "look (cut p fs) (q @ [s]) \<noteq> None"
  then have "\<not> prefix p (q @ [s])" "look fs q = Some N_dir" by (auto simp: look_cut split: if_splits)
  then show "look (cut p fs) q = Some N_dir" by (auto simp: look_cut)
qed (simp add: distinct_cut)

lemma fs_ok_put:
  assumes "fs_ok fs" "look fs p = Some N_dir" "look fs (p @ [s]) = None"
  shows "fs_ok (put (p @ [s]) n fs)"
proof -
  have "look (put (p @ [s]) n fs) q = Some N_dir" if some: "look (put (p @ [s]) n fs) (q @ [t]) \<noteq> None" for q t
  proof (cases "q @ [t] = p @ [s]")
    case True
    then have "q = p" by simp
    moreover have "p \<noteq> p @ [s]" by simp
    ultimately show ?thesis using assms by (simp add: look_put)
  next
    case False
    have "look (put (p @ [s]) n fs) (q @ [t]) = look fs (q @ [t])" using False unfolding look_put by auto
    then have "look fs (q @ [t]) \<noteq> None" using some by argo
    moreover from this have "q \<noteq> p @ [s]" using nothing_below [OF assms(1,3), of "[t]"] by auto
    ultimately show ?thesis using assms(1) by (auto simp: look_put fs_ok_def)
  qed
  then show ?thesis using assms(1) distinct_put by (auto simp: fs_ok_def)
qed

lemma fs_ok_check:
  assumes "distinct (map fst fs)" "list_all (\<lambda>(p, _). look fs (butlast p) = Some N_dir) fs"
  shows "fs_ok fs"
proof -
  have "look fs p = Some N_dir" if "look fs (p @ [s]) \<noteq> None" for p s
  proof -
    from that obtain n where "(p @ [s], n) \<in> set fs" by (auto simp: look_def dest: map_of_SomeD)
    then show ?thesis using assms(2) by (auto simp: list_all_iff)
  qed
  then show ?thesis using assms(1) by (simp add: fs_ok_def)
qed

section \<open>Walking through real directories\<close>

lemma walk_dirs:
  "fs_ok fs \<Longrightarrow> look fs (cur @ segs) = Some N_dir \<Longrightarrow> list_all plain segs \<Longrightarrow>
   walk fs n f cur (segs @ rest) = walk fs n f (cur @ segs) rest"
proof (induction segs arbitrary: cur)
  case (Cons s segs)
  have "look fs (cur @ [s]) = Some N_dir"
    using dir_above [OF Cons.prems(1), of "cur @ [s]" segs] Cons.prems(2) by (cases "segs = []") auto
  then show ?case using Cons.IH [of "cur @ [s]"] Cons.prems by (simp add: walk.simps plain_def)
qed simp

lemma walk_last: "plain s \<Longrightarrow> walk fs n False cur [s] = Inr (cur @ [s])"
  by (auto simp: walk.simps plain_def split: option.splits node.splits)

lemma walk_last_follow:
  "plain s \<Longrightarrow> (\<And>t. look fs (cur @ [s]) \<noteq> Some (N_link t)) \<Longrightarrow> walk fs n True cur [s] = Inr (cur @ [s])"
  by (auto simp: walk.simps plain_def split: option.splits node.splits)

text \<open>A path whose directory is real.\<close>

lemma walk_real:
  assumes "fs_ok fs" "look fs p = Some N_dir" "list_all plain (p @ [s])"
  shows "walk fs n False [] (p @ [s]) = Inr (p @ [s])"
    and "(\<And>t. look fs (p @ [s]) \<noteq> Some (N_link t)) \<Longrightarrow> walk fs n True [] (p @ [s]) = Inr (p @ [s])"
  using walk_dirs [of fs "[]" p n _ "[s]"] assms walk_last walk_last_follow by auto

lemma lstat_real:
  assumes "fs_ok fs" "look fs p = Some N_dir" "list_all plain (p @ [s])"
  shows "lstat fs (p @ [s]) = (case look fs (p @ [s]) of None \<Rightarrow> Inl ENOENT | Some n \<Rightarrow> Inr n)"
  by (simp add: lstat_def walk_real(1) [OF assms])

text \<open>No symbolic link on the way down, up to the first segment that is not a directory.\<close>

fun clear_way :: "fs \<Rightarrow> path \<Rightarrow> string list \<Rightarrow> bool" where
  "clear_way fs cur [] = True"
| "clear_way fs cur (s # ss) =
     (case look fs (cur @ [s]) of Some N_dir \<Rightarrow> clear_way fs (cur @ [s]) ss | Some (N_link _) \<Rightarrow> False | _ \<Rightarrow> True)"

lemma no_link_above_clear:
  assumes "no_link_above cur parts fs = (r, fs')" "fs_ok fs" "look fs cur = Some N_dir" "list_all plain (cur @ parts)"
  shows "fs' = fs \<and> (r = Inr () \<longrightarrow> clear_way fs cur parts)"
  using assms
proof (induction cur parts fs rule: no_link_above.induct)
  case (2 cur part parts fs)
  have "lstat fs (cur @ [part]) = (case look fs (cur @ [part]) of None \<Rightarrow> Inl ENOENT | Some n \<Rightarrow> Inr n)"
    by (rule lstat_real) (use "2.prems" in auto)
  then show ?case using 2 by (auto split: option.splits node.splits)
qed simp

lemma walk_clear:
  "clear_way fs cur ss \<Longrightarrow> list_all plain (ss @ [s]) \<Longrightarrow>
   walk fs n False cur (ss @ [s]) \<in> {Inr (cur @ ss @ [s]), Inl ENOENT, Inl ENOTDIR}"
proof (induction ss arbitrary: cur)
  case (Cons t ss)
  then show ?case using Cons.IH [of "cur @ [t]"] by (auto simp: walk.simps plain_def split: option.splits node.splits)
qed (simp add: walk_last)

text \<open>Creating the directories above a path.\<close>

definition same_outside :: "path \<Rightarrow> fs \<Rightarrow> fs \<Rightarrow> bool" where
  "same_outside child fs fs' \<longleftrightarrow> (\<forall>p. \<not> strict_prefix child p \<longrightarrow> look fs' p = look fs p)"

lemma same_outside_trans: "same_outside c a b \<Longrightarrow> same_outside c b d \<Longrightarrow> same_outside c a d"
  by (simp add: same_outside_def)

lemma same_outside_refl: "same_outside c a a"
  by (simp add: same_outside_def)

lemma mkdirs_dirs:
  "fs_ok fs \<Longrightarrow> look fs (cur @ segs) = Some N_dir \<Longrightarrow> list_all plain (cur @ segs) \<Longrightarrow>
   mkdirs cur (segs @ rest) fs = mkdirs (cur @ segs) rest fs"
proof (induction segs arbitrary: cur)
  case (Cons s segs)
  have dir: "look fs (cur @ [s]) = Some N_dir" "look fs cur = Some N_dir"
    using dir_above [OF Cons.prems(1), of "cur @ [s]" segs] dir_above [OF Cons.prems(1), of cur "s # segs"] Cons.prems(2)
    by (cases "segs = []"; auto)+
  have "walk fs MAX_LINKS True [] (cur @ [s]) = Inr (cur @ [s])"
    by (rule walk_real(2)) (use dir Cons.prems in auto)
  then show ?case using Cons.IH [of "cur @ [s]"] Cons.prems dir by simp
qed simp

lemma mkdirs_clear:
  assumes "mkdirs cur ss fs = (r, fs')" "fs_ok fs" "look fs cur = Some N_dir" "list_all plain (cur @ ss)" "clear_way fs cur ss"
  shows "fs_ok fs' \<and> same_outside cur fs fs' \<and> (r = Inr () \<longrightarrow> look fs' (cur @ ss) = Some N_dir)"
  using assms
proof (induction ss arbitrary: cur fs)
  case (Cons s ss)
  let ?p = "cur @ [s]"
  have nofollow: "walk fs MAX_LINKS False [] ?p = Inr ?p" by (rule walk_real(1)) (use Cons.prems in auto)
  have follow: "walk fs MAX_LINKS True [] ?p = Inr ?p"
    by (rule walk_real(2)) (use Cons.prems in \<open>auto split: option.splits node.splits\<close>)
  have weaker: "same_outside cur a b" if "same_outside ?p a b" for a b
  proof -
    have "strict_prefix cur x" if "strict_prefix ?p x" for x
      using prefix_order.less_trans [of cur ?p x] that by (simp add: strict_prefixI')
    then show ?thesis using that unfolding same_outside_def by blast
  qed
  show ?case
  proof (cases "look fs ?p")
    case None
    let ?fs = "put ?p N_dir fs"
    have ok: "fs_ok ?fs" by (rule fs_ok_put) (use Cons.prems None in auto)
    have below: "look ?fs (?p @ t # ts) = None" for t ts
      using nothing_below [OF Cons.prems(2) None, of "t # ts"] by (simp add: look_put)
    have "clear_way ?fs ?p ss" using below by (cases ss) auto
    moreover have "mkdirs ?p ss ?fs = (r, fs')" using Cons.prems(1) nofollow follow None by (simp add: Let_def)
    ultimately have "fs_ok fs' \<and> same_outside ?p ?fs fs' \<and> (r = Inr () \<longrightarrow> look fs' (?p @ ss) = Some N_dir)"
      using Cons.IH [of ?p ?fs] ok Cons.prems(4) by (simp add: look_put)
    moreover have "same_outside cur fs ?fs"
      using strict_prefixI' [of ?p cur s "[]"] by (auto simp: same_outside_def look_put)
    ultimately show ?thesis using weaker same_outside_trans by auto
  next
    case (Some n)
    then show ?thesis
      using Cons.prems nofollow follow Cons.IH [of ?p fs] weaker same_outside_refl by (cases n) auto
  qed
qed (auto simp: same_outside_refl)

section \<open>Writing below a directory\<close>

text \<open>Where a step at \<open>d\<close> may write: at \<open>d\<close> and below.\<close>

definition same_off :: "path \<Rightarrow> fs \<Rightarrow> fs \<Rightarrow> bool" where
  "same_off d fs fs' \<longleftrightarrow> (\<forall>p. \<not> prefix d p \<longrightarrow> look fs' p = look fs p)"

lemma same_off_outside: "same_off d fs fs' \<Longrightarrow> strict_prefix child d \<Longrightarrow> same_outside child fs fs'"
  unfolding same_off_def same_outside_def using prefix_order.less_le_trans by blast

lemma same_off_trans: "same_off d a b \<Longrightarrow> same_off d b c \<Longrightarrow> same_off d a c"
  by (simp add: same_off_def)

lemma same_off_refl [simp]: "same_off d a a"
  by (simp add: same_off_def)

lemma same_off_put: "prefix d q \<Longrightarrow> same_off d fs (put q n fs)"
  by (auto simp: same_off_def look_put)

lemma same_off_cut: "same_off d fs (cut d fs)"
  by (auto simp: same_off_def look_cut)

text \<open>A place to write to: its directory is real, and nothing is there.\<close>

definition vacant :: "path \<Rightarrow> fs \<Rightarrow> bool" where
  "vacant d fs \<longleftrightarrow> fs_ok fs \<and> d \<noteq> [] \<and> list_all plain d \<and> look fs (butlast d) = Some N_dir \<and> look fs d = None"

lemma vacantE:
  assumes "vacant d fs"
  obtains p s where "d = p @ [s]" "fs_ok fs" "look fs p = Some N_dir" "look fs (p @ [s]) = None" "list_all plain (p @ [s])"
  using assms unfolding vacant_def by (metis append_butlast_last_id)

lemma vacant_walk:
  assumes "vacant d fs"
  shows "walk fs n f [] d = Inr d"
  using assms by (elim vacantE, cases f) (simp_all add: walk_real)

lemma fs_ok_put_vacant: "vacant d fs \<Longrightarrow> fs_ok (put d n fs)"
  by (elim vacantE) (simp add: fs_ok_put)

lemma symlink_vacant:
  "symlink t d fs = (r, fs') \<Longrightarrow> vacant d fs \<Longrightarrow> fs_ok fs' \<and> same_off d fs fs'"
  by (auto simp: symlink_def real_path_def vacant_walk act_bind_def act_guard_def act_modify_def fs_ok_put_vacant
      same_off_put vacant_def split: if_splits)

lemma readlink_same: "readlink p fs = (r, fs') \<Longrightarrow> fs' = fs"
  by (auto simp: readlink_def real_path_def act_bind_def act_get_def act_return_def act_throw_def
      split: option.splits node.splits sum.splits)

lemma copyFile_vacant:
  "copyFile src d fs = (r, fs') \<Longrightarrow> vacant d fs \<Longrightarrow> fs_ok fs' \<and> same_off d fs fs'"
  by (auto simp: copyFile_def real_path_def vacant_walk act_bind_def act_get_def act_guard_def act_modify_def act_throw_def
      fs_ok_put_vacant same_off_put vacant_def split: option.splits node.splits sum.splits if_splits)

text \<open>Copying a tree: the entries come with their directories first.\<close>

definition tree_entries :: "path \<Rightarrow> (path \<times> node) list \<Rightarrow> bool" where
  "tree_entries sp es \<longleftrightarrow> distinct (map fst es) \<and> (\<forall>i < length es. prefix sp (fst (es ! i))
     \<and> (\<forall>r s. fst (es ! i) = sp @ r @ [s] \<longrightarrow> (sp @ r, N_dir) \<in> set (take i es)))"

definition copied :: "path \<Rightarrow> path \<Rightarrow> fs \<Rightarrow> (path \<times> node) list \<Rightarrow> fs \<Rightarrow> bool" where
  "copied sp dst fs0 es fs \<longleftrightarrow> fs_ok fs \<and> same_off dst fs0 fs \<and> look fs (butlast dst) = Some N_dir
     \<and> (\<forall>r. look fs (dst @ r) \<noteq> None \<longleftrightarrow> sp @ r \<in> fst ` set es)
     \<and> (\<forall>r. (sp @ r, N_dir) \<in> set es \<longrightarrow> look fs (dst @ r) = Some N_dir)"

lemma copied_put:
  assumes "copied sp dst fs0 es fs" "sp @ r \<notin> fst ` set es" "dst \<noteq> []" "\<And>q s. r = q @ [s] \<Longrightarrow> (sp @ q, N_dir) \<in> set es"
    "n = N_dir \<Longrightarrow> n' = N_dir"
  shows "copied sp dst fs0 (es @ [(sp @ r, n)]) (put (dst @ r) n' fs)"
proof -
  have none: "look fs (dst @ r) = None" using assms(1,2) unfolding copied_def by blast
  have "fs_ok (put (dst @ r) n' fs)"
  proof (cases r rule: rev_cases)
    case Nil
    then show ?thesis using assms(1,3) none fs_ok_put [of fs "butlast dst" "last dst"] by (simp add: copied_def)
  next
    case (snoc q s)
    then have "look fs (dst @ q) = Some N_dir" using assms(1,4) by (auto simp: copied_def)
    then show ?thesis using assms(1) snoc none fs_ok_put [of fs "dst @ q" s] by (simp add: copied_def)
  qed
  moreover have "butlast dst \<noteq> dst @ r" using assms(3) by (metis length_butlast length_append diff_less length_greater_0_conv less_one not_add_less1 trans_less_add1)
  ultimately show ?thesis
    using assms(1,2,5) none same_off_trans [OF _ same_off_put [of dst "dst @ r" fs n']] assms(3)
    by (auto simp: copied_def look_put)
qed

lemma copy_entries_copied:
  assumes "copy_entries src sp dst es fs = (r, fs')" "tree_entries sp (xs @ es)" "copied sp dst fs0 xs fs" "dst \<noteq> []"
  shows "fs_ok fs' \<and> same_off dst fs0 fs'"
  using assms
proof (induction es arbitrary: xs fs)
  case (Cons e es)
  obtain q n where e: "e = (q, n)" by (cases e)
  have q: "prefix sp q" "\<And>r s. q = sp @ r @ [s] \<Longrightarrow> (sp @ r, N_dir) \<in> set xs" and new: "q \<notin> fst ` set xs"
    using Cons.prems(2) unfolding tree_entries_def e by (auto dest!: spec [of _ "length xs"])
  from q(1) obtain r' where r': "q = sp @ r'" by (auto simp: prefix_def)
  have step: "copied sp dst fs0 (xs @ [e]) (put (dst @ r') n' fs)" if "n = N_dir \<longrightarrow> n' = N_dir" for n'
    using copied_put [OF Cons.prems(3), of r' n n'] q(2) new that Cons.prems(4) unfolding r' e by auto
  have go_on: "fs_ok fs' \<and> same_off dst fs0 fs'"
    if "copy_entries src sp dst es (put (dst @ r') n' fs) = (r, fs')" "n = N_dir \<longrightarrow> n' = N_dir" for n'
    by (rule Cons.IH [OF that(1) _ step [OF that(2)]]) (use Cons.prems in simp_all)
  show ?case
  proof (cases "n = N_other")
    case True
    then show ?thesis using Cons.prems(1,3) by (simp add: e copied_def)
  next
    case False
    then have "\<exists>n'. copy_entries src sp dst es (put (dst @ r') n' fs) = (r, fs') \<and> (n = N_dir \<longrightarrow> n' = N_dir)"
      using Cons.prems(1) by (cases n) (auto simp: e r' Let_def)
    then show ?thesis using go_on by blast
  qed
qed (auto simp: copied_def)

lemma entry_before:
  assumes "sorted (map fst es)" "i < length es" "fst (es ! i) = p @ [s]" "(p, N_dir) \<in> set es"
  shows "(p, N_dir) \<in> set (take i (es :: (path \<times> node) list))"
proof -
  obtain j where j: "j < length es" "es ! j = (p, N_dir)" using assms(4) by (auto simp: in_set_conv_nth)
  have "p < p @ [s]" by (simp add: list_less_def lexord_append_rightI)
  have "\<not> i \<le> j"
  proof
    assume "i \<le> j"
    then have "map fst es ! i \<le> map fst es ! j" using assms(1) j(1) by (intro sorted_nth_mono) auto
    then show False using \<open>p < p @ [s]\<close> assms(2,3) j by simp
  qed
  then show ?thesis using j by (auto simp: in_set_conv_nth intro!: exI [of _ j])
qed

lemma tree_entries_of:
  assumes "fs_ok fs"
  shows "tree_entries sp ((sp, N_dir) # sort_key fst (filter (\<lambda>(p, _). strict_prefix sp p) fs))"
proof -
  let ?ts = "sort_key fst (filter (\<lambda>(p, _). strict_prefix sp p) fs)"
  have d: "distinct (map fst fs)" using assms by (simp add: fs_ok_def)
  have "distinct (map fst ?ts)"
    using distinct_map_filter [OF d] by (simp add: distinct_map)
  moreover have "sp \<notin> fst ` set ?ts" by auto
  moreover have "(sp @ r, N_dir) \<in> set ((sp, N_dir) # take i ?ts)" if i: "i < length ?ts" "fst (?ts ! i) = sp @ r @ [s]" for i r s
  proof (cases "r = []")
    case False
    have "?ts ! i \<in> set ?ts" using i(1) by (rule nth_mem)
    then have "?ts ! i \<in> set fs" by simp
    then obtain n where "(sp @ r @ [s], n) \<in> set fs" using i(2) by (metis prod.collapse)
    then have "look fs ((sp @ r) @ [s]) \<noteq> None" using d by (simp add: look_def)
    then have "look fs (sp @ r) = Some N_dir" using assms unfolding fs_ok_def by blast
    then have "(sp @ r, N_dir) \<in> set fs" using False by (auto simp: look_def dest: map_of_SomeD)
    moreover have "strict_prefix sp (sp @ r)" using False by (simp add: strict_prefix_def)
    ultimately have "(sp @ r, N_dir) \<in> set ?ts" by simp
    then show ?thesis using entry_before [of ?ts i "sp @ r" s] i by simp
  qed simp
  moreover have "prefix sp (fst (?ts ! i))" if "i < length ?ts" for i
  proof -
    have "?ts ! i \<in> set ?ts" using that by (rule nth_mem)
    then have "strict_prefix sp (fst (?ts ! i))" unfolding set_sort set_filter by (simp add: case_prod_unfold)
    then show ?thesis by (simp add: strict_prefix_def)
  qed
  ultimately show ?thesis unfolding tree_entries_def by (auto simp: nth_Cons split: nat.splits)
qed

lemma cp_tree_vacant:
  assumes "cp_tree src d fs = (r, fs')" "vacant d fs"
  shows "fs_ok fs' \<and> same_off d fs fs'"
proof -
  have ok: "fs_ok fs" "d \<noteq> []" "look fs (butlast d) = Some N_dir" "look fs d = None" using assms(2) by (auto simp: vacant_def)
  have start: "copied sp d fs [] fs" for sp
    using ok nothing_below [OF ok(1,4)] by (simp add: copied_def)
  have "fs_ok fs' \<and> same_off d fs fs'"
    if "copy_entries src sp d ((sp, N_dir) # sort_key fst (filter (\<lambda>(p, _). strict_prefix sp p) fs)) fs = (r, fs')" for sp
    by (rule copy_entries_copied [OF that _ start ok(2)]) (use tree_entries_of [OF ok(1)] in simp)
  then show ?thesis
    using assms(1) ok(1)
    by (auto simp: cp_tree_def real_path_def vacant_walk [OF assms(2)] act_bind_def act_get_def act_throw_def
      split: sum.splits if_splits simp del: copy_entries.simps)
qed

section \<open>Nothing outside the work tree is touched\<close>

lemma plain_normal: "list_all plain cur \<Longrightarrow> list_all plain (normal cur ss)"
proof (induction ss arbitrary: cur)
  case (Cons s ss)
  have "list_all plain (butlast cur)" using Cons.prems by (auto simp: list_all_iff dest: in_set_butlastD)
  moreover have "plain s" if "s \<noteq> []" "s \<noteq> ''.''" "s \<noteq> ''..''" using that by (simp add: plain_def)
  ultimately show ?case
    using Cons.IH [of cur] Cons.IH [of "butlast cur"] Cons.IH [of "cur @ [s]"] Cons.prems by auto
qed simp

lemma inside_prefix:
  assumes "isInsideOrEqual base p"
  shows "\<exists>rs. p = base @ rs \<and> path_relative base p = rs"
proof -
  let ?c = "longest_common_prefix base p"
  have c: "prefix ?c base" "prefix ?c p" by (simp_all add: longest_common_prefix_prefix1 longest_common_prefix_prefix2)
  have "length base \<le> length ?c"
  proof (rule ccontr)
    assume "\<not> length base \<le> length ?c"
    then obtain k where "length base - length ?c = Suc k" by (cases "length base - length ?c") auto
    then show False using assms by (simp add: isInsideOrEqual_def path_relative_def Let_def js_starts_with_def)
  qed
  then have "?c = base" using c(1) by (metis prefix_length_le prefix_order.antisym_conv2 prefix_length_less strict_prefix_def not_le)
  then show ?thesis using c(2) by (auto simp: path_relative_def Let_def prefix_def)
qed

lemma check_passed:
  assumes "assertNoDestinationSymlinkAncestor child dst fs = (r, fs')" "rooted child fs" "list_all plain dst"
  shows "fs' = fs" "r = Inr () \<Longrightarrow> \<exists>ds s. dst = child @ ds @ [s] \<and> clear_way fs child ds"
proof -
  have *: "fs' = fs \<and> (r = Inr () \<longrightarrow> (\<exists>ds s. dst = child @ ds @ [s] \<and> clear_way fs child ds))"
  proof (cases "isInsideOrEqual child dst \<and> isInsideOrEqual child (butlast dst)")
    case True
    then obtain ds where ds: "butlast dst = child @ ds" "path_relative child (butlast dst) = ds"
      using inside_prefix by blast
    moreover have "dst \<noteq> []" using ds(1) assms(2) by (auto simp: rooted_def)
    ultimately have dst: "dst = child @ ds @ [last dst]" using append_butlast_last_id [of dst] by simp
    have "list_all plain (child @ ds)"
      using assms(3) dst by (metis append_assoc list_all_append)
    moreover have "no_link_above child ds fs = (r, fs')"
      using assms(1) True ds by (simp add: assertNoDestinationSymlinkAncestor_def)
    ultimately show ?thesis using no_link_above_clear [of child ds fs r fs'] assms(2) dst by (auto simp: rooted_def)
  qed (use assms(1) in \<open>auto simp: assertNoDestinationSymlinkAncestor_def act_throw_def split: if_splits\<close>)
  show "fs' = fs" "r = Inr () \<Longrightarrow> \<exists>ds s. dst = child @ ds @ [s] \<and> clear_way fs child ds" using * by auto
qed

lemma strict_child: "strict_prefix child (child @ ds @ [s])"
  by (simp add: strict_prefix_def)

lemma rooted_after:
  assumes "rooted child fs" "fs_ok fs'" "same_off (child @ ds @ [s]) fs fs'"
  shows "rooted child fs' \<and> same_outside child fs fs'"
proof -
  have out: "same_outside child fs fs'" by (rule same_off_outside [OF assms(3) strict_child])
  then have "look fs' child = look fs child" by (simp add: same_outside_def)
  then show ?thesis using assms(1,2) out by (simp add: rooted_def)
qed

lemma rm_rf_clear:
  assumes "rm_rf (child @ ds @ [s]) fs = (r, fs')" "rooted child fs" "list_all plain (child @ ds @ [s])" "clear_way fs child ds"
  shows "rooted child fs' \<and> same_outside child fs fs'"
proof -
  let ?d = "child @ ds @ [s]"
  have ok: "fs_ok fs" "look fs child = Some N_dir" "list_all plain child" "list_all plain (ds @ [s])"
    using assms(2,3) by (auto simp: rooted_def)
  have "walk fs MAX_LINKS False [] ?d = walk fs MAX_LINKS False child (ds @ [s])"
    using walk_dirs [OF ok(1), of "[]" child] ok by simp
  then have "fs' = fs \<or> fs' = cut ?d fs"
    using walk_clear [OF assms(4) ok(4), of MAX_LINKS] assms(1) by (auto simp: rm_rf_def)
  then show ?thesis
    using rooted_after [OF assms(2) fs_ok_cut [OF ok(1)] same_off_cut] assms(2) same_outside_refl by auto
qed

text \<open>The last check passed and the way to the place was made: it is vacant once it is removed.\<close>

lemma rm_rf_vacant:
  assumes "rm_rf (p @ [s]) fs = (Inr (), fs')" "fs_ok fs" "look fs p = Some N_dir" "list_all plain (p @ [s])"
  shows "vacant (p @ [s]) fs' \<and> same_off (p @ [s]) fs fs'"
proof -
  have "fs' = cut (p @ [s]) fs" using assms walk_real(1) [OF assms(2-4)] by (simp add: rm_rf_def)
  then show ?thesis
    using assms(2-4) fs_ok_cut same_off_cut by (auto simp: vacant_def look_cut prefix_def)
qed

lemma mkdir_p_clear:
  assumes "mkdir_p (child @ ds) fs = (r, fs')" "rooted child fs" "list_all plain (child @ ds)" "clear_way fs child ds"
  shows "rooted child fs' \<and> same_outside child fs fs' \<and> (r = Inr () \<longrightarrow> look fs' (child @ ds) = Some N_dir)"
proof -
  have ok: "fs_ok fs" "look fs child = Some N_dir" "list_all plain child" using assms(2) by (auto simp: rooted_def)
  have "mkdirs child ds fs = (r, fs')"
    using assms(1) mkdirs_dirs [OF ok(1), of "[]" child ds] ok by (simp add: mkdir_p_def)
  then have made: "fs_ok fs' \<and> same_outside child fs fs' \<and> (r = Inr () \<longrightarrow> look fs' (child @ ds) = Some N_dir)"
    using mkdirs_clear [OF _ ok(1,2) assms(3,4)] by simp
  then have "look fs' child = look fs child" by (simp add: same_outside_def)
  then show ?thesis using made assms(2) by (simp add: rooted_def)
qed

text \<open>The steps at the end of \<open>materializeEntry\<close>, at a vacant place.\<close>

definition write_entry :: "path \<Rightarrow> path \<Rightarrow> node \<Rightarrow> (fs, fs_error, unit) act" where
  "write_entry src dst n =
     (case n of
        N_link _ \<Rightarrow> act_bind (io (readlink src)) (\<lambda>t. io (symlink t dst))
      | N_dir \<Rightarrow> io (cp_tree src dst)
      | _ \<Rightarrow> io (copyFile src dst))"

lemma io_result: "io m fs = (r, fs') \<Longrightarrow> \<exists>r'. m fs = (r', fs')"
  by (auto simp: io_def split: prod.splits sum.splits)

lemma write_entry_vacant:
  assumes "write_entry src d n fs = (r, fs')" "vacant d fs"
  shows "fs_ok fs' \<and> same_off d fs fs'"
proof (cases n)
  case (N_link t)
  obtain r1 fs1 where rl: "readlink src fs = (r1, fs1)" by (cases "readlink src fs")
  then have "fs1 = fs" by (rule readlink_same)
  then have "fs' = fs \<or> (\<exists>t r'. symlink t d fs = (r', fs'))"
    using assms(1) N_link rl io_result by (auto simp: write_entry_def act_bind_def io_def split: sum.splits prod.splits)
  then show ?thesis using symlink_vacant [OF _ assms(2)] assms(2) by (auto simp: vacant_def)
next
  case N_dir
  then obtain r' where "cp_tree src d fs = (r', fs')" using assms(1) io_result unfolding write_entry_def by fastforce
  then show ?thesis by (rule cp_tree_vacant [OF _ assms(2)])
qed (use assms io_result copyFile_vacant in \<open>fastforce simp: write_entry_def\<close>)+

text \<open>An entry that is there, once the first check has passed.\<close>

lemma present_steps:
  assumes "lstat fs src = Inr n" "assertNoDestinationSymlinkAncestor child dst fs = (Inr (), fs)"
    and "mkdir_p (butlast dst) fs = (r1, fs1)" "assertNoDestinationSymlinkAncestor child dst fs1 = (c1, fs1)"
    and "rm_rf dst fs1 = (r2, fs2)" "assertNoDestinationSymlinkAncestor child dst fs2 = (c2, fs2)"
  shows "materializeEntry src dst child fs =
        (case r1 of Inl e \<Rightarrow> (Inl (Some e), fs1)
         | Inr _ \<Rightarrow> (case c1 of Inl e \<Rightarrow> (Inl e, fs1)
           | Inr _ \<Rightarrow> (case r2 of Inl e \<Rightarrow> (Inl (Some e), fs2)
             | Inr _ \<Rightarrow> (case c2 of Inl e \<Rightarrow> (Inl e, fs2) | Inr _ \<Rightarrow> write_entry src dst n fs2))))"
  using assms by (simp add: materializeEntry_def write_entry_def act_simps act_bind_def io_def Let_def split: sum.splits)

text \<open>Removing what is there, and writing.\<close>

lemma replace_confined:
  assumes "rooted child fs1" "look fs1 (child @ ds) = Some N_dir" "list_all plain (child @ ds @ [s])"
    and "rm_rf (child @ ds @ [s]) fs1 = (r2, fs2)"
  shows "rooted child fs2 \<and> same_outside child fs1 fs2"
    and "r2 = Inr () \<Longrightarrow> write_entry src (child @ ds @ [s]) n fs2 = (r, fs') \<Longrightarrow>
      rooted child fs' \<and> same_outside child fs2 fs'"
proof -
  let ?d = "child @ ds @ [s]"
  have ok: "fs_ok fs1" using assms(1) by (simp add: rooted_def)
  have vac: "vacant ?d fs2 \<and> same_off ?d fs1 fs2" if "r2 = Inr ()"
    using rm_rf_vacant [of "child @ ds" s fs1 fs2] assms(2-4) ok that by simp
  show kept: "rooted child fs2 \<and> same_outside child fs1 fs2"
  proof (cases "r2 = Inr ()")
    case True
    then show ?thesis using rooted_after [OF assms(1), of fs2 ds s] vac by (auto simp: vacant_def)
  next
    case False
    then have "fs2 = fs1" using assms(4) by (auto simp: rm_rf_def split: sum.splits errno.splits)
    then show ?thesis using assms(1) same_outside_refl by simp
  qed
  assume "r2 = Inr ()" "write_entry src ?d n fs2 = (r, fs')"
  then have "fs_ok fs' \<and> same_off ?d fs2 fs'" using write_entry_vacant vac by blast
  then show "rooted child fs' \<and> same_outside child fs2 fs'" using rooted_after kept by blast
qed

lemma present_confined:
  assumes "materializeEntry src dst child fs = (r, fs')" "rooted child fs" "list_all plain dst" "lstat fs src = Inr n"
    and "assertNoDestinationSymlinkAncestor child dst fs = (Inr (), fs)" "dst = child @ ds @ [s]" "clear_way fs child ds"
  shows "rooted child fs' \<and> same_outside child fs fs'"
proof -
  have up: "butlast dst = child @ ds" unfolding assms(6) by (metis append_assoc butlast_snoc)
  have plain: "list_all plain (child @ ds)" using assms(3,6) by simp
  obtain r1 fs1 where mk: "mkdir_p (butlast dst) fs = (r1, fs1)" by (cases "mkdir_p (butlast dst) fs")
  note made = mkdir_p_clear [OF mk [unfolded up] assms(2) plain assms(7)]
  obtain c1 fs1' where c1: "assertNoDestinationSymlinkAncestor child dst fs1 = (c1, fs1')"
    by (cases "assertNoDestinationSymlinkAncestor child dst fs1")
  have fs1': "fs1' = fs1" using check_passed(1) [OF c1 _ assms(3)] made by blast
  show ?thesis
  proof (cases "r1 = Inr () \<and> c1 = Inr ()")
    case False
    then have "fs' = fs1"
      using assms(1,4,5) mk c1 fs1'
      by (cases r1; cases c1) (auto simp: materializeEntry_def act_simps act_bind_def io_def Let_def)
    then show ?thesis using made by blast
  next
    case True
    obtain r2 fs2 where rm: "rm_rf dst fs1 = (r2, fs2)" by (cases "rm_rf dst fs1")
    have dir: "rooted child fs1" "look fs1 (child @ ds) = Some N_dir" using made True by auto
    note repl = replace_confined [OF dir _ rm [unfolded assms(6)]]
    have two: "rooted child fs2 \<and> same_outside child fs fs2"
      using repl(1) assms(3,6) made same_outside_trans by blast
    obtain c2 fs2' where c2: "assertNoDestinationSymlinkAncestor child dst fs2 = (c2, fs2')"
      by (cases "assertNoDestinationSymlinkAncestor child dst fs2")
    have fs2': "fs2' = fs2" using check_passed(1) [OF c2 _ assms(3)] two by blast
    note steps = present_steps [OF assms(4,5) mk c1 [unfolded fs1'] rm c2 [unfolded fs2']]
    have "fs' = fs2 \<or> (r2 = Inr () \<and> write_entry src dst n fs2 = (r, fs'))"
      using steps assms(1) True by (cases r2; cases c2) auto
    then show ?thesis using two repl(2) assms(3,6) same_outside_trans by blast
  qed
qed

lemma materializeEntry_confined:
  assumes "materializeEntry src dst child fs = (r, fs')" "rooted child fs" "list_all plain dst"
  shows "rooted child fs' \<and> same_outside child fs fs'"
proof -
  have same: ?thesis if "fs' = fs" using that assms(2) same_outside_refl by simp
  obtain c fs0 where c: "assertNoDestinationSymlinkAncestor child dst fs = (c, fs0)"
    by (cases "assertNoDestinationSymlinkAncestor child dst fs")
  note passed = check_passed [OF c assms(2,3)]
  have fs0: "fs0 = fs" by (rule passed(1))
  show ?thesis
  proof (cases "c = Inr ()")
    case False
    then have "fs' = fs"
      using assms(1) c fs0
      by (cases "lstat fs src"; cases c) (auto simp: materializeEntry_def act_simps act_bind_def Let_def split: if_splits)
    then show ?thesis by (rule same)
  next
    case True
    then obtain ds s where dst: "dst = child @ ds @ [s]" and way: "clear_way fs child ds" using passed(2) by blast
    show ?thesis
    proof (cases "lstat fs src")
      case (Inl e)
      then have "fs' = fs \<or> io (rm_rf dst) fs = (r, fs')"
        using assms(1) c True fs0 by (auto simp: materializeEntry_def act_simps act_bind_def Let_def split: if_splits)
      then show ?thesis
        using same io_result rm_rf_clear [OF _ assms(2) assms(3) [unfolded dst] way] unfolding dst by blast
    next
      case (Inr n)
      then show ?thesis using present_confined [OF assms(1-3) Inr _ dst way] c True fs0 by simp
    qed
  qed
qed

lemma materialize_all_confined:
  "materialize_all parent child rels fs = (r, fs') \<Longrightarrow> rooted child fs \<Longrightarrow> rooted child fs' \<and> same_outside child fs fs'"
proof (induction rels arbitrary: fs)
  case (Cons rel rels)
  obtain r1 fs1 where e: "materializeEntry (path_join parent rel) (path_join child rel) child fs = (r1, fs1)"
    by (cases "materializeEntry (path_join parent rel) (path_join child rel) child fs")
  have "list_all plain (path_join child rel)"
    using Cons.prems(2) plain_normal by (simp add: path_join_def rooted_def)
  then have one: "rooted child fs1 \<and> same_outside child fs fs1"
    using materializeEntry_confined [OF e Cons.prems(2)] by blast
  show ?case
  proof (cases r1)
    case (Inr u)
    then have "materialize_all parent child rels fs1 = (r, fs')" using Cons.prems(1) e by (simp add: act_bind_def)
    then show ?thesis using Cons.IH one same_outside_trans by blast
  qed (use Cons.prems(1) e one in \<open>simp add: act_bind_def\<close>)
qed (simp add: act_return_def same_outside_refl)

text \<open>
  What git may do to the file system: it leaves the protected paths alone, and the work tree stays a real
  directory.
\<close>

definition git_spares :: "path \<Rightarrow> (path \<Rightarrow> bool) \<Rightarrow> 'z fs_world_scheme tools \<Rightarrow> bool" where
  "git_spares child P tools \<longleftrightarrow> (\<forall>cwd args w. rooted child (fw_fs w) \<longrightarrow>
     rooted child (fw_fs (snd (tl_git tools cwd args w)))
     \<and> (\<forall>p. P p \<longrightarrow> look (fw_fs (snd (tl_git tools cwd args w))) p = look (fw_fs w) p))"

definition spared :: "path \<Rightarrow> (path \<Rightarrow> bool) \<Rightarrow> 'z fs_world_scheme \<Rightarrow> 'z fs_world_scheme \<Rightarrow> bool" where
  "spared child P w w' \<longleftrightarrow> rooted child (fw_fs w') \<and> (\<forall>p. P p \<longrightarrow> look (fw_fs w') p = look (fw_fs w) p)"

lemma spared_trans: "spared c P a b \<Longrightarrow> spared c P b d \<Longrightarrow> spared c P a d"
  by (simp add: spared_def)

lemma spared_keeps:
  assumes "git_spares child P tools"
  shows "act_keeps (spared child P w) (tl_git tools cwd args)"
  using assms unfolding act_keeps_def git_spares_def spared_def by metis

lemma spared_gitCliOrThrow: "git_spares child P tools \<Longrightarrow> act_keeps (spared child P w) (gitCliOrThrow tools cwd ms args)"
  unfolding gitCliOrThrow_def by (intro act_inv_rules spared_keeps)

lemma act_keeps_of_res [act_inv_rules]: "act_keeps I (act_of_res r)"
  by (simp add: act_keeps_def act_of_res_def)

lemma spared_collectDiff: "git_spares child P tools \<Longrightarrow> act_keeps (spared child P w) (collectDiff tools repo base ms)"
  unfolding collectDiff_def Let_def by (intro act_inv_rules spared_gitCliOrThrow)

lemma spared_reset_step: "git_spares child P tools \<Longrightarrow> act_keeps (spared child P w) (runResetStep tools cwd ms args)"
  using spared_keeps [of child P tools w cwd args]
  by (auto simp: act_keeps_def runResetStep_def split: prod.splits sum.splits)

lemma spared_reset: "git_spares child P tools \<Longrightarrow> act_keeps (spared child P w) (resetWorktreeToBase tools cwd base ms)"
  unfolding resetWorktreeToBase_def by (intro act_inv_rules spared_reset_step)

lemma materializeParentWork_spares:
  assumes "git_spares child P tools" "\<And>p. P p \<Longrightarrow> \<not> strict_prefix child p" "rooted child (fw_fs w)"
    and "materializeParentWork mm tools parent child base policy ms w = (r, w')"
  shows "spared child P w w'"
proof -
  have start: "spared child P w w" using assms(3) by (simp add: spared_def)
  obtain d w1 where d: "collectDiff tools (slash_path parent) base ms w = (d, w1)"
    by (cases "collectDiff tools (slash_path parent) base ms w")
  have one: "spared child P w w1" using act_keepsD [OF spared_collectDiff [OF assms(1)] start d] .
  have copy: "spared child P w w2" if "on_fs (materialize_all parent child rels) w1 = (x, w2)" for rels x w2
  proof -
    obtain fs' where "materialize_all parent child rels (fw_fs w1) = (x, fs')" "w2 = w1\<lparr>fw_fs := fs'\<rparr>"
      using \<open>on_fs (materialize_all parent child rels) w1 = (x, w2)\<close> by (auto simp: on_fs_def split: prod.splits)
    then show ?thesis
      using materialize_all_confined [of parent child rels "fw_fs w1" x fs'] one assms(2)
      by (auto simp: spared_def same_outside_def)
  qed
  have reset: "spared child P w w'"
    if "act_bind (resetWorktreeToBase tools (slash_path child) base ms) (\<lambda>_. act_return (Skipped Parent_work_unmaterializable)) w2
      = (r, w')" "spared child P w w2" for w2
  proof -
    have "act_keeps (spared child P w) (act_bind (resetWorktreeToBase tools (slash_path child) base ms)
        (\<lambda>_. act_return (Skipped Parent_work_unmaterializable)))"
      by (intro act_inv_rules spared_reset assms(1))
    from act_keepsD [OF this that(2,1)] show ?thesis .
  qed
  show ?thesis
    using assms(4) d one copy reset
    by (auto simp: materializeParentWork_def Let_def split: sum.splits if_splits prod.splits)
qed

text \<open>
  C23: carrying a parent run's work over writes only below the new work tree. Whatever paths git reports and
  whatever links the parent's work contains, every path outside the work tree that git itself leaves alone
  has the same content afterwards, also when copying fails half-way.
\<close>

theorem materialize_confined:
  assumes "git_spares child P tools" "\<And>p. P p \<Longrightarrow> \<not> strict_prefix child p" "rooted child (fw_fs w)"
    and "materializeParentWork mm tools parent child base policy ms w = (r, w')" "P p"
  shows "look (fw_fs w') p = look (fw_fs w) p"
  using materializeParentWork_spares [OF assms(1-4)] assms(5) by (simp add: spared_def)

text \<open>A parent whose work has a link \<open>a\<close> to \<open>/s\<close>, and a path below that link.\<close>

definition ex_fs :: fs where
  "ex_fs = [([''s''], N_dir), ([''s'', ''key''], N_file ''top'' False), ([''p''], N_dir), ([''p'', ''a''], N_link ''/s''),
     ([''c''], N_dir)]"

definition ex_git :: "string \<Rightarrow> string list \<Rightarrow> (fs_world, string, git_result) act" where
  "ex_git cwd args = act_return \<lparr>gr_stdout =
     (if args = DIFF_BASE_ARGS @ [''--name-only'', ''-z'', ''b''] then ''a'' @ CHR 0x00 # ''a/key'' else []),
     gr_stderr = [], gr_exitCode = 0, gr_timedOut = False\<rparr>"

definition ex_tools :: "fs_world tools" where
  "ex_tools = \<lparr>tl_git = ex_git, tl_probe = (\<lambda>_ _. act_return None)\<rparr>"

definition ex_codex :: resolved_codex where
  "ex_codex = \<lparr>rx_sandbox = Sandbox_workspace_write, rx_approval = None, rx_timeoutMs = 1, rx_model = None, rx_backend = None,
     rx_claudeModel = None\<rparr>"

definition ex_policy :: resolved_policy where
  "ex_policy = \<lparr>po_repoId = [], po_domain = [], po_read = [], po_write = [''**''], po_denyWrite = [], po_allowedCommands = [],
     po_commandDefaults = \<lparr>rd_timeoutMs = 1, rd_envAllowlist = None\<rparr>, po_ignoreUntracked = [], po_codex = ex_codex,
     po_gitTimeoutMs = 1, po_changeBudget = DEFAULT_CHANGE_BUDGET, po_isolation = Iso_worktree\<rparr>"

theorem materialize_confined_witness:
  "materializeParentWork (\<lambda>_ _. True) ex_tools [''p''] [''c''] ''b'' ex_policy 1 \<lparr>fw_fs = ex_fs\<rparr>
     = (Inr (Skipped Parent_work_unmaterializable), \<lparr>fw_fs = ex_fs @ [([''c'', ''a''], N_link ''/s'')]\<rparr>)
   \<and> look (ex_fs @ [([''c'', ''a''], N_link ''/s'')]) [''s'', ''key''] = look ex_fs [''s'', ''key'']"
proof -
  have run: "materializeParentWork (\<lambda>_ _. True) ex_tools [''p''] [''c''] ''b'' ex_policy 1 \<lparr>fw_fs = ex_fs\<rparr>
      = (Inr (Skipped Parent_work_unmaterializable), \<lparr>fw_fs = ex_fs @ [([''c'', ''a''], N_link ''/s'')]\<rparr>)"
    by code_simp
  have "snd (tl_git ex_tools cwd args w) = w" for cwd args w
    by (simp add: ex_tools_def ex_git_def act_return_def)
  then have git: "git_spares [''c''] (\<lambda>p. \<not> strict_prefix [''c''] p) ex_tools" by (simp add: git_spares_def)
  have "fs_ok ex_fs" by (rule fs_ok_check) code_simp+
  moreover have "list_all plain [''c'']" "look ex_fs [''c''] = Some N_dir" by code_simp+
  ultimately have "rooted [''c''] ex_fs" by (simp add: rooted_def)
  then have root: "rooted [''c''] (fw_fs \<lparr>fw_fs = ex_fs\<rparr>)" by simp
  show ?thesis
    using run materialize_confined [OF git _ root run, of "[''s'', ''key'']"] by (simp add: strict_prefix_def)
qed

text \<open>A relative link inside a copied directory does not keep its target: it points back into the parent's tree.\<close>

lemma copied_link_leaves_tree:
  "snd (cp_tree [''p'', ''d''] [''c'', ''d''] [([''p''], N_dir), ([''p'', ''d''], N_dir), ([''p'', ''d'', ''l''], N_link ''f''),
     ([''c''], N_dir)]) = [([''p''], N_dir), ([''p'', ''d''], N_dir), ([''p'', ''d'', ''l''], N_link ''f''),
     ([''c''], N_dir), ([''c'', ''d''], N_dir), ([''c'', ''d'', ''l''], N_link ''/p/d/f'')]"
  by code_simp

section \<open>The fingerprint of reviewed files\<close>

text \<open>
  A type-tagged digest of a path, links not followed; \<open>digest\<close> is the SHA-256 of a file's bytes, \<open>sha\<close> that of a
  JSON text, \<open>msg\<close> the text of a system error.
\<close>

definition classifyPath :: "(string \<Rightarrow> string) \<Rightarrow> (errno \<Rightarrow> path \<Rightarrow> string) \<Rightarrow> fs \<Rightarrow> path \<Rightarrow> json" where
  "classifyPath digest msg fs full =
     (case lstat fs full of
        Inl e \<Rightarrow> if e = ENOENT then JArr [JStr ''absent''] else JArr [JStr ''error'', JStr (msg e full)]
      | Inr (N_link t) \<Rightarrow> JArr [JStr ''symlink'', JStr t]
      | Inr (N_file content exec) \<Rightarrow> JArr [JStr ''file'', JStr (digest content), JBool exec]
      | Inr N_dir \<Rightarrow> JArr [JStr ''dir'']
      | Inr N_other \<Rightarrow> JArr [JStr ''other''])"

definition fingerprint_text :: "(string \<Rightarrow> string) \<Rightarrow> (errno \<Rightarrow> path \<Rightarrow> string) \<Rightarrow> fs \<Rightarrow> path \<Rightarrow> string list \<Rightarrow> json" where
  "fingerprint_text digest msg fs worktree paths =
     JArr (map (\<lambda>p. JArr [JStr p, classifyPath digest msg fs (path_join worktree p)]) (sort paths))"

definition computeReviewedFingerprint ::
  "(json \<Rightarrow> string) \<Rightarrow> (string \<Rightarrow> string) \<Rightarrow> (errno \<Rightarrow> path \<Rightarrow> string) \<Rightarrow> fs \<Rightarrow> path \<Rightarrow> string list \<Rightarrow> string" where
  "computeReviewedFingerprint sha digest msg fs worktree paths = sha (fingerprint_text digest msg fs worktree paths)"

text \<open>Equal texts mean the same entries, up to the digests.\<close>

lemma fingerprint_text_eq:
  assumes "fingerprint_text digest msg fs wt paths = fingerprint_text digest msg fs' wt paths" "p \<in> set paths"
  shows "classifyPath digest msg fs (path_join wt p) = classifyPath digest msg fs' (path_join wt p)"
  using assms by (auto simp: fingerprint_text_def)

definition same_entry :: "errno + node \<Rightarrow> errno + node \<Rightarrow> bool" where
  "same_entry a b \<longleftrightarrow> a = b \<or> (\<exists>e e'. a = Inl e \<and> b = Inl e' \<and> e \<noteq> ENOENT \<and> e' \<noteq> ENOENT)"

lemma classifyPath_eq:
  assumes "classifyPath digest msg fs q = classifyPath digest msg fs' q"
    and "\<And>c c' x x'. lstat fs q = Inr (N_file c x) \<Longrightarrow> lstat fs' q = Inr (N_file c' x') \<Longrightarrow> digest c = digest c' \<Longrightarrow> c = c'"
  shows "same_entry (lstat fs q) (lstat fs' q)"
proof (cases "\<exists>c x c' x'. lstat fs q = Inr (N_file c x) \<and> lstat fs' q = Inr (N_file c' x')")
  case True
  then obtain c x c' x' where "lstat fs q = Inr (N_file c x)" "lstat fs' q = Inr (N_file c' x')" by blast
  then show ?thesis using assms by (simp add: classifyPath_def same_entry_def)
next
  case False
  then show ?thesis
    using assms(1)
    by (cases "lstat fs q"; cases "lstat fs' q") (auto simp: classifyPath_def same_entry_def split: node.splits if_splits)
qed

end
