(* ===== verification/Pr_Creator.thy ===== *)
theory Pr_Creator
  imports Work_Tree
begin

text \<open>
  Pushing a reviewed run, after \<open>src/core/pr-creator.ts\<close> and \<open>src/core/reviewed-branch-push.ts\<close>: the checks of the
  work tree and of its history, the one commit of the reviewed paths, the push, the pull request and its
  record in \<open>pull_requests\<close> (\<open>src/db/repositories/pull-requests.ts\<close>) and \<open>runs\<close>. Git and the publisher are
  arguments that act on the world; the files are those of \<open>Work_Tree\<close>, with what git keeps for itself (index,
  refs, objects) in the rest of the world. Exported files, which nothing reads back, are left out.
\<close>

section \<open>Stored data\<close>

text \<open>
  The parsed \<open>meta.json\<close> document: a field whose value has another type than the declared one counts as absent,
  which is how the code reads it.
\<close>

record reviewed_meta =
  rv_paths :: "json list option"
  rv_fingerprint :: "string option"

record run_meta =
  me_status :: "string option"
  me_safetyStatus :: "string option"
  me_runBranch :: "string option"
  me_baseSha :: "string option"
  me_domain :: "string option"
  me_repoId :: "string option"
  me_reviewed :: "reviewed_meta option"
  me_reviewer :: "string option"
  me_reviewedAt :: "string option"
  me_secretSuspectCount :: "nat option"
  me_ignoredUntrackedCount :: "nat option"
  me_commandResults :: "(int \<times> bool) list option"
  me_prUrl :: "string option"
  me_prNumber :: "int option"

text \<open>A stored text is kept as the outcome of \<open>JSON.parse\<close>: the document, or the message of the syntax error.\<close>

type_synonym meta_text = "string + run_meta"

record run_record =
  ru_runId :: string
  ru_sourceMode :: string
  ru_status :: string
  ru_safetyStatus :: "string option"
  ru_baseSha :: "string option"
  ru_runBranch :: "string option"
  ru_meta :: "meta_text option"
  ru_prUrl :: "string option"
  ru_prNumber :: "int option"
  ru_dbRevision :: nat
  ru_exportStatus :: string
  ru_updatedAt :: string

text \<open>The number of the pull request is stored as its decimal text.\<close>

record pull_request =
  pl_runId :: string
  pl_provider :: string
  pl_repo :: "string option"
  pl_branch :: "string option"
  pl_baseBranch :: "string option"
  pl_title :: "string option"
  pl_url :: "string option"
  pl_externalPrId :: "int option"
  pl_status :: string
  pl_operationId :: "string option"

text \<open>The \<open>pr_created\<close> entry of \<open>run_events\<close> and of \<open>events.jsonl\<close>.\<close>

record pr_event =
  pv_runId :: string
  pv_prUrl :: string
  pv_prNumber :: int
  pv_head :: string
  pv_base :: string
  pv_createdAt :: string

text \<open>
  The files of the runs directory that are read are tables by run. A run event has its run, its number and, when it
  is a \<open>pr_created\<close> event, its content.
\<close>

record 'w pr_state =
  ps_world :: 'w
  ps_runs :: "run_record list"
  ps_legacyBacklog :: nat
  ps_pulls :: "pull_request list"
  ps_runEvents :: "(string \<times> nat \<times> pr_event option) list"
  ps_metaFiles :: "(string \<times> meta_text) list"
  ps_prompts :: "(string \<times> string) list"
  ps_eventFiles :: "(string \<times> pr_event) list"

datatype gate_reason = Invalid_run_id | Run_not_found | Meta_unreadable string | No_meta_json
  | Wrong_status string | Wrong_safety "string option" | Already_has_pr string | No_run_branch | No_base_sha
  | Worktree_gone | No_fingerprint | No_reviewed_changes | Worktree_drifted | Wrong_branch string
  | Replace_refs string | Graft_file string | Shallow_repository | Unreviewed_history string string string
  | Unreviewed_paths string "string list" | Second_commit | Too_many_commits string | Unauthentic_message
  | Git_timed_out string | Git_failed string string | Push_refused string

datatype pr_error =
    Gate gate_reason
  | Push_error string int string string
  | Source_mode string string
  | Legacy_rows nat nat
  | State_conflict string string
  | No_run string
  | Threw string

type_synonym ('w, 'a) pr_act = "('w pr_state, pr_error, 'a) act"

section \<open>The table of pull requests\<close>

definition findByRun :: "string \<Rightarrow> pull_request list \<Rightarrow> pull_request option" where
  "findByRun runId pulls = find (\<lambda>p. pl_runId p = runId) (rev pulls)"

definition upsertPullRequest :: "pull_request \<Rightarrow> pull_request list \<Rightarrow> pull_request list" where
  "upsertPullRequest p pulls =
     (if tbl_has pl_runId (pl_runId p) pulls then tbl_update pl_runId (pl_runId p) (\<lambda>_. p) pulls else pulls @ [p])"

definition next_seq :: "string \<Rightarrow> (string \<times> nat \<times> 'e) list \<Rightarrow> nat" where
  "next_seq runId events = Suc (fold max (map (\<lambda>(_, n, _). n) (filter (\<lambda>(r, _, _). r = runId) events)) 0)"

definition recordPrCreated :: "pr_event \<Rightarrow> ('w, unit) pr_act" where
  "recordPrCreated v =
     act_bind (act_require (\<lambda>s. tbl_get ru_runId (pv_runId v) (ps_runs s)) (No_run (pv_runId v))) (\<lambda>row.
     if ru_status row \<noteq> ''approved'' then act_throw (State_conflict (pv_runId v) (ru_status row))
     else case ru_meta row of
       Some (Inl msg) \<Rightarrow> act_throw (Threw msg)
     | stored \<Rightarrow>
         act_modify (\<lambda>s. s\<lparr>
           ps_runs := tbl_update ru_runId (pv_runId v) (\<lambda>r. r\<lparr>ru_prUrl := Some (pv_prUrl v), ru_prNumber := Some (pv_prNumber v),
             ru_meta := Some (case stored of
                 Some (Inr meta) \<Rightarrow> Inr (meta\<lparr>me_prUrl := Some (pv_prUrl v), me_prNumber := Some (pv_prNumber v)\<rparr>)
               | _ \<Rightarrow> Inr \<lparr>me_status = None, me_safetyStatus = None, me_runBranch = None, me_baseSha = None,
                   me_domain = None, me_repoId = None, me_reviewed = None, me_reviewer = None, me_reviewedAt = None,
                   me_secretSuspectCount = None, me_ignoredUntrackedCount = None, me_commandResults = None,
                   me_prUrl = Some (pv_prUrl v), me_prNumber = Some (pv_prNumber v)\<rparr>),
             ru_dbRevision := Suc (ru_dbRevision r), ru_exportStatus := ''dirty'', ru_updatedAt := pv_createdAt v\<rparr>)
             (ps_runs s),
           ps_runEvents := ps_runEvents s
             @ [(pv_runId v, next_seq (pv_runId v) (ps_runEvents s), Some v)]\<rparr>))"

section \<open>Running git\<close>

record publish_inputs =
  pi_repoDir :: path
  pi_base :: string
  pi_head :: string
  pi_title :: string
  pi_body :: string
  pi_draft :: bool

record 'w pr_deps =
  pd_tools :: "'w tools"
  pd_sha :: "json \<Rightarrow> string"
  pd_digest :: "string \<Rightarrow> string"
  pd_errno :: "errno \<Rightarrow> path \<Rightarrow> string"
  pd_publish :: "publish_inputs \<Rightarrow> ('w, string, string \<times> int) act"

definition on_world :: "('w, string, 'a) act \<Rightarrow> ('w, 'a) pr_act" where
  "on_world m s = (case m (ps_world s) of
     (Inl e, w) \<Rightarrow> (Inl (Threw e), s\<lparr>ps_world := w\<rparr>) | (Inr x, w) \<Rightarrow> (Inr x, s\<lparr>ps_world := w\<rparr>))"

definition gitCli :: "'w pr_deps \<Rightarrow> path \<Rightarrow> string list \<Rightarrow> ('w, git_result) pr_act" where
  "gitCli d cwd args = on_world (tl_git (pd_tools d) (slash_path cwd) args)"

definition runGit :: "'w pr_deps \<Rightarrow> path \<Rightarrow> string list \<Rightarrow> ('w, string) pr_act" where
  "runGit d cwd args =
     act_bind (gitCli d cwd args) (\<lambda>r.
       if gr_timedOut r then act_throw (Gate (Git_timed_out (js_join '' '' (take 2 args))))
       else if gr_exitCode r \<noteq> 0 then
         act_throw (Gate (Git_failed (js_join '' '' (take 2 args))
           (if js_trim (gr_stderr r) = [] then js_trim (gr_stdout r) else js_trim (gr_stderr r))))
       else act_return (gr_stdout r))"

definition existsSync :: "fs \<Rightarrow> path \<Rightarrow> bool" where
  "existsSync fs p \<longleftrightarrow> (case walk fs MAX_LINKS True [] p of Inl _ \<Rightarrow> False | Inr q \<Rightarrow> look fs q \<noteq> None)"

text \<open>\<open>path.resolve\<close>\<close>

definition path_resolve :: "path \<Rightarrow> string \<Rightarrow> path" where
  "path_resolve cwd p = (if js_starts_with p ''/'' then path_join [] p else path_join cwd p)"

section \<open>The checks of a reviewed work tree\<close>

definition reviewedPathsFromMeta :: "run_meta \<Rightarrow> gate_reason + string list" where
  "reviewedPathsFromMeta meta =
     (case me_reviewed meta of
        None \<Rightarrow> Inl No_fingerprint
      | Some reviewed \<Rightarrow> (case (rv_paths reviewed, rv_fingerprint reviewed) of
          (Some paths, Some _) \<Rightarrow>
            (let reviewedPaths = List.map_filter (\<lambda>j. case j of JStr p \<Rightarrow> if p \<noteq> [] then Some p else None | _ \<Rightarrow> None) paths
             in if reviewedPaths = [] then Inl No_reviewed_changes else Inr reviewedPaths)
        | _ \<Rightarrow> Inl No_fingerprint))"

definition gate :: "gate_reason + 'a \<Rightarrow> ('w, 'a) pr_act" where
  "gate r = (case r of Inl g \<Rightarrow> act_throw (Gate g) | Inr x \<Rightarrow> act_return x)"

definition fingerprint_now :: "'z fs_world_scheme pr_deps \<Rightarrow> path \<Rightarrow> string list \<Rightarrow> 'z fs_world_scheme \<Rightarrow> string" where
  "fingerprint_now d worktree paths w =
     computeReviewedFingerprint (pd_sha d) (pd_digest d) (pd_errno d) (fw_fs w) worktree paths"

definition assertReviewedFingerprintMatches ::
  "'z fs_world_scheme pr_deps \<Rightarrow> path \<Rightarrow> run_meta \<Rightarrow> string list \<Rightarrow> ('z fs_world_scheme, unit) pr_act" where
  "assertReviewedFingerprintMatches d worktree meta reviewedPaths =
     act_guard (\<lambda>s. Some (fingerprint_now d worktree reviewedPaths (ps_world s)) = Option.bind (me_reviewed meta) rv_fingerprint)
       (Gate Worktree_drifted)"

definition parseGitPathList :: "string \<Rightarrow> string list" where
  "parseGitPathList stdout = filter (\<lambda>p. p \<noteq> []) (js_split (CHR 0x00) stdout)"

definition assertPathsSubset :: "string list \<Rightarrow> string list \<Rightarrow> string \<Rightarrow> ('w, unit) pr_act" where
  "assertPathsSubset paths allowedPaths label =
     (let unreviewed = filter (\<lambda>p. p \<notin> set allowedPaths) paths
      in if unreviewed \<noteq> [] then act_throw (Gate (Unreviewed_paths label unreviewed)) else act_return ())"

definition assertHeadBranch :: "'w pr_deps \<Rightarrow> path \<Rightarrow> string \<Rightarrow> ('w, unit) pr_act" where
  "assertHeadBranch d worktree branch =
     act_bind (runGit d worktree [''rev-parse'', ''--abbrev-ref'', ''HEAD'']) (\<lambda>current.
       if js_trim current \<noteq> branch then act_throw (Gate (Wrong_branch (js_trim current))) else act_return ())"

definition assertNoObjectGraphTampering :: "'z fs_world_scheme pr_deps \<Rightarrow> path \<Rightarrow> ('z fs_world_scheme, unit) pr_act" where
  "assertNoObjectGraphTampering d worktree =
     act_bind (runGit d worktree [''for-each-ref'', ''--format=%(refname)'', ''refs/replace/'']) (\<lambda>replaceRefs.
     if js_trim replaceRefs \<noteq> [] then act_throw (Gate (Replace_refs (js_trim replaceRefs)))
     else act_bind (runGit d worktree [''rev-parse'', ''--git-path'', ''info/grafts'']) (\<lambda>graftsPath.
     act_bind (act_guard (\<lambda>s. \<not> (js_trim graftsPath \<noteq> []
         \<and> existsSync (fw_fs (ps_world s)) (path_resolve worktree (js_trim graftsPath)))) (Gate (Graft_file (js_trim graftsPath)))) (\<lambda>_.
     act_bind (runGit d worktree [''rev-parse'', ''--is-shallow-repository'']) (\<lambda>isShallow.
     if js_trim isShallow = ''true'' then act_throw (Gate Shallow_repository) else act_return ()))))"

definition assertNoUnreviewedHistory :: "'w pr_deps \<Rightarrow> path \<Rightarrow> string \<Rightarrow> ('w, bool) pr_act" where
  "assertNoUnreviewedHistory d worktree baseRef =
     act_bind (runGit d worktree [''rev-parse'', ''HEAD'']) (\<lambda>headOut.
     act_bind (runGit d worktree [''rev-parse'', baseRef]) (\<lambda>baseOut.
     let head = js_trim headOut; base = js_trim baseOut
     in if head = base then act_return True
        else act_bind (runGit d worktree [''rev-list'', ''--count'', base @ ''..HEAD'']) (\<lambda>countOut.
          act_bind (runGit d worktree [''diff'', ''--no-renames'', ''--name-only'', ''HEAD'']) (\<lambda>dirtyOut.
          if js_trim countOut = ''1'' \<and> js_trim dirtyOut = [] then act_return False
          else act_throw (Gate (Unreviewed_history head base (js_trim countOut)))))))"

text \<open>
  \<open>Number\<close> of the count, a decimal numeral; any other text, which \<open>rev-list --count\<close> does not print, is taken as NaN,
  which is not greater than 1.
\<close>

definition assertSingleReviewedCommit :: "'w pr_deps \<Rightarrow> path \<Rightarrow> string \<Rightarrow> ('w, unit) pr_act" where
  "assertSingleReviewedCommit d worktree baseRef =
     act_bind (runGit d worktree [''rev-parse'', baseRef]) (\<lambda>baseOut.
     act_bind (runGit d worktree [''rev-list'', ''--count'', js_trim baseOut @ ''..HEAD'']) (\<lambda>countOut.
       case digits_value 0 (js_trim countOut) of
         Some n \<Rightarrow> if n > 1 then act_throw (Gate (Too_many_commits (js_trim countOut))) else act_return ()
       | None \<Rightarrow> act_return ()))"

text \<open>\<open>replace(/\n+$/, "")\<close>\<close>

definition strip_newlines :: "string \<Rightarrow> string" where
  "strip_newlines s = rev (dropWhile (\<lambda>c. c = CHR 0x0A) (rev s))"

definition assertHeadCommitMessageAuthentic :: "'w pr_deps \<Rightarrow> path \<Rightarrow> string \<Rightarrow> ('w, unit) pr_act" where
  "assertHeadCommitMessageAuthentic d worktree expected =
     act_bind (runGit d worktree [''log'', ''-1'', ''--format=%B'', ''HEAD'']) (\<lambda>out.
       if strip_newlines out \<noteq> strip_newlines expected then act_throw (Gate Unauthentic_message) else act_return ())"

text \<open>
  Staging the reviewed paths, the commit, and the checks of what would be pushed; both callers have these lines.
\<close>

definition stage_and_commit :: "'w pr_deps \<Rightarrow> path \<Rightarrow> string list \<Rightarrow> bool \<Rightarrow> string \<Rightarrow> ('w, bool) pr_act" where
  "stage_and_commit d worktree reviewedPaths headAtBase commitMessage =
     act_bind (runGit d worktree ([''add'', ''--''] @ reviewedPaths)) (\<lambda>_.
     act_bind (runGit d worktree [''diff'', ''--no-renames'', ''--cached'', ''-z'', ''--name-only'']) (\<lambda>staged.
     let stagedPaths = parseGitPathList staged
     in act_bind (assertPathsSubset stagedPaths reviewedPaths ''staged diff'') (\<lambda>_.
        if \<not> headAtBase \<and> stagedPaths \<noteq> [] then act_throw (Gate Second_commit)
        else if stagedPaths \<noteq> [] then
          act_bind (runGit d worktree [''-c'', ''core.hooksPath=/dev/null'', ''commit'', ''--no-gpg-sign'',
            ''--cleanup=verbatim'', ''-m'', commitMessage]) (\<lambda>_. act_return True)
        else act_return False)))"

definition verify_branch :: "'w pr_deps \<Rightarrow> path \<Rightarrow> string list \<Rightarrow> string \<Rightarrow> string \<Rightarrow> ('w, unit) pr_act" where
  "verify_branch d worktree reviewedPaths baseRef commitMessage =
     act_bind (assertSingleReviewedCommit d worktree baseRef) (\<lambda>_.
     act_bind (assertHeadCommitMessageAuthentic d worktree commitMessage) (\<lambda>_.
     act_bind (runGit d worktree [''diff'', ''--no-renames'', ''-z'', ''--name-only'', baseRef, ''HEAD'']) (\<lambda>out.
     assertPathsSubset (parseGitPathList out) reviewedPaths ''branch diff'')))"

section \<open>The body of the pull request\<close>

fun before_sub :: "string \<Rightarrow> string \<Rightarrow> string option" where
  "before_sub sub [] = (if sub = [] then Some [] else None)"
| "before_sub sub (c # cs) =
     (if js_starts_with (c # cs) sub then Some [] else map_option (\<lambda>t. c # t) (before_sub sub cs))"

definition NL :: string where "NL = [CHR 0x0A]"

text \<open>
  The match of \<open>\s*\n([\s\S]*?)\n\nTarget domain:\<close> behind \<open>Goal:\<close>: the blanks are taken up to the last line break that lets
  the rest match.
\<close>

fun goal_group :: "string \<Rightarrow> string option" where
  "goal_group [] = None"
| "goal_group (c # cs) =
     (if \<not> is_ws c then None
      else case goal_group cs of
        Some g \<Rightarrow> Some g
      | None \<Rightarrow> if c = CHR 0x0A then before_sub (NL @ NL @ ''Target domain:'') cs else None)"

fun goal_search :: "bool \<Rightarrow> string \<Rightarrow> string option" where
  "goal_search line_start [] = None"
| "goal_search line_start (c # cs) =
     (case (if line_start \<and> js_starts_with (c # cs) ''Goal:'' then goal_group (drop 5 (c # cs)) else None) of
        Some g \<Rightarrow> Some g | None \<Rightarrow> goal_search (c = CHR 0x0A \<or> c = CHR 0x0D) cs)"

definition recoverGoal :: "string option \<Rightarrow> string" where
  "recoverGoal prompt =
     (case Option.bind prompt (goal_search True) of
        Some g \<Rightarrow> if g \<noteq> [] then js_trim g else ''(goal could not be recovered)''
      | None \<Rightarrow> ''(goal could not be recovered)'')"

text \<open>The closing line of the body opens with a robot sign, given here by its UTF-8 bytes.\<close>

definition ROBOT :: string where "ROBOT = [CHR 0xF0, CHR 0x9F, CHR 0xA4, CHR 0x96]"

definition buildPrBody :: "string option \<Rightarrow> run_meta \<Rightarrow> string \<Rightarrow> string" where
  "buildPrBody prompt meta runId =
     (let cmd = or_else (me_commandResults meta) [];
          cmdOk = length (filter (\<lambda>(exitCode, timedOut). exitCode = 0 \<and> \<not> timedOut) cmd)
      in js_join NL
        [''## Harness run'', [],
         ''- run: `'' @ runId @ ''`'',
         ''- domain: `'' @ or_else (me_domain meta) ''unknown'' @ ''`'',
         ''- status: '' @ or_else (me_status meta) ''undefined'',
         ''- safetyStatus: '' @ or_else (me_safetyStatus meta) ''?'',
         ''- commands: '' @ js_nat cmdOk @ ''/'' @ js_nat (length cmd) @ '' ok'',
         ''- reviewer: '' @ or_else (me_reviewer meta) ''(none)'',
         ''- reviewedAt: '' @ or_else (me_reviewedAt meta) ''(none)'',
         ''- secretSuspectCount: '' @ js_nat (or_else (me_secretSuspectCount meta) 0),
         ''- ignoredUntrackedCount: '' @ js_nat (or_else (me_ignoredUntrackedCount meta) 0),
         [], ''### Goal'', [], recoverGoal prompt, [], ''### Notes'', [],
         ''Generated by `harness pr create`. Run artifacts (summary.md, ''
           @ ''final-diff.patch, review-decision.yaml) are stored in the harness ''
           @ ''DB and can be materialized under `runs/'' @ runId @ ''/` '' @ ''(`harness db export-files`).'',
         [], ROBOT @ '' harness draft PR '' @ [CHR 0xE2, CHR 0x80, CHR 0x94] @ '' review before merging.'', []])"

section \<open>Creating the pull request\<close>

definition RUN_ID_RE :: "string \<Rightarrow> bool" where
  "RUN_ID_RE s \<longleftrightarrow> js_starts_with s ''run-''
     \<and> (case drop 4 s of [] \<Rightarrow> False
        | c # cs \<Rightarrow> is_word_char c \<and> c \<noteq> CHR ''_'' \<and> length cs \<le> 127
            \<and> list_all (\<lambda>x. is_word_char x \<or> x = CHR ''.'' \<or> x = CHR ''-'') cs)"

record create_pr_opts =
  co_workspacesDir :: path
  co_runId :: string
  co_base :: string
  co_draft :: bool
  co_db :: bool
  co_title :: "string option"
  co_now :: string

record create_pr_result =
  cr_runId :: string
  cr_prUrl :: string
  cr_prNumber :: int
  cr_head :: string
  cr_draft :: bool
  cr_headSha :: "string option"

definition assertNoLegacyRuntimeRows :: "('w, unit) pr_act" where
  "assertNoLegacyRuntimeRows s =
     (let runs = length (filter (\<lambda>r. ru_sourceMode r = ''legacy-file'') (ps_runs s))
      in if runs + ps_legacyBacklog s > 0 then (Inl (Legacy_rows runs (ps_legacyBacklog s)), s) else (Inr (), s))"

definition readMeta :: "string \<Rightarrow> ('w, run_meta) pr_act" where
  "readMeta runId =
     act_bind (act_get (\<lambda>s. map_of (ps_metaFiles s) runId)) (\<lambda>text.
     case text of
       Some (Inr meta) \<Rightarrow> act_return meta
     | Some (Inl msg) \<Rightarrow> act_throw (Gate (Meta_unreadable msg))
     | None \<Rightarrow> act_throw (Gate (Meta_unreadable ''ENOENT'')))"

definition worktree_of :: "path \<Rightarrow> string \<Rightarrow> path" where
  "worktree_of workspacesDir runId = path_join (path_join workspacesDir runId) ''repo''"

text \<open>Errors here are swallowed: the reviewed head is best effort.\<close>

definition resolveReviewedHeadSha ::
  "'z fs_world_scheme pr_deps \<Rightarrow> create_pr_opts \<Rightarrow> string option \<Rightarrow> ('z fs_world_scheme, string option) pr_act" where
  "resolveReviewedHeadSha d opts branch s =
     (let worktree = worktree_of (co_workspacesDir opts) (co_runId opts)
      in if or_else branch [] = [] \<or> \<not> existsSync (fw_fs (ps_world s)) worktree then (Inr None, s)
         else case runGit d worktree [''rev-parse'', or_else branch []] s of
           (Inl _, s') \<Rightarrow> (Inr None, s')
         | (Inr out, s') \<Rightarrow> (Inr (if js_trim out = [] then None else Some (js_trim out)), s'))"

definition created_pull :: "create_pr_opts \<Rightarrow> ('w pr_state, pr_error, pull_request option) act" where
  "created_pull opts =
     act_get (\<lambda>s. if \<not> co_db opts then None
       else case findByRun (co_runId opts) (ps_pulls s) of
         Some p \<Rightarrow> if pl_status p = ''created'' \<and> pl_url p \<noteq> None \<and> pl_externalPrId p \<noteq> None then Some p else None
       | None \<Rightarrow> None)"

definition existingPrResult ::
  "'z fs_world_scheme pr_deps \<Rightarrow> create_pr_opts \<Rightarrow> pull_request \<Rightarrow> ('z fs_world_scheme, create_pr_result) pr_act" where
  "existingPrResult d opts existing =
     act_bind (resolveReviewedHeadSha d opts (pl_branch existing)) (\<lambda>headSha.
     act_return \<lparr>cr_runId = co_runId opts, cr_prUrl = or_else (pl_url existing) [],
       cr_prNumber = or_else (pl_externalPrId existing) 0, cr_head = or_else (pl_branch existing) [],
       cr_draft = co_draft opts, cr_headSha = headSha\<rparr>)"

definition run_row_of :: "create_pr_opts \<Rightarrow> 'w pr_state \<Rightarrow> run_record option" where
  "run_row_of opts s = (if co_db opts then tbl_get ru_runId (co_runId opts) (ps_runs s) else None)"

text \<open>The canonical state of the run: its parsed metadata, its status and its branch.\<close>

definition load_run :: "create_pr_opts \<Rightarrow> run_record option \<Rightarrow> ('w, run_meta \<times> string \<times> string) pr_act" where
  "load_run opts dbRow =
     (case dbRow of
        Some row \<Rightarrow>
          if ru_sourceMode row = ''db-first'' then
            (case ru_meta row of
               None \<Rightarrow> act_throw (Gate No_meta_json)
             | Some (Inl msg) \<Rightarrow> act_throw (Threw msg)
             | Some (Inr meta) \<Rightarrow> act_return (meta, ru_status row, or_else (ru_runBranch row) []))
          else act_bind (readMeta (co_runId opts)) (\<lambda>meta. act_return (meta, or_else (me_status meta) [], or_else (me_runBranch meta) []))
      | None \<Rightarrow> act_bind (readMeta (co_runId opts)) (\<lambda>meta. act_return (meta, or_else (me_status meta) [], or_else (me_runBranch meta) [])))"

definition has_title :: "create_pr_opts \<Rightarrow> bool" where
  "has_title opts \<longleftrightarrow> js_trim (or_else (co_title opts) []) \<noteq> []"

definition commit_message :: "create_pr_opts \<Rightarrow> string" where
  "commit_message opts = (if has_title opts then or_else (co_title opts) [] else ''harness: '' @ co_runId opts)"

definition base_ref :: "create_pr_opts \<Rightarrow> run_meta \<Rightarrow> string" where
  "base_ref opts meta = (if or_else (me_baseSha meta) [] \<noteq> [] then or_else (me_baseSha meta) [] else co_base opts)"

definition push_branch :: "'w pr_deps \<Rightarrow> path \<Rightarrow> string \<Rightarrow> ('w, string) pr_act" where
  "push_branch d worktree head =
     act_bind (gitCli d worktree [''push'', ''-u'', ''origin'', head]) (\<lambda>push.
     if gr_exitCode push \<noteq> 0 then
       (let stderr = (if gr_timedOut push \<and> \<not> js_includes (js_lower (gr_stderr push @ NL @ gr_stdout push)) ''timed out''
                      then js_trim (gr_stderr push @ NL @ ''git push timed out'') else gr_stderr push);
            shown = (if js_trim stderr \<noteq> [] then js_trim stderr
                     else if js_trim (gr_stdout push) \<noteq> [] then js_trim (gr_stdout push) else ''timed out'')
        in act_throw (Push_error (''git push of '' @ head @ '' failed: '' @ shown) (gr_exitCode push) stderr (gr_stdout push)))
     else act_bind (runGit d worktree [''rev-parse'', ''HEAD'']) (\<lambda>out. act_return (js_trim out)))"

text \<open>A failed publication is recorded, and the error passed on.\<close>

definition publish_pr ::
  "'w pr_deps \<Rightarrow> create_pr_opts \<Rightarrow> publish_inputs \<Rightarrow> pull_request \<Rightarrow> ('w, string \<times> int) pr_act" where
  "publish_pr d opts inputs failed s =
     (case on_world (pd_publish d inputs) s of
        (Inl e, s') \<Rightarrow> (Inl e, if co_db opts then s'\<lparr>ps_pulls := upsertPullRequest failed (ps_pulls s')\<rparr> else s')
      | (Inr p, s') \<Rightarrow> (Inr p, s'))"

definition record_pr ::
  "create_pr_opts \<Rightarrow> bool \<Rightarrow> pr_event \<Rightarrow> pull_request \<Rightarrow> ('w, unit) pr_act" where
  "record_pr opts dbFirst v row =
     (let upsert = act_modify (\<lambda>s. s\<lparr>ps_pulls := upsertPullRequest row (ps_pulls s)\<rparr>)
      in if co_db opts \<and> dbFirst then act_atomically (act_bind (recordPrCreated v) (\<lambda>_. upsert))
         else
           act_bind (if co_db opts then upsert else act_return ()) (\<lambda>_.
           act_bind (readMeta (co_runId opts)) (\<lambda>current.
           act_modify (\<lambda>s. s\<lparr>
             ps_metaFiles := map (\<lambda>(r, t). if r = co_runId opts
               then (r, Inr (current\<lparr>me_prUrl := Some (pv_prUrl v), me_prNumber := Some (pv_prNumber v)\<rparr>)) else (r, t))
               (ps_metaFiles s),
             ps_eventFiles := ps_eventFiles s @ [(co_runId opts, v)]\<rparr>))))"

definition prepare_branch ::
  "'z fs_world_scheme pr_deps \<Rightarrow> path \<Rightarrow> run_meta \<Rightarrow> string list \<Rightarrow> string \<Rightarrow> string \<Rightarrow> string
     \<Rightarrow> ('z fs_world_scheme, bool) pr_act" where
  "prepare_branch d worktree meta reviewedPaths head baseRef commitMessage =
     act_bind (assertReviewedFingerprintMatches d worktree meta reviewedPaths) (\<lambda>_.
     act_bind (assertHeadBranch d worktree head) (\<lambda>_.
     act_bind (assertNoObjectGraphTampering d worktree) (\<lambda>_.
     act_bind (assertNoUnreviewedHistory d worktree baseRef) (\<lambda>headAtBase.
     act_bind (stage_and_commit d worktree reviewedPaths headAtBase commitMessage) (\<lambda>committed.
     act_bind (verify_branch d worktree reviewedPaths baseRef commitMessage) (\<lambda>_.
     act_return committed))))))"

text \<open>The gates on the stored run.\<close>

definition approved_run ::
  "create_pr_opts \<Rightarrow> run_record option \<Rightarrow> ('z fs_world_scheme, run_meta \<times> string) pr_act" where
  "approved_run opts dbRow =
     act_bind (load_run opts dbRow) (\<lambda>(meta, status, head).
     if status \<noteq> ''approved'' then act_throw (Gate (Wrong_status status))
     else if \<not> opt_holds (\<lambda>r. ru_sourceMode r = ''db-first'') dbRow \<and> me_prUrl meta \<noteq> None then
       act_throw (Gate (Already_has_pr (or_else (me_prUrl meta) [])))
     else if head = [] then act_throw (Gate No_run_branch)
     else act_bind (act_guard (\<lambda>s. existsSync (fw_fs (ps_world s)) (worktree_of (co_workspacesDir opts) (co_runId opts)))
       (Gate Worktree_gone)) (\<lambda>_. act_return (meta, head)))"

definition publish_and_record ::
  "'w pr_deps \<Rightarrow> create_pr_opts \<Rightarrow> bool \<Rightarrow> run_meta \<Rightarrow> string \<Rightarrow> string \<Rightarrow> ('w, create_pr_result) pr_act" where
  "publish_and_record d opts dbFirst meta head reviewedHeadSha =
     act_bind (act_get (\<lambda>s. map_of (ps_prompts s) (co_runId opts))) (\<lambda>prompt.
     let worktree = worktree_of (co_workspacesDir opts) (co_runId opts);
         title = (if has_title opts then or_else (co_title opts) []
                  else ''harness '' @ co_runId opts @ '' ('' @ or_else (me_domain meta) ''unknown'' @ '')'');
         row = (\<lambda>url number status. \<lparr>pl_runId = co_runId opts, pl_provider = ''github'', pl_repo = me_repoId meta,
           pl_branch = Some head, pl_baseBranch = Some (co_base opts), pl_title = Some title, pl_url = url,
           pl_externalPrId = number, pl_status = status, pl_operationId = None\<rparr>)
     in act_bind (publish_pr d opts
          \<lparr>pi_repoDir = worktree, pi_base = co_base opts, pi_head = head, pi_title = title,
           pi_body = buildPrBody prompt meta (co_runId opts), pi_draft = co_draft opts\<rparr>
          (row None None ''failed'')) (\<lambda>(url, number).
        act_bind (record_pr opts dbFirst
          \<lparr>pv_runId = co_runId opts, pv_prUrl = url, pv_prNumber = number, pv_head = head, pv_base = co_base opts,
           pv_createdAt = co_now opts\<rparr>
          (row (Some url) (Some number) ''created'')) (\<lambda>_.
        act_return \<lparr>cr_runId = co_runId opts, cr_prUrl = url, cr_prNumber = number, cr_head = head,
          cr_draft = co_draft opts, cr_headSha = Some reviewedHeadSha\<rparr>)))"

definition createUnderLock ::
  "'z fs_world_scheme pr_deps \<Rightarrow> create_pr_opts \<Rightarrow> ('z fs_world_scheme, create_pr_result) pr_act" where
  "createUnderLock d opts =
     act_bind (act_get (run_row_of opts)) (\<lambda>dbRow.
     let dbFirst = opt_holds (\<lambda>r. ru_sourceMode r = ''db-first'') dbRow
     in if opt_holds (\<lambda>r. ru_sourceMode r \<noteq> ''db-first'' \<and> ru_sourceMode r \<noteq> ''legacy-file'') dbRow then
          act_throw (Source_mode (case dbRow of Some r \<Rightarrow> ru_sourceMode r | None \<Rightarrow> []) ''db-first | legacy-file'')
        else act_bind (created_pull opts) (\<lambda>existing.
          case existing of
            Some p \<Rightarrow> existingPrResult d opts p
          | None \<Rightarrow>
              act_bind (approved_run opts dbRow) (\<lambda>(meta, head).
              act_bind (gate (reviewedPathsFromMeta meta)) (\<lambda>reviewedPaths.
              let worktree = worktree_of (co_workspacesDir opts) (co_runId opts)
              in act_bind (prepare_branch d worktree meta reviewedPaths head (base_ref opts meta) (commit_message opts)) (\<lambda>_.
                 act_bind (push_branch d worktree head) (\<lambda>reviewedHeadSha.
                 publish_and_record d opts dbFirst meta head reviewedHeadSha))))))"

definition createPullRequest ::
  "'z fs_world_scheme pr_deps \<Rightarrow> create_pr_opts \<Rightarrow> ('z fs_world_scheme, create_pr_result) pr_act" where
  "createPullRequest d opts =
     (if \<not> RUN_ID_RE (co_runId opts) then act_throw (Gate Invalid_run_id)
      else act_bind (if co_db opts then assertNoLegacyRuntimeRows else act_return ()) (\<lambda>_.
        act_bind (act_get (run_row_of opts)) (\<lambda>dbRow.
        if opt_holds (\<lambda>r. ru_sourceMode r \<noteq> ''db-first'') dbRow then
          act_throw (Source_mode (case dbRow of Some r \<Rightarrow> ru_sourceMode r | None \<Rightarrow> []) ''db-first'')
        else act_bind (act_guard (\<lambda>s. dbRow \<noteq> None \<or> map_of (ps_metaFiles s) (co_runId opts) \<noteq> None) (Gate Run_not_found)) (\<lambda>_.
          act_bind (created_pull opts) (\<lambda>existing.
          case existing of Some p \<Rightarrow> existingPrResult d opts p | None \<Rightarrow> createUnderLock d opts)))))"

section \<open>Pushing a salvaged branch\<close>

record push_result =
  pp_runId :: string
  pp_branch :: string
  pp_headSha :: string
  pp_committed :: bool

definition loadReviewedBranchContext :: "run_record option \<Rightarrow> string \<Rightarrow> ('w, run_meta \<times> string \<times> string) pr_act" where
  "loadReviewedBranchContext dbRow runId =
     (if opt_holds (\<lambda>r. ru_sourceMode r \<noteq> ''db-first'') dbRow then
        act_throw (Source_mode (case dbRow of Some r \<Rightarrow> ru_sourceMode r | None \<Rightarrow> []) ''db-first'')
      else act_bind (case dbRow of
          Some row \<Rightarrow> (case ru_meta row of
              None \<Rightarrow> act_throw (Gate No_meta_json)
            | Some (Inl msg) \<Rightarrow> act_throw (Threw msg)
            | Some (Inr meta) \<Rightarrow> act_return (meta, ru_status row, ru_safetyStatus row, or_else (ru_runBranch row) [],
                coalesce (ru_baseSha row) (me_baseSha meta)))
        | None \<Rightarrow> act_bind (readMeta runId) (\<lambda>meta. act_return (meta, or_else (me_status meta) [], me_safetyStatus meta,
            or_else (me_runBranch meta) [], me_baseSha meta))) (\<lambda>(meta, status, safetyStatus, branch, baseRef).
        if status \<noteq> ''needs_review'' then act_throw (Gate (Wrong_status status))
        else if safetyStatus \<noteq> Some ''allowed'' then act_throw (Gate (Wrong_safety safetyStatus))
        else if branch = [] then act_throw (Gate No_run_branch)
        else if or_else baseRef [] = [] then act_throw (Gate No_base_sha)
        else act_return (meta, branch, or_else baseRef [])))"

definition commitAndPushReviewedBranch ::
  "'z fs_world_scheme pr_deps \<Rightarrow> path \<Rightarrow> string \<Rightarrow> string \<Rightarrow> string \<Rightarrow> run_meta \<Rightarrow> string
     \<Rightarrow> ('z fs_world_scheme, push_result) pr_act" where
  "commitAndPushReviewedBranch d workspacesDir runId branch baseRef meta commitMessage =
     (let worktree = worktree_of workspacesDir runId
      in act_bind (act_guard (\<lambda>s. existsSync (fw_fs (ps_world s)) worktree) (Gate Worktree_gone)) (\<lambda>_.
         act_bind (gate (reviewedPathsFromMeta meta)) (\<lambda>reviewedPaths.
         act_bind (prepare_branch d worktree meta reviewedPaths branch baseRef commitMessage) (\<lambda>committed.
         act_bind (gitCli d worktree [''push'', ''-u'', ''origin'', branch]) (\<lambda>push.
         if gr_exitCode push \<noteq> 0 then
           act_throw (Gate (Push_refused (if js_trim (gr_stderr push) = [] then js_trim (gr_stdout push) else js_trim (gr_stderr push))))
         else act_bind (runGit d worktree [''rev-parse'', ''HEAD'']) (\<lambda>out.
           act_return \<lparr>pp_runId = runId, pp_branch = branch, pp_headSha = js_trim out, pp_committed = committed\<rparr>))))))"

definition pushReviewedBranchForEscalation ::
  "'z fs_world_scheme pr_deps \<Rightarrow> create_pr_opts \<Rightarrow> ('z fs_world_scheme, push_result) pr_act" where
  "pushReviewedBranchForEscalation d opts =
     (if \<not> RUN_ID_RE (co_runId opts) then act_throw (Gate Invalid_run_id)
      else act_bind (if co_db opts then assertNoLegacyRuntimeRows else act_return ()) (\<lambda>_.
        act_bind (act_get (run_row_of opts)) (\<lambda>dbRow.
        act_bind (loadReviewedBranchContext dbRow (co_runId opts)) (\<lambda>(meta, branch, baseRef).
        commitAndPushReviewedBranch d (co_workspacesDir opts) (co_runId opts) branch baseRef meta
          (''harness salvage: '' @ co_runId opts)))))"

section \<open>What git is documented to do\<close>

text \<open>
  What a command prints when it succeeds in a world. The reading commands change nothing. Staging and committing
  (with the hooks disabled) touch neither the files nor what the listed questions ask for: the branch that is
  checked out, the replace refs, the grafts, shallowness.
\<close>

definition git_out :: "'w tools \<Rightarrow> path \<Rightarrow> string list \<Rightarrow> 'w \<Rightarrow> string option" where
  "git_out t cwd args w = (case fst (tl_git t (slash_path cwd) args w) of
     Inl _ \<Rightarrow> None | Inr r \<Rightarrow> if \<not> gr_timedOut r \<and> gr_exitCode r = 0 then Some (gr_stdout r) else None)"

definition is_read :: "string list \<Rightarrow> bool" where
  "is_read args \<longleftrightarrow> args \<noteq> [] \<and> hd args \<in> {''rev-parse'', ''for-each-ref'', ''rev-list'', ''diff'', ''log''}"

definition commit_args :: "string \<Rightarrow> string list" where
  "commit_args msg = [''-c'', ''core.hooksPath=/dev/null'', ''commit'', ''--no-gpg-sign'', ''--cleanup=verbatim'', ''-m'', msg]"

definition STABLE_QUESTIONS :: "string list list" where
  "STABLE_QUESTIONS = [[''rev-parse'', ''--abbrev-ref'', ''HEAD''], [''for-each-ref'', ''--format=%(refname)'', ''refs/replace/''],
     [''rev-parse'', ''--git-path'', ''info/grafts''], [''rev-parse'', ''--is-shallow-repository'']]"

definition settled :: "'z fs_world_scheme tools \<Rightarrow> path \<Rightarrow> 'z fs_world_scheme \<Rightarrow> 'z fs_world_scheme \<Rightarrow> bool" where
  "settled t cwd w w' \<longleftrightarrow> fw_fs w' = fw_fs w \<and> (\<forall>q \<in> set STABLE_QUESTIONS. git_out t cwd q w' = git_out t cwd q w)"

definition documented_git :: "'z fs_world_scheme tools \<Rightarrow> bool" where
  "documented_git t \<longleftrightarrow>
     (\<forall>cwd args w. is_read args \<longrightarrow> snd (tl_git t cwd args w) = w)
     \<and> (\<forall>cwd paths w. settled t cwd w (snd (tl_git t (slash_path cwd) ([''add'', ''--''] @ paths) w)))
     \<and> (\<forall>cwd msg w. settled t cwd w (snd (tl_git t (slash_path cwd) (commit_args msg) w)))"

text \<open>
  A work tree whose push sends only what was reviewed: the branch is checked out, the object graph is not tampered
  with, at most one commit lies behind the base, its message is the harness's, every path that differs from the
  base is a reviewed one, and the reviewed files have the recorded fingerprint.
\<close>

definition pushable ::
  "'z fs_world_scheme pr_deps \<Rightarrow> path \<Rightarrow> string \<Rightarrow> string \<Rightarrow> string \<Rightarrow> run_meta \<Rightarrow> 'z fs_world_scheme \<Rightarrow> bool" where
  "pushable d worktree branch baseRef message meta w \<longleftrightarrow>
     (\<exists>current replaceRefs grafts shallow base count msg changed paths reviewed.
        git_out (pd_tools d) worktree [''rev-parse'', ''--abbrev-ref'', ''HEAD''] w = Some current \<and> js_trim current = branch
      \<and> git_out (pd_tools d) worktree [''for-each-ref'', ''--format=%(refname)'', ''refs/replace/''] w = Some replaceRefs
      \<and> js_trim replaceRefs = []
      \<and> git_out (pd_tools d) worktree [''rev-parse'', ''--git-path'', ''info/grafts''] w = Some grafts
      \<and> \<not> (js_trim grafts \<noteq> [] \<and> existsSync (fw_fs w) (path_resolve worktree (js_trim grafts)))
      \<and> git_out (pd_tools d) worktree [''rev-parse'', ''--is-shallow-repository''] w = Some shallow \<and> js_trim shallow \<noteq> ''true''
      \<and> git_out (pd_tools d) worktree [''rev-parse'', baseRef] w = Some base
      \<and> git_out (pd_tools d) worktree [''rev-list'', ''--count'', js_trim base @ ''..HEAD''] w = Some count
      \<and> \<not> opt_holds (\<lambda>n. n > 1) (digits_value 0 (js_trim count))
      \<and> git_out (pd_tools d) worktree [''log'', ''-1'', ''--format=%B'', ''HEAD''] w = Some msg
      \<and> strip_newlines msg = strip_newlines message
      \<and> git_out (pd_tools d) worktree [''diff'', ''--no-renames'', ''-z'', ''--name-only'', baseRef, ''HEAD''] w = Some changed
      \<and> reviewedPathsFromMeta meta = Inr paths \<and> set (parseGitPathList changed) \<subseteq> set paths
      \<and> me_reviewed meta = Some reviewed \<and> rv_fingerprint reviewed = Some (fingerprint_now d worktree paths w))"

section \<open>What the checks establish\<close>

lemma runGit_read:
  assumes "documented_git (pd_tools d)" "is_read args" "runGit d cwd args s = (r, s')"
  shows "s' = s \<and> (\<forall>out. r = Inr out \<longrightarrow> git_out (pd_tools d) cwd args (ps_world s) = Some out)"
proof -
  have "snd (tl_git (pd_tools d) (slash_path cwd) args (ps_world s)) = ps_world s"
    using assms(1,2) by (simp add: documented_git_def)
  then show ?thesis
    using assms(3) by (auto simp: runGit_def gitCli_def on_world_def git_out_def act_bind_def act_throw_def act_return_def
      split: prod.splits sum.splits if_splits)
qed

lemma read_questions [simp]:
  "is_read [''rev-parse'', x]" "is_read [''rev-parse'', x, y]" "is_read [''for-each-ref'', x, y]"
  "is_read [''rev-list'', x, y]" "is_read [''log'', x, y, z]" "is_read (''diff'' # rest)"
  by (simp_all add: is_read_def)

lemma runGit_reads:
  assumes "documented_git (pd_tools d)" "is_read args" "runGit d cwd args s = (Inr out, s')"
  shows "s' = s \<and> git_out (pd_tools d) cwd args (ps_world s) = Some out"
  using runGit_read[OF assms] by auto

lemma act_check_Inr:
  "(if b then act_throw e else m) s = (Inr x, s') \<longleftrightarrow> \<not> b \<and> m s = (Inr x, s')"
  "(if b then m else act_throw e) s = (Inr x, s') \<longleftrightarrow> b \<and> m s = (Inr x, s')"
  "act_guard P e s = (Inr u, s') \<longleftrightarrow> P s \<and> s' = s"
  "act_return y s = (Inr x, s') \<longleftrightarrow> y = x \<and> s' = s"
  "act_get g s = (Inr v, s') \<longleftrightarrow> v = g s \<and> s' = s"
  by (auto simp: act_throw_def act_guard_def act_return_def act_get_def)

lemma fingerprint_matches:
  assumes "assertReviewedFingerprintMatches d wt meta paths s = (Inr (), s')"
  shows "s' = s \<and> (\<exists>rv. me_reviewed meta = Some rv \<and> rv_fingerprint rv = Some (fingerprint_now d wt paths (ps_world s)))"
  using assms by (cases "me_reviewed meta") (auto simp: assertReviewedFingerprintMatches_def act_check_Inr)

lemma head_branch:
  assumes "documented_git (pd_tools d)" "assertHeadBranch d wt branch s = (Inr (), s')"
  shows "s' = s \<and> (\<exists>cur. git_out (pd_tools d) wt [''rev-parse'', ''--abbrev-ref'', ''HEAD''] (ps_world s) = Some cur \<and> js_trim cur = branch)"
  using assms(2) unfolding assertHeadBranch_def act_bind_Inr act_check_Inr
  by (auto dest!: runGit_reads[OF assms(1), rotated])

lemma no_tampering:
  assumes "documented_git (pd_tools d)" "assertNoObjectGraphTampering d wt s = (Inr (), s')"
  shows "s' = s
     \<and> (\<exists>r. git_out (pd_tools d) wt [''for-each-ref'', ''--format=%(refname)'', ''refs/replace/''] (ps_world s) = Some r \<and> js_trim r = [])
     \<and> (\<exists>g. git_out (pd_tools d) wt [''rev-parse'', ''--git-path'', ''info/grafts''] (ps_world s) = Some g
           \<and> \<not> (js_trim g \<noteq> [] \<and> existsSync (fw_fs (ps_world s)) (path_resolve wt (js_trim g))))
     \<and> (\<exists>h. git_out (pd_tools d) wt [''rev-parse'', ''--is-shallow-repository''] (ps_world s) = Some h \<and> js_trim h \<noteq> ''true'')"
  using assms(2) unfolding assertNoObjectGraphTampering_def act_bind_Inr act_check_Inr
  by (auto dest!: runGit_reads[OF assms(1), rotated])

lemma history_reads:
  assumes "documented_git (pd_tools d)" "assertNoUnreviewedHistory d wt baseRef s = (Inr b, s')"
  shows "s' = s"
  using assms(2) unfolding assertNoUnreviewedHistory_def act_bind_Inr Let_def
  by (auto dest!: runGit_reads[OF assms(1), rotated] simp: act_bind_Inr act_check_Inr split: if_splits)

lemma subset_checked: "assertPathsSubset ps qs label s = (Inr u, s') \<Longrightarrow> s' = s \<and> set ps \<subseteq> set qs"
  by (auto simp: assertPathsSubset_def Let_def act_check_Inr filter_empty_conv)

lemma single_commit:
  assumes "documented_git (pd_tools d)" "assertSingleReviewedCommit d wt baseRef s = (Inr (), s')"
  shows "s' = s \<and> (\<exists>base count. git_out (pd_tools d) wt [''rev-parse'', baseRef] (ps_world s) = Some base
       \<and> git_out (pd_tools d) wt [''rev-list'', ''--count'', js_trim base @ ''..HEAD''] (ps_world s) = Some count
       \<and> \<not> opt_holds (\<lambda>n. n > 1) (digits_value 0 (js_trim count)))"
proof -
  obtain base s1 count s2 where reads: "runGit d wt [''rev-parse'', baseRef] s = (Inr base, s1)"
      "runGit d wt [''rev-list'', ''--count'', js_trim base @ ''..HEAD''] s1 = (Inr count, s2)"
    and last: "(case digits_value 0 (js_trim count) of Some n \<Rightarrow> if n > 1 then act_throw (Gate (Too_many_commits (js_trim count)))
        else act_return () | None \<Rightarrow> act_return ()) s2 = (Inr (), s')"
    using assms(2) unfolding assertSingleReviewedCommit_def act_bind_Inr by blast
  have "s1 = s" "s2 = s" using reads by (auto dest!: runGit_reads[OF assms(1), rotated])
  moreover have "s' = s2 \<and> \<not> opt_holds (\<lambda>n. n > 1) (digits_value 0 (js_trim count))"
    using last by (cases "digits_value 0 (js_trim count)") (auto simp: act_check_Inr opt_holds_def)
  ultimately show ?thesis using reads by (auto dest!: runGit_reads[OF assms(1), rotated])
qed

lemma branch_verified:
  assumes "documented_git (pd_tools d)" "verify_branch d wt paths baseRef message s = (Inr (), s')"
  shows "s' = s
     \<and> (\<exists>base count. git_out (pd_tools d) wt [''rev-parse'', baseRef] (ps_world s) = Some base
           \<and> git_out (pd_tools d) wt [''rev-list'', ''--count'', js_trim base @ ''..HEAD''] (ps_world s) = Some count
           \<and> \<not> opt_holds (\<lambda>n. n > 1) (digits_value 0 (js_trim count)))
     \<and> (\<exists>m. git_out (pd_tools d) wt [''log'', ''-1'', ''--format=%B'', ''HEAD''] (ps_world s) = Some m
           \<and> strip_newlines m = strip_newlines message)
     \<and> (\<exists>out. git_out (pd_tools d) wt [''diff'', ''--no-renames'', ''-z'', ''--name-only'', baseRef, ''HEAD''] (ps_world s) = Some out
           \<and> set (parseGitPathList out) \<subseteq> set paths)"
proof -
  obtain s1 s2 out s3 where single: "assertSingleReviewedCommit d wt baseRef s = (Inr (), s1)"
    and message: "assertHeadCommitMessageAuthentic d wt message s1 = (Inr (), s2)"
    and diff: "runGit d wt [''diff'', ''--no-renames'', ''-z'', ''--name-only'', baseRef, ''HEAD''] s2 = (Inr out, s3)"
    and subset: "assertPathsSubset (parseGitPathList out) paths ''branch diff'' s3 = (Inr (), s')"
    using assms(2) unfolding verify_branch_def act_bind_Inr by auto
  have "s2 = s1 \<and> (\<exists>m. git_out (pd_tools d) wt [''log'', ''-1'', ''--format=%B'', ''HEAD''] (ps_world s1) = Some m
      \<and> strip_newlines m = strip_newlines message)"
    using message unfolding assertHeadCommitMessageAuthentic_def act_bind_Inr act_check_Inr
    by (auto dest!: runGit_reads[OF assms(1), rotated])
  then show ?thesis
    using single_commit[OF assms(1) single] runGit_reads[OF assms(1) _ diff] subset_checked[OF subset] by auto
qed

text \<open>Staging and committing leave what was asked before as it was.\<close>

lemma runGit_Inr: "runGit d cwd args s = (Inr out, s') \<Longrightarrow> s' = s\<lparr>ps_world := snd (tl_git (pd_tools d) (slash_path cwd) args (ps_world s))\<rparr>"
  by (auto simp: runGit_def gitCli_def on_world_def act_bind_def act_throw_def act_return_def split: prod.splits sum.splits if_splits)

definition same_tables :: "'w pr_state \<Rightarrow> 'w pr_state \<Rightarrow> bool" where
  "same_tables s s' \<longleftrightarrow> s' = s\<lparr>ps_world := ps_world s'\<rparr>"

lemma same_tables_refl [simp]: "same_tables s s"
  by (simp add: same_tables_def)

lemma same_tables_trans: "same_tables s s' \<Longrightarrow> same_tables s' s'' \<Longrightarrow> same_tables s s''"
  by (cases s; cases s'; cases s'') (simp add: same_tables_def)

lemma settled_trans: "settled t cwd w w' \<Longrightarrow> settled t cwd w' w'' \<Longrightarrow> settled t cwd w w''"
  by (simp add: settled_def)

lemma staged:
  assumes doc: "documented_git (pd_tools d)" and run: "stage_and_commit d wt paths headAtBase message s = (Inr c, s')"
  shows "same_tables s s' \<and> settled (pd_tools d) wt (ps_world s) (ps_world s')"
proof -
  have keeps: "settled (pd_tools d) wt w (snd (tl_git (pd_tools d) (slash_path wt) ([''add'', ''--''] @ paths) w))"
    "settled (pd_tools d) wt w (snd (tl_git (pd_tools d) (slash_path wt) (commit_args message) w))" for w
    using doc by (auto simp: documented_git_def)
  obtain o1 s1 o2 s2 u s3 where add: "runGit d wt ([''add'', ''--''] @ paths) s = (Inr o1, s1)"
    and diff: "runGit d wt [''diff'', ''--no-renames'', ''--cached'', ''-z'', ''--name-only''] s1 = (Inr o2, s2)"
    and subset: "assertPathsSubset (parseGitPathList o2) paths ''staged diff'' s2 = (Inr u, s3)"
    and last: "(if \<not> headAtBase \<and> parseGitPathList o2 \<noteq> [] then act_throw (Gate Second_commit)
        else if parseGitPathList o2 \<noteq> [] then act_bind (runGit d wt (commit_args message)) (\<lambda>_. act_return True)
        else act_return False) s3 = (Inr c, s')"
    using run unfolding stage_and_commit_def act_bind_Inr Let_def by (elim exE conjE) (rule that[unfolded commit_args_def])
  have rest: "s' = s3 \<or> (\<exists>o4. runGit d wt (commit_args message) s3 = (Inr o4, s'))"
    using last by (cases "parseGitPathList o2 = []"; cases headAtBase) (simp_all add: act_bind_Inr act_return_def act_throw_def)
  have s3: "same_tables s s3" "settled (pd_tools d) wt (ps_world s) (ps_world s3)"
    using runGit_Inr[OF add] runGit_reads[OF doc _ diff] subset_checked[OF subset] keeps(1) by (simp_all add: same_tables_def)
  from rest show ?thesis
  proof
    assume "s' = s3" then show ?thesis using s3 by simp
  next
    assume "\<exists>o4. runGit d wt (commit_args message) s3 = (Inr o4, s')"
    then have s': "s' = s3\<lparr>ps_world := snd (tl_git (pd_tools d) (slash_path wt) (commit_args message) (ps_world s3))\<rparr>"
      by (auto dest: runGit_Inr)
    then have "same_tables s3 s'" by (simp add: same_tables_def)
    moreover have "settled (pd_tools d) wt (ps_world s3) (ps_world s')" using s' keeps(2)[of "ps_world s3"] by simp
    ultimately show ?thesis using s3 same_tables_trans settled_trans by blast
  qed
qed

lemma branch_prepared:
  assumes doc: "documented_git (pd_tools d)" and paths: "reviewedPathsFromMeta meta = Inr paths"
    and run: "prepare_branch d wt meta paths head baseRef message s = (Inr c, s')"
  shows "same_tables s s' \<and> pushable d wt head baseRef message meta (ps_world s')"
proof -
  obtain s1 s2 s3 b s4 s5 u v x y where fp: "assertReviewedFingerprintMatches d wt meta paths s = (Inr u, s1)"
    and branch: "assertHeadBranch d wt head s1 = (Inr v, s2)"
    and graph: "assertNoObjectGraphTampering d wt s2 = (Inr x, s3)"
    and hist: "assertNoUnreviewedHistory d wt baseRef s3 = (Inr b, s4)"
    and stage: "stage_and_commit d wt paths b message s4 = (Inr c, s5)"
    and verify: "verify_branch d wt paths baseRef message s5 = (Inr y, s')"
    using run unfolding prepare_branch_def act_bind_Inr act_check_Inr by blast
  have pre: "s1 = s" "s2 = s" "s3 = s" "s4 = s"
    using fingerprint_matches[of d wt meta paths s s1] fp head_branch[OF doc, of wt head s1 s2] branch
      no_tampering[OF doc, of wt s2 s3] graph history_reads[OF doc hist] by auto
  have s': "s' = s5" using branch_verified[OF doc, of wt paths baseRef message s5 s'] verify by simp
  have tables: "same_tables s s5" and same: "settled (pd_tools d) wt (ps_world s) (ps_world s5)"
    using staged[OF doc stage] pre by auto
  have files: "fw_fs (ps_world s5) = fw_fs (ps_world s)"
    and asked: "\<And>q. q \<in> set STABLE_QUESTIONS \<Longrightarrow> git_out (pd_tools d) wt q (ps_world s5) = git_out (pd_tools d) wt q (ps_world s)"
    using same by (auto simp: settled_def)
  note asked = asked[of "[''rev-parse'', ''--abbrev-ref'', ''HEAD'']"]
    asked[of "[''for-each-ref'', ''--format=%(refname)'', ''refs/replace/'']"]
    asked[of "[''rev-parse'', ''--git-path'', ''info/grafts'']"] asked[of "[''rev-parse'', ''--is-shallow-repository'']"]
  have fp_same: "fingerprint_now d wt paths (ps_world s5) = fingerprint_now d wt paths (ps_world s)"
    by (simp add: fingerprint_now_def files)
  obtain rv where rv: "me_reviewed meta = Some rv" "rv_fingerprint rv = Some (fingerprint_now d wt paths (ps_world s5))"
    using fingerprint_matches[of d wt meta paths s s1] fp fp_same by auto
  obtain cur where cur: "git_out (pd_tools d) wt [''rev-parse'', ''--abbrev-ref'', ''HEAD''] (ps_world s5) = Some cur" "js_trim cur = head"
    using head_branch[OF doc, of wt head s s2] branch pre asked(1) by (auto simp: STABLE_QUESTIONS_def)
  obtain r g h where graph_facts:
    "git_out (pd_tools d) wt [''for-each-ref'', ''--format=%(refname)'', ''refs/replace/''] (ps_world s5) = Some r" "js_trim r = []"
    "git_out (pd_tools d) wt [''rev-parse'', ''--git-path'', ''info/grafts''] (ps_world s5) = Some g"
    "\<not> (js_trim g \<noteq> [] \<and> existsSync (fw_fs (ps_world s5)) (path_resolve wt (js_trim g)))"
    "git_out (pd_tools d) wt [''rev-parse'', ''--is-shallow-repository''] (ps_world s5) = Some h" "js_trim h \<noteq> ''true''"
    using no_tampering[OF doc, of wt s s3] graph pre asked(2-4) files by (auto simp: STABLE_QUESTIONS_def)
  obtain base count m out where verified: "git_out (pd_tools d) wt [''rev-parse'', baseRef] (ps_world s5) = Some base"
    "git_out (pd_tools d) wt [''rev-list'', ''--count'', js_trim base @ ''..HEAD''] (ps_world s5) = Some count"
    "\<not> opt_holds (\<lambda>n. n > 1) (digits_value 0 (js_trim count))"
    "git_out (pd_tools d) wt [''log'', ''-1'', ''--format=%B'', ''HEAD''] (ps_world s5) = Some m" "strip_newlines m = strip_newlines message"
    "git_out (pd_tools d) wt [''diff'', ''--no-renames'', ''-z'', ''--name-only'', baseRef, ''HEAD''] (ps_world s5) = Some out"
    "set (parseGitPathList out) \<subseteq> set paths"
    using branch_verified[OF doc, of wt paths baseRef message s5 s'] verify by auto
  have "pushable d wt head baseRef message meta (ps_world s5)"
    unfolding pushable_def
    by (intro exI conjI) (rule cur graph_facts verified paths rv)+
  then show ?thesis using s' tables by simp
qed

section \<open>Only reviewed work is pushed\<close>

text \<open>
  A condition on the world that is kept by every git command except a push, by the publisher, and by the pushes that
  \<open>ok\<close> permits.
\<close>

definition kept_unless_pushed ::
  "'w pr_deps \<Rightarrow> ('w \<Rightarrow> bool) \<Rightarrow> (path \<Rightarrow> string \<Rightarrow> 'w \<Rightarrow> bool) \<Rightarrow> bool" where
  "kept_unless_pushed d I ok \<longleftrightarrow>
     (\<forall>cwd args w. I w \<longrightarrow> take 1 args \<noteq> [''push''] \<longrightarrow> I (snd (tl_git (pd_tools d) (slash_path cwd) args w)))
     \<and> (\<forall>cwd branch w. I w \<longrightarrow> ok cwd branch w \<longrightarrow>
          I (snd (tl_git (pd_tools d) (slash_path cwd) [''push'', ''-u'', ''origin'', branch] w)))
     \<and> (\<forall>inputs w. I w \<longrightarrow> I (snd (pd_publish d inputs w)))"

definition world_holds :: "('w \<Rightarrow> bool) \<Rightarrow> 'w pr_state \<Rightarrow> bool" where
  "world_holds I s = I (ps_world s)"

lemma world_holds_tables [simp]:
  "world_holds I (s\<lparr>ps_pulls := x\<rparr>) = world_holds I s" "world_holds I (s\<lparr>ps_runs := r, ps_runEvents := e\<rparr>) = world_holds I s"
  "world_holds I (s\<lparr>ps_metaFiles := f, ps_eventFiles := v\<rparr>) = world_holds I s"
  by (simp_all add: world_holds_def)

lemma on_world_keeps: "act_keeps I m \<Longrightarrow> act_keeps (world_holds I) (on_world m)"
  by (auto simp: act_keeps_def world_holds_def on_world_def split: prod.splits sum.splits)

lemma runGit_keeps:
  assumes "kept_unless_pushed d I ok" "take 1 args \<noteq> [''push'']"
  shows "act_keeps (world_holds I) (runGit d cwd args)"
proof -
  have "act_keeps I (tl_git (pd_tools d) (slash_path cwd) args)"
    using assms by (simp add: kept_unless_pushed_def act_keeps_def)
  then show ?thesis unfolding runGit_def gitCli_def by (intro act_inv_rules on_world_keeps)
qed

lemma checks_keep:
  assumes "kept_unless_pushed d I ok"
  shows "act_keeps (world_holds I) (prepare_branch d wt meta paths head baseRef message)"
  unfolding prepare_branch_def assertReviewedFingerprintMatches_def assertHeadBranch_def assertNoObjectGraphTampering_def
    assertNoUnreviewedHistory_def stage_and_commit_def assertPathsSubset_def verify_branch_def assertSingleReviewedCommit_def
    assertHeadCommitMessageAuthentic_def
  by (intro act_inv_rules runGit_keeps[OF assms]) simp_all

lemma push_keeps:
  assumes kept: "kept_unless_pushed d I ok" and "world_holds I s" "ok wt branch (ps_world s)"
  shows "world_holds I (snd (gitCli d wt [''push'', ''-u'', ''origin'', branch] s))"
  using assms by (auto simp: gitCli_def on_world_def kept_unless_pushed_def world_holds_def split: prod.splits sum.splits)
    (metis snd_conv)+

lemma act_bind_keeps:
  "I (snd (m s)) \<Longrightarrow> (\<And>x. act_keeps I (f x)) \<Longrightarrow> I (snd (act_bind m f s))"
  by (auto simp: act_bind_def act_keeps_def split: prod.splits sum.splits)

lemma push_branch_keeps:
  assumes "kept_unless_pushed d I ok" "world_holds I s" "ok wt head (ps_world s)"
  shows "world_holds I (snd (push_branch d wt head s))"
  unfolding push_branch_def
  by (rule act_bind_keeps, rule push_keeps[OF assms], unfold Let_def) (intro act_inv_rules runGit_keeps[OF assms(1)], simp)

lemma publish_keeps:
  assumes "kept_unless_pushed d I ok"
  shows "act_keeps (world_holds I) (publish_pr d opts inputs failed)"
proof -
  have "act_keeps I (pd_publish d inputs)" using assms by (simp add: kept_unless_pushed_def act_keeps_def)
  then have "act_keeps (world_holds I) (on_world (pd_publish d inputs))" by (rule on_world_keeps)
  then show ?thesis
    by (auto simp: act_keeps_def publish_pr_def split: prod.splits sum.splits)
qed

lemma recordPrCreated_keeps [act_inv_rules]: "act_keeps (world_holds I) (recordPrCreated v)"
  unfolding recordPrCreated_def by (intro act_inv_rules) (simp_all add: world_holds_def)

lemma record_keeps: "act_keeps (world_holds I) (record_pr opts dbFirst v row)"
  unfolding record_pr_def readMeta_def Let_def by (intro act_inv_rules) simp_all

lemma publish_and_record_keeps:
  assumes "kept_unless_pushed d I ok"
  shows "act_keeps (world_holds I) (publish_and_record d opts dbFirst meta head sha)"
  unfolding publish_and_record_def Let_def by (intro act_inv_rules publish_keeps[OF assms] record_keeps)

lemma existing_keeps:
  assumes "kept_unless_pushed d I ok"
  shows "act_keeps (world_holds I) (existingPrResult d opts p)"
proof -
  have "act_keeps (world_holds I) (resolveReviewedHeadSha d opts b)" for b
    using runGit_keeps[OF assms, of "[''rev-parse'', or_else b []]"]
    by (auto simp: act_keeps_def resolveReviewedHeadSha_def Let_def split: prod.splits sum.splits) (metis snd_conv)+
  then show ?thesis unfolding existingPrResult_def by (intro act_inv_rules)
qed

text \<open>Reading the stored run changes nothing and does not look at the world.\<close>

lemma readMeta_keeps: "act_keeps (world_holds I) (readMeta runId)"
  unfolding readMeta_def by (intro act_inv_rules)

lemma load_run_keeps: "act_keeps (world_holds I) (load_run opts dbRow)"
  unfolding load_run_def by (intro act_inv_rules readMeta_keeps)

lemma approved_run_keeps: "act_keeps (world_holds I) (approved_run opts dbRow)"
  unfolding approved_run_def by (intro act_inv_rules load_run_keeps)

lemma context_keeps: "act_keeps (world_holds I) (loadReviewedBranchContext dbRow runId)"
  unfolding loadReviewedBranchContext_def by (intro act_inv_rules readMeta_keeps)

lemma gate_keeps: "act_keeps (world_holds I) (gate g)"
  unfolding gate_def by (intro act_inv_rules)

definition approved_push ::
  "'z fs_world_scheme pr_deps \<Rightarrow> create_pr_opts \<Rightarrow> 'z fs_world_scheme pr_state \<Rightarrow> path \<Rightarrow> string \<Rightarrow> 'z fs_world_scheme \<Rightarrow> bool" where
  "approved_push d opts s worktree branch w \<longleftrightarrow> worktree = worktree_of (co_workspacesDir opts) (co_runId opts)
     \<and> (\<exists>meta. load_run opts (run_row_of opts s) s = (Inr (meta, ''approved'', branch), s)
         \<and> pushable d worktree branch (base_ref opts meta) (commit_message opts) meta w)"

definition salvage_push ::
  "'z fs_world_scheme pr_deps \<Rightarrow> create_pr_opts \<Rightarrow> 'z fs_world_scheme pr_state \<Rightarrow> path \<Rightarrow> string \<Rightarrow> 'z fs_world_scheme \<Rightarrow> bool" where
  "salvage_push d opts s worktree branch w \<longleftrightarrow> worktree = worktree_of (co_workspacesDir opts) (co_runId opts)
     \<and> (\<exists>meta baseRef. loadReviewedBranchContext (run_row_of opts s) (co_runId opts) s = (Inr (meta, branch, baseRef), s)
         \<and> pushable d worktree branch baseRef (''harness salvage: '' @ co_runId opts) meta w)"

lemma load_run_reads: "load_run opts dbRow s = (Inr x, s') \<Longrightarrow> s' = s"
  by (auto simp: load_run_def readMeta_def act_simps split: option.splits sum.splits if_splits)

lemma approved_run_ok:
  assumes "approved_run opts dbRow s = (Inr (meta, head), s')"
  shows "s' = s \<and> load_run opts dbRow s = (Inr (meta, ''approved'', head), s)"
  using assms load_run_reads unfolding approved_run_def act_bind_Inr
  by (fastforce simp: act_check_Inr act_bind_Inr split: prod.splits if_splits)

lemma context_reads: "loadReviewedBranchContext dbRow runId s = (Inr x, s') \<Longrightarrow> s' = s"
  by (auto simp: loadReviewedBranchContext_def readMeta_def act_simps split: option.splits sum.splits if_splits)

lemma gate_ok: "gate g s = (Inr x, s') \<Longrightarrow> s' = s \<and> g = Inr x"
  by (auto simp: gate_def act_throw_def act_return_def split: sum.splits)

text \<open>A bind whose first step succeeds and may be looked into.\<close>

lemma bind_holds:
  assumes "act_keeps (world_holds I) m" "world_holds I s"
    and "\<And>x s1. m s = (Inr x, s1) \<Longrightarrow> world_holds I s1 \<Longrightarrow> world_holds I (snd (f x s1))"
  shows "world_holds I (snd (act_bind m f s))"
  using assms by (cases "m s"; cases "fst (m s)") (auto simp: act_bind_def dest: act_keepsD)

lemma get_holds: "world_holds I (snd (f (g s) s)) \<Longrightarrow> world_holds I (snd (act_bind (act_get g) f s))"
  by (simp add: act_bind_def act_get_def)

lemma pushed_after_prepare:
  assumes doc: "documented_git (pd_tools d)" and kept: "kept_unless_pushed d I ok" and "world_holds I s"
    and paths: "reviewedPathsFromMeta meta = Inr paths"
    and ok: "\<And>w. pushable d wt head baseRef message meta w \<Longrightarrow> ok wt head w"
    and send: "\<And>c s1. world_holds I s1 \<Longrightarrow> ok wt head (ps_world s1) \<Longrightarrow> world_holds I (snd (f c s1))"
  shows "world_holds I (snd (act_bind (prepare_branch d wt meta paths head baseRef message) f s))"
  by (rule bind_holds[OF checks_keep[OF kept] assms(3)], rule send, assumption, rule ok)
    (use branch_prepared[OF doc paths] in blast)

lemma createUnderLock_holds:
  assumes doc: "documented_git (pd_tools d)" and kept: "kept_unless_pushed d I (approved_push d opts s)" and I: "world_holds I s"
  shows "world_holds I (snd (createUnderLock d opts s))"
proof -
  let ?row = "run_row_of opts s" and ?wt = "worktree_of (co_workspacesDir opts) (co_runId opts)"
  have send: "world_holds I (snd ((act_bind (push_branch d ?wt head) (\<lambda>sha. publish_and_record d opts b meta head sha)) s1))"
    if "world_holds I s1" "approved_push d opts s ?wt head (ps_world s1)" for head b meta s1
    by (rule act_bind_keeps[of "world_holds I" "push_branch d ?wt head" s1])
      (rule push_branch_keeps[OF kept that], rule publish_and_record_keeps[OF kept])
  have run: "world_holds I (snd ((case p of (meta, head) \<Rightarrow> act_bind (gate (reviewedPathsFromMeta meta)) (\<lambda>paths.
       act_bind (prepare_branch d ?wt meta paths head (base_ref opts meta) (commit_message opts)) (\<lambda>_.
       act_bind (push_branch d ?wt head) (\<lambda>sha. publish_and_record d opts b meta head sha)))) s1))"
    if loaded: "approved_run opts ?row s = (Inr p, s1)" and "world_holds I s1" for p s1 b
  proof (cases p)
    case (Pair meta head)
    then have load: "s1 = s" "load_run opts ?row s = (Inr (meta, ''approved'', head), s)"
      using approved_run_ok[of opts ?row s meta head s1] loaded by auto
    have "world_holds I (snd (act_bind (prepare_branch d ?wt meta paths head (base_ref opts meta) (commit_message opts)) (\<lambda>_.
       act_bind (push_branch d ?wt head) (\<lambda>sha. publish_and_record d opts b meta head sha)) s2))"
      if "gate (reviewedPathsFromMeta meta) s1 = (Inr paths, s2)" "world_holds I s2" for paths s2
      using gate_ok[OF that(1)] load that(2)
      by (intro pushed_after_prepare[OF doc kept] send) (auto simp: approved_push_def)
    then show ?thesis unfolding Pair prod.case by (intro bind_holds[OF gate_keeps that(2)])
  qed
  have "world_holds I (snd ((case existing of Some p \<Rightarrow> existingPrResult d opts p | None \<Rightarrow>
       act_bind (approved_run opts ?row) (\<lambda>p. case p of (meta, head) \<Rightarrow> act_bind (gate (reviewedPathsFromMeta meta)) (\<lambda>paths.
       act_bind (prepare_branch d ?wt meta paths head (base_ref opts meta) (commit_message opts)) (\<lambda>_.
       act_bind (push_branch d ?wt head) (\<lambda>sha. publish_and_record d opts b meta head sha))))) s))" for existing b
    using existing_keeps[OF kept] I by (cases existing) (auto intro: bind_holds[OF approved_run_keeps I run] act_keeps_snd)
  then show ?thesis
    unfolding createUnderLock_def created_pull_def Let_def
    by (intro get_holds) (simp add: act_throw_def I get_holds)
qed

lemma legacy_holds:
  "world_holds I s \<Longrightarrow> world_holds I (snd (f () s)) \<Longrightarrow>
   world_holds I (snd (act_bind (if b then assertNoLegacyRuntimeRows else act_return ()) f s))"
  by (simp add: act_bind_def assertNoLegacyRuntimeRows_def act_return_def Let_def)

lemma if_holds: "world_holds I s \<Longrightarrow> (\<not> b \<Longrightarrow> world_holds I (snd (m s))) \<Longrightarrow> world_holds I (snd ((if b then act_throw e else m) s))"
  by (simp add: act_throw_def)

lemma guard_holds: "world_holds I s \<Longrightarrow> (P s \<Longrightarrow> world_holds I (snd (f () s))) \<Longrightarrow> world_holds I (snd (act_bind (act_guard P e) f s))"
  by (simp add: act_bind_def act_guard_def)

text \<open>
  C24: nothing but reviewed work leaves through \<open>pr create\<close>. Take any condition on the world that every git command other
  than a push keeps, that the publisher keeps, and that a push keeps when it pushes the branch of an approved run
  from a work tree where: that branch is checked out, the object graph is untampered, at most one commit lies
  behind the base, its message is the harness's own, the paths that differ from the base are reviewed ones, and
  the reviewed files have the recorded fingerprint. Then \<open>createPullRequest\<close> keeps it, on every path through it.
\<close>

theorem only_reviewed_work_is_pushed:
  assumes "documented_git (pd_tools d)"
    and "kept_unless_pushed d I (approved_push d opts s)"
    and "I (ps_world s)"
  shows "I (ps_world (snd (createPullRequest d opts s)))"
proof -
  have I: "world_holds I s" using assms(3) by (simp add: world_holds_def)
  have existing: "world_holds I (snd ((case p of Some p \<Rightarrow> existingPrResult d opts p | None \<Rightarrow> createUnderLock d opts) s))" for p
    using createUnderLock_holds[OF assms(1,2) I] act_keeps_snd[OF existing_keeps[OF assms(2)] I] by (cases p) auto
  have "world_holds I (snd (createPullRequest d opts s))"
    unfolding createPullRequest_def created_pull_def
    by (rule if_holds[OF I], rule legacy_holds[OF I], rule get_holds, rule if_holds[OF I], rule guard_holds[OF I], rule get_holds,
        rule existing)
  then show ?thesis by (simp add: world_holds_def)
qed

text \<open>
  C25: the same for the push of a salvaged branch to an operator: only the branch of a run that waits for its review
  with its paths allowed by the policy, from a work tree as above, against the base commit of the run.
\<close>

theorem only_allowed_work_is_salvaged:
  assumes "documented_git (pd_tools d)"
    and "kept_unless_pushed d I (salvage_push d opts s)"
    and "I (ps_world s)"
  shows "I (ps_world (snd (pushReviewedBranchForEscalation d opts s)))"
proof -
  let ?wt = "worktree_of (co_workspacesDir opts) (co_runId opts)" and ?row = "run_row_of opts s"
    and ?msg = "''harness salvage: '' @ co_runId opts"
  have I: "world_holds I s" using assms(3) by (simp add: world_holds_def)
  have push: "world_holds I (snd ((commitAndPushReviewedBranch d (co_workspacesDir opts) (co_runId opts) branch baseRef meta ?msg) s))"
    if load: "loadReviewedBranchContext ?row (co_runId opts) s = (Inr (meta, branch, baseRef), s)" for meta branch baseRef
    unfolding commitAndPushReviewedBranch_def Let_def
    by (rule guard_holds[OF I], rule bind_holds[OF gate_keeps I], drule gate_ok, clarify,
        rule pushed_after_prepare[OF assms(1,2) I], assumption)
      (use load in \<open>auto simp: salvage_push_def intro!: act_bind_keeps[of "world_holds I"] push_keeps[OF assms(2)]
        act_inv_rules runGit_keeps[OF assms(2)]\<close>)
  have "world_holds I (snd (pushReviewedBranchForEscalation d opts s))"
    unfolding pushReviewedBranchForEscalation_def
    by (rule if_holds[OF I], rule legacy_holds[OF I], rule get_holds, rule bind_holds[OF context_keeps I])
      (use push context_reads in \<open>fastforce split: prod.splits\<close>)
  then show ?thesis by (simp add: world_holds_def)
qed

section \<open>An example\<close>

text \<open>
  A git of one work tree with one changed file: staging marks it, committing takes what is staged, and pushing is
  remembered.
\<close>

record ex_world = fs_world +
  xw_staged :: bool
  xw_message :: "string option"
  xw_pushed :: bool

definition ex_print :: "string list \<Rightarrow> ex_world \<Rightarrow> string" where
  "ex_print args w =
     (if args = [''rev-parse'', ''--abbrev-ref'', ''HEAD''] then ''harness/run-1''
      else if args = [''rev-parse'', ''HEAD''] then (if xw_message w = None then ''a'' else ''b'')
      else if args = [''rev-parse'', ''--is-shallow-repository''] then ''false''
      else if args = [''rev-parse'', ''--git-path'', ''info/grafts''] then ''.git/info/grafts''
      else if take 1 args = [''rev-parse''] then ''a''
      else if take 1 args = [''rev-list''] then (if xw_message w = None then ''0'' else ''1'')
      else if take 1 args = [''log''] then or_else (xw_message w) ''base''
      else if \<not> take 1 args = [''diff''] then []
      else if (if ''--cached'' \<in> set args then xw_staged w else xw_message w \<noteq> None) then ''f.ts'' @ [CHR 0x00] else [])"

definition ex_git :: "string \<Rightarrow> string list \<Rightarrow> (ex_world, string, git_result) act" where
  "ex_git cwd args w =
     (Inr \<lparr>gr_stdout = ex_print args w, gr_stderr = [], gr_exitCode = 0, gr_timedOut = False\<rparr>,
      if take 1 args = [''add''] then w\<lparr>xw_staged := xw_message w = None\<rparr>
      else if take 1 args = [''-c''] then w\<lparr>xw_staged := False, xw_message := Some (last args)\<rparr>
      else if take 1 args = [''push''] then w\<lparr>xw_pushed := True\<rparr>
      else w)"

definition ex_deps :: "ex_world pr_deps" where
  "ex_deps = \<lparr>pd_tools = \<lparr>tl_git = ex_git, tl_probe = (\<lambda>_ _. act_return None)\<rparr>, pd_sha = (\<lambda>_. ''fp''), pd_digest = (\<lambda>s. s),
     pd_errno = (\<lambda>_ _. ''error''), pd_publish = (\<lambda>_. act_return (''https://pr/7'', 7))\<rparr>"

definition ex_opts :: create_pr_opts where
  "ex_opts = \<lparr>co_workspacesDir = [''ws''], co_runId = ''run-1'', co_base = ''main'', co_draft = True, co_db = True,
     co_title = None, co_now = ''now''\<rparr>"

definition ex_run :: "string \<Rightarrow> run_record" where
  "ex_run status = \<lparr>ru_runId = ''run-1'', ru_sourceMode = ''db-first'', ru_status = status, ru_safetyStatus = Some ''allowed'',
     ru_baseSha = Some ''a'', ru_runBranch = Some ''harness/run-1'',
     ru_meta = Some (Inr \<lparr>me_status = None, me_safetyStatus = None, me_runBranch = None, me_baseSha = Some ''a'',
       me_domain = None, me_repoId = None,
       me_reviewed = Some \<lparr>rv_paths = Some [JStr ''f.ts''], rv_fingerprint = Some ''fp''\<rparr>, me_reviewer = None,
       me_reviewedAt = None, me_secretSuspectCount = None, me_ignoredUntrackedCount = None, me_commandResults = None,
       me_prUrl = None, me_prNumber = None\<rparr>),
     ru_prUrl = None, ru_prNumber = None, ru_dbRevision = 0, ru_exportStatus = ''clean'', ru_updatedAt = ''then''\<rparr>"

definition ex_state :: "string \<Rightarrow> ex_world pr_state" where
  "ex_state status = \<lparr>ps_world = \<lparr>fw_fs = [([''ws''], N_dir), ([''ws'', ''run-1''], N_dir), ([''ws'', ''run-1'', ''repo''], N_dir),
       ([''ws'', ''run-1'', ''repo'', ''f.ts''], N_file ''x'' False)], xw_staged = False, xw_message = None, xw_pushed = False\<rparr>,
     ps_runs = [ex_run status], ps_legacyBacklog = 0, ps_pulls = [], ps_runEvents = [], ps_metaFiles = [], ps_prompts = [],
     ps_eventFiles = []\<rparr>"

text \<open>The condition of the examples: nothing is pushed before the commit.\<close>

definition ex_safe :: "ex_world \<Rightarrow> bool" where
  "ex_safe w \<longleftrightarrow> (xw_pushed w \<longrightarrow> xw_message w \<noteq> None)"

lemma ex_documented: "documented_git (pd_tools ex_deps)"
  by (simp add: documented_git_def ex_deps_def ex_git_def is_read_def settled_def STABLE_QUESTIONS_def git_out_def
      ex_print_def commit_args_def) (auto simp: neq_Nil_conv)

lemma ex_pushable:
  assumes "pushable ex_deps wt branch baseRef message meta w" "strip_newlines message \<noteq> ''base''"
  shows "xw_message w \<noteq> None"
proof -
  have "strip_newlines (or_else (xw_message w) ''base'') = strip_newlines message"
    using assms(1) by (auto simp: pushable_def git_out_def ex_deps_def ex_git_def ex_print_def)
  then show ?thesis using assms(2) by (cases "xw_message w") (auto simp: strip_newlines_def)
qed

lemma ex_kept: "(\<And>wt branch w. ok wt branch w \<Longrightarrow> xw_message w \<noteq> None) \<Longrightarrow> kept_unless_pushed ex_deps ex_safe ok"
  by (auto simp: ex_safe_def kept_unless_pushed_def ex_deps_def ex_git_def act_return_def)

lemma ex_start: "ex_safe (ps_world (ex_state status))"
  by (simp add: ex_safe_def ex_state_def)

theorem only_reviewed_work_is_pushed_witness:
  "ex_safe (ps_world (snd (createPullRequest ex_deps ex_opts (ex_state ''approved''))))
     \<and> xw_pushed (ps_world (snd (createPullRequest ex_deps ex_opts (ex_state ''approved''))))"
proof
  have "kept_unless_pushed ex_deps ex_safe (approved_push ex_deps ex_opts (ex_state ''approved''))"
    by (rule ex_kept) (auto simp: approved_push_def commit_message_def has_title_def ex_opts_def strip_newlines_def js_trim_def
        dest!: ex_pushable)
  then show "ex_safe (ps_world (snd (createPullRequest ex_deps ex_opts (ex_state ''approved''))))"
    by (intro only_reviewed_work_is_pushed[where I = ex_safe] ex_documented ex_start)
qed code_simp

theorem only_allowed_work_is_salvaged_witness:
  "ex_safe (ps_world (snd (pushReviewedBranchForEscalation ex_deps ex_opts (ex_state ''needs_review''))))
     \<and> xw_pushed (ps_world (snd (pushReviewedBranchForEscalation ex_deps ex_opts (ex_state ''needs_review''))))"
proof
  have "kept_unless_pushed ex_deps ex_safe (salvage_push ex_deps ex_opts (ex_state ''needs_review''))"
    by (rule ex_kept) (auto simp: salvage_push_def ex_opts_def strip_newlines_def dest!: ex_pushable)
  then show "ex_safe (ps_world (snd (pushReviewedBranchForEscalation ex_deps ex_opts (ex_state ''needs_review''))))"
    by (intro only_allowed_work_is_salvaged[where I = ex_safe] ex_documented ex_start)
qed code_simp

section \<open>One pull request per run\<close>

text \<open>What a second call needs of the tables to get to the recorded pull request.\<close>

definition ready :: "create_pr_opts \<Rightarrow> 'w pr_state \<Rightarrow> bool" where
  "ready opts s \<longleftrightarrow> fst (assertNoLegacyRuntimeRows s) = Inr ()
     \<and> \<not> opt_holds (\<lambda>r. ru_sourceMode r \<noteq> ''db-first'') (tbl_get ru_runId (co_runId opts) (ps_runs s))
     \<and> (tbl_get ru_runId (co_runId opts) (ps_runs s) \<noteq> None \<or> co_runId opts \<in> fst ` set (ps_metaFiles s))"

definition recorded :: "create_pr_opts \<Rightarrow> string \<Rightarrow> int \<Rightarrow> 'w pr_state \<Rightarrow> bool" where
  "recorded opts url number s \<longleftrightarrow> (\<exists>p. findByRun (co_runId opts) (ps_pulls s) = Some p \<and> pl_status p = ''created''
     \<and> pl_url p = Some url \<and> pl_externalPrId p = Some number)"

lemma find_replaced:
  "find (\<lambda>x. key x = k) (map (\<lambda>x. if key x = k then p else x) xs) = (if k \<in> key ` set xs then Some p else None)" if "key p = k"
  using that by (induction xs) auto

lemma findByRun_upsert: "findByRun (pl_runId p) (upsertPullRequest p pulls) = Some p"
  using find_replaced[of pl_runId p "pl_runId p" "rev pulls"]
  by (auto simp: findByRun_def upsertPullRequest_def tbl_update_def tbl_has_def rev_map)

lemma ready_world [simp]: "ready opts (s\<lparr>ps_world := w\<rparr>) = ready opts s" "ready opts (s\<lparr>ps_pulls := p\<rparr>) = ready opts s"
  by (simp_all add: ready_def assertNoLegacyRuntimeRows_def Let_def)

lemma on_world_tables: "snd (on_world m s) = s\<lparr>ps_world := ps_world (snd (on_world m s))\<rparr>"
  by (auto simp: on_world_def split: prod.splits sum.splits)

lemma on_world_ready [act_inv_rules]: "act_keeps (ready opts) (on_world m)"
  unfolding act_keeps_def by (metis on_world_tables ready_world(1))

lemma ready_update:
  assumes "ready opts s" "\<And>r. ru_runId (f r) = ru_runId r \<and> ru_sourceMode (f r) = ru_sourceMode r"
  shows "ready opts (s\<lparr>ps_runs := tbl_update ru_runId k f (ps_runs s), ps_runEvents := e\<rparr>)"
proof -
  have len: "filter (\<lambda>r. ru_sourceMode r = ''legacy-file'') (tbl_update ru_runId k f (ps_runs s)) = []
      \<longleftrightarrow> filter (\<lambda>r. ru_sourceMode r = ''legacy-file'') (ps_runs s) = []"
    unfolding tbl_update_def filter_empty_conv set_map ball_simps using assms(2) by simp
  show ?thesis
    using assms len by (auto simp: ready_def assertNoLegacyRuntimeRows_def Let_def tbl_get_update opt_holds_def
        split: option.splits if_splits)
qed

lemma recordPrCreated_ready: "act_keeps (ready opts) (recordPrCreated v)"
  unfolding recordPrCreated_def by (intro act_inv_rules ready_update) simp_all

lemma steps_ready [act_inv_rules]:
  "act_keeps (ready opts) (runGit d cwd args)" "act_keeps (ready opts) (gate g)" "act_keeps (ready opts) (readMeta runId)"
  "act_keeps (ready opts) (load_run o2 dbRow)" "act_keeps (ready opts) (approved_run o3 dbRow)"
  "act_keeps (ready opts) (push_branch d wt head)"
  unfolding runGit_def gitCli_def gate_def readMeta_def load_run_def approved_run_def push_branch_def Let_def
  by (intro act_inv_rules; simp)+

lemma prepare_ready: "act_keeps (ready opts) (prepare_branch d wt meta paths head baseRef message)"
  unfolding prepare_branch_def assertReviewedFingerprintMatches_def assertHeadBranch_def assertNoObjectGraphTampering_def
    assertNoUnreviewedHistory_def stage_and_commit_def assertPathsSubset_def verify_branch_def assertSingleReviewedCommit_def
    assertHeadCommitMessageAuthentic_def
  by (intro act_inv_rules)

lemma ready_meta [simp]:
  "ready opts (s\<lparr>ps_metaFiles := map (\<lambda>(r, t). if r = k then (r, x) else (r, t)) (ps_metaFiles s), ps_eventFiles := e\<rparr>) = ready opts s"
proof -
  have "fst ` set (map (\<lambda>(r, t). if r = k then (r, x) else (r, t)) (ps_metaFiles s)) = fst ` set (ps_metaFiles s)"
    by (force simp: image_iff split: if_splits)
  then show ?thesis by (simp add: ready_def assertNoLegacyRuntimeRows_def Let_def)
qed

lemma record_ready: "act_keeps (ready opts) (record_pr opts2 dbFirst v row)"
  unfolding record_pr_def Let_def by (intro act_inv_rules recordPrCreated_ready) simp_all

lemma readMeta_reads: "readMeta k s = (Inr m, s') \<Longrightarrow> s' = s"
  by (auto simp: readMeta_def act_simps split: option.splits sum.splits)

lemma recorded_then:
  assumes "record_pr opts dbFirst v row s = (Inr u, s')" "co_db opts" "pl_runId row = co_runId opts"
    and "pl_status row = ''created''" "pl_url row = Some url" "pl_externalPrId row = Some number"
  shows "recorded opts url number s'"
proof -
  have "findByRun (co_runId opts) (ps_pulls s') = Some row"
    using assms(1,2) findByRun_upsert[of row] assms(3)
    by (auto simp: record_pr_def Let_def act_atomically_ok act_bind_Inr act_modify_def dest!: readMeta_reads split: if_splits)
  then show ?thesis using assms(4-6) by (simp add: recorded_def)
qed

lemma published_recorded:
  assumes "publish_and_record d opts dbFirst meta head sha s = (Inr r, s')" "co_db opts"
  shows "recorded opts (cr_prUrl r) (cr_prNumber r) s'"
proof -
  obtain url number b v row s1 u where "record_pr opts b v row s1 = (Inr u, s')"
    and "pl_runId row = co_runId opts" "pl_status row = ''created''" "pl_url row = Some url" "pl_externalPrId row = Some number"
    and "cr_prUrl r = url" "cr_prNumber r = number"
    using assms(1) unfolding publish_and_record_def Let_def act_bind_Inr
    by (auto simp: act_bind_Inr act_check_Inr split: prod.splits)
  then show ?thesis using recorded_then[of opts b v row s1 u s'] assms(2) by simp
qed

lemma publish_ready: "act_keeps (ready opts) (publish_and_record d opts2 dbFirst meta head sha)"
proof -
  have "act_keeps (ready opts) (publish_pr d opts2 inputs failed)" for inputs failed
    using on_world_ready[of opts "pd_publish d inputs"]
    by (auto simp: act_keeps_def publish_pr_def split: prod.splits sum.splits)
  then show ?thesis unfolding publish_and_record_def Let_def by (intro act_inv_rules record_ready)
qed

lemma existing_result:
  "\<exists>r s1. existingPrResult d opts p s = (Inr r, s1) \<and> same_tables s s1 \<and> cr_prUrl r = or_else (pl_url p) []
     \<and> cr_prNumber r = or_else (pl_externalPrId p) 0"
proof -
  have "\<exists>h s1. resolveReviewedHeadSha d opts b s = (Inr h, s1) \<and> same_tables s s1" for b
    by (auto simp: resolveReviewedHeadSha_def same_tables_def Let_def runGit_def gitCli_def on_world_def act_bind_def act_throw_def
        act_return_def split: prod.splits sum.splits)
  then obtain h s1 where "resolveReviewedHeadSha d opts (pl_branch p) s = (Inr h, s1)" "same_tables s s1" by blast
  then show ?thesis by (simp add: existingPrResult_def act_bind_def act_return_def)
qed

lemma created_pull_Inr:
  "created_pull opts s = (Inr (Some p), s') \<longleftrightarrow> s' = s \<and> co_db opts \<and> findByRun (co_runId opts) (ps_pulls s) = Some p
     \<and> pl_status p = ''created'' \<and> pl_url p \<noteq> None \<and> pl_externalPrId p \<noteq> None"
  by (auto simp: created_pull_def act_get_def split: option.splits)

lemma existing_recorded:
  assumes "existingPrResult d opts p s = (Inr r, s')" "created_pull opts s0 = (Inr (Some p), s)"
  shows "recorded opts (cr_prUrl r) (cr_prNumber r) s'"
proof -
  obtain r1 s1 where "existingPrResult d opts p s = (Inr r1, s1)" "same_tables s s1" "cr_prUrl r1 = or_else (pl_url p) []"
    "cr_prNumber r1 = or_else (pl_externalPrId p) 0"
    using existing_result[of d opts p s] by blast
  then have "ps_pulls s' = ps_pulls s \<and> cr_prUrl r = or_else (pl_url p) [] \<and> cr_prNumber r = or_else (pl_externalPrId p) 0"
    using assms(1) by (auto simp: same_tables_def) (metis pr_state.select_convs pr_state.surjective pr_state.update_convs(1))
  then show ?thesis using assms(2) by (auto simp: created_pull_Inr recorded_def)
qed

lemma under_lock_recorded:
  assumes "createUnderLock d opts s = (Inr r, s')" "co_db opts"
  shows "recorded opts (cr_prUrl r) (cr_prNumber r) s'"
proof -
  obtain existing s1 where pull: "created_pull opts s = (Inr existing, s1)"
    and rest: "(case existing of Some p \<Rightarrow> existingPrResult d opts p | None \<Rightarrow>
       act_bind (approved_run opts (run_row_of opts s)) (\<lambda>(meta, head).
       act_bind (gate (reviewedPathsFromMeta meta)) (\<lambda>reviewedPaths.
       act_bind (prepare_branch d (worktree_of (co_workspacesDir opts) (co_runId opts)) meta reviewedPaths head (base_ref opts meta) (commit_message opts)) (\<lambda>_.
       act_bind (push_branch d (worktree_of (co_workspacesDir opts) (co_runId opts)) head) (\<lambda>sha.
       publish_and_record d opts (opt_holds (\<lambda>r. ru_sourceMode r = ''db-first'') (run_row_of opts s)) meta head sha))))) s1 = (Inr r, s')"
    using assms(1) unfolding createUnderLock_def Let_def act_bind_Inr[of "act_get (run_row_of opts)"] act_check_Inr
    by (auto simp: act_bind_Inr)
  show ?thesis
  proof (cases existing)
    case None
    then obtain b meta head sha s2 where "publish_and_record d opts b meta head sha s2 = (Inr r, s')"
      using rest by (auto simp: act_bind_Inr split: prod.splits)
    then show ?thesis using published_recorded assms(2) by blast
  next
    case (Some p)
    then show ?thesis using existing_recorded[of d opts p s1 r s' s] rest pull by simp
  qed
qed

lemma create_recorded:
  assumes "createPullRequest d opts s = (Inr r, s')" "co_db opts"
  shows "RUN_ID_RE (co_runId opts) \<and> ready opts s \<and> recorded opts (cr_prUrl r) (cr_prNumber r) s'"
proof -
  have id: "RUN_ID_RE (co_runId opts)" using assms(1) by (simp add: createPullRequest_def act_check_Inr)
  obtain s1 existing s2 where legacy: "assertNoLegacyRuntimeRows s = (Inr (), s1)"
    and row: "\<not> opt_holds (\<lambda>r. ru_sourceMode r \<noteq> ''db-first'') (run_row_of opts s1)"
    and found: "run_row_of opts s1 \<noteq> None \<or> map_of (ps_metaFiles s1) (co_runId opts) \<noteq> None"
    and pull: "created_pull opts s1 = (Inr existing, s2)"
    and rest: "(case existing of Some p \<Rightarrow> existingPrResult d opts p | None \<Rightarrow> createUnderLock d opts) s2 = (Inr r, s')"
    using assms id unfolding createPullRequest_def by (auto simp: act_bind_Inr act_check_Inr)
  have s1: "s1 = s" "fst (assertNoLegacyRuntimeRows s) = Inr ()"
    using legacy by (auto simp: assertNoLegacyRuntimeRows_def Let_def split: if_splits)
  have "ready opts s"
    using row found s1 assms(2) by (auto simp: ready_def run_row_of_def map_of_eq_None_iff)
  moreover have "recorded opts (cr_prUrl r) (cr_prNumber r) s'"
    using rest pull existing_recorded[of d opts _ s2 r s' s1] under_lock_recorded[of d opts s2 r s'] assms(2)
    by (cases existing) auto
  ultimately show ?thesis using id by simp
qed

lemma existing_ready:
  assumes "ready opts s"
  shows "ready opts (snd (existingPrResult d opts2 p s))"
proof -
  obtain r s1 where "existingPrResult d opts2 p s = (Inr r, s1)" "same_tables s s1" using existing_result by blast
  then show ?thesis using assms by (simp add: same_tables_def) (metis ready_world(1))
qed

lemma create_keeps_ready: "act_keeps (ready opts) (createPullRequest d opts2)"
proof -
  have existing: "act_keeps (ready opts) (existingPrResult d opts2 p)" for p
    by (simp add: act_keeps_def existing_ready)
  have pull: "act_keeps (ready opts) (created_pull opts2)" unfolding created_pull_def by (intro act_inv_rules)
  have legacy: "act_keeps (ready opts) (if b then assertNoLegacyRuntimeRows else act_return ())" for b
    by (auto simp: act_keeps_def assertNoLegacyRuntimeRows_def act_return_def Let_def)
  have under: "act_keeps (ready opts) (createUnderLock d opts2)"
    unfolding createUnderLock_def Let_def by (intro act_inv_rules pull existing prepare_ready publish_ready)
  show ?thesis unfolding createPullRequest_def by (intro act_inv_rules pull existing legacy under)
qed

lemma ready_returns:
  assumes "RUN_ID_RE (co_runId opts)" "co_db opts" "ready opts s" "recorded opts url number s"
  shows "\<exists>r s'. createPullRequest d opts s = (Inr r, s') \<and> cr_prUrl r = url \<and> cr_prNumber r = number \<and> same_tables s s'"
proof -
  obtain p where p: "findByRun (co_runId opts) (ps_pulls s) = Some p" "pl_status p = ''created''" "pl_url p = Some url"
    "pl_externalPrId p = Some number"
    using assms(4) by (auto simp: recorded_def)
  obtain r s' where r: "existingPrResult d opts p s = (Inr r, s')" "same_tables s s'" "cr_prUrl r = url" "cr_prNumber r = number"
    using existing_result[of d opts p s] p by auto
  have legacy: "assertNoLegacyRuntimeRows s = (Inr (), s)"
    using assms(3) by (auto simp: ready_def assertNoLegacyRuntimeRows_def Let_def split: if_splits)
  have row: "\<not> opt_holds (\<lambda>r. ru_sourceMode r \<noteq> ''db-first'') (run_row_of opts s)"
    "run_row_of opts s \<noteq> None \<or> map_of (ps_metaFiles s) (co_runId opts) \<noteq> None"
    using assms(2,3) by (auto simp: ready_def run_row_of_def map_of_eq_None_iff)
  have "createPullRequest d opts s = existingPrResult d opts p s"
    using assms(1,2) legacy row p
    by (simp add: createPullRequest_def created_pull_def act_bind_def act_get_def act_guard_def)
  then show ?thesis using r by simp
qed

text \<open>A call for another run, or one without the database, does not touch what is recorded for the run.\<close>

lemma findByRun_other: "pl_runId p \<noteq> k \<Longrightarrow> findByRun k (upsertPullRequest p pulls) = findByRun k pulls"
proof -
  assume other: "pl_runId p \<noteq> k"
  have "find (\<lambda>x. pl_runId x = k) (map (\<lambda>x. if pl_runId x = pl_runId p then p else x) xs) = find (\<lambda>x. pl_runId x = k) xs" for xs
    using other by (induction xs) auto
  then show ?thesis using other by (simp add: findByRun_def upsertPullRequest_def tbl_update_def rev_map)
qed

lemma recorded_simps [simp]:
  "recorded opts url n (s\<lparr>ps_world := w\<rparr>) = recorded opts url n s" "recorded opts url n (s\<lparr>ps_runs := x\<rparr>) = recorded opts url n s"
  "recorded opts url n (s\<lparr>ps_runs := x, ps_runEvents := y\<rparr>) = recorded opts url n s"
  "recorded opts url n (s\<lparr>ps_metaFiles := mf, ps_eventFiles := ef\<rparr>) = recorded opts url n s"
  by (simp_all add: recorded_def)

lemma recorded_upsert: "pl_runId row \<noteq> co_runId opts
    \<Longrightarrow> recorded opts url n (s\<lparr>ps_pulls := upsertPullRequest row (ps_pulls s)\<rparr>) = recorded opts url n s"
  by (simp add: recorded_def findByRun_other)

lemma on_world_recorded [act_inv_rules]: "act_keeps (recorded opts url n) (on_world m)"
  unfolding act_keeps_def by (metis on_world_tables recorded_simps(1))

lemma steps_recorded [act_inv_rules]:
  "act_keeps (recorded opts url n) (runGit d cwd args)" "act_keeps (recorded opts url n) (gate g)"
  "act_keeps (recorded opts url n) (readMeta runId)" "act_keeps (recorded opts url n) (load_run o2 dbRow)"
  "act_keeps (recorded opts url n) (approved_run o3 dbRow)" "act_keeps (recorded opts url n) (push_branch d wt head)"
  unfolding runGit_def gitCli_def gate_def readMeta_def load_run_def approved_run_def push_branch_def Let_def
  by (intro act_inv_rules; simp)+

lemma prepare_recorded [act_inv_rules]:
  "act_keeps (recorded opts url n) (prepare_branch d wt meta paths head baseRef message)"
  unfolding prepare_branch_def assertReviewedFingerprintMatches_def assertHeadBranch_def assertNoObjectGraphTampering_def
    assertNoUnreviewedHistory_def stage_and_commit_def assertPathsSubset_def verify_branch_def assertSingleReviewedCommit_def
    assertHeadCommitMessageAuthentic_def
  by (intro act_inv_rules)

lemma publish_recorded:
  assumes other: "co_db o2 \<Longrightarrow> co_runId o2 \<noteq> co_runId opts"
  shows "act_keeps (recorded opts url n) (publish_and_record d o2 dbFirst meta head sha)"
proof -
  have failed: "act_keeps (recorded opts url n) (publish_pr d o2 inputs row)" if "pl_runId row = co_runId o2" for inputs row
    using on_world_recorded[of opts url n "pd_publish d inputs"] other that
    by (auto simp: act_keeps_def publish_pr_def recorded_upsert split: prod.splits sum.splits)
  have store: "act_keeps (recorded opts url n) (record_pr o2 dbFirst v row)" if "pl_runId row = co_runId o2" for v row
  proof (cases "co_db o2")
    case True
    have up: "act_keeps (recorded opts url n) (act_modify (\<lambda>s. s\<lparr>ps_pulls := upsertPullRequest row (ps_pulls s)\<rparr>))"
      using other[OF True] that by (simp add: act_keeps_def act_modify_def recorded_upsert)
    have rec: "act_keeps (recorded opts url n) (recordPrCreated v)"
      unfolding recordPrCreated_def by (intro act_inv_rules) simp_all
    show ?thesis unfolding record_pr_def Let_def by (intro act_inv_rules up rec) simp_all
  next
    case False
    then show ?thesis by (simp add: record_pr_def Let_def) (intro act_inv_rules; simp)
  qed
  show ?thesis unfolding publish_and_record_def Let_def by (intro act_inv_rules failed store) simp_all
qed

lemma existing_pull_recorded: "act_keeps (recorded opts url n) (existingPrResult d o2 p)"
  unfolding act_keeps_def
proof (intro allI impI)
  fix s :: "'a fs_world_scheme pr_state" assume "recorded opts url n s"
  moreover obtain r s1 where "existingPrResult d o2 p s = (Inr r, s1)" "same_tables s s1" using existing_result by blast
  ultimately show "recorded opts url n (snd (existingPrResult d o2 p s))"
    by (simp add: same_tables_def) (metis recorded_simps(1))
qed

lemma other_keeps_recorded:
  assumes other: "co_db o2 \<Longrightarrow> co_runId o2 \<noteq> co_runId opts"
  shows "act_keeps (recorded opts url n) (createPullRequest d o2)"
proof -
  have pull: "act_keeps (recorded opts url n) (created_pull o2)" unfolding created_pull_def by (intro act_inv_rules)
  have legacy: "act_keeps (recorded opts url n) (if b then assertNoLegacyRuntimeRows else act_return ())" for b
    by (auto simp: act_keeps_def assertNoLegacyRuntimeRows_def act_return_def Let_def)
  have under: "act_keeps (recorded opts url n) (createUnderLock d o2)"
    unfolding createUnderLock_def Let_def by (intro act_inv_rules pull existing_pull_recorded publish_recorded other)
  show ?thesis unfolding createPullRequest_def by (intro act_inv_rules pull existing_pull_recorded legacy under)
qed

lemma same_run: "co_runId o2 = co_runId opts \<Longrightarrow> ready o2 s = ready opts s \<and> recorded o2 url n s = recorded opts url n s"
  by (simp add: ready_def recorded_def)

lemma create_keeps_recorded:
  assumes "RUN_ID_RE (co_runId opts)"
  shows "act_keeps (\<lambda>s. ready opts s \<and> recorded opts url n s) (createPullRequest d o2)"
  unfolding act_keeps_def
proof (intro allI impI)
  fix s :: "'a fs_world_scheme pr_state" assume s: "ready opts s \<and> recorded opts url n s"
  have ready: "ready opts (snd (createPullRequest d o2 s))" using act_keeps_snd[OF create_keeps_ready] s by blast
  show "ready opts (snd (createPullRequest d o2 s)) \<and> recorded opts url n (snd (createPullRequest d o2 s))"
  proof (cases "co_db o2 \<and> co_runId o2 = co_runId opts")
    case True
    then obtain r s' where "createPullRequest d o2 s = (Inr r, s')" "same_tables s s'"
      using ready_returns[of o2 s url n d] assms s same_run[of o2 opts s url n] by auto
    then show ?thesis using ready s by (simp add: same_tables_def) (metis recorded_simps(1))
  next
    case False
    then show ?thesis using ready act_keeps_snd[OF other_keeps_recorded[of o2 opts url n d]] s by blast
  qed
qed

text \<open>The state behind a list of calls, with the dependencies and the options of each.\<close>

definition create_calls ::
  "('z fs_world_scheme pr_deps \<times> create_pr_opts) list \<Rightarrow> 'z fs_world_scheme pr_state \<Rightarrow> 'z fs_world_scheme pr_state" where
  "create_calls calls s = fold (\<lambda>(d, opts) s. snd (createPullRequest d opts s)) calls s"

lemma calls_keep_recorded:
  assumes "RUN_ID_RE (co_runId opts)"
  shows "ready opts s \<and> recorded opts url n s \<Longrightarrow> ready opts (create_calls calls s) \<and> recorded opts url n (create_calls calls s)"
  unfolding create_calls_def
proof (induction calls arbitrary: s)
  case (Cons c cs)
  obtain d o2 where c: "c = (d, o2)" by (cases c)
  show ?case using Cons.IH[OF act_keeps_snd[OF create_keeps_recorded[OF assms] Cons.prems, of d o2]] by (simp add: c)
qed simp

text \<open>
  C26: a run gets one pull request. When \<open>createPullRequest\<close> on the database (\<open>co_db\<close>) returns a pull request, that one is recorded as
  created for the run. It stays recorded behind any later calls of \<open>createPullRequest\<close>, for this run or another, with any
  options and whatever git and the publisher do in them; and every later call for the run on the database returns the
  same URL and number and changes no table, so that a retry opens no second one.
\<close>

theorem one_pull_request_per_run:
  assumes "co_db opts" "createPullRequest d opts s = (Inr r, s')" "co_db opts2" "co_runId opts2 = co_runId opts"
  shows "recorded opts (cr_prUrl r) (cr_prNumber r) (create_calls calls s')
     \<and> (\<exists>r2 s2. createPullRequest d2 opts2 (create_calls calls s') = (Inr r2, s2) \<and> cr_prUrl r2 = cr_prUrl r
          \<and> cr_prNumber r2 = cr_prNumber r \<and> same_tables (create_calls calls s') s2)"
proof -
  have made: "RUN_ID_RE (co_runId opts)" "ready opts s" "recorded opts (cr_prUrl r) (cr_prNumber r) s'"
    using create_recorded[OF assms(2,1)] by auto
  then have "ready opts s'" using act_keepsD[OF create_keeps_ready _ assms(2)] by blast
  then have later: "ready opts (create_calls calls s')" "recorded opts (cr_prUrl r) (cr_prNumber r) (create_calls calls s')"
    using calls_keep_recorded[OF made(1)] made(3) by blast+
  then show ?thesis using ready_returns[of opts2 "create_calls calls s'" "cr_prUrl r" "cr_prNumber r" d2] made(1) assms(3,4)
      same_run[OF assms(4), of "create_calls calls s'"] by auto
qed

lemma ex_returns: "\<exists>s'. createPullRequest ex_deps ex_opts (ex_state ''approved'')
     = (Inr \<lparr>cr_runId = ''run-1'', cr_prUrl = ''https://pr/7'', cr_prNumber = 7, cr_head = ''harness/run-1'', cr_draft = True,
        cr_headSha = Some ''b''\<rparr>, s')"
proof -
  have "fst (createPullRequest ex_deps ex_opts (ex_state ''approved''))
     = Inr \<lparr>cr_runId = ''run-1'', cr_prUrl = ''https://pr/7'', cr_prNumber = 7, cr_head = ''harness/run-1'', cr_draft = True,
        cr_headSha = Some ''b''\<rparr>" by code_simp
  then show ?thesis by (cases "createPullRequest ex_deps ex_opts (ex_state ''approved'')") simp
qed

theorem one_pull_request_per_run_witness:
  "recorded ex_opts ''https://pr/7'' 7 (create_calls [(ex_deps, ex_opts\<lparr>co_runId := ''run-2''\<rparr>), (ex_deps, ex_opts)]
     (snd (createPullRequest ex_deps ex_opts (ex_state ''approved''))))"
proof -
  obtain s' where "createPullRequest ex_deps ex_opts (ex_state ''approved'')
     = (Inr \<lparr>cr_runId = ''run-1'', cr_prUrl = ''https://pr/7'', cr_prNumber = 7, cr_head = ''harness/run-1'', cr_draft = True,
        cr_headSha = Some ''b''\<rparr>, s')" using ex_returns by blast
  moreover have "co_db ex_opts" by (simp add: ex_opts_def)
  ultimately show ?thesis
    using one_pull_request_per_run[of ex_opts ex_deps "ex_state ''approved''" _ s' ex_opts] by fastforce
qed

end
