(* ===== verification/Coding_Run.thy ===== *)
theory Coding_Run
  imports Work_Tree Domain_Lock Merge_Gate
begin

text \<open>
  A coding run from start to end, after \<open>src/core/workflow-runner.ts\<close>, \<open>workflow-runner-inner.ts\<close>,
  \<open>workflow-runner-shared.ts\<close> and \<open>policy-salvage.ts\<close>, with its log (\<open>src/db/run-log-db.ts\<close>) and the writes of
  \<open>src/db/repositories/runs.ts\<close> and \<open>runs-finalize-repository.ts\<close> it uses. The agent, git, the allowed commands and
  every file operation are arguments; each acts on the whole state, so that other processes may do anything
  meanwhile: advance the clock, take the lease, change rows. When the database refuses a transaction is an argument too. The texts of reports, durations, knowledge
  and context packs, and the usage telemetry are left out.
\<close>

section \<open>Data\<close>

datatype run_status = R_running | R_generated | R_verified | R_needs_review | R_approved | R_changes_requested
  | R_rejected | R_cleaned | R_failed_policy_violation | R_failed_codex | R_failed_codex_timeout
  | R_failed_diff_collection | R_failed_budget_exceeded | R_failed_command | R_failed_internal_error

record command_result =
  cm_command :: string
  cm_exitCode :: int
  cm_timedOut :: bool

record codex_result =
  cx_exitCode :: int
  cx_timedOut :: bool

datatype stage = Post_codex | Post_command

record budget_outcome =
  bx_status :: budget_status
  bx_disabled :: bool
  bx_stage :: stage
  bx_budget :: change_budget
  bx_breaches :: "budget_breach list"

record salvage_info =
  sv_available :: bool
  sv_allowedPaths :: "string list"
  sv_deniedPaths :: "string list"
  sv_patchArtifact :: "string option"
  sv_recommendedNextAction :: string

record reviewed_surface =
  rx_paths :: "string list"
  rx_fingerprint :: string
  rx_weakensTests :: bool

record coding_meta =
  mt_runId :: string
  mt_repoId :: string
  mt_domain :: string
  mt_baseBranch :: string
  mt_baseSha :: string
  mt_runBranch :: string
  mt_status :: run_status
  mt_safetyStatus :: "safety_status option"
  mt_ignoredUntrackedCount :: "nat option"
  mt_secretSuspectCount :: "nat option"
  mt_commandResults :: "command_result list option"
  mt_changedFilesCount :: "nat option"
  mt_diffStat :: "diff_stat option"
  mt_changeBudget :: "budget_outcome option"
  mt_policySalvage :: "salvage_info option"
  mt_parentRunId :: "string option"
  mt_rootRunId :: "string option"
  mt_rerunAttempt :: "nat option"
  mt_reviewed :: "reviewed_surface option"
  mt_startedAt :: string
  mt_finishedAt :: "string option"

datatype run_event =
    Ev_run_started string
  | Ev_worktree_created path
  | Ev_continuation_materialized string string "string list"
  | Ev_continuation_skipped "string option" skip_reason
  | Ev_codex_exec_started
  | Ev_codex_exec_completed int bool
  | Ev_codex_events_redacted nat nat
  | Ev_diff_collection_failed string stage
  | Ev_policy_validation_completed bool stage
  | Ev_diff_budget_evaluated budget_outcome diff_stat
  | Ev_change_budget_disabled budget_outcome diff_stat
  | Ev_commands_started nat
  | Ev_commands_completed "command_result list"
  | Ev_secret_suspects_redacted "string list"
  | Ev_policy_salvage salvage_info
  | Ev_diff_collected "string list" "string list" "string list" "string list" stage
  | Ev_artifacts_ingested nat nat
  | Ev_run_completed run_status safety_status
  | Ev_run_failed
  | Ev_forced bool

text \<open>
  A row of \<open>runs\<close>: the columns the model reads, and \<open>meta_json\<close> as the document. The lease column of a run is
  kept in the table of leases of \<open>Domain_Lock\<close>.
\<close>

record coding_row =
  cw_runId :: string
  cw_status :: run_status
  cw_safetyStatus :: "safety_status option"
  cw_parentRunId :: "string option"
  cw_finishedAt :: "string option"
  cw_meta :: coding_meta
  cw_promptSha256 :: "string option"
  cw_dbRevision :: nat
  cw_stateVersion :: nat

datatype file_status = File_tracked | File_untracked | File_ignored

record changed_file =
  cf_path :: string
  cf_status :: file_status
  cf_allowed :: bool
  cf_source :: stage

text \<open>The state: the file system, the tables, the metadata that the run log keeps in memory, and the clock.\<close>

record coding_state = fs_world +
  cs_locks :: lock_db
  cs_rows :: "coding_row list"
  cs_events :: "(string \<times> nat \<times> run_event) list"
  cs_changedFiles :: "(string \<times> changed_file) list"
  cs_violations :: "(string \<times> violation) list"
  cs_commandResults :: "(string \<times> nat \<times> command_result) list"
  cs_meta :: coding_meta
  cs_now :: int

datatype coding_error =
    Run_lock lock_error
  | Run_reset string
  | Run_threw string
  | Run_policy policy_error
  | Run_rerun_gate string string
  | Run_bad_base string
  | Run_no_stat
  | Run_finalized string coding_error

type_synonym ('z, 'a) coding_act = "('z coding_state_scheme, coding_error, 'a) act"

record 's run_tools =
  rt_tools :: "'s tools"
  rt_dbRefuses :: "string \<Rightarrow> 's \<Rightarrow> bool"
  rt_globs :: glob_matcher
  rt_sha :: "json \<Rightarrow> string"
  rt_digest :: "string \<Rightarrow> string"
  rt_errno :: "errno \<Rightarrow> path \<Rightarrow> string"
  rt_export :: "'s \<Rightarrow> 's"
  rt_gc :: "'s \<Rightarrow> 's"
  rt_usage :: "'s \<Rightarrow> 's"
  rt_open :: "('s, string, unit) act"
  rt_policySnapshot :: "('s, string, unit) act"
  rt_runDir :: "string \<Rightarrow> ('s, string, unit) act"
  rt_workspace :: "string \<Rightarrow> string \<Rightarrow> ('s, string, path) act"
  rt_ruleSnapshot :: "('s, string, unit) act"
  rt_codex :: "path \<Rightarrow> string \<Rightarrow> ('s, string, codex_result) act"
  rt_publishEvents :: "('s, string, (nat \<times> nat) option) act"
  rt_commands :: "path \<Rightarrow> resolved_command list \<Rightarrow> ('s, string, command_result list) act"
  rt_artifact :: "string \<Rightarrow> ('s, string, unit) act"
  rt_untrackedPatch :: "path \<Rightarrow> string list \<Rightarrow> ('s, string, string \<times> string list) act"
  rt_ingest :: "('s, string, nat \<times> nat) act"

text \<open>
  A transaction of the database may fail for reasons of its own (a full disk, a busy file): \<open>rt_dbRefuses\<close> says when the transaction
  of the named operation does, and it then leaves nothing behind.
\<close>

definition db_accepts :: "'z coding_state_scheme run_tools \<Rightarrow> string \<Rightarrow> ('z, unit) coding_act" where
  "db_accepts t op = act_guard (\<lambda>s. \<not> rt_dbRefuses t op s) (Run_threw (''SqliteError: '' @ op))"

text \<open>An operation whose failure is a plain error.\<close>

definition ext :: "('z coding_state_scheme, string, 'a) act \<Rightarrow> ('z, 'a) coding_act" where
  "ext m s = (case m s of (Inl e, s') \<Rightarrow> (Inl (Run_threw e), s') | (Inr x, s') \<Rightarrow> (Inr x, s'))"

section \<open>The run log\<close>

definition check_lease :: "string \<Rightarrow> ('z, unit) coding_act" where
  "check_lease runId s = (case assertActiveLease runId (cs_now s) (cs_locks s) of
     (Inl e, _) \<Rightarrow> (Inl (Run_lock e), s) | (Inr _, _) \<Rightarrow> (Inr (), s))"

definition updateRunRow :: "coding_meta \<Rightarrow> coding_row \<Rightarrow> coding_row" where
  "updateRunRow meta row = row\<lparr>cw_status := mt_status meta, cw_safetyStatus := mt_safetyStatus meta,
     cw_parentRunId := mt_parentRunId meta, cw_finishedAt := mt_finishedAt meta, cw_meta := meta\<rparr>"

definition on_row :: "string \<Rightarrow> (coding_row \<Rightarrow> coding_row) \<Rightarrow> 'z coding_state_scheme \<Rightarrow> 'z coding_state_scheme" where
  "on_row runId f s = s\<lparr>cs_rows := tbl_update cw_runId runId f (cs_rows s)\<rparr>"

definition bumpRevision :: "string \<Rightarrow> 'z coding_state_scheme \<Rightarrow> 'z coding_state_scheme" where
  "bumpRevision runId = on_row runId (\<lambda>r. r\<lparr>cw_dbRevision := Suc (cw_dbRevision r)\<rparr>)"

definition next_event_seq :: "string \<Rightarrow> (string \<times> nat \<times> run_event) list \<Rightarrow> nat" where
  "next_event_seq runId events = Suc (fold max (map (\<lambda>(_, n, _). n) (filter (\<lambda>(r, _, _). r = runId) events)) 0)"

definition appendEvent :: "string \<Rightarrow> run_event \<Rightarrow> 'z coding_state_scheme \<Rightarrow> 'z coding_state_scheme" where
  "appendEvent runId e s = s\<lparr>cs_events := cs_events s @ [(runId, next_event_seq runId (cs_events s), e)]\<rparr>"

definition writeCommandResults :: "string \<Rightarrow> command_result list \<Rightarrow> 'z coding_state_scheme \<Rightarrow> 'z coding_state_scheme" where
  "writeCommandResults runId results s = s\<lparr>cs_commandResults :=
     filter (\<lambda>(r, _). r \<noteq> runId) (cs_commandResults s) @ map (\<lambda>(i, c). (runId, i, c)) (enumerate 0 results)\<rparr>"

text \<open>
  Every transaction ends with \<open>bumpRevision\<close>, which throws when the row is missing, so that nothing of it is written. The export
  of the files after a commit only warns when it fails.
\<close>

definition commitThenExport ::
  "'z coding_state_scheme run_tools \<Rightarrow> string \<Rightarrow> ('z coding_state_scheme \<Rightarrow> 'z coding_state_scheme) \<Rightarrow> ('z, unit) coding_act" where
  "commitThenExport t runId write =
     act_bind (check_lease runId) (\<lambda>_.
     act_bind (act_guard (\<lambda>s. tbl_has cw_runId runId (cs_rows s)) (Run_threw (''bumpRevision: no run row '' @ [CHR 0x27] @ runId @ [CHR 0x27]))) (\<lambda>_.
     act_bind (db_accepts t ''commit'') (\<lambda>_.
     act_bind (act_modify write) (\<lambda>_. act_modify (rt_export t)))))"

definition log_emit :: "'z coding_state_scheme run_tools \<Rightarrow> string \<Rightarrow> run_event \<Rightarrow> ('z, unit) coding_act" where
  "log_emit t runId e = commitThenExport t runId (\<lambda>s. bumpRevision runId (appendEvent runId e s))"

text \<open>The metadata in memory changes before the commit, even when the commit is refused.\<close>

definition persist :: "'z coding_state_scheme run_tools \<Rightarrow> string \<Rightarrow> (coding_meta \<Rightarrow> coding_meta) \<Rightarrow> ('z, unit) coding_act" where
  "persist t runId f =
     act_bind (act_modify (\<lambda>s. s\<lparr>cs_meta := f (cs_meta s)\<rparr>)) (\<lambda>_.
     commitThenExport t runId (\<lambda>s. bumpRevision runId (on_row runId (updateRunRow (cs_meta s)) s)))"

definition log_setStatus :: "'z coding_state_scheme run_tools \<Rightarrow> string \<Rightarrow> run_status \<Rightarrow> ('z, unit) coding_act" where
  "log_setStatus t runId st = persist t runId (\<lambda>m. m\<lparr>mt_status := st\<rparr>)"

definition log_setSafetyStatus :: "'z coding_state_scheme run_tools \<Rightarrow> string \<Rightarrow> safety_status \<Rightarrow> ('z, unit) coding_act" where
  "log_setSafetyStatus t runId st = persist t runId (\<lambda>m. m\<lparr>mt_safetyStatus := Some st\<rparr>)"

definition log_setPromptSha256 :: "'z coding_state_scheme run_tools \<Rightarrow> string \<Rightarrow> string \<Rightarrow> ('z, unit) coding_act" where
  "log_setPromptSha256 t runId sha =
     commitThenExport t runId (\<lambda>s. bumpRevision runId (on_row runId (\<lambda>r. r\<lparr>cw_promptSha256 := Some sha\<rparr>) s))"

record finalize_input =
  fi_status :: run_status
  fi_safetyStatus :: safety_status
  fi_ignoredUntrackedCount :: nat
  fi_secretSuspectCount :: nat
  fi_commandResults :: "command_result list"
  fi_changedFilesCount :: nat
  fi_diffStat :: "diff_stat option"
  fi_changeBudget :: "budget_outcome option"
  fi_policySalvage :: "salvage_info option"
  fi_reviewed :: "reviewed_surface option"
  fi_finishedAt :: string

definition finalized_meta :: "finalize_input \<Rightarrow> coding_meta \<Rightarrow> coding_meta" where
  "finalized_meta p m = m\<lparr>mt_status := fi_status p, mt_safetyStatus := Some (fi_safetyStatus p),
     mt_ignoredUntrackedCount := Some (fi_ignoredUntrackedCount p), mt_secretSuspectCount := Some (fi_secretSuspectCount p),
     mt_commandResults := Some (fi_commandResults p), mt_changedFilesCount := Some (fi_changedFilesCount p),
     mt_diffStat := coalesce (fi_diffStat p) (mt_diffStat m), mt_changeBudget := coalesce (fi_changeBudget p) (mt_changeBudget m),
     mt_policySalvage := coalesce (fi_policySalvage p) (mt_policySalvage m),
     mt_reviewed := coalesce (fi_reviewed p) (mt_reviewed m), mt_finishedAt := Some (fi_finishedAt p)\<rparr>"

definition log_finalize :: "'z coding_state_scheme run_tools \<Rightarrow> string \<Rightarrow> finalize_input \<Rightarrow> ('z, unit) coding_act" where
  "log_finalize t runId p =
     act_bind (act_modify (\<lambda>s. s\<lparr>cs_meta := finalized_meta p (cs_meta s)\<rparr>)) (\<lambda>_.
     commitThenExport t runId (\<lambda>s. bumpRevision runId (on_row runId (updateRunRow (cs_meta s))
       (writeCommandResults runId (fi_commandResults p) s))))"

section \<open>The rows of a run\<close>

definition upsertChangedFiles :: "string \<Rightarrow> changed_file list \<Rightarrow> 'z coding_state_scheme \<Rightarrow> 'z coding_state_scheme" where
  "upsertChangedFiles runId files s = s\<lparr>cs_changedFiles :=
     filter (\<lambda>(r, _). r \<noteq> runId) (cs_changedFiles s) @ map (\<lambda>f. (runId, f)) files\<rparr>"

text \<open>\<open>INSERT OR IGNORE\<close>: a repeated pair of path and rule is stored once.\<close>

definition upsertViolations :: "string \<Rightarrow> violation list \<Rightarrow> 'z coding_state_scheme \<Rightarrow> 'z coding_state_scheme" where
  "upsertViolations runId vs s = s\<lparr>cs_violations :=
     filter (\<lambda>(r, _). r \<noteq> runId) (cs_violations s) @ map (\<lambda>v. (runId, v)) (js_set vs)\<rparr>"

definition FORCE_TERMINAL :: "run_status set" where
  "FORCE_TERMINAL = {R_approved, R_changes_requested, R_rejected, R_cleaned, R_failed_internal_error,
     R_failed_policy_violation, R_failed_codex_timeout, R_failed_budget_exceeded, R_failed_command}"

definition forceFailFinalize ::
  "'z coding_state_scheme run_tools \<Rightarrow> string \<Rightarrow> string \<Rightarrow> bool \<Rightarrow> nat option \<Rightarrow> ('z, unit) coding_act" where
  "forceFailFinalize t runId finishedAt leaseLost lostLockId =
     act_bind (db_accepts t ''forceFailFinalize'') (\<lambda>_. act_modify (\<lambda>s.
       case tbl_get cw_runId runId (cs_rows s) of
         None \<Rightarrow> s
       | Some row \<Rightarrow>
           if cw_status row \<in> FORCE_TERMINAL then s
           else if lostLockId \<noteq> None \<and> Option.bind (map_of (ld_runLeases (cs_locks s)) runId) id \<noteq> lostLockId then s
           else appendEvent runId (Ev_forced leaseLost) (on_row runId (\<lambda>r. r\<lparr>cw_status := R_failed_internal_error,
             cw_finishedAt := Some finishedAt,
             cw_meta := (cw_meta row)\<lparr>mt_status := R_failed_internal_error, mt_finishedAt := Some finishedAt\<rparr>,
             cw_dbRevision := Suc (cw_dbRevision r), cw_stateVersion := Suc (cw_stateVersion r)\<rparr>) s)))"

section \<open>The policy artifacts\<close>

definition artifact :: "'z coding_state_scheme run_tools \<Rightarrow> string \<Rightarrow> ('z, unit) coding_act" where
  "artifact t name = ext (rt_artifact t name)"

definition allowed_patch ::
  "'z coding_state_scheme run_tools \<Rightarrow> path \<Rightarrow> string \<Rightarrow> nat \<Rightarrow> string list \<Rightarrow> string \<Rightarrow> ('z, bool) coding_act" where
  "allowed_patch t wt baseSha gitTimeoutMs trackedAllowed untrackedPatch =
     act_bind (ext (collectTrackedPatchForPaths (rt_tools t) (slash_path wt) baseSha gitTimeoutMs trackedAllowed)) (\<lambda>tracked.
     if filter (\<lambda>p. p \<noteq> []) (map trim_end [tracked, untrackedPatch]) \<noteq> []
     then act_bind (artifact t ''policy-allowed.patch'') (\<lambda>_. act_return True)
     else act_return False)"

definition buildPolicySalvage ::
  "'z coding_state_scheme run_tools \<Rightarrow> path \<Rightarrow> string \<Rightarrow> nat \<Rightarrow> safety_status \<Rightarrow> string list \<Rightarrow> violation list
     \<Rightarrow> string list \<Rightarrow> string list \<Rightarrow> string \<Rightarrow> ('z, salvage_info option) coding_act" where
  "buildPolicySalvage t wt baseSha gitTimeoutMs safetyStatus tracked violations untrackedAllowed untrackedDenied untrackedPatch s =
     (let violated = vi_path ` set violations;
          trackedAllowed = filter (\<lambda>p. p \<notin> violated) tracked;
          trackedDenied = filter (\<lambda>p. p \<in> violated) tracked;
          allowedPaths = uniquePaths (trackedAllowed @ untrackedAllowed);
          deniedPaths = uniquePaths (map vi_path violations @ trackedDenied @ untrackedDenied);
          info = (\<lambda>made. \<lparr>sv_available = made, sv_allowedPaths = allowedPaths, sv_deniedPaths = deniedPaths,
            sv_patchArtifact = (if made then Some ''policy-allowed.patch'' else None),
            sv_recommendedNextAction = (if made
              then ''inspect policy-allowed.patch, then rerun or apply it in a fresh scoped run''
              else ''rerun from base or discard this failed run'')\<rparr>)
      in if safetyStatus \<noteq> Safety_denied then (Inr None, s)
         else if allowedPaths = [] then (Inr (Some (info False)), s)
         else case allowed_patch t wt baseSha gitTimeoutMs trackedAllowed untrackedPatch s of
           (Inl _, s') \<Rightarrow> (Inr (Some (info False)), s')
         | (Inr made, s') \<Rightarrow> (Inr (Some (info made)), s'))"

record policy_artifacts =
  pa_untrackedAllowed :: "string list"
  pa_untrackedDenied :: "string list"
  pa_secretSuspects :: "string list"
  pa_policySalvage :: "salvage_info option"

definition untracked_artifacts ::
  "'z coding_state_scheme run_tools \<Rightarrow> string \<Rightarrow> path \<Rightarrow> string list \<Rightarrow> ('z, string \<times> string list) coding_act" where
  "untracked_artifacts t runId wt untrackedAllowed =
     (if untrackedAllowed = [] then act_return ([], [])
      else
        act_bind (artifact t ''untracked-files.txt'') (\<lambda>_.
        act_bind (ext (rt_untrackedPatch t wt untrackedAllowed)) (\<lambda>(patch, suspects).
        act_bind (artifact t ''untracked-files.patch'') (\<lambda>_.
        if suspects = [] then act_return (patch, suspects)
        else act_bind (artifact t ''untracked-secrets.txt'') (\<lambda>_.
          act_bind (log_emit t runId (Ev_secret_suspects_redacted suspects)) (\<lambda>_. act_return (patch, suspects)))))))"

definition writePolicyArtifacts ::
  "'z coding_state_scheme run_tools \<Rightarrow> string \<Rightarrow> path \<Rightarrow> string \<Rightarrow> nat \<Rightarrow> safety_status \<Rightarrow> string list \<Rightarrow> violation list
     \<Rightarrow> string list \<Rightarrow> ('z, policy_artifacts) coding_act" where
  "writePolicyArtifacts t runId wt baseSha gitTimeoutMs safetyStatus tracked violations untrackedKept =
     act_bind (log_setSafetyStatus t runId safetyStatus) (\<lambda>_.
     let violated = vi_path ` set violations;
         untrackedAllowed = filter (\<lambda>p. p \<notin> violated) untrackedKept;
         untrackedDenied = filter (\<lambda>p. p \<in> violated) untrackedKept
     in act_bind (artifact t ''final-diff.patch'') (\<lambda>_.
        act_bind (untracked_artifacts t runId wt untrackedAllowed) (\<lambda>(patch, suspects).
        act_bind (if untrackedDenied \<noteq> [] then artifact t ''untracked-denied.txt'' else act_return ()) (\<lambda>_.
        act_bind (buildPolicySalvage t wt baseSha gitTimeoutMs safetyStatus tracked violations untrackedAllowed untrackedDenied patch) (\<lambda>salvage.
        act_bind (case salvage of None \<Rightarrow> act_return () | Some i \<Rightarrow> log_emit t runId (Ev_policy_salvage i)) (\<lambda>_.
        act_return \<lparr>pa_untrackedAllowed = untrackedAllowed, pa_untrackedDenied = untrackedDenied,
          pa_secretSuspects = suspects, pa_policySalvage = salvage\<rparr>))))))"

section \<open>The change budget\<close>

definition evaluateChangeBudget ::
  "'z coding_state_scheme run_tools \<Rightarrow> string \<Rightarrow> change_budget \<Rightarrow> diff_stat \<Rightarrow> stage \<Rightarrow> ('z, budget_outcome) coding_act" where
  "evaluateChangeBudget t runId configured stat st =
     (let budget = normalizeDiffBudget (budget_input configured);
          (status, breaches) = validateDiffBudget (budget_input budget) stat;
          out = \<lparr>bx_status = status, bx_disabled = \<not> cb_enforce budget, bx_stage = st, bx_budget = budget, bx_breaches = breaches\<rparr>
      in act_bind (log_emit t runId (Ev_diff_budget_evaluated out stat)) (\<lambda>_.
         act_bind (if \<not> cb_enforce budget then log_emit t runId (Ev_change_budget_disabled out stat) else act_return ()) (\<lambda>_.
         act_return out)))"

section \<open>The steps of a run\<close>

record coding_opts =
  on_repoPath :: string
  on_repoId :: string
  on_domain :: string
  on_baseBranch :: string
  on_prompt :: "resolved_policy \<Rightarrow> string"
  on_projectRule :: bool
  on_parentRunId :: "string option"
  on_rootRunId :: "string option"
  on_rerunAttempt :: "nat option"
  on_continueFrom :: "(string \<times> path) option"
  on_resolvedBaseSha :: "string option"
  on_continueFromSkipped :: "skip_reason option"
  on_continuationParentRunId :: "string option"
  on_changeBudgetOverride :: "budget_override option"
  on_branch :: string
  on_startedAt :: string
  on_pid :: int
  on_hostname :: string

text \<open>The snapshot of the review rule is best effort unless the rule comes from a project profile.\<close>

definition snapshotReviewRuleForRun :: "'z coding_state_scheme run_tools \<Rightarrow> coding_opts \<Rightarrow> ('z, unit) coding_act" where
  "snapshotReviewRuleForRun t opts s =
     (case ext (rt_ruleSnapshot t) s of
        (Inl e, s') \<Rightarrow> (if on_projectRule opts then Inl e else Inr (), s') | (Inr _, s') \<Rightarrow> (Inr (), s'))"

definition start_workspace :: "'z coding_state_scheme run_tools \<Rightarrow> string \<Rightarrow> string \<Rightarrow> ('z, path) coding_act" where
  "start_workspace t runId baseSha =
     act_bind (log_emit t runId (Ev_run_started baseSha)) (\<lambda>_.
     act_bind (artifact t ''resolved-policy.yaml'') (\<lambda>_.
     act_bind (act_modify (rt_gc t)) (\<lambda>_.
     act_bind (ext (rt_workspace t runId baseSha)) (\<lambda>wt.
     act_bind (log_emit t runId (Ev_worktree_created wt)) (\<lambda>_. act_return wt)))))"

definition materialize ::
  "'z coding_state_scheme run_tools \<Rightarrow> path \<Rightarrow> path \<Rightarrow> string \<Rightarrow> resolved_policy \<Rightarrow> ('z, materialize_outcome) coding_act" where
  "materialize t parent wt baseSha policy s =
     (case materializeParentWork (rt_globs t) (rt_tools t) parent wt baseSha policy (po_gitTimeoutMs policy) s of
        (Inl msg, s') \<Rightarrow> (Inl (Run_reset msg), s') | (Inr x, s') \<Rightarrow> (Inr x, s'))"

definition continue_parent ::
  "'z coding_state_scheme run_tools \<Rightarrow> coding_opts \<Rightarrow> string \<Rightarrow> string \<Rightarrow> resolved_policy \<Rightarrow> path \<Rightarrow> ('z, unit) coding_act" where
  "continue_parent t opts runId baseSha policy wt =
     (case on_continueFrom opts of
        None \<Rightarrow> (case on_continueFromSkipped opts of
            None \<Rightarrow> act_return () | Some reason \<Rightarrow> log_emit t runId (Ev_continuation_skipped None reason))
      | Some (parentRunId, parent) \<Rightarrow>
          act_bind (materialize t parent wt baseSha policy) (\<lambda>outcome.
          log_emit t runId (case outcome of
            Materialized paths \<Rightarrow> Ev_continuation_materialized parentRunId baseSha paths
          | Skipped reason \<Rightarrow> Ev_continuation_skipped (Some parentRunId) reason)))"

definition run_agent ::
  "'z coding_state_scheme run_tools \<Rightarrow> string \<Rightarrow> path \<Rightarrow> string \<Rightarrow> ('z, codex_result) coding_act" where
  "run_agent t runId wt prompt =
     act_bind (artifact t ''codex-prompt.md'') (\<lambda>_.
     act_bind (log_setPromptSha256 t runId (rt_digest t prompt)) (\<lambda>_.
     act_bind (log_emit t runId Ev_codex_exec_started) (\<lambda>_.
     act_bind (ext (rt_codex t wt prompt)) (\<lambda>codex.
     act_bind (log_emit t runId (Ev_codex_exec_completed (cx_exitCode codex) (cx_timedOut codex))) (\<lambda>_.
     act_bind (ext (rt_publishEvents t)) (\<lambda>published.
     act_bind (act_modify (rt_usage t)) (\<lambda>_.
     act_bind (case published of
         Some (redacted, dropped) \<Rightarrow>
           if redacted + dropped > 0 then log_emit t runId (Ev_codex_events_redacted redacted dropped) else act_return ()
       | None \<Rightarrow> act_return ()) (\<lambda>_.
     act_bind (log_setStatus t runId R_generated) (\<lambda>_. act_return codex)))))))))"

definition collect ::
  "'z coding_state_scheme run_tools \<Rightarrow> path \<Rightarrow> string \<Rightarrow> resolved_policy \<Rightarrow> ('z, diff_and_validate) coding_act" where
  "collect t wt baseSha policy =
     ext (diffAndValidate (rt_globs t) (rt_tools t) (slash_path wt) baseSha (po_gitTimeoutMs policy) policy)"

text \<open>A pass: the collected and validated diff with its events, and the budget when there is a diff.\<close>

definition validated_pass ::
  "'z coding_state_scheme run_tools \<Rightarrow> string \<Rightarrow> path \<Rightarrow> string \<Rightarrow> resolved_policy \<Rightarrow> change_budget \<Rightarrow> stage
     \<Rightarrow> budget_outcome option \<Rightarrow> ('z, diff_and_validate \<times> budget_outcome option) coding_act" where
  "validated_pass t runId wt baseSha policy budget st before =
     act_bind (collect t wt baseSha policy) (\<lambda>dv.
     act_bind (log_emit t runId (case do_error (dv_diff dv) of
         Some e \<Rightarrow> Ev_diff_collection_failed e st
       | None \<Rightarrow> Ev_policy_validation_completed (dv_safetyStatus dv = Safety_allowed) st)) (\<lambda>_.
     case (if do_ok (dv_diff dv) then dv_budgetStat dv else None) of
       Some stat \<Rightarrow> act_bind (evaluateChangeBudget t runId budget stat st) (\<lambda>out. act_return (dv, Some out))
     | None \<Rightarrow> act_return (dv, before)))"

definition may_run_commands :: "resolved_policy \<Rightarrow> codex_result \<Rightarrow> diff_and_validate \<Rightarrow> budget_outcome option \<Rightarrow> bool" where
  "may_run_commands policy codex dv budget \<longleftrightarrow> do_ok (dv_diff dv) \<and> dv_safetyStatus dv = Safety_allowed
     \<and> map_option bx_status budget \<noteq> Some Exceeded \<and> \<not> cx_timedOut codex \<and> cx_exitCode codex = 0
     \<and> po_allowedCommands policy \<noteq> []"

record pass_result =
  ps_dv :: diff_and_validate
  ps_budget :: "budget_outcome option"
  ps_commandResults :: "command_result list"
  ps_stage :: stage

definition command_pass ::
  "'z coding_state_scheme run_tools \<Rightarrow> string \<Rightarrow> path \<Rightarrow> string \<Rightarrow> resolved_policy \<Rightarrow> change_budget \<Rightarrow> codex_result
     \<Rightarrow> diff_and_validate \<times> budget_outcome option \<Rightarrow> ('z, pass_result) coding_act" where
  "command_pass t runId wt baseSha policy budget codex first =
     (let (dv, outcome) = first
      in if \<not> may_run_commands policy codex dv outcome then
           act_return \<lparr>ps_dv = dv, ps_budget = outcome, ps_commandResults = [], ps_stage = Post_codex\<rparr>
         else
           act_bind (log_setStatus t runId R_verified) (\<lambda>_.
           act_bind (log_emit t runId (Ev_commands_started (length (po_allowedCommands policy)))) (\<lambda>_.
           act_bind (ext (rt_commands t wt (po_allowedCommands policy))) (\<lambda>results.
           act_bind (log_emit t runId (Ev_commands_completed results)) (\<lambda>_.
           act_bind (validated_pass t runId wt baseSha policy budget Post_command outcome) (\<lambda>(dv2, outcome2).
           act_return \<lparr>ps_dv = dv2, ps_budget = outcome2, ps_commandResults = results, ps_stage = Post_command\<rparr>))))))"

definition normalize_index ::
  "'z coding_state_scheme run_tools \<Rightarrow> path \<Rightarrow> string \<Rightarrow> nat \<Rightarrow> ('z, unit) coding_act" where
  "normalize_index t wt baseSha gitTimeoutMs s =
     (case normalizeWorktreeIndexToBase (rt_tools t) (slash_path wt) baseSha gitTimeoutMs s of
        (Inl msg, s') \<Rightarrow> (Inl (Run_reset msg), s') | (Inr x, s') \<Rightarrow> (Inr x, s'))"

text \<open>The view that artifacts and the reviewed surface are taken from: collected again behind the normalization.\<close>

definition artifact_view ::
  "'z coding_state_scheme run_tools \<Rightarrow> path \<Rightarrow> string \<Rightarrow> resolved_policy \<Rightarrow> diff_and_validate \<Rightarrow> ('z, diff_and_validate) coding_act" where
  "artifact_view t wt baseSha policy pre =
     (if do_ok (dv_diff pre)
      then act_bind (normalize_index t wt baseSha (po_gitTimeoutMs policy)) (\<lambda>_. collect t wt baseSha policy)
      else act_return pre)"

definition reviewed_of ::
  "'z coding_state_scheme run_tools \<Rightarrow> string \<Rightarrow> path \<Rightarrow> diff_and_validate \<Rightarrow> policy_artifacts \<Rightarrow> stage
     \<Rightarrow> ('z, reviewed_surface option) coding_act" where
  "reviewed_of t runId wt dv pa st =
     (if \<not> do_ok (dv_diff dv) then act_return None
      else act_bind (log_emit t runId (Ev_diff_collected (do_trackedChangedPaths (dv_diff dv)) (pa_untrackedAllowed pa)
          (pa_untrackedDenied pa) (dv_untrackedIgnored dv) st)) (\<lambda>_.
        let paths = do_trackedChangedPaths (dv_diff dv) @ pa_untrackedAllowed pa
        in act_bind (act_get (\<lambda>s. computeReviewedFingerprint (rt_sha t) (rt_digest t) (rt_errno t) (fw_fs s) wt paths)) (\<lambda>fp.
           act_return (Some \<lparr>rx_paths = paths, rx_fingerprint = fp,
             rx_weakensTests = detectsTestWeakening (do_patch (dv_diff dv))\<rparr>))))"

definition changed_files :: "diff_and_validate \<Rightarrow> violation list \<Rightarrow> policy_artifacts \<Rightarrow> stage \<Rightarrow> changed_file list" where
  "changed_files dv violations pa st =
     (let row = (\<lambda>status allowed p. \<lparr>cf_path = p, cf_status = status, cf_allowed = allowed, cf_source = st\<rparr>)
      in map (\<lambda>p. row File_tracked (p \<notin> vi_path ` set violations) p) (do_trackedChangedPaths (dv_diff dv))
         @ map (row File_untracked True) (pa_untrackedAllowed pa) @ map (row File_untracked False) (pa_untrackedDenied pa)
         @ map (row File_ignored True) (dv_untrackedIgnored dv))"

text \<open>The rows of changed files are inserted without \<open>OR IGNORE\<close>: a repeated path is an error.\<close>

definition store_verification ::
  "'z coding_state_scheme run_tools \<Rightarrow> string \<Rightarrow> diff_and_validate \<Rightarrow> violation list \<Rightarrow> policy_artifacts \<Rightarrow> stage \<Rightarrow> ('z, unit) coding_act" where
  "store_verification t runId dv violations pa st =
     act_bind (check_lease runId) (\<lambda>_.
     act_bind (db_accepts t ''upsertViolations'') (\<lambda>_.
     act_bind (act_modify (upsertViolations runId violations)) (\<lambda>_.
     if do_ok (dv_diff dv) then
       act_bind (check_lease runId) (\<lambda>_.
       act_bind (act_guard (\<lambda>_. distinct (map cf_path (changed_files dv violations pa st)))
         (Run_threw ''UNIQUE constraint failed: run_changed_files.run_id, run_changed_files.path'')) (\<lambda>_.
       act_bind (db_accepts t ''upsertChangedFiles'') (\<lambda>_.
       act_modify (upsertChangedFiles runId (changed_files dv violations pa st)))))
     else act_return ())))"

definition final_status :: "bool \<Rightarrow> codex_result \<Rightarrow> safety_status \<Rightarrow> budget_outcome option \<Rightarrow> run_status" where
  "final_status diffOk codex safetyStatus budget =
     (if \<not> diffOk then R_failed_diff_collection
      else if cx_timedOut codex then R_failed_codex_timeout
      else if cx_exitCode codex \<noteq> 0 then R_failed_codex
      else if safetyStatus = Safety_denied then R_failed_policy_violation
      else if map_option bx_status budget = Some Exceeded then R_failed_budget_exceeded
      else R_needs_review)"

definition write_reports :: "'z coding_state_scheme run_tools \<Rightarrow> ('z, unit) coding_act" where
  "write_reports t =
     act_bind (artifact t ''summary.md'') (\<lambda>_. act_bind (artifact t ''knowledge-candidates.yaml'') (\<lambda>_.
     act_bind (artifact t ''review-decision.yaml'') (\<lambda>_. artifact t ''review-request.md'')))"

text \<open>A failed ingestion only warns.\<close>

definition ingest :: "'z coding_state_scheme run_tools \<Rightarrow> string \<Rightarrow> ('z, (nat \<times> nat) option) coding_act" where
  "ingest t runId s = (case act_bind (check_lease runId) (\<lambda>_. ext (rt_ingest t)) s of
     (Inl _, s') \<Rightarrow> (Inr None, s') | (Inr x, s') \<Rightarrow> (Inr (Some x), s'))"

record coding_result =
  rr_runId :: string
  rr_status :: run_status
  rr_safetyStatus :: safety_status
  rr_ignoredUntrackedCount :: nat
  rr_secretSuspectCount :: nat
  rr_commandResults :: "command_result list"

definition finish_run ::
  "'z coding_state_scheme run_tools \<Rightarrow> string \<Rightarrow> codex_result \<Rightarrow> diff_and_validate \<Rightarrow> diff_and_validate \<Rightarrow> policy_artifacts
     \<Rightarrow> reviewed_surface option \<Rightarrow> pass_result \<Rightarrow> ('z, coding_result) coding_act" where
  "finish_run t runId codex pre dv pa reviewed pass =
     (let status = final_status (do_ok (dv_diff dv)) codex (dv_safetyStatus pre) (ps_budget pass);
          ignored = length (dv_untrackedIgnored dv); suspects = length (pa_secretSuspects pa)
      in act_bind (write_reports t) (\<lambda>_.
         act_bind (ingest t runId) (\<lambda>ingested.
         act_bind (case ingested of None \<Rightarrow> act_return ()
           | Some (n, bytes) \<Rightarrow> log_emit t runId (Ev_artifacts_ingested n bytes)) (\<lambda>_.
         act_bind (act_get (\<lambda>s. to_iso (cs_now s))) (\<lambda>finishedAt.
         act_bind (log_finalize t runId \<lparr>fi_status = status, fi_safetyStatus = dv_safetyStatus pre,
             fi_ignoredUntrackedCount = ignored, fi_secretSuspectCount = suspects,
             fi_commandResults = ps_commandResults pass,
             fi_changedFilesCount = length (do_trackedChangedPaths (dv_diff dv)) + length (pa_untrackedAllowed pa),
             fi_diffStat = coalesce (dv_budgetStat pre) (do_stat (dv_diff dv)), fi_changeBudget = ps_budget pass,
             fi_policySalvage = pa_policySalvage pa, fi_reviewed = reviewed, fi_finishedAt = finishedAt\<rparr>) (\<lambda>_.
         act_bind (log_emit t runId (Ev_run_completed status (dv_safetyStatus pre))) (\<lambda>_.
         act_return \<lparr>rr_runId = runId, rr_status = status, rr_safetyStatus = dv_safetyStatus pre,
           rr_ignoredUntrackedCount = ignored, rr_secretSuspectCount = suspects,
           rr_commandResults = ps_commandResults pass\<rparr>)))))))"

definition runDomainCodingInner ::
  "'z coding_state_scheme run_tools \<Rightarrow> coding_opts \<Rightarrow> resolved_policy \<Rightarrow> string \<Rightarrow> string \<Rightarrow> ('z, coding_result) coding_act" where
  "runDomainCodingInner t opts policy runId baseSha =
     (let budget = applyChangeBudgetOverride (po_changeBudget policy) (on_changeBudgetOverride opts)
      in act_bind (start_workspace t runId baseSha) (\<lambda>wt.
         act_bind (continue_parent t opts runId baseSha policy wt) (\<lambda>_.
         act_bind (run_agent t runId wt (on_prompt opts policy)) (\<lambda>codex.
         act_bind (validated_pass t runId wt baseSha policy budget Post_codex None) (\<lambda>first.
         act_bind (command_pass t runId wt baseSha policy budget codex first) (\<lambda>pass.
         let pre = ps_dv pass
         in act_bind (artifact_view t wt baseSha policy pre) (\<lambda>dv.
            act_bind (writePolicyArtifacts t runId wt baseSha (po_gitTimeoutMs policy) (dv_safetyStatus pre)
              (do_trackedChangedPaths (dv_diff dv)) (dv_violations pre) (dv_untrackedKept dv)) (\<lambda>pa.
            act_bind (reviewed_of t runId wt dv pa (ps_stage pass)) (\<lambda>reviewed.
            act_bind (store_verification t runId dv (dv_violations pre) pa (ps_stage pass)) (\<lambda>_.
            finish_run t runId codex pre dv pa reviewed pass))))))))))"

section \<open>The run as a whole\<close>

text \<open>
  The failure path of a run whose row exists: every step of it is best effort, the forced write at its end included, whose
  failure is only a warning.
\<close>

definition swallow :: "('s, 'e, 'a) act \<Rightarrow> 's \<Rightarrow> 's" where
  "swallow m s = snd (m s)"

definition is_lease_guard :: "coding_error \<Rightarrow> bool" where
  "is_lease_guard e \<longleftrightarrow> (case e of Run_lock (Lease_guard_failed _) \<Rightarrow> True | _ \<Rightarrow> False)"

definition fail_run ::
  "'z coding_state_scheme run_tools \<Rightarrow> string \<Rightarrow> nat \<Rightarrow> coding_error \<Rightarrow> 'z coding_state_scheme \<Rightarrow> 'z coding_state_scheme" where
  "fail_run t runId lockId e s =
     (let leaseLost = is_lease_guard e;
          s1 = swallow (log_emit t runId Ev_run_failed) s;
          s2 = (if leaseLost then s1 else swallow (ingest t runId) s1);
          s3 = swallow (log_finalize t runId \<lparr>fi_status = R_failed_internal_error, fi_safetyStatus = Safety_skipped,
             fi_ignoredUntrackedCount = 0, fi_secretSuspectCount = 0, fi_commandResults = [], fi_changedFilesCount = 0,
             fi_diffStat = None, fi_changeBudget = None, fi_policySalvage = None, fi_reviewed = None,
             fi_finishedAt = to_iso (cs_now s2)\<rparr>) s2
      in swallow (forceFailFinalize t runId (to_iso (cs_now s3)) leaseLost (if leaseLost then Some lockId else None)) s3)"

definition start_meta :: "coding_opts \<Rightarrow> string \<Rightarrow> string \<Rightarrow> coding_meta" where
  "start_meta opts runId baseSha =
     \<lparr>mt_runId = runId, mt_repoId = on_repoId opts, mt_domain = on_domain opts, mt_baseBranch = on_baseBranch opts,
      mt_baseSha = baseSha, mt_runBranch = on_branch opts, mt_status = R_running, mt_safetyStatus = None,
      mt_ignoredUntrackedCount = None, mt_secretSuspectCount = None, mt_commandResults = None, mt_changedFilesCount = None,
      mt_diffStat = None, mt_changeBudget = None, mt_policySalvage = None,
      mt_parentRunId = coalesce (on_parentRunId opts) (coalesce (on_continuationParentRunId opts) (map_option fst (on_continueFrom opts))),
      mt_rootRunId = on_rootRunId opts, mt_rerunAttempt = on_rerunAttempt opts, mt_reviewed = None,
      mt_startedAt = on_startedAt opts, mt_finishedAt = None\<rparr>"

text \<open>
  The directory of the run is created exclusively and the id of a row is unique: a clash is an error. The lease is
  stamped on the row with the insert.
\<close>

definition insertRunRow :: "'z coding_state_scheme run_tools \<Rightarrow> string \<Rightarrow> coding_meta \<Rightarrow> nat \<Rightarrow> ('z, unit) coding_act" where
  "insertRunRow t runId meta lockId =
     act_bind (act_guard (\<lambda>s. \<not> tbl_has cw_runId runId (cs_rows s)) (Run_threw ''UNIQUE constraint failed: runs.run_id'')) (\<lambda>_.
     act_bind (db_accepts t ''createRun'') (\<lambda>_.
     act_modify (\<lambda>s. s\<lparr>
       cs_rows := cs_rows s @ [\<lparr>cw_runId = runId, cw_status = mt_status meta, cw_safetyStatus = mt_safetyStatus meta,
         cw_parentRunId = mt_parentRunId meta, cw_finishedAt = mt_finishedAt meta, cw_meta = meta, cw_promptSha256 = None,
         cw_dbRevision = 1, cw_stateVersion = 0\<rparr>],
       cs_locks := (cs_locks s)\<lparr>ld_runLeases := (runId, Some lockId) # filter (\<lambda>(r, _). r \<noteq> runId) (ld_runLeases (cs_locks s))\<rparr>\<rparr>)))"

definition createDbRunLog ::
  "'z coding_state_scheme run_tools \<Rightarrow> string \<Rightarrow> coding_meta \<Rightarrow> nat \<Rightarrow> ('z, unit) coding_act" where
  "createDbRunLog t runId meta lockId =
     act_bind (ext (rt_runDir t runId)) (\<lambda>_.
     act_bind (act_modify (\<lambda>s. s\<lparr>cs_meta := meta\<rparr>)) (\<lambda>_.
     act_bind (insertRunRow t runId meta lockId) (\<lambda>_. act_modify (rt_export t))))"

definition on_locks :: "'a lock_act \<Rightarrow> ('z, 'a) coding_act" where
  "on_locks m s = (case m (cs_locks s) of
     (Inl e, l) \<Rightarrow> (Inl (Run_lock e), s\<lparr>cs_locks := l\<rparr>) | (Inr x, l) \<Rightarrow> (Inr x, s\<lparr>cs_locks := l\<rparr>))"

definition is_base_sha :: "string \<Rightarrow> bool" where
  "is_base_sha s \<longleftrightarrow> 7 \<le> length s \<and> length s \<le> 40 \<and> list_all is_hex s"

text \<open>Under the lock: one child per parent, the base, the row, and the run.\<close>

definition duplicate_gate :: "coding_opts \<Rightarrow> ('z, unit) coding_act" where
  "duplicate_gate opts s =
     (case coalesce (on_parentRunId opts) (on_continuationParentRunId opts) of
        None \<Rightarrow> (Inr (), s)
      | Some parent \<Rightarrow> (case find (\<lambda>r. cw_parentRunId r = Some parent) (cs_rows s) of
            Some child \<Rightarrow> (Inl (Run_rerun_gate parent (cw_runId child)), s) | None \<Rightarrow> (Inr (), s)))"

definition run_base ::
  "'z coding_state_scheme run_tools \<Rightarrow> coding_opts \<Rightarrow> ('z, string) coding_act" where
  "run_base t opts =
     (case on_resolvedBaseSha opts of
        Some sha \<Rightarrow> if is_base_sha sha then act_return sha else act_throw (Run_bad_base sha)
      | None \<Rightarrow> ext (resolveBaseSha (rt_tools t) (on_repoPath opts) (on_baseBranch opts) True))"

definition tracked_run ::
  "'z coding_state_scheme run_tools \<Rightarrow> coding_opts \<Rightarrow> resolved_policy \<Rightarrow> string \<Rightarrow> string \<Rightarrow> nat \<Rightarrow> ('z, coding_result) coding_act" where
  "tracked_run t opts policy runId baseSha lockId s =
     (case act_bind (snapshotReviewRuleForRun t opts) (\<lambda>_. runDomainCodingInner t opts policy runId baseSha) s of
        (Inl e, s') \<Rightarrow> (Inl (Run_finalized runId e), fail_run t runId lockId e s')
      | (Inr r, s') \<Rightarrow> (Inr r, s'))"

definition run_lock :: "coding_opts \<Rightarrow> string \<Rightarrow> acquire_opts" where
  "run_lock opts runId = \<lparr>ao_domainKey = on_repoId opts @ ''::'' @ on_domain opts, ao_repoId = on_repoId opts,
     ao_domain = on_domain opts, ao_runId = runId, ao_pid = on_pid opts, ao_hostname = on_hostname opts\<rparr>"

definition locked_run ::
  "'z coding_state_scheme run_tools \<Rightarrow> coding_opts \<Rightarrow> resolved_policy \<Rightarrow> string \<Rightarrow> nat \<Rightarrow> ('z, coding_result) coding_act" where
  "locked_run t opts policy runId lockId =
     act_bind (duplicate_gate opts) (\<lambda>_.
     act_bind (run_base t opts) (\<lambda>baseSha.
     act_bind (ext (rt_policySnapshot t)) (\<lambda>_.
     act_bind (createDbRunLog t runId (start_meta opts runId baseSha) lockId) (\<lambda>_.
     tracked_run t opts policy runId baseSha lockId))))"

text \<open>
  The ids and the clock reading that the run draws are arguments of \<open>opts\<close>. The heartbeat of the lease is one of the
  things that happen meanwhile; the release at the end is best effort.
\<close>

definition runDomainCoding ::
  "'z coding_state_scheme run_tools \<Rightarrow> coding_opts \<Rightarrow> global_policy \<Rightarrow> repo_policy \<Rightarrow> string \<Rightarrow> bool \<Rightarrow> rat option option
     \<Rightarrow> ('z, coding_result) coding_act" where
  "runDomainCoding t opts global repo runId recorded lease s =
     (case resolvePolicy global repo (on_domain opts) of
        Inl e \<Rightarrow> (Inl (Run_policy e), s)
      | Inr policy \<Rightarrow>
          (case act_bind (ext (rt_open t)) (\<lambda>_. \<lambda>s1.
               on_locks (acquireDomainLock lease (run_lock opts runId) (cs_now s1) recorded) s1) s of
             (Inl e, s1) \<Rightarrow> (Inl e, s1)
           | (Inr handle, s1) \<Rightarrow>
               (let (res, s2) = locked_run t opts policy runId (lh_lockId handle) s1
                in (res, swallow (on_locks (release handle (Some ''normal'') (Some (''pid:'' @ js_int (on_pid opts))) (cs_now s2))) s2))))"

section \<open>What other processes leave alone\<close>

text \<open>
  The part of the state that is this run's own: status and metadata in its row, its lease column, and the
  metadata in memory. The tables of locks, the clock and all else may change while an operation runs.
\<close>

definition run_view ::
  "string \<Rightarrow> 'z coding_state_scheme \<Rightarrow> (run_status \<times> coding_meta) option \<times> nat option option \<times> coding_meta" where
  "run_view runId s = (map_option (\<lambda>r. (cw_status r, cw_meta r)) (tbl_get cw_runId runId (cs_rows s)),
     map_of (ld_runLeases (cs_locks s)) runId, cs_meta s)"

definition calm_act :: "string \<Rightarrow> ('z coding_state_scheme, 'e, 'a) act \<Rightarrow> bool" where
  "calm_act runId m \<longleftrightarrow> (\<forall>s. run_view runId (snd (m s)) = run_view runId s)"

definition calm :: "'z coding_state_scheme run_tools \<Rightarrow> string \<Rightarrow> bool" where
  "calm t runId \<longleftrightarrow>
     (\<forall>cwd args. calm_act runId (tl_git (rt_tools t) cwd args)) \<and> (\<forall>wt p. calm_act runId (tl_probe (rt_tools t) wt p))
     \<and> (\<forall>s. run_view runId (rt_export t s) = run_view runId s) \<and> (\<forall>s. run_view runId (rt_gc t s) = run_view runId s)
     \<and> (\<forall>s. run_view runId (rt_usage t s) = run_view runId s)
     \<and> calm_act runId (rt_open t) \<and> calm_act runId (rt_policySnapshot t) \<and> (\<forall>r. calm_act runId (rt_runDir t r)) \<and> (\<forall>r b. calm_act runId (rt_workspace t r b))
     \<and> calm_act runId (rt_ruleSnapshot t) \<and> (\<forall>wt p. calm_act runId (rt_codex t wt p)) \<and> calm_act runId (rt_publishEvents t)
     \<and> (\<forall>wt cs. calm_act runId (rt_commands t wt cs)) \<and> (\<forall>n. calm_act runId (rt_artifact t n))
     \<and> (\<forall>wt ps. calm_act runId (rt_untrackedPatch t wt ps)) \<and> calm_act runId (rt_ingest t)"

definition seen :: "string \<Rightarrow> ((run_status \<times> coding_meta) option \<times> nat option option \<times> coding_meta \<Rightarrow> bool)
    \<Rightarrow> 'z coding_state_scheme \<Rightarrow> bool" where
  "seen runId J s = J (run_view runId s)"

lemma view_simps [simp]:
  "run_view runId (s\<lparr>fw_fs := a\<rparr>) = run_view runId s" "run_view runId (s\<lparr>cs_events := b\<rparr>) = run_view runId s"
  "run_view runId (s\<lparr>cs_changedFiles := c\<rparr>) = run_view runId s" "run_view runId (s\<lparr>cs_violations := d\<rparr>) = run_view runId s"
  "run_view runId (s\<lparr>cs_commandResults := e\<rparr>) = run_view runId s"
  by (simp_all add: run_view_def)

lemma tbl_get_update_same: "(\<And>r. key (f r) = key r) \<Longrightarrow> tbl_get key k (tbl_update key k f rows) = map_option f (tbl_get key k rows)"
  by (simp add: tbl_get_update)

lemma view_writes [simp]:
  "run_view runId (appendEvent runId ev s) = run_view runId s" "run_view runId (bumpRevision runId s) = run_view runId s"
  "run_view runId (upsertChangedFiles runId cf s) = run_view runId s" "run_view runId (upsertViolations runId vs s) = run_view runId s"
  "run_view runId (writeCommandResults runId crs s) = run_view runId s"
  "run_view runId (on_row runId (\<lambda>r. r\<lparr>cw_promptSha256 := p\<rparr>) s) = run_view runId s"
  by (simp_all add: run_view_def appendEvent_def bumpRevision_def on_row_def upsertChangedFiles_def upsertViolations_def
      writeCommandResults_def tbl_get_update_same option.map_comp comp_def)

lemma view_update_row: "run_view runId (on_row runId (updateRunRow m) s)
   = (map_option (\<lambda>_. (mt_status m, m)) (fst (run_view runId s)), snd (run_view runId s))"
  by (simp add: run_view_def on_row_def updateRunRow_def tbl_get_update_same option.map_comp comp_def)

lemma seen_ext: "calm_act runId m \<Longrightarrow> act_keeps (seen runId J) (ext m)"
  by (auto simp: act_keeps_def seen_def ext_def calm_act_def split: prod.splits sum.splits) (metis snd_conv)+

lemma seen_raw: "calm_act runId m \<Longrightarrow> act_keeps (seen runId J) m"
  by (auto simp: act_keeps_def seen_def calm_act_def)

lemma seen_lease [act_inv_rules]: "act_keeps I (check_lease r)"
  by (auto simp: act_keeps_def check_lease_def split: prod.splits sum.splits)

lemma accepts_keeps [act_inv_rules]: "act_keeps I (db_accepts t op)"
  by (auto simp: act_keeps_def db_accepts_def act_guard_def)

lemma seen_modify: "(\<And>s. run_view runId (f s) = run_view runId s) \<Longrightarrow> act_keeps (seen runId J) (act_modify f)"
  by (simp add: act_keeps_def act_modify_def seen_def)

lemma seen_emit: "calm t runId \<Longrightarrow> act_keeps (seen runId J) (log_emit t runId e)"
  unfolding log_emit_def commitThenExport_def
  by (intro act_inv_rules seen_modify) (auto simp: calm_def)

lemma seen_sha: "calm t runId \<Longrightarrow> act_keeps (seen runId J) (log_setPromptSha256 t runId sha)"
  unfolding log_setPromptSha256_def commitThenExport_def
  by (intro act_inv_rules seen_modify) (auto simp: calm_def)

lemma seen_artifact: "calm t runId \<Longrightarrow> act_keeps (seen runId J) (artifact t n)"
  unfolding artifact_def by (rule seen_ext) (simp add: calm_def)

text \<open>The composed reads and the git commands.\<close>

lemma seen_git: "calm t runId \<Longrightarrow> act_keeps (seen runId J) (tl_git (rt_tools t) cwd args)"
  by (rule seen_raw) (simp add: calm_def)

lemma seen_gitCliOrThrow: "calm t runId \<Longrightarrow> act_keeps (seen runId J) (gitCliOrThrow (rt_tools t) cwd ms args)"
  unfolding gitCliOrThrow_def by (intro act_inv_rules seen_git)

lemma seen_collectDiff: "calm t runId \<Longrightarrow> act_keeps (seen runId J) (collectDiff (rt_tools t) repo base ms)"
  unfolding collectDiff_def Let_def by (intro act_inv_rules seen_gitCliOrThrow)

lemma seen_probe: "calm t runId \<Longrightarrow> act_keeps (seen runId J) (tl_probe (rt_tools t) wt p)"
  by (rule seen_raw) (simp add: calm_def)

lemma seen_untracked_lines: "calm t runId \<Longrightarrow> act_keeps (seen runId J) (untracked_lines (rt_tools t) wt ps)"
  by (induction ps) (auto intro!: act_inv_rules seen_probe)

lemma seen_diffAndValidate: "calm t runId \<Longrightarrow> act_keeps (seen runId J) (diffAndValidate mm (rt_tools t) wt base ms policy)"
  unfolding act_keeps_def
proof (intro allI impI)
  fix s :: "'a coding_state_scheme" assume calm: "calm t runId" and J: "seen runId J s"
  obtain d s1 where d: "attemptDiff (rt_tools t) wt base ms s = (d, s1)" by (cases "attemptDiff (rt_tools t) wt base ms s")
  have J1: "seen runId J s1"
    using act_keeps_snd[OF seen_collectDiff[OF calm] J, of wt base ms] d by (auto simp: attemptDiff_def split: prod.splits sum.splits)
  have "act_keeps (seen runId J) (statWithAllowedUntracked (rt_tools t) wt stat ps)" for stat ps
    unfolding statWithAllowedUntracked_def by (intro act_inv_rules seen_untracked_lines calm)
  then have rest: "act_keeps (seen runId J) (act_bind (statWithAllowedUntracked (rt_tools t) wt stat ps) (\<lambda>b. act_return (h b)))" for stat ps h
    by (intro act_inv_rules)
  show "seen runId J (snd (diffAndValidate mm (rt_tools t) wt base ms policy s))"
    using J1 d act_keeps_snd[OF rest J1] by (auto simp: diffAndValidate_def Let_def split: prod.splits option.splits)
qed

lemma seen_collect: "calm t runId \<Longrightarrow> act_keeps (seen runId J) (collect t wt base policy)"
proof -
  assume "calm t runId"
  from seen_diffAndValidate[OF this] show ?thesis
    unfolding collect_def by (auto simp: act_keeps_def ext_def split: prod.splits sum.splits) (metis snd_conv)+
qed

lemma seen_reset_step: "calm t runId \<Longrightarrow> act_keeps (seen runId J) (runResetStep (rt_tools t) cwd ms args)"
  using seen_git[of t runId J cwd args] by (auto simp: act_keeps_def runResetStep_def split: prod.splits sum.splits)

lemma seen_normalize: "calm t runId \<Longrightarrow> act_keeps (seen runId J) (normalize_index t wt base ms)"
  using seen_reset_step[of t runId J "slash_path wt" ms "[''reset'', ''--mixed'', base]"]
  by (auto simp: act_keeps_def normalize_index_def normalizeWorktreeIndexToBase_def split: prod.splits sum.splits)

lemma seen_on_fs: "act_keeps (seen runId J) (on_fs m)"
  by (auto simp: act_keeps_def on_fs_def seen_def split: prod.splits)

lemma seen_materialize: "calm t runId \<Longrightarrow> act_keeps (seen runId J) (materialize t parent wt base policy)"
  unfolding act_keeps_def
proof (intro allI impI)
  fix s :: "'a coding_state_scheme" assume calm: "calm t runId" and J: "seen runId J s"
  let ?ms = "po_gitTimeoutMs policy"
  obtain r s1 where d: "collectDiff (rt_tools t) (slash_path parent) base ?ms s = (r, s1)"
    by (cases "collectDiff (rt_tools t) (slash_path parent) base ?ms s")
  have J1: "seen runId J s1" using act_keepsD[OF seen_collectDiff[OF calm] J d] .
  have J2: "on_fs m s1 = (x, s2) \<Longrightarrow> seen runId J s2" for m :: "(fs, fs_error, unit) act" and x s2
    using act_keepsD[OF seen_on_fs J1] .
  have reset: "seen runId J s2 \<Longrightarrow> seen runId J (snd (act_bind (resetWorktreeToBase (rt_tools t) c base ?ms) (\<lambda>_. act_return x) s2))" for c x s2
    unfolding resetWorktreeToBase_def by (intro act_keeps_snd[of "seen runId J"] act_inv_rules seen_reset_step calm)
  have "seen runId J (snd (materializeParentWork (rt_globs t) (rt_tools t) parent wt base policy ?ms s))"
    using d J1 by (auto simp: materializeParentWork_def Let_def intro!: reset dest: J2 split: prod.splits sum.splits)
  then show "seen runId J (snd (materialize t parent wt base policy s))"
    by (auto simp: materialize_def split: prod.splits sum.splits)
qed

lemma seen_ingest: "calm t runId \<Longrightarrow> act_keeps (seen runId J) (ingest t r)"
proof -
  assume calm: "calm t runId"
  have "act_keeps (seen runId J) (act_bind (check_lease r) (\<lambda>_. ext (rt_ingest t)))"
    using calm by (intro act_inv_rules seen_ext) (simp add: calm_def)
  then show ?thesis by (auto simp: act_keeps_def ingest_def split: prod.splits sum.splits)
qed

section \<open>A run in progress\<close>

definition OPEN_STATUSES :: "run_status set" where
  "OPEN_STATUSES = {R_running, R_generated, R_verified}"

definition open_view :: "nat \<Rightarrow> (run_status \<times> coding_meta) option \<times> nat option option \<times> coding_meta \<Rightarrow> bool" where
  "open_view lockId v \<longleftrightarrow> (\<exists>st old m. v = (Some (st, old), Some (Some lockId), m) \<and> st \<in> OPEN_STATUSES
     \<and> mt_status m \<in> OPEN_STATUSES \<and> mt_changeBudget m = None)"

lemma persist_open:
  assumes "calm t runId" "\<And>m. mt_status m \<in> OPEN_STATUSES \<Longrightarrow> mt_status (f m) \<in> OPEN_STATUSES"
    "\<And>m. mt_changeBudget (f m) = mt_changeBudget m"
  shows "act_keeps (seen runId (open_view lockId)) (persist t runId f)"
proof -
  let ?J = "seen runId (open_view lockId)"
  have meta: "act_keeps ?J (act_modify (\<lambda>s. s\<lparr>cs_meta := f (cs_meta s)\<rparr>))"
    using assms(2,3) by (auto simp: act_keeps_def act_modify_def seen_def open_view_def run_view_def)
  have row: "act_keeps ?J (act_modify (\<lambda>s. bumpRevision runId (on_row runId (updateRunRow (cs_meta s)) s)))"
    by (auto simp: act_keeps_def act_modify_def seen_def open_view_def view_update_row) (auto simp: run_view_def)
  have export: "act_keeps ?J (act_modify (rt_export t))"
    using assms(1) by (intro seen_modify) (simp add: calm_def)
  show ?thesis unfolding persist_def commitThenExport_def by (intro act_inv_rules meta row export)
qed

lemma open_setStatus: "calm t runId \<Longrightarrow> st \<in> OPEN_STATUSES \<Longrightarrow> act_keeps (seen runId (open_view lockId)) (log_setStatus t runId st)"
  unfolding log_setStatus_def by (rule persist_open) simp_all

lemma open_setSafety: "calm t runId \<Longrightarrow> act_keeps (seen runId (open_view lockId)) (log_setSafetyStatus t runId st)"
  unfolding log_setSafetyStatus_def by (rule persist_open) simp_all

lemma seen_rule: "calm t runId \<Longrightarrow> act_keeps (seen runId J) (snapshotReviewRuleForRun t opts)"
proof -
  assume "calm t runId"
  then have "act_keeps (seen runId J) (ext (rt_ruleSnapshot t))" by (intro seen_ext) (simp add: calm_def)
  then show ?thesis by (auto simp: act_keeps_def snapshotReviewRuleForRun_def split: prod.splits sum.splits)
qed

lemma seen_workspace: "calm t runId \<Longrightarrow> act_keeps (seen runId J) (start_workspace t runId base)"
  unfolding start_workspace_def
  by (intro act_inv_rules seen_emit seen_artifact seen_modify seen_ext) (auto simp: calm_def)

lemma seen_continue: "calm t runId \<Longrightarrow> act_keeps (seen runId J) (continue_parent t opts runId base policy wt)"
  unfolding continue_parent_def by (intro act_inv_rules seen_emit seen_materialize)

lemma open_agent: "calm t runId \<Longrightarrow> act_keeps (seen runId (open_view lockId)) (run_agent t runId wt prompt)"
  unfolding run_agent_def
  by (intro act_inv_rules seen_emit seen_artifact seen_sha seen_modify seen_ext open_setStatus)
    (auto simp: calm_def OPEN_STATUSES_def)

lemma seen_budget: "calm t runId \<Longrightarrow> act_keeps (seen runId J) (evaluateChangeBudget t runId b stat st)"
  unfolding evaluateChangeBudget_def Let_def by (intro act_inv_rules seen_emit)

lemma seen_pass: "calm t runId \<Longrightarrow> act_keeps (seen runId J) (validated_pass t runId wt base policy b st before)"
  unfolding validated_pass_def by (intro act_inv_rules seen_collect seen_emit seen_budget)

lemma open_command_pass: "calm t runId \<Longrightarrow> act_keeps (seen runId (open_view lockId)) (command_pass t runId wt base policy b codex first)"
  unfolding command_pass_def Let_def
  by (intro act_inv_rules seen_emit seen_ext seen_pass open_setStatus) (auto simp: calm_def OPEN_STATUSES_def)

lemma seen_view: "calm t runId \<Longrightarrow> act_keeps (seen runId J) (artifact_view t wt base policy pre)"
  unfolding artifact_view_def by (intro act_inv_rules seen_normalize seen_collect)

lemma seen_salvage:
  "calm t runId \<Longrightarrow> act_keeps (seen runId J) (buildPolicySalvage t wt base ms safety tracked violations ua ud patch)"
proof -
  assume calm: "calm t runId"
  have "act_keeps (seen runId J) (ext (collectTrackedPatchForPaths (rt_tools t) (slash_path wt) base ms ps))" for ps
  proof -
    have "act_keeps (seen runId J) (collectTrackedPatchForPaths (rt_tools t) (slash_path wt) base ms ps)"
      unfolding collectTrackedPatchForPaths_def by (intro act_inv_rules seen_gitCliOrThrow calm)
    then show ?thesis by (auto simp: act_keeps_def ext_def split: prod.splits sum.splits)
  qed
  then have "act_keeps (seen runId J) (allowed_patch t wt base ms ps patch)" for ps
    unfolding allowed_patch_def by (intro act_inv_rules seen_artifact calm)
  then have "seen runId J s \<Longrightarrow> allowed_patch t wt base ms ps patch s = (r, s') \<Longrightarrow> seen runId J s'" for ps s r s'
    by (rule act_keepsD)
  then show ?thesis
    by (auto simp: act_keeps_def buildPolicySalvage_def Let_def split: prod.splits sum.splits)
qed

lemma seen_untracked: "calm t runId \<Longrightarrow> act_keeps (seen runId J) (untracked_artifacts t runId wt ps)"
  unfolding untracked_artifacts_def by (intro act_inv_rules seen_artifact seen_emit seen_ext) (auto simp: calm_def)

lemma open_artifacts:
  "calm t runId \<Longrightarrow> act_keeps (seen runId (open_view lockId)) (writePolicyArtifacts t runId wt base ms safety tracked violations kept)"
  unfolding writePolicyArtifacts_def Let_def
  by (intro act_inv_rules open_setSafety seen_artifact seen_untracked seen_salvage seen_emit)

lemma seen_reviewed: "calm t runId \<Longrightarrow> act_keeps (seen runId J) (reviewed_of t runId wt dv pa st)"
  unfolding reviewed_of_def Let_def by (intro act_inv_rules seen_emit)

lemma seen_store: "act_keeps (seen runId J) (store_verification t runId dv vs pa st)"
  unfolding store_verification_def by (intro act_inv_rules seen_modify) simp_all

lemma seen_reports: "calm t runId \<Longrightarrow> act_keeps (seen runId J) (write_reports t)"
  unfolding write_reports_def by (intro act_inv_rules seen_artifact)

section \<open>How a run ends\<close>

text \<open>What holds of an operation's result and of the state behind its failure, from a state that satisfies \<open>P\<close>.\<close>

definition act_ends :: "('s \<Rightarrow> bool) \<Rightarrow> ('s, 'e, 'a) act \<Rightarrow> ('a \<Rightarrow> 's \<Rightarrow> bool) \<Rightarrow> ('s \<Rightarrow> bool) \<Rightarrow> bool" where
  "act_ends P m R E \<longleftrightarrow> (\<forall>s. P s \<longrightarrow> (case m s of (Inl _, s') \<Rightarrow> E s' | (Inr x, s') \<Rightarrow> R x s'))"

lemma act_endsI: "(\<And>s e s'. P s \<Longrightarrow> m s = (Inl e, s') \<Longrightarrow> E s') \<Longrightarrow> (\<And>s x s'. P s \<Longrightarrow> m s = (Inr x, s') \<Longrightarrow> R x s') \<Longrightarrow> act_ends P m R E"
  by (simp add: act_ends_def split: prod.split sum.split)

lemma act_ends_Inl: "act_ends P m R E \<Longrightarrow> P s \<Longrightarrow> m s = (Inl e, s') \<Longrightarrow> E s'"
  by (drule spec[of _ s, OF act_ends_def[THEN iffD1]]) simp

lemma act_ends_Inr: "act_ends P m R E \<Longrightarrow> P s \<Longrightarrow> m s = (Inr x, s') \<Longrightarrow> R x s'"
  by (drule spec[of _ s, OF act_ends_def[THEN iffD1]]) simp

lemma act_ends_bind:
  assumes m: "act_ends P m R E" and f: "\<And>x. act_ends (R x) (f x) S E"
  shows "act_ends P (act_bind m f) S E"
proof (rule act_endsI)
  fix s e s' assume P: "P s" and run: "act_bind m f s = (Inl e, s')"
  obtain r s1 where ms: "m s = (r, s1)" by (cases "m s")
  show "E s'"
  proof (cases r)
    case (Inl e') then show ?thesis using run ms act_ends_Inl[OF m P] by (simp add: act_bind_def)
  next
    case (Inr x)
    then have "f x s1 = (Inl e, s')" using run ms by (simp add: act_bind_def)
    then show ?thesis using act_ends_Inl[OF f] act_ends_Inr[OF m P] ms Inr by blast
  qed
next
  fix s y s' assume P: "P s" and run: "act_bind m f s = (Inr y, s')"
  obtain r s1 where ms: "m s = (r, s1)" by (cases "m s")
  show "S y s'"
  proof (cases r)
    case (Inl e') then show ?thesis using run ms by (simp add: act_bind_def)
  next
    case (Inr x)
    then have "f x s1 = (Inr y, s')" using run ms by (simp add: act_bind_def)
    then show ?thesis using act_ends_Inr[OF f] act_ends_Inr[OF m P] ms Inr by blast
  qed
qed

lemma act_ends_keeps: "act_keeps P m \<Longrightarrow> (\<And>s. P s \<Longrightarrow> E s) \<Longrightarrow> act_ends P m (\<lambda>_. P) E"
  by (rule act_endsI) (auto dest: act_keepsD)

lemma act_ends_step: "act_keeps P m \<Longrightarrow> (\<And>s. P s \<Longrightarrow> E s) \<Longrightarrow> (\<And>x. act_ends P (f x) S E) \<Longrightarrow> act_ends P (act_bind m f) S E"
  by (rule act_ends_bind[OF act_ends_keeps])

lemma act_ends_return: "(\<And>s. P s \<Longrightarrow> R x s) \<Longrightarrow> act_ends P (act_return x) R E"
  by (simp add: act_ends_def act_return_def)

lemma act_ends_get: "(\<And>x. act_ends P (f x) S E) \<Longrightarrow> act_ends P (act_bind (act_get g) f) S E"
  by (rule act_ends_bind[where R = "\<lambda>_. P"]) (simp_all add: act_ends_def act_get_def)

lemma act_ends_weaken:
  assumes "act_ends P m R E" "\<And>s. P' s \<Longrightarrow> P s" "\<And>x s. R x s \<Longrightarrow> R' x s" "\<And>s. E s \<Longrightarrow> E' s"
  shows "act_ends P' m R' E'"
  by (rule act_endsI) (auto intro: assms(2,3,4) act_ends_Inl[OF assms(1)] act_ends_Inr[OF assms(1)])

text \<open>The row is there and its lease column is still this run's.\<close>

definition kept_view :: "nat \<Rightarrow> (run_status \<times> coding_meta) option \<times> nat option option \<times> coding_meta \<Rightarrow> bool" where
  "kept_view lockId v \<longleftrightarrow> fst v \<noteq> None \<and> fst (snd v) = Some (Some lockId)"

lemma open_kept: "open_view lockId v \<Longrightarrow> kept_view lockId v"
  by (auto simp: open_view_def kept_view_def)

text \<open>What a run's own row says when the run has returned a result.\<close>

definition concluded ::
  "glob_matcher \<Rightarrow> resolved_policy \<Rightarrow> bool \<Rightarrow> nat \<Rightarrow> run_status \<Rightarrow> (run_status \<times> coding_meta) option \<times> nat option option \<times> coding_meta \<Rightarrow> bool" where
  "concluded mm policy honest lockId st v \<longleftrightarrow> st \<notin> OPEN_STATUSES \<and> fst (snd v) = Some (Some lockId) \<and>
     (\<exists>m. fst v = Some (st, m) \<and> mt_status m = st \<and> mt_finishedAt m \<noteq> None \<and>
       (st = R_needs_review \<longrightarrow> mt_safetyStatus m = Some Safety_allowed \<and> map_option bx_status (mt_changeBudget m) \<noteq> Some Exceeded
          \<and> (\<exists>rx. mt_reviewed m = Some rx \<and> (honest \<longrightarrow> (\<forall>p \<in> set (rx_paths rx). path_violation mm policy p = None)))))"

text \<open>
  Behind a failure inside the run, its row is there with its lease and is still open, or it says what the run had concluded.
\<close>

definition open_row :: "nat \<Rightarrow> (run_status \<times> coding_meta) option \<times> nat option option \<times> coding_meta \<Rightarrow> bool" where
  "open_row lockId v \<longleftrightarrow> fst (snd v) = Some (Some lockId) \<and> (\<exists>st m. fst v = Some (st, m) \<and> st \<in> OPEN_STATUSES)"

definition halted ::
  "glob_matcher \<Rightarrow> resolved_policy \<Rightarrow> bool \<Rightarrow> nat \<Rightarrow> (run_status \<times> coding_meta) option \<times> nat option option \<times> coding_meta \<Rightarrow> bool" where
  "halted mm policy honest lockId v \<longleftrightarrow> open_row lockId v \<or> (\<exists>st. concluded mm policy honest lockId st v)"

lemma open_open_row: "open_view lockId v \<Longrightarrow> open_row lockId v"
  by (auto simp: open_view_def open_row_def)

lemma open_halted: "open_view lockId v \<Longrightarrow> halted mm policy honest lockId v"
  by (simp add: halted_def open_open_row)

lemma halted_kept: "halted mm policy honest lockId v \<Longrightarrow> kept_view lockId v"
  by (auto simp: halted_def open_row_def concluded_def kept_view_def)

lemma halted_same: "fst v' = fst v \<Longrightarrow> fst (snd v') = fst (snd v) \<Longrightarrow> halted mm policy honest lockId v' = halted mm policy honest lockId v"
  by (simp add: halted_def open_row_def concluded_def)

lemma commit_run:
  assumes "calm t runId" "commitThenExport t runId write s = (r, s')"
  shows "(r = Inr () \<and> run_view runId s' = run_view runId (write s)) \<or> (\<exists>e. r = Inl e \<and> s' = s)"
  using assms by (auto simp: commitThenExport_def act_bind_def act_guard_def db_accepts_def act_modify_def check_lease_def calm_def
      split: prod.splits sum.splits if_splits)

lemma finalize_run:
  assumes "calm t runId" "log_finalize t runId p s = (r, s')"
  shows "(r = Inr () \<and> run_view runId s' = (map_option (\<lambda>_. (fi_status p, finalized_meta p (cs_meta s))) (fst (run_view runId s)),
       fst (snd (run_view runId s)), finalized_meta p (cs_meta s)))
     \<or> (\<exists>e. r = Inl e \<and> fst (run_view runId s') = fst (run_view runId s) \<and> fst (snd (run_view runId s')) = fst (snd (run_view runId s)))"
proof -
  let ?s1 = "s\<lparr>cs_meta := finalized_meta p (cs_meta s)\<rparr>"
  let ?w = "\<lambda>s. bumpRevision runId (on_row runId (updateRunRow (cs_meta s)) (writeCommandResults runId (fi_commandResults p) s))"
  have run: "commitThenExport t runId ?w ?s1 = (r, s')"
    using assms(2) by (simp add: log_finalize_def act_bind_def act_modify_def)
  have "run_view runId (?w ?s1) = (map_option (\<lambda>_. (fi_status p, finalized_meta p (cs_meta s))) (fst (run_view runId s)),
       fst (snd (run_view runId s)), finalized_meta p (cs_meta s))"
    by (simp add: view_update_row writeCommandResults_def) (simp add: run_view_def finalized_meta_def)
  then show ?thesis using commit_run[OF assms(1) run] by (auto simp: run_view_def)
qed

text \<open>The row says that the run ended with status \<open>st\<close>, and its metadata is what the run concluded.\<close>

definition finished_view ::
  "nat \<Rightarrow> run_status \<Rightarrow> safety_status \<Rightarrow> budget_outcome option \<Rightarrow> reviewed_surface option
     \<Rightarrow> (run_status \<times> coding_meta) option \<times> nat option option \<times> coding_meta \<Rightarrow> bool" where
  "finished_view lockId st safety budget reviewed v \<longleftrightarrow> fst (snd v) = Some (Some lockId) \<and>
     (\<exists>m. fst v = Some (st, m) \<and> mt_status m = st \<and> mt_safetyStatus m = Some safety \<and> mt_changeBudget m = budget
        \<and> (reviewed \<noteq> None \<longrightarrow> mt_reviewed m = reviewed) \<and> mt_finishedAt m \<noteq> None)"

lemma finished_kept: "finished_view lockId st sa b rv v \<Longrightarrow> kept_view lockId v"
  by (auto simp: finished_view_def kept_view_def)

lemma finalize_ends:
  assumes "calm t runId" "\<And>v. open_row lockId v \<Longrightarrow> E v"
  shows "act_ends (seen runId (open_view lockId)) (log_finalize t runId p)
    (\<lambda>_. seen runId (finished_view lockId (fi_status p) (fi_safetyStatus p) (fi_changeBudget p) (fi_reviewed p))) (seen runId E)"
  unfolding act_ends_def
proof (intro allI impI)
  fix s :: "'a coding_state_scheme" assume "seen runId (open_view lockId) s"
  then obtain st old m where v: "run_view runId s = (Some (st, old), Some (Some lockId), m)" and b: "mt_changeBudget m = None"
    and st: "st \<in> OPEN_STATUSES"
    by (auto simp: seen_def open_view_def)
  have m: "cs_meta s = m" using v by (simp add: run_view_def)
  obtain r s' where run: "log_finalize t runId p s = (r, s')" by (cases "log_finalize t runId p s")
  have still: "seen runId E s'" if "fst (run_view runId s') = fst (run_view runId s)" "fst (snd (run_view runId s')) = fst (snd (run_view runId s))"
    unfolding seen_def by (rule assms(2)) (use that v st in \<open>simp add: open_row_def\<close>)
  from finalize_run[OF assms(1) run]
  show "case log_finalize t runId p s of (Inl _, s') \<Rightarrow> seen runId E s'
      | (Inr _, s') \<Rightarrow> seen runId (finished_view lockId (fi_status p) (fi_safetyStatus p) (fi_changeBudget p) (fi_reviewed p)) s'"
    using run v m b still by (auto simp: seen_def finished_view_def finalized_meta_def coalesce_def split: option.splits)
qed

lemma finish_ends:
  assumes calm: "calm t runId"
  shows "act_ends (seen runId (open_view lockId)) (finish_run t runId codex pre dv pa reviewed pass)
    (\<lambda>r. seen runId (\<lambda>v. finished_view lockId (rr_status r) (dv_safetyStatus pre) (ps_budget pass) reviewed v
       \<and> rr_status r = final_status (do_ok (dv_diff dv)) codex (dv_safetyStatus pre) (ps_budget pass)))
    (seen runId (\<lambda>v. open_row lockId v \<or> finished_view lockId
       (final_status (do_ok (dv_diff dv)) codex (dv_safetyStatus pre) (ps_budget pass)) (dv_safetyStatus pre) (ps_budget pass) reviewed v))"
proof -
  let ?O = "seen runId (open_view lockId)"
  have optional: "act_keeps ?O (case x of None \<Rightarrow> act_return () | Some (n, b) \<Rightarrow> log_emit t runId (Ev_artifacts_ingested n b))" for x
    by (intro act_inv_rules seen_emit calm)
  show ?thesis unfolding finish_run_def Let_def
    by (intro act_ends_step[OF seen_reports] act_ends_step[OF seen_ingest] act_ends_step[OF optional] act_ends_get
        act_ends_bind[OF finalize_ends] act_ends_step[OF seen_emit] act_ends_return calm)
      (auto simp: seen_def intro: open_open_row)
qed

section \<open>What git shows of a worktree\<close>

text \<open>
  A reading of the git state of a worktree against a base: the paths that the index or the files change, and
  the untracked paths. It is taken from the files and from the part of the state outside the tables.
\<close>

record 'z git_reading =
  gr_changed :: "path \<Rightarrow> string \<Rightarrow> fs \<Rightarrow> 'z \<Rightarrow> string set"
  gr_untracked :: "path \<Rightarrow> fs \<Rightarrow> 'z \<Rightarrow> string set"

definition changed_in :: "'z git_reading \<Rightarrow> path \<Rightarrow> string \<Rightarrow> 'z coding_state_scheme \<Rightarrow> string set" where
  "changed_in g wt base s = gr_changed g wt base (fw_fs s) (coding_state.more s)"

definition untracked_in :: "'z git_reading \<Rightarrow> path \<Rightarrow> 'z coding_state_scheme \<Rightarrow> string set" where
  "untracked_in g wt s = gr_untracked g wt (fw_fs s) (coding_state.more s)"

definition reads_same :: "'z git_reading \<Rightarrow> 'z coding_state_scheme \<Rightarrow> 'z coding_state_scheme \<Rightarrow> bool" where
  "reads_same g s s' \<longleftrightarrow> (\<forall>wt base. changed_in g wt base s' = changed_in g wt base s) \<and> (\<forall>wt. untracked_in g wt s' = untracked_in g wt s)"

text \<open>
  What is relied on: the listings of \<open>git diff\<close>, its \<open>--cached\<close> form and \<open>git ls-files --others\<close> are those of the
  state; reading, and writing the exported files of a run, changes nothing in a worktree; and \<open>git reset --mixed\<close> to the
  base moves changed paths to the untracked ones at most, as it leaves the files alone.
\<close>

definition honest_git :: "'z git_reading \<Rightarrow> 'z coding_state_scheme run_tools \<Rightarrow> bool" where
  "honest_git g t \<longleftrightarrow>
     (\<forall>wt base ms s d s'. collectDiff (rt_tools t) (slash_path wt) base ms s = (Inr d, s') \<longrightarrow>
        set (df_trackedChangedPaths d) \<subseteq> changed_in g wt base s
        \<and> changed_in g wt base s \<subseteq> set (df_trackedChangedPaths d) \<union> set (df_stagedChangedPaths d)
        \<and> set (df_untrackedPaths d) = untracked_in g wt s \<and> reads_same g s s')
     \<and> (\<forall>wt p s. reads_same g s (snd (tl_probe (rt_tools t) wt p s)))
     \<and> (\<forall>s. reads_same g s (rt_export t s))
     \<and> (\<forall>wt base ms s r s'. normalizeWorktreeIndexToBase (rt_tools t) (slash_path wt) base ms s = (Inr r, s') \<longrightarrow>
          changed_in g wt base s' \<subseteq> changed_in g wt base s
          \<and> untracked_in g wt s' \<subseteq> untracked_in g wt s \<union> changed_in g wt base s)"

text \<open>A collected diff names every changed and every untracked path of the state.\<close>

definition covers :: "'z git_reading \<Rightarrow> path \<Rightarrow> string \<Rightarrow> diff_and_validate \<Rightarrow> 'z coding_state_scheme \<Rightarrow> bool" where
  "covers g wt base dv s \<longleftrightarrow> (do_ok (dv_diff dv) \<longrightarrow>
     changed_in g wt base s \<subseteq> set (do_trackedChangedPaths (dv_diff dv)) \<union> set (do_stagedChangedPaths (dv_diff dv))
     \<and> untracked_in g wt s \<subseteq> set (do_untrackedAll (dv_diff dv)))"

lemma reads_same_refl [simp]: "reads_same g s s"
  by (simp add: reads_same_def)

lemma reads_same_trans: "reads_same g s s1 \<Longrightarrow> reads_same g s1 s2 \<Longrightarrow> reads_same g s s2"
  by (simp add: reads_same_def)

lemma covers_same: "reads_same g s s' \<Longrightarrow> covers g wt base dv s \<Longrightarrow> covers g wt base dv s'"
  by (simp add: reads_same_def covers_def)

lemma reads_same_writes:
  "reads_same g s (s\<lparr>cs_rows := a\<rparr>)" "reads_same g s (s\<lparr>cs_events := b\<rparr>)" "reads_same g s (s\<lparr>cs_meta := m\<rparr>)"
  by (simp_all add: reads_same_def changed_in_def untracked_in_def)

lemma covers_emit:
  fixes t :: "'z coding_state_scheme run_tools"
  assumes "honest_git g t"
  shows "act_keeps (covers g wt base dv) (log_emit t runId e)"
proof -
  have "reads_same g s (bumpRevision runId (appendEvent runId e s))" for s :: "'z coding_state_scheme"
    unfolding bumpRevision_def on_row_def appendEvent_def by (rule reads_same_trans[OF reads_same_writes(2) reads_same_writes(1)])
  then have w: "act_keeps (covers g wt base dv) (act_modify (\<lambda>s. bumpRevision runId (appendEvent runId e s)))"
    by (intro act_keeps_modify) (rule covers_same)
  have x: "act_keeps (covers g wt base dv) (act_modify (rt_export t))"
    using assms by (intro act_keeps_modify) (auto simp: honest_git_def intro: covers_same)
  show ?thesis unfolding log_emit_def commitThenExport_def by (intro act_inv_rules w x)
qed

lemma covers_budget: "honest_git g t \<Longrightarrow> act_keeps (covers g wt base dv) (evaluateChangeBudget t runId b stat st)"
  unfolding evaluateChangeBudget_def Let_def by (auto intro!: act_inv_rules covers_emit split: prod.split)

text \<open>The verdict of a collected diff.\<close>

definition verdict :: "glob_matcher \<Rightarrow> resolved_policy \<Rightarrow> diff_and_validate \<Rightarrow> bool" where
  "verdict mm policy dv \<longleftrightarrow>
     set (dv_untrackedKept dv) = set (fst (partitionUntracked mm (do_untrackedAll (dv_diff dv)) (po_ignoreUntracked policy)))
     \<and> (do_ok (dv_diff dv) \<longrightarrow> dv_safetyStatus dv = Safety_denied \<or>
          (dv_safetyStatus dv = Safety_allowed \<and> (\<forall>p \<in> set (do_trackedChangedPaths (dv_diff dv)) \<union> set (do_stagedChangedPaths (dv_diff dv))
            \<union> set (dv_untrackedKept dv). path_violation mm policy p = None)))"

lemma diffAndValidate_verdict: "diffAndValidate mm tools wt base ms policy w = (Inr dv, w') \<Longrightarrow> verdict mm policy dv"
  by (erule diffAndValidate_ok) (auto simp: verdict_def list_all_iff prod_eq_iff split: if_splits)

lemma reads_untracked_lines: "honest_git g t \<Longrightarrow> reads_same g s (snd (untracked_lines (rt_tools t) wt ps s))"
proof -
  assume h: "honest_git g t"
  have probe: "act_keeps (reads_same g s0) (tl_probe (rt_tools t) wt p)" for s0 p
    using h by (auto simp: act_keeps_def honest_git_def intro: reads_same_trans)
  have "act_keeps (reads_same g s) (untracked_lines (rt_tools t) wt ps)"
    by (induction ps) (auto intro!: act_inv_rules probe)
  then show ?thesis by (rule act_keeps_snd) simp
qed

lemma collect_covers:
  assumes h: "honest_git g t" and run: "collect t wt base policy s = (Inr dv, s')"
  shows "covers g wt base dv s'"
proof -
  let ?ms = "po_gitTimeoutMs policy" and ?wt = "slash_path wt"
  have dv: "diffAndValidate (rt_globs t) (rt_tools t) ?wt base ?ms policy s = (Inr dv, s')"
    using run by (auto simp: collect_def ext_def split: prod.splits sum.splits)
  obtain d s1 where d: "attemptDiff (rt_tools t) ?wt base ?ms s = (d, s1)" by (cases "attemptDiff (rt_tools t) ?wt base ?ms s")
  have diff: "dv_diff dv = d" using dv by (elim diffAndValidate_ok) (simp add: d)
  show ?thesis
  proof (cases "do_ok d")
    case True
    then obtain r where r: "collectDiff (rt_tools t) ?wt base ?ms s = (Inr r, s1)"
      and t: "do_trackedChangedPaths d = df_trackedChangedPaths r" "do_stagedChangedPaths d = df_stagedChangedPaths r"
        "do_untrackedAll d = df_untrackedPaths r"
      using d by (auto simp: attemptDiff_def do_ok_def split: prod.splits sum.splits)
    from h r have "changed_in g wt base s \<subseteq> set (df_trackedChangedPaths r) \<union> set (df_stagedChangedPaths r)
        \<and> set (df_untrackedPaths r) = untracked_in g wt s \<and> reads_same g s s1"
      unfolding honest_git_def by blast
    then have c1: "covers g wt base dv s1" by (simp add: covers_def diff t reads_same_def)
    have "act_keeps (reads_same g s1) (statWithAllowedUntracked (rt_tools t) ?wt st ps)" for st ps
      using reads_untracked_lines[OF h] unfolding statWithAllowedUntracked_def
      by (intro act_inv_rules) (auto simp: act_keeps_def intro: reads_same_trans)
    then have k: "act_keeps (reads_same g s1) (act_bind (statWithAllowedUntracked (rt_tools t) ?wt st ps) (\<lambda>b. act_return (f b)))" for st ps and f :: "diff_stat \<Rightarrow> diff_and_validate"
      by (intro act_inv_rules)
    have "reads_same g s1 (snd (diffAndValidate (rt_globs t) (rt_tools t) ?wt base ?ms policy s))"
      unfolding diffAndValidate_def Let_def d
      by (auto intro: act_keeps_snd[OF k] split: prod.splits option.splits)
    then show ?thesis using covers_same[OF _ c1] dv by simp
  qed (simp add: covers_def diff)
qed

lemma collect_verdict: "collect t wt base policy s = (Inr dv, s') \<Longrightarrow> verdict (rt_globs t) policy dv"
  by (auto simp: collect_def ext_def intro: diffAndValidate_verdict split: prod.splits sum.splits)

text \<open>What is known in the middle of a run that has collected \<open>dv\<close>.\<close>

definition midway ::
  "'z git_reading \<Rightarrow> 'z coding_state_scheme run_tools \<Rightarrow> string \<Rightarrow> nat \<Rightarrow> path \<Rightarrow> string \<Rightarrow> resolved_policy \<Rightarrow> diff_and_validate
     \<Rightarrow> 'z coding_state_scheme \<Rightarrow> bool" where
  "midway g t runId lockId wt base policy dv s \<longleftrightarrow>
     seen runId (open_view lockId) s \<and> verdict (rt_globs t) policy dv \<and> (honest_git g t \<longrightarrow> covers g wt base dv s)"

lemma midway_keeps:
  assumes "act_keeps (seen runId (open_view lockId)) m" "honest_git g t \<Longrightarrow> act_keeps (covers g wt base dv) m"
  shows "act_keeps (midway g t runId lockId wt base policy dv) m"
  using assms unfolding act_keeps_def midway_def by blast

lemma midway_halted: "midway g t runId lockId wt base policy dv s \<Longrightarrow> seen runId (halted mm pol h lockId) s"
  by (auto simp: midway_def seen_def intro: open_halted)

lemma midway_emit: "calm t runId \<Longrightarrow> act_keeps (midway g t runId lockId wt base policy dv) (log_emit t runId e)"
  by (intro midway_keeps seen_emit covers_emit)

lemma midway_budget: "calm t runId \<Longrightarrow> act_keeps (midway g t runId lockId wt base policy dv) (evaluateChangeBudget t runId b stat st)"
  by (intro midway_keeps seen_budget covers_budget)

lemma collect_ends:
  assumes "calm t runId"
  shows "act_ends (seen runId (open_view lockId)) (collect t wt base policy) (midway g t runId lockId wt base policy) (seen runId (halted mm pol h lockId))"
proof (rule act_endsI)
  fix s e s' assume s: "seen runId (open_view lockId) s" and run: "collect t wt base policy s = (Inl e, s')"
  show "seen runId (halted mm pol h lockId) s'" using act_keepsD[OF seen_collect[OF assms] s run] by (auto simp: seen_def intro: open_halted)
next
  fix s dv s' assume s: "seen runId (open_view lockId) s" and run: "collect t wt base policy s = (Inr dv, s')"
  show "midway g t runId lockId wt base policy dv s'"
    using act_keepsD[OF seen_collect[OF assms] s run] collect_covers[OF _ run] collect_verdict[OF run] by (simp add: midway_def)
qed

lemma act_ends_option:
  "act_ends P m R E \<Longrightarrow> (\<And>x. act_ends P (f x) R E) \<Longrightarrow> act_ends P (case opt of None \<Rightarrow> m | Some x \<Rightarrow> f x) R E"
  by (cases opt) auto

lemma pass_ends:
  assumes "calm t runId"
  shows "act_ends (seen runId (open_view lockId)) (validated_pass t runId wt base policy b st before)
    (\<lambda>first. midway g t runId lockId wt base policy (fst first)) (seen runId (halted mm pol h lockId))"
  unfolding validated_pass_def
  by (intro act_ends_bind[OF collect_ends] act_ends_step[OF midway_emit] act_ends_option act_ends_step[OF midway_budget] act_ends_return assms)
    (auto dest: midway_halted)

lemma command_pass_ends:
  assumes "calm t runId"
  shows "act_ends (midway g t runId lockId wt base policy (fst first)) (command_pass t runId wt base policy b codex first)
    (\<lambda>ps. midway g t runId lockId wt base policy (ps_dv ps)) (seen runId (halted mm pol h lockId))"
proof (cases "may_run_commands policy codex (fst first) (snd first)")
  case False
  then show ?thesis unfolding command_pass_def
    by (simp add: split_beta) (rule act_ends_return, simp)
next
  case True
  have cmds: "act_keeps (seen runId (open_view lockId)) (ext (rt_commands t wt cs))" for cs
    using assms by (intro seen_ext) (simp add: calm_def)
  have verified: "R_verified \<in> OPEN_STATUSES" by (simp add: OPEN_STATUSES_def)
  have body: "act_ends (seen runId (open_view lockId)) (command_pass t runId wt base policy b codex first)
    (\<lambda>ps. midway g t runId lockId wt base policy (ps_dv ps)) (seen runId (halted mm pol h lockId))"
    using True unfolding command_pass_def split_beta Let_def
    by simp (intro act_ends_step[OF open_setStatus] act_ends_step[OF seen_emit] act_ends_step[OF cmds]
        act_ends_bind[OF pass_ends[where g = g]] assms verified; auto simp: seen_def intro: open_halted act_ends_return)
  show ?thesis by (rule act_ends_weaken[OF body]) (auto simp: midway_def)
qed

lemma collect_sound:
  assumes h: "honest_git g t" and run: "collect t wt base policy s = (Inr dv, s')" and ok: "do_ok (dv_diff dv)"
  shows "set (do_trackedChangedPaths (dv_diff dv)) \<subseteq> changed_in g wt base s \<and> set (do_untrackedAll (dv_diff dv)) = untracked_in g wt s"
proof -
  let ?ms = "po_gitTimeoutMs policy" and ?wt = "slash_path wt"
  have dv: "diffAndValidate (rt_globs t) (rt_tools t) ?wt base ?ms policy s = (Inr dv, s')"
    using run by (auto simp: collect_def ext_def split: prod.splits sum.splits)
  obtain d s1 where d: "attemptDiff (rt_tools t) ?wt base ?ms s = (d, s1)" by (cases "attemptDiff (rt_tools t) ?wt base ?ms s")
  have diff: "dv_diff dv = d" using dv by (elim diffAndValidate_ok) (simp add: d)
  have "do_ok d" using ok diff by simp
  then obtain r where r: "collectDiff (rt_tools t) ?wt base ?ms s = (Inr r, s1)"
    and t: "do_trackedChangedPaths d = df_trackedChangedPaths r" "do_untrackedAll d = df_untrackedPaths r"
    using d by (auto simp: attemptDiff_def do_ok_def split: prod.splits sum.splits)
  from h r have "set (df_trackedChangedPaths r) \<subseteq> changed_in g wt base s"
    "set (df_untrackedPaths r) = untracked_in g wt s"
    by (auto simp: honest_git_def)
  then show ?thesis by (simp add: diff t)
qed

text \<open>The diff collected behind the normalization shows nothing that the validated diff did not show.\<close>

definition nothing_new ::
  "'z git_reading \<Rightarrow> 'z coding_state_scheme run_tools \<Rightarrow> resolved_policy \<Rightarrow> diff_and_validate \<Rightarrow> diff_and_validate \<Rightarrow> bool" where
  "nothing_new g t policy pre dv \<longleftrightarrow> verdict (rt_globs t) policy pre \<and> (do_ok (dv_diff dv) \<longrightarrow> do_ok (dv_diff pre)
     \<and> (honest_git g t \<longrightarrow> set (do_trackedChangedPaths (dv_diff dv)) \<union> set (dv_untrackedKept dv) \<subseteq>
         set (do_trackedChangedPaths (dv_diff pre)) \<union> set (do_stagedChangedPaths (dv_diff pre)) \<union> set (dv_untrackedKept pre)))"

lemma kept_mono: "p \<in> set (fst (partitionUntracked mm xs globs)) \<Longrightarrow> p \<in> set ys \<Longrightarrow> p \<in> set (fst (partitionUntracked mm ys globs))"
  by (auto simp: partitionUntracked_def split: if_splits)

lemma kept_subset: "p \<in> set (fst (partitionUntracked mm xs globs)) \<Longrightarrow> p \<in> set xs"
  by (auto simp: partitionUntracked_def split: if_splits)

lemma view_nothing_new:
  assumes mid: "midway g t runId lockId wt base policy pre s" and ok: "do_ok (dv_diff pre)"
    and norm: "normalize_index t wt base (po_gitTimeoutMs policy) s = (Inr u, s1)"
    and run: "collect t wt base policy s1 = (Inr dv, s2)"
  shows "nothing_new g t policy pre dv"
proof -
  have pre: "verdict (rt_globs t) policy pre" using mid by (simp add: midway_def)
  have "p \<in> set (do_trackedChangedPaths (dv_diff pre)) \<union> set (do_stagedChangedPaths (dv_diff pre)) \<union> set (dv_untrackedKept pre)"
    if h: "honest_git g t" and dv: "do_ok (dv_diff dv)"
      and p: "p \<in> set (do_trackedChangedPaths (dv_diff dv)) \<union> set (dv_untrackedKept dv)" for p
  proof -
    have n: "normalizeWorktreeIndexToBase (rt_tools t) (slash_path wt) base (po_gitTimeoutMs policy) s = (Inr u, s1)"
      using norm by (auto simp: normalize_index_def split: prod.splits sum.splits)
    have moved: "changed_in g wt base s1 \<subseteq> changed_in g wt base s
        \<and> untracked_in g wt s1 \<subseteq> untracked_in g wt s \<union> changed_in g wt base s"
      using h n unfolding honest_git_def by blast
    have cov: "changed_in g wt base s \<subseteq> set (do_trackedChangedPaths (dv_diff pre)) \<union> set (do_stagedChangedPaths (dv_diff pre))"
      "untracked_in g wt s \<subseteq> set (do_untrackedAll (dv_diff pre))"
      using mid h ok by (auto simp: midway_def covers_def)
    note new = collect_sound[OF h run dv]
    show ?thesis
    proof (cases "p \<in> set (do_trackedChangedPaths (dv_diff dv))")
      case True then show ?thesis using new moved cov(1) by blast
    next
      case False
      then have k: "p \<in> set (fst (partitionUntracked (rt_globs t) (do_untrackedAll (dv_diff dv)) (po_ignoreUntracked policy)))"
        using p collect_verdict[OF run] by (simp add: verdict_def)
      then have "p \<in> untracked_in g wt s1" using kept_subset new by blast
      then show ?thesis using moved cov kept_mono[OF k, of "do_untrackedAll (dv_diff pre)"] pre by (auto simp: verdict_def)
    qed
  qed
  then show ?thesis using pre ok by (auto simp: nothing_new_def)
qed

lemma artifact_view_ends:
  assumes calm: "calm t runId"
  shows "act_ends (midway g t runId lockId wt base policy pre) (artifact_view t wt base policy pre)
    (\<lambda>dv s. seen runId (open_view lockId) s \<and> nothing_new g t policy pre dv) (seen runId (halted mm pol h lockId))"
proof (rule act_endsI)
  fix s e s' assume mid: "midway g t runId lockId wt base policy pre s" and run: "artifact_view t wt base policy pre s = (Inl e, s')"
  then have "seen runId (open_view lockId) s'" using act_keepsD[OF seen_view[OF calm] _ run] by (simp add: midway_def)
  then show "seen runId (halted mm pol h lockId) s'" by (auto simp: seen_def intro: open_halted)
next
  fix s dv s' assume mid: "midway g t runId lockId wt base policy pre s" and run: "artifact_view t wt base policy pre s = (Inr dv, s')"
  have seen: "seen runId (open_view lockId) s'" using act_keepsD[OF seen_view[OF calm] _ run] mid by (simp add: midway_def)
  have "nothing_new g t policy pre dv"
  proof (cases "do_ok (dv_diff pre)")
    case True
    then obtain u s1 where "normalize_index t wt base (po_gitTimeoutMs policy) s = (Inr u, s1)" "collect t wt base policy s1 = (Inr dv, s')"
      using run by (auto simp: artifact_view_def act_bind_Inr)
    then show ?thesis by (rule view_nothing_new[OF mid True])
  next
    case False
    then show ?thesis using run mid by (auto simp: artifact_view_def act_return_def nothing_new_def midway_def)
  qed
  then show "seen runId (open_view lockId) s' \<and> nothing_new g t policy pre dv" using seen by simp
qed

lemma artifacts_ends:
  assumes calm: "calm t runId"
  shows "act_ends (seen runId (open_view lockId)) (writePolicyArtifacts t runId wt base ms safety tracked violations kept)
    (\<lambda>pa s. seen runId (open_view lockId) s \<and> set (pa_untrackedAllowed pa) \<subseteq> set kept) (seen runId (halted mm pol h lockId))"
proof (rule act_endsI)
  fix s e s' assume s: "seen runId (open_view lockId) s"
    and run: "writePolicyArtifacts t runId wt base ms safety tracked violations kept s = (Inl e, s')"
  show "seen runId (halted mm pol h lockId) s'"
    using act_keepsD[OF open_artifacts[OF calm] s run] by (auto simp: seen_def intro: open_halted)
next
  fix s pa s' assume s: "seen runId (open_view lockId) s"
    and run: "writePolicyArtifacts t runId wt base ms safety tracked violations kept s = (Inr pa, s')"
  have "pa_untrackedAllowed pa = filter (\<lambda>p. p \<notin> vi_path ` set violations) kept"
    using run by (auto simp: writePolicyArtifacts_def Let_def act_bind_Inr act_return_def split: prod.splits)
  then show "seen runId (open_view lockId) s' \<and> set (pa_untrackedAllowed pa) \<subseteq> set kept"
    using act_keepsD[OF open_artifacts[OF calm] s run] by auto
qed

lemma reviewed_ends:
  assumes calm: "calm t runId"
  shows "act_ends (seen runId (open_view lockId)) (reviewed_of t runId wt dv pa st)
    (\<lambda>rv s. seen runId (open_view lockId) s \<and> (do_ok (dv_diff dv) \<longrightarrow>
       map_option rx_paths rv = Some (do_trackedChangedPaths (dv_diff dv) @ pa_untrackedAllowed pa))) (seen runId (halted mm pol h lockId))"
proof (rule act_endsI)
  fix s e s' assume s: "seen runId (open_view lockId) s" and run: "reviewed_of t runId wt dv pa st s = (Inl e, s')"
  show "seen runId (halted mm pol h lockId) s'"
    using act_keepsD[OF seen_reviewed[OF calm] s run] by (auto simp: seen_def intro: open_halted)
next
  fix s rv s' assume s: "seen runId (open_view lockId) s" and run: "reviewed_of t runId wt dv pa st s = (Inr rv, s')"
  show "seen runId (open_view lockId) s' \<and> (do_ok (dv_diff dv) \<longrightarrow>
       map_option rx_paths rv = Some (do_trackedChangedPaths (dv_diff dv) @ pa_untrackedAllowed pa))"
    using act_keepsD[OF seen_reviewed[OF calm] s run] run
    by (auto simp: reviewed_of_def Let_def act_bind_Inr act_return_def)
qed

lemma final_status_needs_review:
  "final_status ok codex safety budget = R_needs_review \<longleftrightarrow> ok \<and> \<not> cx_timedOut codex \<and> cx_exitCode codex = 0
     \<and> safety \<noteq> Safety_denied \<and> map_option bx_status budget \<noteq> Some Exceeded"
  by (simp add: final_status_def)

lemma final_status_closed: "final_status ok codex safety budget \<notin> OPEN_STATUSES"
  by (simp add: final_status_def OPEN_STATUSES_def)

lemma concluded_finish:
  assumes new: "nothing_new g t policy pre dv" and pa: "set (pa_untrackedAllowed pa) \<subseteq> set (dv_untrackedKept dv)"
    and rv: "do_ok (dv_diff dv) \<Longrightarrow> map_option rx_paths reviewed = Some (do_trackedChangedPaths (dv_diff dv) @ pa_untrackedAllowed pa)"
    and fin: "finished_view lockId st (dv_safetyStatus pre) budget reviewed v"
    and st: "st = final_status (do_ok (dv_diff dv)) codex (dv_safetyStatus pre) budget"
  shows "concluded (rt_globs t) policy (honest_git g t) lockId st v"
proof -
  obtain m where m: "fst v = Some (st, m)" "mt_status m = st" "mt_safetyStatus m = Some (dv_safetyStatus pre)"
    "mt_changeBudget m = budget" "reviewed \<noteq> None \<Longrightarrow> mt_reviewed m = reviewed" "mt_finishedAt m \<noteq> None" "fst (snd v) = Some (Some lockId)"
    using fin by (auto simp: finished_view_def)
  have "mt_safetyStatus m = Some Safety_allowed \<and> map_option bx_status (mt_changeBudget m) \<noteq> Some Exceeded
      \<and> (\<exists>rx. mt_reviewed m = Some rx \<and> (honest_git g t \<longrightarrow> (\<forall>p \<in> set (rx_paths rx). path_violation (rt_globs t) policy p = None)))"
    if "st = R_needs_review"
  proof -
    have ok: "do_ok (dv_diff dv)" "dv_safetyStatus pre \<noteq> Safety_denied" "map_option bx_status budget \<noteq> Some Exceeded"
      using that st by (auto simp: final_status_needs_review)
    then have pre: "do_ok (dv_diff pre)" "verdict (rt_globs t) policy pre" using new by (auto simp: nothing_new_def)
    obtain rx where rx: "reviewed = Some rx" "rx_paths rx = do_trackedChangedPaths (dv_diff dv) @ pa_untrackedAllowed pa"
      using rv ok(1) by auto
    have "path_violation (rt_globs t) policy p = None" if h: "honest_git g t" and p: "p \<in> set (rx_paths rx)" for p
    proof -
      have "p \<in> set (do_trackedChangedPaths (dv_diff dv)) \<union> set (dv_untrackedKept dv)" using p rx pa by auto
      then have "p \<in> set (do_trackedChangedPaths (dv_diff pre)) \<union> set (do_stagedChangedPaths (dv_diff pre)) \<union> set (dv_untrackedKept pre)"
        using new ok(1) h unfolding nothing_new_def by blast
      then show ?thesis using pre ok(2) unfolding verdict_def by blast
    qed
    then show ?thesis using m rx pre ok by (auto simp: verdict_def)
  qed
  then show ?thesis unfolding concluded_def using m st final_status_closed by auto
qed

lemma act_ends_pure: "(F \<Longrightarrow> act_ends P m R E) \<Longrightarrow> act_ends (\<lambda>s. P s \<and> F) m R E"
  by (cases F) (auto simp: act_ends_def)

lemma finish_concludes:
  assumes calm: "calm t runId" and new: "nothing_new g t policy pre dv"
    and pa: "set (pa_untrackedAllowed pa) \<subseteq> set (dv_untrackedKept dv)"
    and rv: "do_ok (dv_diff dv) \<longrightarrow> map_option rx_paths reviewed = Some (do_trackedChangedPaths (dv_diff dv) @ pa_untrackedAllowed pa)"
  shows "act_ends (seen runId (open_view lockId))
      (act_bind (store_verification t runId dv vs pa st) (\<lambda>_. finish_run t runId codex pre dv pa reviewed pass))
    (\<lambda>r. seen runId (concluded (rt_globs t) policy (honest_git g t) lockId (rr_status r))) (seen runId (halted (rt_globs t) policy (honest_git g t) lockId))"
proof (rule act_ends_weaken[OF act_ends_step[OF seen_store _ finish_ends[OF calm]]])
  fix r s assume "seen runId (\<lambda>v. finished_view lockId (rr_status r) (dv_safetyStatus pre) (ps_budget pass) reviewed v
     \<and> rr_status r = final_status (do_ok (dv_diff dv)) codex (dv_safetyStatus pre) (ps_budget pass)) s"
  then show "seen runId (concluded (rt_globs t) policy (honest_git g t) lockId (rr_status r)) s"
    using concluded_finish[OF new pa rv[rule_format]] unfolding seen_def by blast
next
  fix s assume "seen runId (\<lambda>v. open_row lockId v \<or> finished_view lockId
       (final_status (do_ok (dv_diff dv)) codex (dv_safetyStatus pre) (ps_budget pass)) (dv_safetyStatus pre) (ps_budget pass) reviewed v) s"
  then show "seen runId (halted (rt_globs t) policy (honest_git g t) lockId) s"
    using concluded_finish[OF new pa rv[rule_format]] unfolding seen_def halted_def by blast
qed (auto simp: seen_def intro: open_open_row)

lemma inner_ends:
  fixes t :: "'z coding_state_scheme run_tools" and g :: "'z git_reading"
  assumes calm: "calm t runId"
  shows "act_ends (seen runId (open_view lockId)) (runDomainCodingInner t opts policy runId base)
    (\<lambda>r. seen runId (concluded (rt_globs t) policy (honest_git g t) lockId (rr_status r))) (seen runId (halted (rt_globs t) policy (honest_git g t) lockId))"
  unfolding runDomainCodingInner_def Let_def
  by (intro act_ends_step[OF seen_workspace] act_ends_step[OF seen_continue] act_ends_step[OF open_agent]
      act_ends_bind[OF pass_ends[where g = g]] act_ends_bind[OF command_pass_ends]
      act_ends_bind[OF artifact_view_ends[where g = g]] act_ends_bind[OF artifacts_ends] act_ends_bind[OF reviewed_ends]
      act_ends_pure finish_concludes calm)
    (auto simp: seen_def intro: open_halted)


section \<open>The failure path and the whole run\<close>

text \<open>
  A run that did not return a result: there is no row, or the row is in a final status, or the database has refused the forced write
  and the row is as \<open>C\<close> says.
\<close>

definition given_up :: "'z coding_state_scheme run_tools \<Rightarrow> string
    \<Rightarrow> ((run_status \<times> coding_meta) option \<times> nat option option \<times> coding_meta \<Rightarrow> bool) \<Rightarrow> 'z coding_state_scheme \<Rightarrow> bool" where
  "given_up t runId C s \<longleftrightarrow> (\<forall>st m. fst (run_view runId s) = Some (st, m) \<longrightarrow>
     st \<in> FORCE_TERMINAL \<or> (rt_dbRefuses t ''forceFailFinalize'' s \<and> C (run_view runId s)))"

lemma force_refused:
  "rt_dbRefuses t ''forceFailFinalize'' s \<Longrightarrow> snd (forceFailFinalize t runId stamp leaseLost lost s) = s"
  by (simp add: forceFailFinalize_def act_bind_def db_accepts_def act_guard_def)

lemma forced_given_up:
  assumes kept: "seen runId (kept_view lockId) s" and lost: "lost = None \<or> lost = Some lockId"
    and row_ok: "\<And>st m. fst (run_view runId s) = Some (st, m) \<Longrightarrow> st \<in> FORCE_TERMINAL \<or> C (run_view runId s)"
  shows "given_up t runId C (snd (forceFailFinalize t runId stamp leaseLost lost s))"
proof (cases "rt_dbRefuses t ''forceFailFinalize'' s")
  case True
  then show ?thesis using row_ok by (auto simp: force_refused given_up_def)
next
  case accepted: False
  obtain row where row: "tbl_get cw_runId runId (cs_rows s) = Some row" and lease: "map_of (ld_runLeases (cs_locks s)) runId = Some (Some lockId)"
    using kept by (auto simp: seen_def kept_view_def run_view_def)
  have pass: "\<not> (lost \<noteq> None \<and> Option.bind (map_of (ld_runLeases (cs_locks s)) runId) id \<noteq> lost)"
    using lease lost by auto
  note unfold = forceFailFinalize_def act_bind_def db_accepts_def act_guard_def act_modify_def given_up_def
  show ?thesis
  proof (cases "cw_status row \<in> FORCE_TERMINAL")
    case True
    then show ?thesis using row accepted by (simp add: unfold) (simp add: run_view_def)
  next
    case False
    have "R_failed_internal_error \<in> FORCE_TERMINAL" by (simp add: FORCE_TERMINAL_def)
    then show ?thesis using row pass False accepted
      by (simp add: unfold) (simp add: run_view_def on_row_def tbl_get_update_same)
  qed
qed

lemma fail_run_ends:
  assumes calm: "calm t runId" and start: "seen runId (halted mm policy h lockId) s"
  shows "given_up t runId (halted mm policy h lockId) (fail_run t runId lockId e s)"
proof -
  let ?lost = "is_lease_guard e" and ?H = "halted mm policy h lockId"
  define s1 where "s1 = swallow (log_emit t runId Ev_run_failed) s"
  define s2 where "s2 = (if ?lost then s1 else swallow (ingest t runId) s1)"
  define p where "p = \<lparr>fi_status = R_failed_internal_error, fi_safetyStatus = Safety_skipped,
     fi_ignoredUntrackedCount = 0, fi_secretSuspectCount = 0, fi_commandResults = [], fi_changedFilesCount = 0,
     fi_diffStat = None, fi_changeBudget = None, fi_policySalvage = None, fi_reviewed = None, fi_finishedAt = to_iso (cs_now s2)\<rparr>"
  obtain r s3 where s3: "log_finalize t runId p s2 = (r, s3)" by (cases "log_finalize t runId p s2")
  have h1: "seen runId ?H s1" unfolding s1_def swallow_def by (rule act_keeps_snd[OF seen_emit[OF calm] start])
  then have h2: "seen runId ?H s2"
    unfolding s2_def swallow_def using act_keeps_snd[OF seen_ingest[OF calm] h1] by simp
  then have k2: "seen runId (kept_view lockId) s2" unfolding seen_def by (rule halted_kept)
  have "seen runId (kept_view lockId) s3"
    using finalize_run[OF calm s3] k2 by (auto simp: seen_def kept_view_def)
  moreover have "st \<in> FORCE_TERMINAL \<or> ?H (run_view runId s3)" if "fst (run_view runId s3) = Some (st, m)" for st m
    using finalize_run[OF calm s3]
  proof
    assume "r = Inr () \<and> run_view runId s3 = (map_option (\<lambda>_. (fi_status p, finalized_meta p (cs_meta s2))) (fst (run_view runId s2)),
       fst (snd (run_view runId s2)), finalized_meta p (cs_meta s2))"
    then show ?thesis using that by (auto simp: p_def FORCE_TERMINAL_def)
  next
    assume "\<exists>e. r = Inl e \<and> fst (run_view runId s3) = fst (run_view runId s2) \<and> fst (snd (run_view runId s3)) = fst (snd (run_view runId s2))"
    then show ?thesis using h2 halted_same[of "run_view runId s3" "run_view runId s2"] by (auto simp: seen_def)
  qed
  ultimately have "given_up t runId ?H (snd (forceFailFinalize t runId (to_iso (cs_now s3)) ?lost (if ?lost then Some lockId else None) s3))"
    by (intro forced_given_up[of runId lockId]) auto
  then show ?thesis
    unfolding fail_run_def Let_def s1_def[symmetric] s2_def[symmetric] p_def[symmetric] by (simp add: swallow_def s3)
qed

lemma tracked_ends:
  assumes calm: "calm t runId"
  shows "act_ends (seen runId (open_view lockId)) (tracked_run t opts policy runId base lockId)
    (\<lambda>r. seen runId (concluded (rt_globs t) policy (honest_git g t) lockId (rr_status r))) (given_up t runId (halted (rt_globs t) policy (honest_git g t) lockId))"
proof -
  let ?m = "act_bind (snapshotReviewRuleForRun t opts) (\<lambda>_. runDomainCodingInner t opts policy runId base)"
  have m: "act_ends (seen runId (open_view lockId)) ?m
    (\<lambda>r. seen runId (concluded (rt_globs t) policy (honest_git g t) lockId (rr_status r))) (seen runId (halted (rt_globs t) policy (honest_git g t) lockId))"
    by (rule act_ends_step[OF seen_rule[OF calm] _ inner_ends[OF calm]]) (auto simp: seen_def intro: open_halted)
  show ?thesis
    by (rule act_endsI)
      (auto simp: tracked_run_def intro: fail_run_ends[OF calm] act_ends_Inl[OF m] act_ends_Inr[OF m] split: prod.splits sum.splits)
qed

text \<open>Before the row is there.\<close>

definition no_row :: "(run_status \<times> coding_meta) option \<times> nat option option \<times> coding_meta \<Rightarrow> bool" where
  "no_row v \<longleftrightarrow> fst v = None"

lemma no_row_given_up: "seen runId no_row s \<Longrightarrow> given_up t runId C s"
  by (simp add: no_row_def given_up_def seen_def)

lemma log_opens:
  fixes t :: "'z coding_state_scheme run_tools"
  assumes calm: "calm t runId"
  shows "act_ends (seen runId no_row) (createDbRunLog t runId (start_meta opts runId base) lockId)
    (\<lambda>_. seen runId (open_view lockId)) (given_up t runId C)"
proof -
  have dir: "act_keeps (seen runId no_row) (ext (rt_runDir t runId))" using calm by (intro seen_ext) (simp add: calm_def)
  have meta: "act_keeps (seen runId no_row) (act_modify (\<lambda>s :: 'z coding_state_scheme. s\<lparr>cs_meta := m\<rparr>))" for m
    by (auto simp: act_keeps_def act_modify_def seen_def no_row_def run_view_def)
  have set: "act_ends (seen runId no_row) (act_modify (\<lambda>s :: 'z coding_state_scheme. s\<lparr>cs_meta := m\<rparr>))
      (\<lambda>_ s. seen runId no_row s \<and> cs_meta s = m) (given_up t runId C)" for m
    using meta[of m] by (auto simp: act_ends_def act_keeps_def act_modify_def)
  have insert: "act_ends (\<lambda>s. seen runId no_row s \<and> cs_meta s = start_meta opts runId base)
      (insertRunRow t runId (start_meta opts runId base) lockId) (\<lambda>_ s :: 'z coding_state_scheme. seen runId (open_view lockId) s) (given_up t runId C)"
    by (rule act_endsI)
      (auto simp: insertRunRow_def act_bind_def act_guard_def db_accepts_def act_modify_def seen_def no_row_def given_up_def run_view_def
        open_view_def tbl_get_append start_meta_def OPEN_STATUSES_def split: if_splits)
  have export: "act_ends (seen runId (open_view lockId)) (act_modify (rt_export t)) (\<lambda>_. seen runId (open_view lockId)) (given_up t runId C)"
    using calm by (auto simp: act_ends_def act_modify_def seen_def calm_def)
  show ?thesis unfolding createDbRunLog_def
    by (intro act_ends_step[OF dir] act_ends_bind[OF set] act_ends_bind[OF insert] export) (auto intro: no_row_given_up)
qed


lemma seen_rev: "calm t runId \<Longrightarrow> act_keeps (seen runId J) (revParseCommit (rt_tools t) cwd ref)"
  unfolding revParseCommit_def by (intro act_inv_rules seen_git)

lemma seen_first: "calm t runId \<Longrightarrow> act_keeps (seen runId J) (first_commit (rt_tools t) cwd refs msg)"
  by (induction refs) (auto intro!: act_inv_rules seen_rev)

lemma seen_fetch: "calm t runId \<Longrightarrow> seen runId J s \<Longrightarrow> seen runId J (snd (fetch_base (rt_tools t) cwd b s))"
  unfolding fetch_base_def by (auto dest: act_keepsD[OF seen_git] split: prod.splits sum.splits)

lemma seen_resolve: "calm t runId \<Longrightarrow> act_keeps (seen runId J) (resolveBaseSha (rt_tools t) repo base fetch)"
  unfolding act_keeps_def
proof (intro allI impI)
  fix s :: "'a coding_state_scheme" assume calm: "calm t runId" and J: "seen runId J s"
  obtain ok s1 where f: "(if fetch then fetch_base (rt_tools t) repo base s else (False, s)) = (ok, s1)"
    by (cases "if fetch then fetch_base (rt_tools t) repo base s else (False, s)")
  have "seen runId J s1" using f J seen_fetch[OF calm J, of repo base] by (auto split: if_splits)
  then show "seen runId J (snd (resolveBaseSha (rt_tools t) repo base fetch s))"
    using J unfolding resolveBaseSha_def f
    by (simp add: act_keeps_snd[OF seen_first[OF calm]] Let_def del: first_commit.simps)
qed

lemma seen_base: "calm t runId \<Longrightarrow> act_keeps (seen runId J) (ext (resolveBaseSha (rt_tools t) repo base fetch))"
  using seen_resolve[of t runId J repo base fetch]
  by (auto simp: act_keeps_def ext_def split: prod.splits sum.splits)

lemma seen_gate: "act_keeps I (duplicate_gate opts)"
  by (auto simp: act_keeps_def duplicate_gate_def split: option.splits)

lemma locked_ends:
  assumes calm: "calm t runId"
  shows "act_ends (seen runId no_row) (locked_run t opts policy runId lockId)
    (\<lambda>r. seen runId (concluded (rt_globs t) policy (honest_git g t) lockId (rr_status r))) (given_up t runId (halted (rt_globs t) policy (honest_git g t) lockId))"
proof -
  have base: "act_keeps (seen runId no_row) (run_base t opts)"
    unfolding run_base_def by (intro act_inv_rules seen_base calm)
  have snap: "act_keeps (seen runId no_row) (ext (rt_policySnapshot t))" using calm by (intro seen_ext) (simp add: calm_def)
  show ?thesis unfolding locked_run_def
    by (intro act_ends_step[OF seen_gate] act_ends_step[OF base] act_ends_step[OF snap] act_ends_bind[OF log_opens] tracked_ends calm)
      (auto intro: no_row_given_up)
qed

lemma on_locks_rows: "cs_rows (snd (on_locks m s)) = cs_rows s"
  by (simp add: on_locks_def split: prod.splits sum.splits)

lemma on_locks_only: "snd (on_locks m s) = s\<lparr>cs_locks := snd (m (cs_locks s))\<rparr>"
  by (simp add: on_locks_def split: prod.splits sum.splits)

lemma row_view: "fst (run_view runId s) = map_option (\<lambda>r. (cw_status r, cw_meta r)) (tbl_get cw_runId runId (cs_rows s))"
  by (simp add: run_view_def)

text \<open>A run as a whole, from a state without its row.\<close>

lemma run_ends:
  fixes t :: "'z coding_state_scheme run_tools" and g :: "'z git_reading"
  assumes calm: "calm t runId" and fresh: "tbl_get cw_runId runId (cs_rows s) = None"
    and run: "runDomainCoding t opts global repo runId recorded lease s = (res, s')"
  shows "case res of
      Inl _ \<Rightarrow> tbl_get cw_runId runId (cs_rows s') = None
        \<or> (\<exists>l policy lockId. resolvePolicy global repo (on_domain opts) = Inr policy
             \<and> given_up t runId (halted (rt_globs t) policy (honest_git g t) lockId) (s'\<lparr>cs_locks := l\<rparr>))
    | Inr r \<Rightarrow> (\<exists>policy lockId (s1 :: 'z coding_state_scheme). resolvePolicy global repo (on_domain opts) = Inr policy
        \<and> fst (run_view runId s') = fst (run_view runId s1)
        \<and> seen runId (concluded (rt_globs t) policy (honest_git g t) lockId (rr_status r)) s1)"
proof (cases "resolvePolicy global repo (on_domain opts)")
  case (Inl e)
  then show ?thesis using run fresh by (auto simp: runDomainCoding_def)
next
  case (Inr policy)
  note pol = this
  let ?acq = "act_bind (ext (rt_open t)) (\<lambda>_. \<lambda>s1. on_locks (acquireDomainLock lease (run_lock opts runId) (cs_now s1) recorded) s1)"
  have "act_keeps (seen runId no_row) (ext (rt_open t))" using calm by (intro seen_ext) (simp add: calm_def)
  moreover have "act_keeps (seen runId no_row) (\<lambda>s1. on_locks (acquireDomainLock lease (run_lock opts runId) (cs_now s1) recorded) s1)"
    by (auto simp: act_keeps_def seen_def no_row_def row_view on_locks_rows)
  ultimately have acq: "act_keeps (seen runId no_row) ?acq" by (intro act_keeps_bind)
  have start: "seen runId no_row s" using fresh by (simp add: seen_def no_row_def row_view)
  obtain h s1 where a: "?acq s = (h, s1)" by (cases "?acq s")
  have s1: "seen runId no_row s1" by (rule act_keepsD[OF acq start a])
  show ?thesis
  proof (cases h)
    case (Inl e)
    then show ?thesis using run a s1 Inr by (auto simp: runDomainCoding_def seen_def no_row_def row_view)
  next
    case (Inr handle)
    obtain r s2 where l: "locked_run t opts policy runId (lh_lockId handle) s1 = (r, s2)"
      by (cases "locked_run t opts policy runId (lh_lockId handle) s1")
    have res: "res = r" and s': "fst (run_view runId s') = fst (run_view runId s2)"
      using run a l Inr pol by (auto simp: runDomainCoding_def swallow_def row_view on_locks_rows)
    have unlocked: "s'\<lparr>cs_locks := cs_locks s2\<rparr> = s2"
      using run a l Inr pol by (auto simp: runDomainCoding_def swallow_def on_locks_only)
    note ends = locked_ends[OF calm, where g = g]
    show ?thesis
    proof (cases r)
      case (Inl e)
      then have "given_up t runId (halted (rt_globs t) policy (honest_git g t) (lh_lockId handle)) (s'\<lparr>cs_locks := cs_locks s2\<rparr>)"
        unfolding unlocked using act_ends_Inl[OF ends s1] l by blast
      then show ?thesis using pol unfolding res Inl sum.case by blast
    next
      case (Inr b)
      then have "seen runId (concluded (rt_globs t) policy (honest_git g t) (lh_lockId handle) (rr_status b)) s2"
        using act_ends_Inr[OF ends s1] l by blast
      then show ?thesis unfolding res \<open>r = Inr b\<close> sum.case
        using pol s' by - (rule exI[of _ policy], rule exI[of _ "lh_lockId handle"], rule exI[of _ s2], simp)
    qed
  qed
qed

lemma given_up_open: "given_up t runId C s \<Longrightarrow> fst (run_view runId s) = Some (st, m) \<Longrightarrow> st \<in> OPEN_STATUSES \<or> st = R_needs_review
    \<Longrightarrow> rt_dbRefuses t ''forceFailFinalize'' s \<and> C (run_view runId s)"
  by (auto simp: given_up_def FORCE_TERMINAL_def OPEN_STATUSES_def)

lemma halted_review: "halted mm policy h lockId v \<Longrightarrow> fst v = Some (R_needs_review, m) \<Longrightarrow> concluded mm policy h lockId R_needs_review v"
  by (auto simp: halted_def open_row_def concluded_def OPEN_STATUSES_def)

lemma locks_row_view [simp]: "fst (run_view runId (s\<lparr>cs_locks := l\<rparr>)) = fst (run_view runId s)"
  by (simp add: run_view_def)

lemma row_in_view: "tbl_get cw_runId runId (cs_rows s) = Some row \<Longrightarrow> fst (run_view runId s) = Some (cw_status row, cw_meta row)"
  by (simp add: row_view)

text \<open>
  C22: no run is left in progress unless the database refuses the forced write. From a state without the row of the run, with
  tools and other processes that leave that row's status, metadata and lease alone (\<open>calm\<close>), a run that comes back leaves no row or a row in
  a final status: whatever git, the agent, the commands and the other writes of the database do, and even when the lease is lost. The one exception
  is named: the run throws, and the database has refused the last forced write, in the state in which the run ended up to the lock table.
  When the run returns a result, the row has the status of the result.
\<close>

theorem no_run_is_left_running:
  fixes t :: "'z coding_state_scheme run_tools"
  assumes "calm t runId" "tbl_get cw_runId runId (cs_rows s) = None"
    and "runDomainCoding t opts global repo runId recorded lease s = (res, s')"
  shows "(\<forall>row. tbl_get cw_runId runId (cs_rows s') = Some row \<longrightarrow> cw_status row \<notin> OPEN_STATUSES
      \<or> ((\<exists>e. res = Inl e) \<and> (\<exists>l. rt_dbRefuses t ''forceFailFinalize'' (s'\<lparr>cs_locks := l\<rparr>))))
    \<and> (\<forall>r. res = Inr r \<longrightarrow> map_option cw_status (tbl_get cw_runId runId (cs_rows s')) = Some (rr_status r))"
proof (cases res)
  case (Inl e)
  let ?g = "\<lparr>gr_changed = \<lambda>_ _ _ _. {}, gr_untracked = \<lambda>_ _ _. {}\<rparr>"
  have "rt_dbRefuses t ''forceFailFinalize'' (s'\<lparr>cs_locks := l\<rparr>)"
    if "tbl_get cw_runId runId (cs_rows s') = Some row" "cw_status row \<in> OPEN_STATUSES" "given_up t runId C (s'\<lparr>cs_locks := l\<rparr>)" for row l C
    using given_up_open[OF that(3)] row_in_view[OF that(1)] that(2) by simp
  then show ?thesis using run_ends[OF assms, of ?g] Inl by auto
next
  case (Inr r)
  let ?g = "\<lparr>gr_changed = \<lambda>_ _ _ _. {}, gr_untracked = \<lambda>_ _ _. {}\<rparr>"
  from Inr obtain lockId and s1 :: "'z coding_state_scheme" and policy where v: "fst (run_view runId s') = fst (run_view runId s1)"
    and c: "seen runId (concluded (rt_globs t) policy (honest_git ?g t) lockId (rr_status r)) s1"
    using run_ends[OF assms, of ?g] by auto
  have "map_option cw_status (tbl_get cw_runId runId (cs_rows s')) = Some (rr_status r) \<and> rr_status r \<notin> OPEN_STATUSES"
    using v c by (auto simp: seen_def concluded_def row_view)
  then show ?thesis using Inr by auto
qed

text \<open>
  C21: only work inside the write scope is offered for review. When the row of a run says \<open>needs_review\<close>, every path of its reviewed
  surface is one that the policies allow the domain to write, the safety verdict is \<open>allowed\<close>, and the change budget is not exceeded;
  also when the run has thrown and its failure could not be recorded.
\<close>

theorem only_allowed_work_needs_review:
  fixes t :: "'z coding_state_scheme run_tools"
  assumes "calm t runId" "honest_git g t" "tbl_get cw_runId runId (cs_rows s) = None"
    and "runDomainCoding t opts global repo runId recorded lease s = (res, s')"
    and "tbl_get cw_runId runId (cs_rows s') = Some row" "cw_status row = R_needs_review"
    and "map_of (rp_domains repo) (on_domain opts) = Some d"
  shows "\<exists>rx. mt_reviewed (cw_meta row) = Some rx \<and> (\<forall>p \<in> set (rx_paths rx). write_allowed (rt_globs t) global d p)
    \<and> mt_safetyStatus (cw_meta row) = Some Safety_allowed \<and> map_option bx_status (mt_changeBudget (cw_meta row)) \<noteq> Some Exceeded"
proof -
  note ends = run_ends[OF assms(1,3,4), where g = g]
  note v = row_in_view[OF assms(5)]
  show ?thesis
  proof (cases res)
    case (Inl e)
    then obtain policy l lockId where pol: "resolvePolicy global repo (on_domain opts) = Inr policy"
      and up: "given_up t runId (halted (rt_globs t) policy (honest_git g t) lockId) (s'\<lparr>cs_locks := l\<rparr>)"
      using ends assms(5) by auto
    have "fst (run_view runId (s'\<lparr>cs_locks := l\<rparr>)) = Some (R_needs_review, cw_meta row)" using v assms(6) by simp
    then have "concluded (rt_globs t) policy (honest_git g t) lockId R_needs_review (run_view runId (s'\<lparr>cs_locks := l\<rparr>))"
      using halted_review given_up_open[OF up] by blast
    then show ?thesis using v assms(2,6) path_violation_None[OF pol assms(7)] by (auto simp: concluded_def)
  next
    case (Inr r)
    then obtain policy lockId and s1 :: "'z coding_state_scheme" where pol: "resolvePolicy global repo (on_domain opts) = Inr policy"
      and "fst (run_view runId s') = fst (run_view runId s1)"
      and "seen runId (concluded (rt_globs t) policy (honest_git g t) lockId (rr_status r)) s1"
      using ends by auto
    then show ?thesis using v assms(2,6) path_violation_None[OF pol assms(7)] by (auto simp: seen_def concluded_def)
  qed
qed


section \<open>An example run\<close>

text \<open>An agent that leaves one new file \<open>docs/a\<close> in the worktree of a run whose domain may write below \<open>docs\<close>.\<close>

definition ex_run_git :: "string \<Rightarrow> string list \<Rightarrow> (coding_state, string, git_result) act" where
  "ex_run_git cwd args = act_return \<lparr>gr_stdout = (if take 1 args = [''ls-files''] then ''docs/a'' @ [CHR 0x00] else []),
     gr_stderr = [], gr_exitCode = 0, gr_timedOut = False\<rparr>"

definition ex_run_tools :: "coding_state run_tools" where
  "ex_run_tools = \<lparr>rt_tools = \<lparr>tl_git = ex_run_git, tl_probe = (\<lambda>_ _. act_return None) \<rparr>,
     rt_dbRefuses = (\<lambda>_ _. False), rt_globs = (\<lambda>p glob. take 5 p = take 5 glob), rt_sha = (\<lambda>_. ''fp''), rt_digest = (\<lambda>s. s), rt_errno = (\<lambda>_ _. ''error''),
     rt_export = (\<lambda>s. s), rt_gc = (\<lambda>s. s), rt_usage = (\<lambda>s. s), rt_open = act_return (), rt_policySnapshot = act_return (),
     rt_runDir = (\<lambda>_. act_return ()), rt_workspace = (\<lambda>_ _. act_return [''ws'']), rt_ruleSnapshot = act_return (),
     rt_codex = (\<lambda>_ _. act_return \<lparr>cx_exitCode = 0, cx_timedOut = False\<rparr>), rt_publishEvents = act_return None,
     rt_commands = (\<lambda>_ _. act_return []), rt_artifact = (\<lambda>_. act_return ()),
     rt_untrackedPatch = (\<lambda>_ _. act_return (''patch'', [])), rt_ingest = act_return (1, 1)\<rparr>"

definition ex_run_opts :: coding_opts where
  "ex_run_opts = \<lparr>on_repoPath = ''/repo'', on_repoId = ''repo'', on_domain = ''docs'', on_baseBranch = ''main'', on_prompt = (\<lambda>_. ''task''),
     on_projectRule = False, on_parentRunId = None, on_rootRunId = None, on_rerunAttempt = None, on_continueFrom = None,
     on_resolvedBaseSha = Some ''abcdef1'', on_continueFromSkipped = None, on_continuationParentRunId = None,
     on_changeBudgetOverride = None, on_branch = ''harness/run-1'', on_startedAt = ''then'', on_pid = 7, on_hostname = ''host''\<rparr>"

definition ex_global :: global_policy where
  "ex_global = \<lparr>gp_codex = None, gp_limits = None, gp_workspace = None, gp_alwaysDenyWrite = [''.env''], gp_ignoreUntracked = []\<rparr>"

definition ex_domain :: domain_policy where
  "ex_domain = \<lparr>dp_read = [], dp_write = [''docs/**''], dp_denyWrite = [], dp_commands = None, dp_changeBudget = Some \<lparr>bc_maxDeletedLines = Some 9, bc_maxTotalChangedLines = Some 9, bc_maxDeletedFiles = Some 9, bc_maxChangedFiles = Some 9, bc_enforce = None\<rparr>\<rparr>"

definition ex_repo :: repo_policy where
  "ex_repo = \<lparr>rp_repoId = ''repo'', rp_read = [], rp_domains = [(''docs'', ex_domain)]\<rparr>"

definition ex_run_start :: coding_state where
  "ex_run_start = \<lparr>fw_fs = [([''ws''], N_dir)], cs_locks = no_locks, cs_rows = [], cs_events = [], cs_changedFiles = [],
     cs_violations = [], cs_commandResults = [], cs_meta = start_meta ex_run_opts ''run-1'' ''abcdef1'', cs_now = 1000\<rparr>"

definition ex_run_policy :: "nat \<Rightarrow> nat \<Rightarrow> nat \<Rightarrow> resolved_policy" where
  "ex_run_policy commandMs codexMs gitMs = \<lparr>po_repoId = ''repo'', po_domain = ''docs'', po_read = [], po_write = [''docs/**''],
     po_denyWrite = [''.env''], po_allowedCommands = [], po_commandDefaults = \<lparr>rd_timeoutMs = commandMs, rd_envAllowlist = None\<rparr>,
     po_ignoreUntracked = [], po_codex = \<lparr>rx_sandbox = Sandbox_workspace_write, rx_approval = None, rx_timeoutMs = codexMs,
       rx_model = None, rx_backend = None, rx_claudeModel = None\<rparr>, po_gitTimeoutMs = gitMs,
     po_changeBudget = \<lparr>cb_maxDeletedLines = 9, cb_maxTotalChangedLines = 9, cb_maxDeletedFiles = 9, cb_maxChangedFiles = 9,
       cb_enforce = True\<rparr>, po_isolation = Iso_worktree\<rparr>"

lemma ex_run_policy: "resolvePolicy ex_global ex_repo ''docs''
   = Inr (ex_run_policy DEFAULT_COMMAND_TIMEOUT_MS DEFAULT_CODEX_TIMEOUT_MS DEFAULT_GIT_TIMEOUT_MS)"
  by (simp add: resolvePolicy_def ex_global_def ex_repo_def ex_domain_def ex_run_policy_def resolve_codex_def resolveChangeBudget_def
      resolveCommands_def or_else_def coalesce_def js_set_def DEFAULT_CHANGE_BUDGET_def)

lemma ex_run_calm: "calm ex_run_tools ''run-1''"
  by (simp add: calm_def calm_act_def ex_run_tools_def ex_run_git_def act_return_def)

text \<open>An operation that returns \<open>v\<close> from every state in which the lease is held, and keeps it held.\<close>

definition held_by :: "lock_db \<Rightarrow> coding_state \<Rightarrow> bool" where
  "held_by L s \<longleftrightarrow> cs_locks s = L \<and> cs_now s = 1000 \<and> tbl_has cw_runId ''run-1'' (cs_rows s)"

definition yields :: "lock_db \<Rightarrow> (coding_state, 'e, 'a) act \<Rightarrow> 'a \<Rightarrow> bool" where
  "yields L m v \<longleftrightarrow> (\<forall>s. held_by L s \<longrightarrow> (\<exists>s'. m s = (Inr v, s') \<and> held_by L s'))"

definition alive :: "lock_db \<Rightarrow> bool" where
  "alive L \<longleftrightarrow> assertActiveLease ''run-1'' 1000 L = (Inr (), L)"

named_theorems yields_rules

lemma yields_bind: "yields L m v \<Longrightarrow> yields L (f v) w \<Longrightarrow> yields L (act_bind m f) w"
  unfolding yields_def act_bind_def by (metis (no_types, lifting) old.prod.case sum.simps(6))

lemma yields_return [yields_rules]: "yields L (act_return v) v"
  by (simp add: yields_def act_return_def)

lemma yields_lease: "alive L \<Longrightarrow> yields L (check_lease ''run-1'') ()"
  by (simp add: yields_def check_lease_def held_by_def alive_def)

lemma yields_modify: "(\<And>s. held_by L s \<Longrightarrow> held_by L (f s)) \<Longrightarrow> yields L (act_modify f) ()"
  by (simp add: yields_def act_modify_def)

lemma yields_guard: "(\<And>s. held_by L s \<Longrightarrow> P s) \<Longrightarrow> yields L (act_guard P e) ()"
  by (simp add: yields_def act_guard_def)

lemma yields_accepts: "yields L (db_accepts ex_run_tools op) ()"
  unfolding db_accepts_def by (rule yields_guard) (simp add: ex_run_tools_def)

lemma yields_commit:
  assumes "alive L" "\<And>s. held_by L s \<Longrightarrow> held_by L (w s)"
  shows "yields L (commitThenExport ex_run_tools ''run-1'' w) ()"
  unfolding commitThenExport_def
  by (intro yields_bind[OF yields_lease] yields_bind[OF yields_accepts] yields_bind[OF yields_guard] yields_bind[OF yields_modify] yields_modify assms)
    (simp_all add: ex_run_tools_def held_by_def)

lemma held_by_writes [simp]:
  "held_by L (bumpRevision r s) = held_by L s" "held_by L (appendEvent r e s) = held_by L s"
  "held_by L (on_row r (updateRunRow m) s) = held_by L s"
  "held_by L (on_row r (\<lambda>r. r\<lparr>cw_promptSha256 := p\<rparr>) s) = held_by L s"
  "held_by L (writeCommandResults r cs s) = held_by L s" "held_by L (s\<lparr>cs_meta := m\<rparr>) = held_by L s"
  "held_by L (upsertViolations r vs s) = held_by L s" "held_by L (upsertChangedFiles r fs s) = held_by L s"
  by (simp_all add: held_by_def bumpRevision_def appendEvent_def on_row_def updateRunRow_def writeCommandResults_def upsertViolations_def
      upsertChangedFiles_def)

lemma yields_log [yields_rules]:
  assumes "alive L"
  shows "yields L (log_emit ex_run_tools ''run-1'' e) ()" "yields L (log_setStatus ex_run_tools ''run-1'' st) ()"
    "yields L (log_setSafetyStatus ex_run_tools ''run-1'' sa) ()" "yields L (log_setPromptSha256 ex_run_tools ''run-1'' sha) ()"
    "yields L (log_finalize ex_run_tools ''run-1'' p) ()"
  unfolding log_emit_def log_setStatus_def log_setSafetyStatus_def log_setPromptSha256_def log_finalize_def persist_def
  by (intro yields_bind[OF yields_modify] yields_commit assms; simp)+

lemma yields_ext [yields_rules]:
  "yields L (artifact ex_run_tools n) ()" "yields L (ext (rt_workspace ex_run_tools r b)) [''ws'']"
  "yields L (ext (rt_codex ex_run_tools wt p)) \<lparr>cx_exitCode = 0, cx_timedOut = False\<rparr>" "yields L (ext (rt_publishEvents ex_run_tools)) None"
  "yields L (act_modify (rt_gc ex_run_tools)) ()" "yields L (act_modify (rt_usage ex_run_tools)) ()"
  "yields L (ext (rt_untrackedPatch ex_run_tools wt ps)) (''patch'', [])" "yields L (snapshotReviewRuleForRun ex_run_tools opts) ()"
  by (simp_all add: yields_def ext_def artifact_def ex_run_tools_def act_return_def act_modify_def snapshotReviewRuleForRun_def)

definition ex_stat :: diff_stat where
  "ex_stat = \<lparr>ds_filesChanged = 0, ds_insertions = 0, ds_deletions = 0, ds_deletedFiles = 0\<rparr>"

definition ex_full_stat :: diff_stat where
  "ex_full_stat = ex_stat\<lparr>ds_filesChanged := 1\<rparr>"

definition ex_dv :: diff_and_validate where
  "ex_dv = \<lparr>dv_diff = \<lparr>do_error = None, do_trackedChangedPaths = [], do_stagedChangedPaths = [], do_untrackedAll = [''docs/a''],
       do_stat = Some ex_stat, do_patch = []\<rparr>, dv_untrackedKept = [''docs/a''], dv_untrackedIgnored = [], dv_violations = [],
     dv_safetyStatus = Safety_allowed, dv_budgetStat = Some ex_full_stat\<rparr>"

lemma ex_dv_simps [simp]: "do_ok (dv_diff ex_dv)" "do_error (dv_diff ex_dv) = None" "dv_budgetStat ex_dv = Some ex_full_stat"
  "dv_safetyStatus ex_dv = Safety_allowed" "do_trackedChangedPaths (dv_diff ex_dv) = []" "do_patch (dv_diff ex_dv) = []"
  "dv_untrackedKept ex_dv = [''docs/a'']" "dv_violations ex_dv = []" "dv_untrackedIgnored ex_dv = []"
  by (simp_all add: ex_dv_def do_ok_def)

lemma ex_collect: "collect ex_run_tools [''ws''] base (ex_run_policy a b c) s = (Inr ex_dv, s)"
  by code_simp

lemma yields_eq: "(\<And>s. m s = (Inr v, s)) \<Longrightarrow> yields L m v"
  by (simp add: yields_def)

definition ex_outcome :: budget_outcome where
  "ex_outcome = \<lparr>bx_status = Within, bx_disabled = False, bx_stage = Post_codex,
     bx_budget = po_changeBudget (ex_run_policy 0 0 0), bx_breaches = []\<rparr>"

definition ex_pa :: policy_artifacts where
  "ex_pa = \<lparr>pa_untrackedAllowed = [''docs/a''], pa_untrackedDenied = [], pa_secretSuspects = [], pa_policySalvage = None\<rparr>"

definition ex_reviewed :: reviewed_surface where
  "ex_reviewed = \<lparr>rx_paths = [''docs/a''], rx_fingerprint = ''fp'', rx_weakensTests = False\<rparr>"

definition ex_pass :: pass_result where
  "ex_pass = \<lparr>ps_dv = ex_dv, ps_budget = Some ex_outcome, ps_commandResults = [], ps_stage = Post_codex\<rparr>"

definition ex_result :: coding_result where
  "ex_result = \<lparr>rr_runId = ''run-1'', rr_status = R_needs_review, rr_safetyStatus = Safety_allowed, rr_ignoredUntrackedCount = 0,
     rr_secretSuspectCount = 0, rr_commandResults = []\<rparr>"

lemma ex_workspace: "alive L \<Longrightarrow> yields L (start_workspace ex_run_tools ''run-1'' base) [''ws'']"
  unfolding start_workspace_def by (rule yields_bind | rule yields_rules | assumption)+

lemma ex_agent: "alive L \<Longrightarrow> yields L (run_agent ex_run_tools ''run-1'' wt p) \<lparr>cx_exitCode = 0, cx_timedOut = False\<rparr>"
  unfolding run_agent_def
  by (rule yields_bind yields_rules | assumption | simp add: yields_rules)+

lemma ex_budget: "alive L \<Longrightarrow> yields L (evaluateChangeBudget ex_run_tools ''run-1''
    (applyChangeBudgetOverride (po_changeBudget (ex_run_policy a b c)) (on_changeBudgetOverride ex_run_opts)) ex_full_stat Post_codex) ex_outcome"
  unfolding evaluateChangeBudget_def
  by (simp add: ex_run_policy_def ex_run_opts_def applyChangeBudgetOverride_def ex_full_stat_def ex_stat_def normalizeDiffBudget_def budget_input_def
      validateDiffBudget_def breach_if_def or_else_def ex_outcome_def Let_def) (rule yields_bind yields_rules | assumption)+

lemma ex_first: "alive L \<Longrightarrow> yields L (validated_pass ex_run_tools ''run-1'' [''ws''] base (ex_run_policy a b c)
    (applyChangeBudgetOverride (po_changeBudget (ex_run_policy a b c)) (on_changeBudgetOverride ex_run_opts)) Post_codex None) (ex_dv, Some ex_outcome)"
  unfolding validated_pass_def
  by (rule yields_bind[OF yields_eq[OF ex_collect]], rule yields_bind[OF yields_log(1)], assumption, simp,
      rule yields_bind[OF ex_budget yields_return])

lemma ex_second: "yields L (command_pass ex_run_tools ''run-1'' wt base (ex_run_policy a b c) bu cx (ex_dv, Some ex_outcome)) ex_pass"
  by (simp add: command_pass_def may_run_commands_def ex_run_policy_def ex_pass_def yields_return)

lemma ex_normalize: "normalize_index ex_run_tools wt base ms s = (Inr (), s)"
  by (simp add: normalize_index_def normalizeWorktreeIndexToBase_def runResetStep_def)
    (simp add: ex_run_tools_def ex_run_git_def act_return_def)

lemma ex_view: "yields L (artifact_view ex_run_tools [''ws''] base (ex_run_policy a b c) ex_dv) ex_dv"
  by (rule yields_eq) (simp add: artifact_view_def act_bind_def ex_collect ex_normalize)

lemma ex_salvage: "yields L (buildPolicySalvage ex_run_tools wt base ms Safety_allowed tr vs ua ud patch) None"
  by (rule yields_eq) (simp add: buildPolicySalvage_def Let_def)

lemma ex_artifacts: "alive L \<Longrightarrow> yields L (writePolicyArtifacts ex_run_tools ''run-1'' wt base ms Safety_allowed [] [] [''docs/a'']) ex_pa"
  unfolding writePolicyArtifacts_def untracked_artifacts_def Let_def
  by (simp add: ex_pa_def) (rule yields_bind yields_rules ex_salvage | assumption | simp add: yields_return)+

lemma ex_review: "alive L \<Longrightarrow> yields L (reviewed_of ex_run_tools ''run-1'' wt ex_dv ex_pa st) (Some ex_reviewed)"
  unfolding reviewed_of_def Let_def
  by simp
     (rule yields_bind yields_rules yields_eq | assumption
      | simp add: act_bind_def act_get_def act_return_def ex_pa_def ex_reviewed_def computeReviewedFingerprint_def ex_run_tools_def detectsTestWeakening_def)+

lemma ex_ingest: "alive L \<Longrightarrow> yields L (ingest ex_run_tools ''run-1'') (Some (1, 1))"
  by (auto simp: yields_def ingest_def act_bind_def check_lease_def held_by_def alive_def ext_def ex_run_tools_def act_return_def)

lemma ex_store: "alive L \<Longrightarrow> yields L (store_verification ex_run_tools ''run-1'' ex_dv vs ex_pa st) ()"
  unfolding store_verification_def
  by (simp, intro yields_bind[OF yields_lease] yields_bind[OF yields_accepts] yields_bind[OF yields_guard] yields_bind[OF yields_modify] yields_modify)
    (simp_all add: changed_files_def ex_pa_def)

lemma yields_get: "(\<And>x. yields L (f x) v) \<Longrightarrow> yields L (act_bind (act_get g) f) v"
  by (simp add: yields_def act_bind_def act_get_def)

lemma ex_finish: "alive L \<Longrightarrow> yields L (finish_run ex_run_tools ''run-1'' \<lparr>cx_exitCode = 0, cx_timedOut = False\<rparr> ex_dv ex_dv ex_pa (Some ex_reviewed) ex_pass) ex_result"
  unfolding finish_run_def write_reports_def Let_def
  by (rule yields_bind[OF ex_ingest] yields_get yields_bind yields_rules | assumption
      | simp add: yields_return final_status_def ex_result_def ex_pa_def ex_pass_def ex_outcome_def yields_rules)+

lemma ex_inner: "alive L \<Longrightarrow> yields L (runDomainCodingInner ex_run_tools ex_run_opts (ex_run_policy a b c) ''run-1'' base) ex_result"
proof -
  assume L: "alive L"
  have cont: "yields L (continue_parent ex_run_tools ex_run_opts ''run-1'' base p wt) ()" for p wt
    by (simp add: continue_parent_def ex_run_opts_def yields_return)
  have art: "yields L (writePolicyArtifacts ex_run_tools ''run-1'' wt base ms (dv_safetyStatus (ps_dv ex_pass))
      (do_trackedChangedPaths (dv_diff ex_dv)) (dv_violations (ps_dv ex_pass)) (dv_untrackedKept ex_dv)) ex_pa" for wt ms
    using ex_artifacts[OF L] by (simp add: ex_pass_def)
  have view: "yields L (artifact_view ex_run_tools [''ws''] base (ex_run_policy a b c) (ps_dv ex_pass)) ex_dv"
    using ex_view by (simp add: ex_pass_def)
  have fin: "yields L (finish_run ex_run_tools ''run-1'' \<lparr>cx_exitCode = 0, cx_timedOut = False\<rparr> (ps_dv ex_pass) ex_dv ex_pa
      (Some ex_reviewed) ex_pass) ex_result"
    using ex_finish[OF L] by (simp add: ex_pass_def)
  show ?thesis unfolding runDomainCodingInner_def Let_def
    by (intro yields_bind[OF ex_workspace] yields_bind[OF cont] yields_bind[OF ex_agent] yields_bind[OF ex_first]
        yields_bind[OF ex_second] yields_bind[OF view] yields_bind[OF art] yields_bind[OF ex_review] yields_bind[OF ex_store] fin L)
qed

definition ex_call :: "(coding_error + lock_handle) \<times> coding_state" where
  "ex_call = on_locks (acquireDomainLock None (run_lock ex_run_opts ''run-1'') 1000 True) ex_run_start"

lemma ex_acquired: "map_sum (\<lambda>_. ()) lh_lockId (fst ex_call) = Inr 1" "cs_now (snd ex_call) = 1000" "cs_rows (snd ex_call) = []"
  by code_simp+

definition ex_opened :: coding_state where
  "ex_opened = snd (createDbRunLog ex_run_tools ''run-1'' (start_meta ex_run_opts ''run-1'' ''abcdef1'') 1 (snd ex_call))"

lemma ex_alive: "alive (cs_locks ex_opened)"
  by code_simp

lemma ex_log: "createDbRunLog ex_run_tools ''run-1'' (start_meta ex_run_opts ''run-1'' ''abcdef1'') 1 (snd ex_call) = (Inr (), ex_opened)"
  and ex_log_now: "cs_now ex_opened = 1000" "tbl_has cw_runId ''run-1'' (cs_rows ex_opened)"
  using ex_acquired(2,3) unfolding ex_opened_def
  by (simp_all add: createDbRunLog_def act_bind_def ext_def insertRunRow_def db_accepts_def act_guard_def act_modify_def tbl_has_def ex_run_tools_def
      act_return_def)

lemma ex_sha: "is_base_sha ''abcdef1''"
  by code_simp

lemma ex_no_child: "duplicate_gate ex_run_opts s = (Inr (), s)"
  by (simp add: duplicate_gate_def ex_run_opts_def coalesce_def)

lemma ex_base: "run_base ex_run_tools ex_run_opts s = (Inr ''abcdef1'', s)"
  using ex_sha by (simp add: run_base_def ex_run_opts_def act_return_def)

lemma ex_snap: "ext (rt_policySnapshot ex_run_tools) s = (Inr (), s)"
  by (simp add: ext_def ex_run_tools_def act_return_def)

lemma act_bind_done: "m s = (Inr x, s1) \<Longrightarrow> act_bind m f s = f x s1"
  by (simp add: act_bind_def)

lemma yields_seq: "yields L m u \<Longrightarrow> yields L n v \<Longrightarrow> yields L (act_bind m (\<lambda>_. n)) v"
  by (rule yields_bind)

lemma ex_held: "held_by (cs_locks ex_opened) ex_opened"
  by (simp only: held_by_def ex_log_now simp_thms)

lemma yieldsD: "yields L m v \<Longrightarrow> held_by L s \<Longrightarrow> \<exists>s'. m s = (Inr v, s')"
  unfolding yields_def by blast

lemma tracked_done:
  "act_bind (snapshotReviewRuleForRun t opts) (\<lambda>_. runDomainCodingInner t opts policy runId base) s = (Inr r, s')
     \<Longrightarrow> tracked_run t opts policy runId base lockId s = (Inr r, s')"
  by (simp add: tracked_run_def)

lemma ex_tracked: "\<exists>s'. tracked_run ex_run_tools ex_run_opts (ex_run_policy a b c) ''run-1'' ''abcdef1'' 1 ex_opened = (Inr ex_result, s')"
  by (rule exE[OF yieldsD[OF yields_seq[OF yields_ext(8) ex_inner[OF ex_alive]] ex_held]]) (rule exI, rule tracked_done)

lemma ex_log_bind: "act_bind (createDbRunLog ex_run_tools ''run-1'' (start_meta ex_run_opts ''run-1'' ''abcdef1'') 1) f (snd ex_call) = f () ex_opened"
  by (simp only: act_bind_def ex_log prod.case sum.case)

lemma ex_locked_run: "fst (locked_run ex_run_tools ex_run_opts (ex_run_policy a b c) ''run-1'' 1 (snd ex_call)) = Inr ex_result"
proof -
  obtain s' where "tracked_run ex_run_tools ex_run_opts (ex_run_policy a b c) ''run-1'' ''abcdef1'' 1 ex_opened = (Inr ex_result, s')"
    using ex_tracked by blast
  then show ?thesis
    unfolding locked_run_def act_bind_done[OF ex_no_child] act_bind_done[OF ex_base] act_bind_done[OF ex_snap] ex_log_bind
    by (rule arg_cong[where f = fst, THEN trans]) (rule fst_conv)
qed

definition ex_run :: "(coding_error + coding_result) \<times> coding_state" where
  "ex_run = runDomainCoding ex_run_tools ex_run_opts ex_global ex_repo ''run-1'' True None ex_run_start"

lemma ex_run_result: "fst ex_run = Inr ex_result"
proof -
  obtain h where h: "fst ex_call = Inr h" "lh_lockId h = 1" using ex_acquired(1) by (cases "fst ex_call") auto
  have call: "act_bind (ext (rt_open ex_run_tools)) (\<lambda>_. \<lambda>s1. on_locks (acquireDomainLock None (run_lock ex_run_opts ''run-1'') (cs_now s1) True) s1) ex_run_start
      = (Inr h, snd ex_call)"
    using h(1) by (simp add: act_bind_def ext_def prod_eq_iff) (simp add: ex_run_tools_def act_return_def ex_call_def ex_run_start_def)
  have dom: "on_domain ex_run_opts = ''docs''" by (simp add: ex_run_opts_def)
  show ?thesis
    unfolding ex_run_def runDomainCoding_def dom ex_run_policy sum.case call prod.case Let_def
    using ex_locked_run h(2) by (simp add: split_beta)
qed

lemma ex_run_honest: "honest_git \<lparr>gr_changed = \<lambda>_ _ _ _. {}, gr_untracked = \<lambda>_ _ _. {''docs/a''}\<rparr> ex_run_tools"
proof -
  have diff: "collectDiff (rt_tools ex_run_tools) wt base ms s = (Inr \<lparr>df_trackedChangedPaths = [], df_stagedChangedPaths = [],
      df_untrackedPaths = [''docs/a''], df_stat = ex_stat, df_patch = []\<rparr>, s)" for wt base ms s
    by code_simp
  show ?thesis
    by (simp add: honest_git_def diff changed_in_def untracked_in_def reads_same_def)
qed

lemma ex_run_fresh: "tbl_get cw_runId ''run-1'' (cs_rows ex_run_start) = None"
  by (simp add: ex_run_start_def)

lemma ex_run_eq: "runDomainCoding ex_run_tools ex_run_opts ex_global ex_repo ''run-1'' True None ex_run_start = (Inr ex_result, snd ex_run)"
  using ex_run_result by (simp add: ex_run_def prod_eq_iff)

theorem no_run_is_left_running_witness:
  "map_option cw_status (tbl_get cw_runId ''run-1'' (cs_rows (snd ex_run))) = Some R_needs_review"
  using no_run_is_left_running[OF ex_run_calm ex_run_fresh ex_run_eq] by (simp add: ex_result_def)


lemma ex_run_row:
  obtains row where "tbl_get cw_runId ''run-1'' (cs_rows (snd ex_run)) = Some row" "cw_status row = R_needs_review"
proof -
  let ?g = "\<lparr>gr_changed = \<lambda>_ _ _ _. {}, gr_untracked = \<lambda>_ _ _. {}\<rparr>"
  obtain lockId policy and s1 :: coding_state where v: "fst (run_view ''run-1'' (snd ex_run)) = fst (run_view ''run-1'' s1)"
    and c: "seen ''run-1'' (concluded (rt_globs ex_run_tools) policy (honest_git ?g ex_run_tools) lockId (rr_status ex_result)) s1"
    using run_ends[OF ex_run_calm ex_run_fresh ex_run_eq, of ?g] by auto
  from c have "map_option fst (fst (run_view ''run-1'' s1)) = Some R_needs_review"
    by (auto simp: seen_def concluded_def ex_result_def)
  with v show ?thesis using that by (auto simp: row_view)
qed

theorem only_allowed_work_needs_review_witness:
  "\<exists>row rx. tbl_get cw_runId ''run-1'' (cs_rows (snd ex_run)) = Some row \<and> cw_status row = R_needs_review
     \<and> mt_reviewed (cw_meta row) = Some rx \<and> list_all (write_allowed (rt_globs ex_run_tools) ex_global ex_domain) (rx_paths rx)"
proof (rule ex_run_row)
  fix row assume row: "tbl_get cw_runId ''run-1'' (cs_rows (snd ex_run)) = Some row" "cw_status row = R_needs_review"
  have "map_of (rp_domains ex_repo) (on_domain ex_run_opts) = Some ex_domain" by (simp add: ex_repo_def ex_run_opts_def)
  from only_allowed_work_needs_review[OF ex_run_calm ex_run_honest ex_run_fresh ex_run_eq row this] row
  show ?thesis by (auto simp: list_all_iff)
qed

text \<open>
  The guard of \<open>forceFailFinalize\<close> against a row that has already ended does not know \<open>needs_review\<close>, \<open>failed-codex\<close> and
  \<open>failed-diff-collection\<close>: unless the database refuses the write, such a row is flipped, for instance when the run's last event cannot be written.
\<close>

lemma ended_run_flipped:
  assumes "tbl_get cw_runId runId (cs_rows s) = Some row" "cw_status row \<in> {R_needs_review, R_failed_codex, R_failed_diff_collection}"
    and "\<not> rt_dbRefuses t ''forceFailFinalize'' s"
  shows "map_option cw_status (tbl_get cw_runId runId (cs_rows (snd (forceFailFinalize t runId stamp leaseLost None s)))) = Some R_failed_internal_error"
proof -
  have open_row: "cw_status row \<notin> FORCE_TERMINAL" using assms(2) by (auto simp: FORCE_TERMINAL_def)
  show ?thesis using assms(1,3) open_row
    by (simp add: forceFailFinalize_def act_bind_def db_accepts_def act_guard_def act_modify_def appendEvent_def on_row_def tbl_get_update_same)
qed

end
