(* ===== verification/Spec2Isabelle.thy ===== *)
theory Spec2Isabelle
  imports Close_Runner Domain_Lock Classification Await_Merge Pr_Creator Coding_Run
begin

text \<open>
  A verification library of the harness: the deterministic control plane that drives coding agents
  through hitches (units of work), decides when a hitch may close, and guards every state change. Paths are
  below \<open>src/src\<close>.

  \<^bold>\<open>How the program works.\<close> An operator opens a hitch with a scope, close conditions and budgets. The orchestrator
  loops: it asks the convergence controller what to do next, runs an agent in a worktree of its own (a coding
  run), has the run reviewed, classifies the findings, and evaluates again, until the controller reports that the hitch
  may close or that a human is needed. Closing pushes the reviewed branch, opens a pull request, and merges it when the
  merge gate allows. All state is in one SQLite database; processes that work on one domain exclude each other by a lease.

  \<^bold>\<open>Shared ground.\<close> \<open>Harness_Prelude\<close>: tables as lists with the primary key first (\<open>tbl_get\<close>, \<open>tbl_update\<close>), operations as
  functions from a state to an error or a value and a state (\<open>act\<close>; a transaction is \<open>act_atomically\<close>), rules that lift
  invariants over them (\<open>act_keeps\<close>), and two interfaces as locales: step machines with an invariant, and operators that merge
  verdicts by rank. \<open>Js_Values\<close>, \<open>Text_Match\<close> and \<open>Regex_Match\<close>: the doubles, dates, JSON, text functions and regular
  expressions of JavaScript as far as the code uses them.

  \<^bold>\<open>Hitches.\<close> \<open>Hitch_Types\<close>: the data (\<open>hitch/types.ts\<close>). \<open>Hitch_Store\<close> and \<open>Findings\<close>: the repositories
  (\<open>hitch/repositories\<close>, \<open>hitch/schemas.ts\<close>) over one record of tables. \<open>Facet_Coverage\<close>, \<open>Close_Checks\<close>, \<open>Spec_Gates\<close>,
  \<open>Classification\<close>, \<open>Near_Duplicate\<close>: the pure evaluators of the files of these names. \<open>Convergence\<close>: the
  controller (\<open>convergence.ts\<close>, \<open>convergence-metrics.ts\<close>). \<open>Convergence_Status\<close>: what follows a decision (status, mutation gate,
  dispatch). \<open>Control_Plane\<close>: every repository call as a step of one machine. \<open>Orchestrator\<close>: the drive loop.
  The lemmas say when the gates open (and only then), that the stored status follows the decisions, that the ledgers only grow, and
  that a drive ends within its steps with an outcome that is true of the hitch it leaves.

  \<^bold>\<open>Reviews.\<close> \<open>Review_Rule\<close>: the compiler of review rules, their canonical JSON and its fail-closed reader
  (\<open>core/review-rule*.ts\<close>). \<open>Review_Consensus\<close>: the consensus (\<open>core/review-consensus.ts\<close>), refined from a reference verdict on
  multisets (a rule in latest-proposal mode from the first of the newest proposals). \<open>Review_Store\<close>: the review tables and the ingestion of
  external reviews; the direct append below it, which does not redact, is a step of its own.

  \<^bold>\<open>Runs.\<close> \<open>Path_Policy\<close>: what a domain may write, and the change budget (\<open>policy\<close>). \<open>Git_Diff\<close>: what a run changed
  (\<open>git/diff.ts\<close>, \<open>core/workflow-runner-diff.ts\<close>). \<open>Work_Tree\<close>: a file system with symbolic links and the copying of a parent
  run's work into it. \<open>Domain_Lock\<close>: the leases (\<open>workspace/db-domain-lock.ts\<close>). \<open>Coding_Run\<close>: a run from the lock to the release, with
  its log and its failure path (\<open>core/workflow-runner*.ts\<close>, \<open>core/policy-salvage.ts\<close>, \<open>db/run-log-db.ts\<close>). \<open>Secret_Scan\<close>: the
  secret heuristics and the redacting stream. The lemmas say that only work inside the write scope is offered for review, that no
  run that comes back is left in progress unless the database refuses the forced write at the end of its failure path, that
  copied work stays in its worktree, and that two holders of a lease are never both admitted, the release of expired
  leases by the database doctor (\<open>db/repair.ts\<close>) included.

  \<^bold>\<open>Closing.\<close> \<open>Pr_Creator\<close>: both pushes of a reviewed branch and the record of the pull request (\<open>core/pr-creator.ts\<close>,
  \<open>core/reviewed-branch-push.ts\<close>). \<open>Merge_Gate\<close>: the gate, the tiers of paths, the detector of weakened tests. \<open>Close_Push\<close>: the
  classification of failed pushes and their bounded retry. \<open>Close_Runner\<close>: \<open>closeAndPr\<close> with the automatic merge
  (\<open>hitch/orchestrator-runners*.ts\<close>). \<open>Await_Merge\<close>: the polling loop. \<open>Operations_Ledger\<close>: the idempotent runner of operations.
  The lemmas say that nothing is pushed but a reviewed commit, that nothing is merged outside the gate, that what a close reports is
  what the store holds, and that a repeated operation does its work once.
\<close>

text \<open>
  \<^bold>\<open>How the state is modelled.\<close> A component's tables are fields of a record and its operations return an error or a
  value with the new record. Code that calls git, an agent, a reviewer, the GitHub CLI, a clock or a hash takes it as an
  argument: a function on the whole state, so that other processes may act meanwhile. What such a function must respect is a
  named hypothesis of the property that needs it (\<open>documented_git\<close>, \<open>git_spares\<close>, \<open>honest_git\<close>, \<open>calm\<close>), and a witness
  shows a concrete function that satisfies it. A transaction of a run may also be refused by the database (\<open>rt_dbRefuses\<close>).

  \<^bold>\<open>Bounds and fuel.\<close> Loops are structural recursions over lists, over the remaining steps of a drive, the remaining
  characters or path components. Following links takes the fuel of the operating system's limit on links. The
  runners that may not return are options of a result; \<open>await_merge_returns\<close> gives the number of polls that is enough.
  Counts are natural numbers or exact integers: below \<open>2^53\<close> doubles are exact; where a division or a comparison with NaN matters,
  \<open>Js_Values\<close> has the doubles.

  \<^bold>\<open>Not modelled.\<close> The command line, the dashboard, the MCP server, onboarding and the telemetry parse arguments, render
  rows or describe tools over the operations above. The migrations, the import and export of files, backups and the
  rest of the database doctor are SQL text and file formats. The roadmap (courses and phases above hitches), the classification jury, the
  knowledge base, project profiles, releases and the agent wrappers are components of their own that the modelled part
  uses as arguments or not at all. Of modelled components, texts for humans, measured durations, progress events and warnings
  on standard error are left out, and text is taken to be ASCII where the code lower-cases or trims it.
\<close>

end
